(* ===== verification/Prelude.thy ===== *)
theory Prelude
  imports Main "HOL-Library.Multiset" "HOL-Library.Word" "HOL-Library.Signed_Division"
begin

text \<open>
  Shared vocabulary of the development: the status values that every fallible routine of
  the plugin returns (\<open>absl::StatusOr\<close>, \<open>LOG(FATAL)\<close>, a C++ exception, or undefined
  behaviour), the combinators that thread them, decimal printing as \<open>absl::StrCat\<close> does
  it, narrowing of integers to 32 bits, and list lemmas used by several components.
\<close>

named_theorems statusor "equations and splitting facts for the status combinators"
named_theorems frame "what an operation leaves unchanged"

section \<open>Status values\<close>

text \<open>
  The first four constructors are the error statuses the code returns, with their message.
  \<open>Fatal\<close> is a failed \<open>CHECK\<close> or a \<open>LOG(FATAL)\<close> (the process aborts), \<open>Throws\<close> a C++
  exception, and \<open>Undefined\<close> a run whose behaviour C++ does not define (a subscript out of
  range, a null dereference, a division by zero).
\<close>

datatype status =
    InvalidArgument string
  | InternalError string
  | Unimplemented string
  | OutOfRange string
  | Fatal string
  | Throws string
  | Undefined string

type_synonym 'a statusor = "status + 'a"

text \<open>\<open>TF_ASSIGN_OR_RETURN\<close>: continue with the value, or return the error.\<close>

definition bindR :: "'a statusor \<Rightarrow> ('a \<Rightarrow> 'b statusor) \<Rightarrow> 'b statusor" where
  "bindR m f = (case m of Inl e \<Rightarrow> Inl e | Inr x \<Rightarrow> f x)"

lemma bindR_simps [simp, statusor]:
  "bindR (Inr x) f = f x"
  "bindR (Inl e) f = Inl e"
  by (simp_all add: bindR_def)

lemma bindR_Inr_iff [statusor]:
  "bindR m f = Inr y \<longleftrightarrow> (\<exists>x. m = Inr x \<and> f x = Inr y)"
  by (cases m) (auto simp: bindR_def)

lemma bindR_InrE [elim]:
  assumes "bindR m f = Inr y"
  obtains x where "m = Inr x" and "f x = Inr y"
  using assms by (auto simp: bindR_Inr_iff)

lemma bindR_cong [fundef_cong]:
  "m = m' \<Longrightarrow> (\<And>x. m' = Inr x \<Longrightarrow> f x = f' x) \<Longrightarrow> bindR m f = bindR m' f'"
  by (cases m') (auto simp: bindR_def)

text \<open>A loop whose body may return early with an error.\<close>

fun foldR :: "('s \<Rightarrow> 'a \<Rightarrow> 's statusor) \<Rightarrow> 's \<Rightarrow> 'a list \<Rightarrow> 's statusor" where
  "foldR f s [] = Inr s"
| "foldR f s (x # xs) = bindR (f s x) (\<lambda>s'. foldR f s' xs)"

fun mapR :: "('a \<Rightarrow> 'b statusor) \<Rightarrow> 'a list \<Rightarrow> 'b list statusor" where
  "mapR f [] = Inr []"
| "mapR f (x # xs) = bindR (f x) (\<lambda>y. bindR (mapR f xs) (\<lambda>ys. Inr (y # ys)))"

lemma foldR_append [statusor]:
  "foldR f s (xs @ ys) = bindR (foldR f s xs) (\<lambda>t. foldR f t ys)"
  by (induction xs arbitrary: s) (auto simp: bindR_def split: sum.splits)

lemma foldR_invariant:
  assumes "foldR f s xs = Inr t" and "P s"
    and "\<And>s x s'. x \<in> set xs \<Longrightarrow> P s \<Longrightarrow> f s x = Inr s' \<Longrightarrow> P s'"
  shows "P t"
  using assms
proof (induction xs arbitrary: s)
  case Nil
  then show ?case by simp
next
  case (Cons x xs)
  then obtain s' where "f s x = Inr s'" and "foldR f s' xs = Inr t"
    by (auto simp: bindR_Inr_iff)
  moreover have "P s'"
    using Cons.prems \<open>f s x = Inr s'\<close> by auto
  ultimately show ?case
    using Cons.IH Cons.prems(3) by auto
qed

lemma foldR_total:
  assumes "P s" and "\<And>s x. x \<in> set xs \<Longrightarrow> P s \<Longrightarrow> \<exists>s'. f s x = Inr s' \<and> P s'"
  shows "\<exists>t. foldR f s xs = Inr t \<and> P t"
  using assms
proof (induction xs arbitrary: s)
  case Nil
  then show ?case by simp
next
  case (Cons x xs)
  obtain s' where "f s x = Inr s'" and "P s'"
    using Cons.prems by (meson list.set_intros(1))
  moreover obtain t where "foldR f s' xs = Inr t" and "P t"
    using Cons.IH[OF \<open>P s'\<close>] Cons.prems(2) by (meson list.set_intros(2))
  ultimately show ?case by auto
qed

lemma foldR_failure:
  assumes "foldR f s xs = Inl e" and "P s"
    and "\<And>s x s'. x \<in> set xs \<Longrightarrow> P s \<Longrightarrow> f s x = Inr s' \<Longrightarrow> P s'"
  shows "\<exists>s' x. x \<in> set xs \<and> P s' \<and> f s' x = Inl e"
  using assms
proof (induction xs arbitrary: s)
  case (Cons x xs)
  show ?case
  proof (cases "f s x")
    case (Inl e')
    then show ?thesis using Cons.prems by auto
  next
    case (Inr s')
    then have "P s'" and "foldR f s' xs = Inl e" using Cons.prems by auto
    then show ?thesis using Cons.IH Cons.prems(3) by (meson list.set_intros(2))
  qed
qed simp

lemma foldR_cong [fundef_cong]:
  "xs = ys \<Longrightarrow> s = t \<Longrightarrow> (\<And>u x. x \<in> set ys \<Longrightarrow> f u x = g u x) \<Longrightarrow> foldR f s xs = foldR g t ys"
  by (induction ys arbitrary: xs s t) (auto intro!: bindR_cong)

lemma foldR_Inr_fold [statusor]: "foldR (\<lambda>s x. Inr (f s x)) s xs = Inr (foldl f s xs)"
  by (induction xs arbitrary: s) auto

lemma foldR_map: "foldR f s (map g xs) = foldR (\<lambda>s x. f s (g x)) s xs"
  by (induction xs arbitrary: s) (auto intro!: bindR_cong)

lemma mapR_cong [fundef_cong]:
  "xs = ys \<Longrightarrow> (\<And>x. x \<in> set ys \<Longrightarrow> f x = g x) \<Longrightarrow> mapR f xs = mapR g ys"
  by (induction ys arbitrary: xs) (auto intro!: bindR_cong)

lemma mapR_Inr_iff [statusor]:
  "mapR f xs = Inr ys \<longleftrightarrow> list_all2 (\<lambda>x y. f x = Inr y) xs ys"
  by (induction xs arbitrary: ys) (auto simp: bindR_Inr_iff list_all2_Cons1)

lemma mapR_Inr_map [statusor]: "mapR (\<lambda>x. Inr (f x)) xs = Inr (map f xs)"
  by (induction xs) auto

lemma mapR_all_Inr:
  "(\<And>x. x \<in> set xs \<Longrightarrow> f x = Inr (g x)) \<Longrightarrow> mapR f xs = Inr (map g xs)"
  by (induction xs) auto

text \<open>A subscript \<open>xs[i]\<close>: undefined outside the vector.\<close>

definition subR :: "'a list \<Rightarrow> nat \<Rightarrow> 'a statusor" where
  "subR xs i = (if i < length xs then Inr (xs ! i) else Inl (Undefined ''subscript''))"

definition subZ :: "'a list \<Rightarrow> int \<Rightarrow> 'a statusor" where
  "subZ xs i = (if 0 \<le> i then subR xs (nat i) else Inl (Undefined ''subscript''))"

lemma subR_simps [simp]:
  "i < length xs \<Longrightarrow> subR xs i = Inr (xs ! i)"
  "length xs \<le> i \<Longrightarrow> subR xs i = Inl (Undefined ''subscript'')"
  by (simp_all add: subR_def)

lemma subR_Inr_iff [statusor]: "subR xs i = Inr x \<longleftrightarrow> i < length xs \<and> xs ! i = x"
  by (auto simp: subR_def)

lemma subZ_Inr_iff [statusor]:
  "subZ xs i = Inr x \<longleftrightarrow> 0 \<le> i \<and> nat i < length xs \<and> xs ! nat i = x"
  by (auto simp: subZ_def subR_def)

lemma subZ_nonneg [simp]: "subZ xs (int i) = subR xs i"
  by (simp add: subZ_def)

section \<open>Decimal text\<close>

text \<open>\<open>absl::StrCat\<close> on an integer.\<close>

definition digit_char :: "nat \<Rightarrow> char" where
  "digit_char d = char_of (48 + d)"

fun show_nat :: "nat \<Rightarrow> string" where
  "show_nat n = (if n < 10 then [digit_char n] else show_nat (n div 10) @ [digit_char (n mod 10)])"

declare show_nat.simps [simp del]

definition show_int :: "int \<Rightarrow> string" where
  "show_int i = (if i < 0 then CHR ''-'' # show_nat (nat (- i)) else show_nat (nat i))"

definition read_nat :: "string \<Rightarrow> nat" where
  "read_nat s = foldl (\<lambda>n c. 10 * n + (of_char c - 48)) 0 s"

lemma of_char_digit: "d < 10 \<Longrightarrow> of_char (digit_char d) = 48 + d"
  by (simp add: digit_char_def)

lemma read_show_nat [simp]: "read_nat (show_nat n) = n"
proof (induction n rule: show_nat.induct)
  case (1 n)
  show ?case
  proof (cases "n < 10")
    case True
    then show ?thesis
      by (subst show_nat.simps) (simp add: read_nat_def of_char_digit)
  next
    case False
    with "1.IH" have "read_nat (show_nat (n div 10)) = n div 10" by simp
    with False show ?thesis
      by (subst show_nat.simps) (simp add: read_nat_def of_char_digit)
  qed
qed

lemma show_nat_inject [simp]: "show_nat m = show_nat n \<longleftrightarrow> m = n"
  by (metis read_show_nat)

lemma show_nat_digits: "c \<in> set (show_nat n) \<Longrightarrow> 48 \<le> (of_char c :: nat) \<and> (of_char c :: nat) < 58"
proof (induction n rule: show_nat.induct)
  case (1 n)
  then show ?case
    by (subst (asm) show_nat.simps) (auto simp: of_char_digit split: if_splits)
qed

lemma show_nat_no_dot [simp]: "CHR ''.'' \<notin> set (show_nat n)"
  using show_nat_digits[of "CHR ''.''" n] by auto

section \<open>Text search\<close>

text \<open>\<open>absl::StartsWith\<close> and \<open>absl::StrContains\<close>.\<close>

definition starts_with :: "string \<Rightarrow> string \<Rightarrow> bool" where
  "starts_with s p \<longleftrightarrow> take (length p) s = p"

fun str_contains :: "string \<Rightarrow> string \<Rightarrow> bool" where
  "str_contains [] p \<longleftrightarrow> p = []"
| "str_contains (c # s) p \<longleftrightarrow> starts_with (c # s) p \<or> str_contains s p"

lemma starts_with_iff: "starts_with s p \<longleftrightarrow> (\<exists>t. s = p @ t)"
  by (auto simp: starts_with_def) (metis append_take_drop_id)

lemma str_contains_iff: "str_contains s p \<longleftrightarrow> (\<exists>a b. s = a @ p @ b)"
proof (induction s)
  case Nil
  then show ?case by auto
next
  case (Cons c s)
  then show ?case
    by (auto simp: starts_with_iff) (metis Cons_eq_append_conv append_Nil)+
qed

text \<open>The text after the last dot of a name determines a numeric suffix.\<close>

lemma dot_suffix_inject:
  assumes "a @ ''.'' @ x = b @ ''.'' @ y" and "CHR ''.'' \<notin> set x" and "CHR ''.'' \<notin> set y"
  shows "a = b \<and> x = y"
proof -
  have take: "takeWhile (\<lambda>c. c \<noteq> CHR ''.'') (rev (u @ ''.'' @ z)) = rev z"
    if "CHR ''.'' \<notin> set z" for u z
  proof -
    have "takeWhile (\<lambda>c. c \<noteq> CHR ''.'') (rev z @ CHR ''.'' # rev u) = rev z"
      using that by (subst takeWhile_append2) auto
    then show ?thesis by simp
  qed
  have "rev x = rev y"
    using take[OF assms(2), of a] take[OF assms(3), of b] assms(1) by metis
  then have "x = y" by simp
  with assms(1) show ?thesis by simp
qed

section \<open>Machine integers\<close>

text \<open>
  \<open>int64_t\<close> quantities are unbounded integers in this development. Where the source stores
  one in a 32-bit \<open>int\<close>, the conversion is modular, as \<open>narrow32\<close>.
\<close>

definition narrow32 :: "int \<Rightarrow> int" where
  "narrow32 i = sint (of_int i :: 32 word)"

lemma narrow32_id: "- (2 ^ 31) \<le> i \<Longrightarrow> i < 2 ^ 31 \<Longrightarrow> narrow32 i = i"
  by (simp add: narrow32_def sint_sbintrunc' signed_take_bit_int_eq_self)

lemma narrow32_range: "- (2 ^ 31) \<le> narrow32 i \<and> narrow32 i < 2 ^ 31"
  unfolding narrow32_def using sint_range_size[of "of_int i :: 32 word"] by (simp add: word_size)

text \<open>C++ division and remainder on non-negative operands.\<close>

lemma sdiv_nonneg: "0 \<le> (a::int) \<Longrightarrow> 0 < b \<Longrightarrow> a sdiv b = a div b"
  by (auto simp: signed_divide_int_def sgn_if)

lemma smod_nonneg: "0 \<le> (a::int) \<Longrightarrow> 0 < b \<Longrightarrow> a smod b = a mod b"
  by (cases "a = 0") (auto simp: signed_modulo_int_def sdiv_nonneg minus_div_mult_eq_mod)

section \<open>Lists\<close>

definition prod_list_int :: "int list \<Rightarrow> int" where
  "prod_list_int xs = foldl (*) 1 xs"

lemma foldl_times: "foldl (*) (a :: int) xs = a * prod_list xs"
  by (induction xs arbitrary: a) (auto simp: algebra_simps)

lemma prod_list_int_eq: "prod_list_int xs = prod_list xs"
  by (simp add: prod_list_int_def foldl_times)

lemma prod_list_pos: "\<forall>x \<in> set xs. 0 < (x::int) \<Longrightarrow> 0 < prod_list xs"
  by (induction xs) auto

lemma prod_list_replicate_pos: "(\<And>x. x \<in> set xs \<Longrightarrow> 1 \<le> (x::int)) \<Longrightarrow> 1 \<le> prod_list xs"
  using prod_list_pos[of xs] by force

lemma mset_concat_perm: "mset xss = mset yss \<Longrightarrow> mset (concat xss) = mset (concat yss)"
  by (simp add: mset_concat sum_mset_sum_list[symmetric])

lemma prod_list_perm: "mset xs = mset ys \<Longrightarrow> prod_list xs = prod_list (ys :: int list)"
  by (metis prod_mset_prod_list)

lemma mset_map_nth_perm:
  assumes "mset is = mset [0..<length xs]"
  shows "mset (map ((!) xs) is) = mset xs"
proof -
  have "mset (map ((!) xs) is) = image_mset ((!) xs) (mset is)" by simp
  also have "\<dots> = mset (map ((!) xs) [0..<length xs])" unfolding assms by simp
  finally show ?thesis by (simp only: map_nth)
qed

lemma index_permutation:
  assumes "mset xs = mset [0..<n]"
  shows "distinct xs" and "set xs = {..<n}" and "length xs = n"
proof -
  show "distinct xs" using mset_eq_imp_distinct_iff[OF assms] by simp
  have "set_mset (mset xs) = set_mset (mset [0..<n])" using assms by simp
  then show "set xs = {..<n}" by (simp only: set_mset_mset set_upt atLeast0LessThan)
  have "size (mset xs) = size (mset [0..<n])" using assms by simp
  then show "length xs = n" by (simp only: size_mset length_upt minus_nat.diff_0)
qed

lemma mset_eq_of_distinct_set:
  "distinct xs \<Longrightarrow> distinct ys \<Longrightarrow> set xs = set ys \<Longrightarrow> mset xs = mset ys"
  using set_eq_iff_mset_eq_distinct by blast

end
