(* ===== verification/Hlo.thy ===== *)
theory Hlo
  imports Prelude
begin

text \<open>
  The data the plugin reads from and writes to the XLA and zuku libraries. Those libraries
  are not part of the repository, so their objects appear here as plain data: each field
  holds what the accessor of the same name returns, and nothing is assumed about how the
  library computes it. What the plugin relies on is stated as named predicates
  (\<open>wf_tile_assignment\<close>, \<open>wf_computation\<close>, \<open>acyclic_calls\<close>), which appear as hypotheses
  where a theorem needs them.

  Instructions and computations are pointers in the source; here they are numbers that
  index the module's \<open>m_instr\<close> and \<open>m_comp\<close>. The passes modelled in this development
  rewrite frontend attributes and shardings only, so the graph itself
  (\<open>MakeInstructionPostOrder\<close>, operands, users, called computations) is fixed data.
\<close>

section \<open>Device lists\<close>

record device_list =
  dl_start :: int
  dl_num_devices :: int

abbreviation dl_size :: "device_list \<Rightarrow> int" where
  "dl_size \<equiv> dl_num_devices"

definition dl_create :: "int \<Rightarrow> int \<Rightarrow> device_list" where
  "dl_create s n = \<lparr>dl_start = s, dl_num_devices = n\<rparr>"

lemma dl_create_sel [simp]: "dl_start (dl_create s n) = s" "dl_size (dl_create s n) = n"
  by (simp_all add: dl_create_def)

lemma dl_create_inject [simp]: "dl_create s n = dl_create s' n' \<longleftrightarrow> s = s' \<and> n = n'"
  by (simp add: dl_create_def)

section \<open>Shapes and shardings\<close>

datatype primitive_type =
    PRED | F16 | BF16 | F32 | F64 | S8 | S16 | S32 | S64 | U8 | U16 | U32 | U64 | C64 | C128
  | TUPLE | OtherType string

datatype shape = Shape (element_type: primitive_type) (dimensions: "int list")
  (tuple_shapes: "shape list")

definition IsTupleShape :: "shape \<Rightarrow> bool" where
  "IsTupleShape s \<longleftrightarrow> element_type s = TUPLE"

record iota_tile =
  iota_reshape_dims :: "int list"
  iota_transpose_perm :: "nat list"
  iota_offset :: int
  iota_num_elements :: int

record tile_assignment =
  ta_dims :: "int list"
  ta_iota :: "iota_tile option"
  ta_array :: "int list"
  ta_first :: int
  ta_num_elements :: int

datatype hlo_sharding = HloSharding
  (IsReplicated: bool) (IsTileMaximal: bool) (IsManual: bool) (IsTupleSharding: bool)
  (ReplicateOnLastTileDim: bool) (tile_assignment_of: tile_assignment)
  (tuple_elements: "hlo_sharding list")

text \<open>What a tile assignment of the library satisfies.\<close>

definition wf_tile_assignment :: "tile_assignment \<Rightarrow> bool" where
  "wf_tile_assignment ta \<longleftrightarrow>
     ta_dims ta \<noteq> [] \<and> (\<forall>d \<in> set (ta_dims ta). 0 < d) \<and>
     ta_num_elements ta = prod_list (ta_dims ta) \<and>
     int (length (ta_array ta)) = ta_num_elements ta \<and>
     (ta_array ta \<noteq> [] \<longrightarrow> ta_first ta = hd (ta_array ta)) \<and>
     (case ta_iota ta of None \<Rightarrow> True
      | Some io \<Rightarrow> iota_num_elements io = ta_num_elements ta \<and>
          prod_list (iota_reshape_dims io) = ta_num_elements ta \<and>
          length (iota_transpose_perm io) = length (iota_reshape_dims io) \<and>
          distinct (iota_transpose_perm io) \<and>
          set (iota_transpose_perm io) = {..<length (iota_reshape_dims io)} \<and>
          (\<forall>d \<in> set (iota_reshape_dims io). 0 < d))"

text \<open>The protocol buffer \<open>OpSharding\<close>.\<close>

datatype op_sharding_type = OS_REPLICATED | OS_MAXIMAL | OS_TUPLE | OS_OTHER | OS_MANUAL

datatype op_sharding = OpSharding
  (os_type: op_sharding_type)
  (os_tile_assignment_dimensions: "int list")
  (os_tile_assignment_devices: "int list")
  (os_iota_reshape_dims: "int list")
  (os_iota_transpose_perm: "nat list")
  (os_iota_offset: int)
  (os_replicate_on_last_tile_dim: bool)
  (os_tuple_shardings: "op_sharding list")

definition op_sharding_default :: op_sharding where
  "op_sharding_default = OpSharding OS_REPLICATED [] [] [] [] 0 False []"

section \<open>Instructions, computations, modules\<close>

datatype hlo_opcode =
    kParameter | kConstant | kTuple | kGetTupleElement | kCall | kWhile | kCustomCall
  | kOptimizationBarrier | kAdd | kReduce | kTranspose | kReshape | kConvert | kBitcast
  | kMultiply | kDivide | kOr | kSubtract | kSelect | kAnd | kSin | kCos | kExp | kCeil
  | kRngBitGenerator | kAllReduce | kDot | kDynamicSlice | kIota | kCopy | kLog | kNegate | kNot | kReducePrecision | kSqrt | kTan | kTanh | kBroadcast | kConcatenate
  | kOtherOpcode string

type_synonym iid = nat
type_synonym cid = nat
type_synonym attrs = "string \<rightharpoonup> string"
type_synonym color = string

record hlo_instr =
  i_name :: string
  i_opcode :: hlo_opcode
  i_operands :: "iid list"
  i_users :: "iid list"
  i_called :: "cid list"
  i_tuple_index :: nat
  i_shape :: shape
  i_custom_call_target :: string
  i_backend_config :: "string option"
  i_op_name :: string
  i_attrs :: attrs
  i_sharding :: "hlo_sharding option"

record hlo_comp =
  c_root :: iid
  c_post_order :: "iid list"
  c_instructions :: "iid list"
  c_params :: "iid list"

record hlo_module =
  m_name :: string
  m_instr :: "iid \<Rightarrow> hlo_instr"
  m_comp :: "cid \<Rightarrow> hlo_comp"
  m_entry :: cid
  m_allow_propagation_to_output :: "bool list"
  m_allow_propagation_to_parameters :: "bool list"

definition opcode :: "hlo_module \<Rightarrow> iid \<Rightarrow> hlo_opcode" where
  "opcode m i = i_opcode (m_instr m i)"

definition operands :: "hlo_module \<Rightarrow> iid \<Rightarrow> iid list" where
  "operands m i = i_operands (m_instr m i)"

definition users :: "hlo_module \<Rightarrow> iid \<Rightarrow> iid list" where
  "users m i = i_users (m_instr m i)"

definition called :: "hlo_module \<Rightarrow> iid \<Rightarrow> cid list" where
  "called m i = i_called (m_instr m i)"

definition tuple_index :: "hlo_module \<Rightarrow> iid \<Rightarrow> nat" where
  "tuple_index m i = i_tuple_index (m_instr m i)"

definition sharding_of :: "hlo_module \<Rightarrow> iid \<Rightarrow> hlo_sharding option" where
  "sharding_of m i = i_sharding (m_instr m i)"

definition attrs_of :: "hlo_module \<Rightarrow> iid \<Rightarrow> attrs" where
  "attrs_of m i = i_attrs (m_instr m i)"

definition post_order :: "hlo_module \<Rightarrow> cid \<Rightarrow> iid list" where
  "post_order m c = c_post_order (m_comp m c)"

definition root :: "hlo_module \<Rightarrow> cid \<Rightarrow> iid" where
  "root m c = c_root (m_comp m c)"

definition params :: "hlo_module \<Rightarrow> cid \<Rightarrow> iid list" where
  "params m c = c_params (m_comp m c)"

definition comp_instructions :: "hlo_module \<Rightarrow> cid \<Rightarrow> iid list" where
  "comp_instructions m c = c_instructions (m_comp m c)"

definition upd_instr :: "hlo_module \<Rightarrow> iid \<Rightarrow> (hlo_instr \<Rightarrow> hlo_instr) \<Rightarrow> hlo_module" where
  "upd_instr m i f = m\<lparr>m_instr := (m_instr m)(i := f (m_instr m i))\<rparr>"

definition set_attrs :: "hlo_module \<Rightarrow> iid \<Rightarrow> attrs \<Rightarrow> hlo_module" where
  "set_attrs m i a = upd_instr m i (\<lambda>r. r\<lparr>i_attrs := a\<rparr>)"

definition set_sharding :: "hlo_module \<Rightarrow> iid \<Rightarrow> hlo_sharding \<Rightarrow> hlo_module" where
  "set_sharding m i s = upd_instr m i (\<lambda>r. r\<lparr>i_sharding := Some s\<rparr>)"

lemma attrs_of_set_attrs [simp]: "attrs_of (set_attrs m i a) j = (if j = i then a else attrs_of m j)"
  by (simp add: attrs_of_def set_attrs_def upd_instr_def)

lemma attrs_of_set_sharding [simp]: "attrs_of (set_sharding m i s) j = attrs_of m j"
  by (simp add: attrs_of_def set_sharding_def upd_instr_def)

lemma sharding_of_set_sharding [simp]:
  "sharding_of (set_sharding m i s) j = (if j = i then Some s else sharding_of m j)"
  by (simp add: sharding_of_def set_sharding_def upd_instr_def)

lemma sharding_of_set_attrs [simp]: "sharding_of (set_attrs m i a) j = sharding_of m j"
  by (simp add: sharding_of_def set_attrs_def upd_instr_def)

lemma i_name_set_attrs [simp]: "i_name (m_instr (set_attrs m i a) j) = i_name (m_instr m j)"
  by (simp add: set_attrs_def upd_instr_def)

text \<open>
  Two modules have the same graph when they differ in frontend attributes and shardings
  only.
\<close>

definition skeleton :: "hlo_instr \<Rightarrow> hlo_instr" where
  "skeleton r = r\<lparr>i_attrs := Map.empty, i_sharding := None\<rparr>"

definition same_graph :: "hlo_module \<Rightarrow> hlo_module \<Rightarrow> bool" where
  "same_graph m m' \<longleftrightarrow>
     m'\<lparr>m_instr := m_instr m\<rparr> = m \<and> (\<forall>i. skeleton (m_instr m' i) = skeleton (m_instr m i))"

lemma same_graph_refl [simp, intro]: "same_graph m m"
  by (simp add: same_graph_def)

lemma same_graph_trans [trans]: "same_graph m m' \<Longrightarrow> same_graph m' m'' \<Longrightarrow> same_graph m m''"
  by (cases m, cases m', cases m'') (simp add: same_graph_def)

lemma same_graph_set_attrs [simp]: "same_graph m (set_attrs m i a)"
  by (simp add: same_graph_def set_attrs_def upd_instr_def skeleton_def)

lemma same_graph_set_sharding [simp]: "same_graph m (set_sharding m i s)"
  by (simp add: same_graph_def set_sharding_def upd_instr_def skeleton_def)

lemma skeleton_eqD:
  assumes "skeleton r = skeleton r'"
  shows "i_opcode r = i_opcode r'" "i_operands r = i_operands r'" "i_users r = i_users r'"
    "i_called r = i_called r'" "i_tuple_index r = i_tuple_index r'" "i_name r = i_name r'"
    "i_shape r = i_shape r'"
  using assms by (cases r; cases r'; simp add: skeleton_def)+

lemma same_graphD:
  assumes "same_graph m m'"
  shows "opcode m' = opcode m" "operands m' = operands m" "users m' = users m"
    "called m' = called m" "tuple_index m' = tuple_index m" "post_order m' = post_order m"
    "root m' = root m" "params m' = params m" "comp_instructions m' = comp_instructions m"
    "m_entry m' = m_entry m"
proof -
  have sk: "\<And>i. skeleton (m_instr m' i) = skeleton (m_instr m i)"
    and c: "m_comp m' = m_comp m" "m_entry m' = m_entry m"
    using assms by (cases m; cases m'; simp add: same_graph_def)+
  show "opcode m' = opcode m" "operands m' = operands m" "users m' = users m"
    "called m' = called m" "tuple_index m' = tuple_index m"
    using skeleton_eqD[OF sk]
    by (simp_all add: fun_eq_iff opcode_def operands_def users_def called_def tuple_index_def)
  show "post_order m' = post_order m" "root m' = root m" "params m' = params m"
    "comp_instructions m' = comp_instructions m" "m_entry m' = m_entry m"
    using c by (simp_all add: fun_eq_iff post_order_def root_def params_def comp_instructions_def)
qed

text \<open>
  What \<open>MakeInstructionPostOrder\<close> promises: every instruction once, operands before users,
  and the root among them.
\<close>

fun topo_sorted :: "(iid \<Rightarrow> iid list) \<Rightarrow> iid list \<Rightarrow> iid list \<Rightarrow> bool" where
  "topo_sorted ops seen [] = True"
| "topo_sorted ops seen (i # is) =
     (i \<notin> set seen \<and> (\<forall>j \<in> set (ops i). j \<in> set seen) \<and> topo_sorted ops (i # seen) is)"

definition wf_computation :: "hlo_module \<Rightarrow> cid \<Rightarrow> bool" where
  "wf_computation m c \<longleftrightarrow>
     topo_sorted (operands m) [] (post_order m c) \<and> root m c \<in> set (post_order m c)"

lemma topo_sorted_append:
  "topo_sorted ops seen (xs @ ys) \<longleftrightarrow> topo_sorted ops seen xs \<and> topo_sorted ops (rev xs @ seen) ys"
  by (induction xs arbitrary: seen) auto

lemma topo_sorted_distinct: "topo_sorted ops seen xs \<Longrightarrow> distinct xs \<and> set xs \<inter> set seen = {}"
  by (induction xs arbitrary: seen) fastforce+

text \<open>Computations call each other without cycles: \<open>rk\<close> decreases along every call.\<close>

definition acyclic_calls :: "hlo_module \<Rightarrow> (cid \<Rightarrow> nat) \<Rightarrow> bool" where
  "acyclic_calls m rk \<longleftrightarrow>
     (\<forall>c i d. i \<in> set (post_order m c) \<union> set (comp_instructions m c) \<longrightarrow> d \<in> set (called m i)
        \<longrightarrow> rk d < rk c)"

section \<open>Concrete modules for examples\<close>

definition blank_instr :: hlo_instr where
  "blank_instr = \<lparr>i_name = '''', i_opcode = kConstant, i_operands = [], i_users = [],
     i_called = [], i_tuple_index = 0, i_shape = Shape F32 [] [], i_custom_call_target = '''',
     i_backend_config = None, i_op_name = '''', i_attrs = Map.empty, i_sharding = None\<rparr>"

definition blank_comp :: hlo_comp where
  "blank_comp = \<lparr>c_root = 0, c_post_order = [], c_instructions = [], c_params = []\<rparr>"

definition sample_module :: "(iid \<times> hlo_instr) list \<Rightarrow> (cid \<times> hlo_comp) list \<Rightarrow> hlo_module" where
  "sample_module is cs = \<lparr>m_name = ''sample'',
     m_instr = (\<lambda>i. case map_of is i of Some r \<Rightarrow> r | None \<Rightarrow> blank_instr),
     m_comp = (\<lambda>c. case map_of cs c of Some r \<Rightarrow> r | None \<Rightarrow> blank_comp),
     m_entry = 0, m_allow_propagation_to_output = [], m_allow_propagation_to_parameters = []\<rparr>"

lemmas sample_simps = sample_module_def blank_instr_def blank_comp_def opcode_def operands_def
  users_def called_def tuple_index_def sharding_of_def attrs_of_def post_order_def root_def
  params_def comp_instructions_def

end
