(* ===== verification/Json_Utils.thy ===== *)
theory Json_Utils
  imports Prelude
begin

text \<open>
  \<open>json_utils.h\<close> and \<open>json_utils.cc\<close>: the typed readers of JSON values. The JSON library
  (jsoncpp) is a parameter: \<open>'j\<close> is its value type and \<open>json_api\<close> the record of the
  operations the code calls. \<open>json_laws\<close> names what the round-trip theorems rely on.
\<close>

record 'j json_api =
  jparse :: "string \<Rightarrow> 'j option"
  jwrite :: "'j \<Rightarrow> string"
  jisNull :: "'j \<Rightarrow> bool"
  jisBool :: "'j \<Rightarrow> bool"
  jisInt :: "'j \<Rightarrow> bool"
  jisString :: "'j \<Rightarrow> bool"
  jisArray :: "'j \<Rightarrow> bool"
  jasBool :: "'j \<Rightarrow> bool"
  jasInt :: "'j \<Rightarrow> int"
  jasString :: "'j \<Rightarrow> string"
  jelements :: "'j \<Rightarrow> 'j list"
  jget :: "'j \<Rightarrow> string \<Rightarrow> 'j"
  jarray :: "'j list \<Rightarrow> 'j"
  jstring :: "string \<Rightarrow> 'j"
  jsingleton :: "string \<Rightarrow> 'j \<Rightarrow> 'j"

definition json_laws :: "'j json_api \<Rightarrow> bool" where
  "json_laws J \<longleftrightarrow>
     (\<forall>xs. jisArray J (jarray J xs) \<and> jelements J (jarray J xs) = xs \<and> \<not> jisNull J (jarray J xs)) \<and>
     (\<forall>s. jisString J (jstring J s) \<and> jasString J (jstring J s) = s) \<and>
     (\<forall>k v. jget J (jsingleton J k v) k = v)"

text \<open>The writer ends its text with a newline, and the parser reads the text before it back.\<close>

definition json_prints :: "'j json_api \<Rightarrow> 'j \<Rightarrow> bool" where
  "json_prints J v \<longleftrightarrow> jwrite J v \<noteq> [] \<and> jparse J (butlast (jwrite J v)) = Some v"

section \<open>Readers\<close>

definition GetJsonValue :: "'j json_api \<Rightarrow> string \<Rightarrow> 'j statusor" where
  "GetJsonValue J text =
     (case jparse J text of
        None \<Rightarrow> Inl (InvalidArgument (''invalid JSON received: '' @ text))
      | Some v \<Rightarrow> Inr v)"

text \<open>
  The readers return \<open>false\<close> for a value of another type and set an output parameter
  otherwise: \<open>None\<close> and \<open>Some\<close> here. Both the \<open>int\<close> and the \<open>int64_t\<close> reader test
  \<open>isInt\<close> and take \<open>asInt\<close>.
\<close>

definition GetTaskValue_bool :: "'j json_api \<Rightarrow> 'j \<Rightarrow> bool option" where
  "GetTaskValue_bool J v = (if \<not> jisBool J v then None else Some (jasBool J v))"

definition GetTaskValue_int :: "'j json_api \<Rightarrow> 'j \<Rightarrow> int option" where
  "GetTaskValue_int J v = (if \<not> jisInt J v then None else Some (jasInt J v))"

definition GetTaskValue_int64 :: "'j json_api \<Rightarrow> 'j \<Rightarrow> int option" where
  "GetTaskValue_int64 J v = (if \<not> jisInt J v then None else Some (jasInt J v))"

definition GetTaskValue_string :: "'j json_api \<Rightarrow> 'j \<Rightarrow> string option" where
  "GetTaskValue_string J v = (if \<not> jisString J v then None else Some (jasString J v))"

fun read_elements :: "('j \<Rightarrow> 'a option) \<Rightarrow> 'a list \<Rightarrow> 'j list \<Rightarrow> 'a list option" where
  "read_elements rd result [] = Some result"
| "read_elements rd result (v # vs) =
     (case rd v of None \<Rightarrow> None | Some t \<Rightarrow> read_elements rd (result @ [t]) vs)"

definition GetTaskValue_vector :: "'j json_api \<Rightarrow> ('j \<Rightarrow> 'a option) \<Rightarrow> 'j \<Rightarrow> 'a list option" where
  "GetTaskValue_vector J rd v =
     (if \<not> jisArray J v then None else read_elements rd [] (jelements J v))"

definition GetTaskValue_inlined_vector ::
  "'j json_api \<Rightarrow> ('j \<Rightarrow> 'a option) \<Rightarrow> 'j \<Rightarrow> 'a list option" where
  "GetTaskValue_inlined_vector J rd v =
     (if \<not> jisArray J v then None else read_elements rd [] (jelements J v))"

fun read_optional_elements ::
  "'j json_api \<Rightarrow> ('j \<Rightarrow> 'a option) \<Rightarrow> 'a option list \<Rightarrow> 'j list \<Rightarrow> 'a option list option" where
  "read_optional_elements J rd result [] = Some result"
| "read_optional_elements J rd result (v # vs) =
     (if jisNull J v then read_optional_elements J rd (result @ [None]) vs
      else (case rd v of None \<Rightarrow> None
            | Some t \<Rightarrow> read_optional_elements J rd (result @ [Some t]) vs))"

definition GetTaskValue_optional_vector ::
  "'j json_api \<Rightarrow> ('j \<Rightarrow> 'a option) \<Rightarrow> 'j \<Rightarrow> 'a option list option" where
  "GetTaskValue_optional_vector J rd v =
     (if \<not> jisArray J v then None else read_optional_elements J rd [] (jelements J v))"

definition GetTaskValue_optional_inlined_vector ::
  "'j json_api \<Rightarrow> ('j \<Rightarrow> 'a option) \<Rightarrow> 'j \<Rightarrow> 'a option list option" where
  "GetTaskValue_optional_inlined_vector J rd v =
     (if \<not> jisArray J v then None else read_optional_elements J rd [] (jelements J v))"

definition GetTaskValue_pair ::
  "'j json_api \<Rightarrow> ('j \<Rightarrow> 'a option) \<Rightarrow> ('j \<Rightarrow> 'b option) \<Rightarrow> 'j \<Rightarrow> ('a \<times> 'b) option" where
  "GetTaskValue_pair J rd1 rd2 v =
     (if \<not> jisArray J v then None
      else if length (jelements J v) \<noteq> 2 then None
      else (case rd1 (jelements J v ! 0) of None \<Rightarrow> None
            | Some t \<Rightarrow> (case rd2 (jelements J v ! 1) of None \<Rightarrow> None | Some u \<Rightarrow> Some (t, u))))"

section \<open>Fields of a backend config\<close>

definition GetTaskValue :: "'j json_api \<Rightarrow> ('j \<Rightarrow> 'a option) \<Rightarrow> 'j \<Rightarrow> string \<Rightarrow> string \<Rightarrow> 'a statusor" where
  "GetTaskValue J rd parent ctxt name =
     (let value = jget J parent name in
      if jisNull J value
      then Inl (InvalidArgument (ctxt @ '' has no field '' @ name @ '' in backend config''))
      else (case rd value of
              None \<Rightarrow> Inl (InvalidArgument (ctxt @ '' could not cast field '' @ name
                        @ '' to correct type in backend config''))
            | Some r \<Rightarrow> Inr r))"

definition GetOptionalTaskValue_default ::
  "'j json_api \<Rightarrow> ('j \<Rightarrow> 'a option) \<Rightarrow> 'j \<Rightarrow> string \<Rightarrow> string \<Rightarrow> 'a \<Rightarrow> 'a statusor" where
  "GetOptionalTaskValue_default J rd parent ctxt name dflt =
     (let value = jget J parent name in
      if jisNull J value then Inr dflt
      else (case rd value of
              None \<Rightarrow> Inl (InvalidArgument (ctxt @ '' could not cast field '' @ name
                        @ '' to correct type in backend config''))
            | Some r \<Rightarrow> Inr r))"

definition GetOptionalTaskValue ::
  "'j json_api \<Rightarrow> ('j \<Rightarrow> 'a option) \<Rightarrow> 'j \<Rightarrow> string \<Rightarrow> string \<Rightarrow> 'a option statusor" where
  "GetOptionalTaskValue J rd parent ctxt name =
     (let value = jget J parent name in
      if jisNull J value then Inr None
      else (case rd value of
              None \<Rightarrow> Inl (InvalidArgument (ctxt @ '' could not cast field '' @ name
                        @ '' to correct type in backend config''))
            | Some r \<Rightarrow> Inr (Some r)))"

section \<open>Writers\<close>

definition ToJson_string :: "'j json_api \<Rightarrow> string \<Rightarrow> 'j" where
  "ToJson_string J s = jstring J s"

definition ToJson_vector :: "'j json_api \<Rightarrow> ('a \<Rightarrow> 'j) \<Rightarrow> 'a list \<Rightarrow> 'j" where
  "ToJson_vector J wr xs = jarray J (foldl (\<lambda>vec v. vec @ [wr v]) [] xs)"

definition ToJson_inlined_vector :: "'j json_api \<Rightarrow> ('a \<Rightarrow> 'j) \<Rightarrow> 'a list \<Rightarrow> 'j" where
  "ToJson_inlined_vector J wr xs = jarray J (foldl (\<lambda>vec v. vec @ [wr v]) [] xs)"

section \<open>Lemmas\<close>

lemma foldl_snoc_map: "foldl (\<lambda>vec v. vec @ [f v]) acc xs = acc @ map f xs"
  by (induction xs arbitrary: acc) auto

lemma read_elements_Some_iff:
  "read_elements rd acc vs = Some r \<longleftrightarrow> (\<exists>ts. r = acc @ ts \<and> map rd vs = map Some ts)"
proof (induction vs arbitrary: acc)
  case Nil
  then show ?case by auto
next
  case (Cons v vs)
  show ?case
  proof (cases "rd v")
    case None
    then show ?thesis by (auto simp: Cons_eq_map_conv)
  next
    case (Some t)
    then show ?thesis by (auto simp: Cons.IH Cons_eq_map_conv)
  qed
qed

lemma read_optional_elements_Some_iff:
  "read_optional_elements J rd acc vs = Some r \<longleftrightarrow>
     (\<exists>ts. r = acc @ ts \<and>
        list_all2 (\<lambda>v t. if jisNull J v then t = None else rd v \<noteq> None \<and> t = rd v) vs ts)"
proof (induction vs arbitrary: acc)
  case Nil
  then show ?case by auto
next
  case (Cons v vs)
  show ?case
  proof (cases "jisNull J v")
    case True
    then show ?thesis by (auto simp: Cons.IH list_all2_Cons1)
  next
    case False
    show ?thesis
    proof (cases "rd v")
      case None
      then show ?thesis using False by (auto simp: list_all2_Cons1)
    next
      case (Some t)
      then show ?thesis using False by (auto simp: Cons.IH list_all2_Cons1)
    qed
  qed
qed

text \<open>
  A codec of the JSON library: a writer and a reader that undo each other. Vectors of a
  codec's values are again a codec, which covers the nested vectors of axis names.
\<close>

definition json_codec :: "('a \<Rightarrow> 'j) \<Rightarrow> ('j \<Rightarrow> 'a option) \<Rightarrow> bool" where
  "json_codec wr rd \<longleftrightarrow> (\<forall>x. rd (wr x) = Some x)"

lemma json_codec_string:
  "json_laws J \<Longrightarrow> json_codec (ToJson_string J) (GetTaskValue_string J)"
  by (simp add: json_laws_def json_codec_def ToJson_string_def GetTaskValue_string_def)

lemma json_codec_inlined_vector:
  assumes "json_laws J" and "json_codec wr rd"
  shows "json_codec (ToJson_inlined_vector J wr) (GetTaskValue_inlined_vector J rd)"
  unfolding json_codec_def
proof
  fix xs
  have "map rd (map wr xs) = map Some xs"
    using assms(2) by (simp add: json_codec_def)
  then have "read_elements rd [] (map wr xs) = Some xs"
    by (auto simp: read_elements_Some_iff)
  then show "GetTaskValue_inlined_vector J rd (ToJson_inlined_vector J wr xs) = Some xs"
    using assms(1)
    by (simp add: json_laws_def GetTaskValue_inlined_vector_def ToJson_inlined_vector_def
        foldl_snoc_map)
qed

lemma json_codec_vector:
  assumes "json_laws J" and "json_codec wr rd"
  shows "json_codec (ToJson_vector J wr) (GetTaskValue_vector J rd)"
  using json_codec_inlined_vector[OF assms]
  by (simp add: json_codec_def GetTaskValue_inlined_vector_def ToJson_inlined_vector_def
      GetTaskValue_vector_def ToJson_vector_def)

end
