(* ===== verification/Mpmd_Instruction.thy ===== *)
theory Mpmd_Instruction
  imports Hlo Json_Utils
begin

text \<open>
  \<open>mpmd_instruction.h\<close> and \<open>mpmd_instruction.cc\<close>: colors (the task an instruction belongs
  to), logical axes and other values kept in the frontend attributes of an instruction.
  \<open>add_fa\<close> stands for \<open>HloInstruction::add_frontend_attributes\<close> and \<open>atoi\<close> for
  \<open>absl::SimpleAtoi\<close>; both are parameters.
\<close>

section \<open>Attributes\<close>

definition AddAttribute :: "hlo_module \<Rightarrow> iid \<Rightarrow> string \<Rightarrow> string \<Rightarrow> hlo_module" where
  "AddAttribute m i name value = (let attrs = attrs_of m i in set_attrs m i (attrs(name \<mapsto> value)))"

definition GetAttribute :: "hlo_module \<Rightarrow> iid \<Rightarrow> string \<Rightarrow> string statusor" where
  "GetAttribute m i name =
     (case attrs_of m i name of
        Some v \<Rightarrow> Inr v
      | None \<Rightarrow> Inl (InvalidArgument (''attribute '' @ name @ '' not found on instruction'')))"

definition GetAttribute_integral ::
  "(string \<Rightarrow> int option) \<Rightarrow> hlo_module \<Rightarrow> iid \<Rightarrow> string \<Rightarrow> int statusor" where
  "GetAttribute_integral atoi m i name =
     bindR (GetAttribute m i name) (\<lambda>value.
       case atoi value of
         None \<Rightarrow> Inl (InvalidArgument (''attribute '' @ value @ '' for '' @ name
                   @ '' is not a valid integer''))
       | Some t \<Rightarrow> Inr t)"

definition AddAttribute_integral :: "hlo_module \<Rightarrow> iid \<Rightarrow> string \<Rightarrow> int \<Rightarrow> hlo_module" where
  "AddAttribute_integral m i name t = AddAttribute m i name (show_int t)"

section \<open>Colors\<close>

definition kDefaultColorName :: color where
  "kDefaultColorName = ''unassigned''"

definition AssignColor :: "hlo_module \<Rightarrow> iid \<Rightarrow> color \<Rightarrow> hlo_module" where
  "AssignColor m i c = (let attrs = attrs_of m i in set_attrs m i (attrs(''color'' \<mapsto> c)))"

definition PropagateColor :: "hlo_module \<Rightarrow> iid \<Rightarrow> iid \<Rightarrow> bool \<times> hlo_module" where
  "PropagateColor m source target =
     (case attrs_of m source ''color'' of
        Some c \<Rightarrow> (True, AssignColor m target c)
      | None \<Rightarrow> (False, m))"

definition Color :: "hlo_module \<Rightarrow> iid \<Rightarrow> color option" where
  "Color m i = attrs_of m i ''color''"

definition ColorOrDefault :: "hlo_module \<Rightarrow> iid \<Rightarrow> color" where
  "ColorOrDefault m i = (case Color m i of Some c \<Rightarrow> c | None \<Rightarrow> kDefaultColorName)"

fun uniform_color :: "hlo_module \<Rightarrow> color option \<Rightarrow> iid list \<Rightarrow> color option" where
  "uniform_color m uc [] = uc"
| "uniform_color m uc (operand # rest) =
     (case Color m operand of
        Some oc \<Rightarrow>
          (case uc of
             None \<Rightarrow> uniform_color m (Color m operand) rest
           | Some u \<Rightarrow> if u \<noteq> oc then None else uniform_color m uc rest)
      | None \<Rightarrow> None)"

definition ColorTuple :: "hlo_module \<Rightarrow> iid \<Rightarrow> hlo_module" where
  "ColorTuple m i =
     (case uniform_color m None (operands m i) of
        Some c \<Rightarrow> AssignColor m i c
      | None \<Rightarrow> m)"

definition IsAssignedColor :: "hlo_module \<Rightarrow> iid \<Rightarrow> bool" where
  "IsAssignedColor m i \<longleftrightarrow> attrs_of m i ''color'' \<noteq> None"

definition RemoveColor :: "hlo_module \<Rightarrow> iid \<Rightarrow> hlo_module" where
  "RemoveColor m i = (let attrs = attrs_of m i in set_attrs m i (attrs(''color'' := None)))"

section \<open>Logical axes\<close>

type_synonym logical_axes = "string list list"

definition AssignAxes_string ::
  "(attrs \<Rightarrow> attrs \<Rightarrow> attrs) \<Rightarrow> hlo_module \<Rightarrow> iid \<Rightarrow> string \<Rightarrow> hlo_module" where
  "AssignAxes_string add_fa m i axes = set_attrs m i (add_fa (attrs_of m i) [''axes'' \<mapsto> axes])"

definition AssignAxesIfUnassigned ::
  "(attrs \<Rightarrow> attrs \<Rightarrow> attrs) \<Rightarrow> hlo_module \<Rightarrow> iid \<Rightarrow> string \<Rightarrow> hlo_module" where
  "AssignAxesIfUnassigned add_fa m i axes = set_attrs m i (add_fa (attrs_of m i) [''axes'' \<mapsto> axes])"

definition HasAssignedAxes :: "hlo_module \<Rightarrow> iid \<Rightarrow> bool" where
  "HasAssignedAxes m i \<longleftrightarrow> attrs_of m i ''axes'' \<noteq> None"

definition GetAxesString :: "hlo_module \<Rightarrow> iid \<Rightarrow> string option" where
  "GetAxesString m i = attrs_of m i ''axes''"

definition PropagateAxes ::
  "(attrs \<Rightarrow> attrs \<Rightarrow> attrs) \<Rightarrow> hlo_module \<Rightarrow> iid \<Rightarrow> iid \<Rightarrow> bool \<times> hlo_module" where
  "PropagateAxes add_fa m source target =
     (case attrs_of m source ''axes'' of
        Some a \<Rightarrow> (True, AssignAxesIfUnassigned add_fa m target a)
      | None \<Rightarrow> (False, m))"

definition PropagateProperties ::
  "(attrs \<Rightarrow> attrs \<Rightarrow> attrs) \<Rightarrow> hlo_module \<Rightarrow> iid \<Rightarrow> iid \<Rightarrow> hlo_module" where
  "PropagateProperties add_fa m source target =
     (let (_, m1) = PropagateColor m source target;
          (_, m2) = PropagateAxes add_fa m1 source target in m2)"

text \<open>
  \<open>GetAxes\<close> dereferences both status values without a test, so a string that does not parse,
  or an \<open>axes\<close> field of another type, aborts.
\<close>

definition GetAxes :: "'j json_api \<Rightarrow> hlo_module \<Rightarrow> iid \<Rightarrow> logical_axes option statusor" where
  "GetAxes J m i =
     (case attrs_of m i ''axes'' of
        None \<Rightarrow> Inr None
      | Some s \<Rightarrow>
          (case GetJsonValue J s of
             Inl e \<Rightarrow> Inl (Fatal ''axes'')
           | Inr json \<Rightarrow>
               (case GetTaskValue J
                       (GetTaskValue_inlined_vector J
                          (GetTaskValue_inlined_vector J (GetTaskValue_string J)))
                       json (i_name (m_instr m i)) ''axes'' of
                  Inl e \<Rightarrow> Inl (Fatal ''axes'')
                | Inr axes \<Rightarrow> Inr (Some axes))))"

definition AssignAxes ::
  "'j json_api \<Rightarrow> (attrs \<Rightarrow> attrs \<Rightarrow> attrs) \<Rightarrow> hlo_module \<Rightarrow> iid \<Rightarrow> logical_axes \<Rightarrow> hlo_module" where
  "AssignAxes J add_fa m i axes =
     (let json_axes = jsingleton J ''axes''
            (ToJson_inlined_vector J (ToJson_inlined_vector J (ToJson_string J)) axes);
          json_string = jwrite J json_axes;
          json_string = take (length json_string - 1) json_string in
      AssignAxes_string add_fa m i json_string)"

section \<open>Root tuple shardings\<close>

definition allow_sharding_overwrite :: "bool list \<Rightarrow> nat \<Rightarrow> hlo_sharding \<Rightarrow> bool" where
  "allow_sharding_overwrite allow index s =
     (if length allow = 1 then allow ! 0 \<and> IsReplicated s
      else if index < length allow then allow ! index \<and> IsReplicated s
      else False)"

definition ApplyRootTupleShardingsToOperands :: "hlo_module \<Rightarrow> iid \<Rightarrow> hlo_module statusor" where
  "ApplyRootTupleShardingsToOperands m r =
     (case sharding_of m r of
        None \<Rightarrow> Inr m
      | Some rs \<Rightarrow>
          if IsTupleShape (i_shape (m_instr m r))
          then foldR (\<lambda>m index.
                 bindR (if IsTupleSharding rs then subR (tuple_elements rs) index else Inr rs) (\<lambda>s.
                 let operand = operands m r ! index in
                 if \<not> allow_sharding_overwrite (m_allow_propagation_to_output m) index s
                    \<and> sharding_of m operand = None
                 then Inr (set_sharding m operand s) else Inr m)) m [0..<length (operands m r)]
          else Inr m)"

section \<open>The color store\<close>

text \<open>
  The contract of colors that every coloring pass relies on: a write is read back, writes to
  other instructions are not seen, and only attributes change.
\<close>

locale color_store =
  fixes get :: "hlo_module \<Rightarrow> iid \<Rightarrow> color option"
    and put :: "hlo_module \<Rightarrow> iid \<Rightarrow> color \<Rightarrow> hlo_module"
    and clear :: "hlo_module \<Rightarrow> iid \<Rightarrow> hlo_module"
  assumes get_put: "get (put m i c) j = (if j = i then Some c else get m j)"
    and get_clear: "get (clear m i) j = (if j = i then None else get m j)"
    and put_frame: "same_graph m (put m i c)"
    and clear_frame: "same_graph m (clear m i)"
begin

lemma get_put_all:
  "get (foldl (\<lambda>m i. put m i c) m is) j = (if j \<in> set is then Some c else get m j)"
  by (induction "is" arbitrary: m) (auto simp: get_put)

lemma put_all_frame: "same_graph m (foldl (\<lambda>m i. put m i c) m is)"
  by (induction "is" arbitrary: m) (auto intro: same_graph_trans put_frame)

lemma put_put: "get (put (put m i c) i d) j = get (put m i d) j"
  by (simp add: get_put)

end

interpretation colors: color_store Color AssignColor RemoveColor
  by unfold_locales (simp_all add: Color_def AssignColor_def RemoveColor_def Let_def)

lemmas color_simps [simp] = colors.get_put colors.get_clear colors.get_put_all

lemma IsAssignedColor_iff: "IsAssignedColor m i \<longleftrightarrow> Color m i \<noteq> None"
  by (simp add: IsAssignedColor_def Color_def)

lemma sharding_of_AssignColor [simp, frame]: "sharding_of (AssignColor m i c) j = sharding_of m j"
  by (simp add: AssignColor_def Let_def)

lemma ColorTuple_frame [frame]: "same_graph m (ColorTuple m i)"
  by (simp add: ColorTuple_def colors.put_frame split: option.splits)

lemma uniform_color_Some:
  "uniform_color m (Some u) is = (if \<forall>p \<in> set is. Color m p = Some u then Some u else None)"
  by (induction "is") (auto split: option.splits)

lemma uniform_color_None:
  "uniform_color m None is =
     (case is of [] \<Rightarrow> None
      | j # js \<Rightarrow> (case Color m j of None \<Rightarrow> None
                 | Some c \<Rightarrow> if \<forall>p \<in> set js. Color m p = Some c then Some c else None))"
  by (cases "is") (auto simp: uniform_color_Some split: option.splits)

text \<open>
  \<open>ColorTuple\<close> colors a tuple with \<open>c\<close> exactly when it has operands and all of them are
  colored \<open>c\<close>; in every other case, and for every other instruction, colors are unchanged.
\<close>

theorem color_tuple_uniform:
  "Color (ColorTuple m i) j =
     (if j = i \<and> operands m i \<noteq> [] \<and> (\<exists>c. \<forall>p \<in> set (operands m i). Color m p = Some c)
      then Color m (hd (operands m i)) else Color m j)"
  by (cases "operands m i")
    (auto simp: ColorTuple_def uniform_color_None uniform_color_Some split: option.splits if_splits)

theorem color_tuple_uniform_witness:
  "Color (ColorTuple (sample_module
      [(0, blank_instr\<lparr>i_opcode := kTuple, i_operands := [1, 2]\<rparr>),
       (1, blank_instr\<lparr>i_attrs := [''color'' \<mapsto> ''stage0'']\<rparr>),
       (2, blank_instr\<lparr>i_attrs := [''color'' \<mapsto> ''stage0'']\<rparr>)] []) 0) 0 = Some ''stage0''"
  by (subst color_tuple_uniform) (auto simp: sample_simps Color_def)

text \<open>
  \<open>PropagateColor\<close> writes the color of a colored source to the target, whether or not
  the target already had one, and returns whether it did; without a source color nothing
  changes.
\<close>

theorem propagate_color_overwrites:
  "PropagateColor m s t =
     (case Color m s of Some c \<Rightarrow> (True, AssignColor m t c) | None \<Rightarrow> (False, m)) \<and>
   Color (snd (PropagateColor m s t)) t = (if Color m s = None then Color m t else Color m s)"
  by (auto simp: PropagateColor_def Color_def AssignColor_def Let_def split: option.splits)

section \<open>Attribute round trips\<close>

text \<open>
  An integral attribute that was added is read back, provided the integer parser inverts
  decimal printing at that value; other attributes are unaffected.
\<close>

theorem attribute_roundtrip:
  assumes "atoi (show_int t) = Some t"
  shows "GetAttribute_integral atoi (AddAttribute_integral m i name t) i name = Inr t \<and>
         (\<forall>n. n \<noteq> name \<longrightarrow> GetAttribute (AddAttribute_integral m i name t) i n = GetAttribute m i n)"
  using assms
  by (simp add: GetAttribute_integral_def AddAttribute_integral_def AddAttribute_def
      GetAttribute_def Let_def)

theorem attribute_roundtrip_witness:
  "GetAttribute_integral (\<lambda>s. Some (int (read_nat s)))
     (AddAttribute_integral (sample_module [] []) 0 ''offset'' 7) 0 ''offset'' = Inr 7"
  using attribute_roundtrip[of "\<lambda>s. Some (int (read_nat s))" 7 "sample_module [] []" 0 "''offset''"]
  by (simp add: show_int_def)

section \<open>Axes\<close>

text \<open>Attributes are added without overwriting existing ones.\<close>

definition adds_without_overwrite :: "(attrs \<Rightarrow> attrs \<Rightarrow> attrs) \<Rightarrow> bool" where
  "adds_without_overwrite add_fa \<longleftrightarrow> (\<forall>old new. add_fa old new = new ++ old)"

abbreviation axes_json :: "'j json_api \<Rightarrow> logical_axes \<Rightarrow> 'j" where
  "axes_json J axes \<equiv> jsingleton J ''axes''
     (ToJson_inlined_vector J (ToJson_inlined_vector J (ToJson_string J)) axes)"

lemma butlast_take: "take (length xs - Suc 0) xs = butlast xs"
  by (simp add: butlast_conv_take)

text \<open>
  Logical axes written to an instruction without axes are read back unchanged. An
  instruction that already has axes keeps them: \<open>AssignAxes\<close> does not overwrite.
\<close>

theorem axes_roundtrip:
  assumes "json_laws J" and "json_prints J (axes_json J axes)" and "adds_without_overwrite add_fa"
  shows "GetAxes J (AssignAxes J add_fa m i axes) i =
           (if HasAssignedAxes m i then GetAxes J m i else Inr (Some axes))"
proof (cases "attrs_of m i ''axes''")
  case None
  let ?w = "ToJson_inlined_vector J (ToJson_inlined_vector J (ToJson_string J))"
  let ?r = "GetTaskValue_inlined_vector J (GetTaskValue_inlined_vector J (GetTaskValue_string J))"
  have "json_codec ?w ?r"
    using assms(1) by (intro json_codec_inlined_vector json_codec_string)
  moreover have "\<not> jisNull J (?w axes)" and "jget J (axes_json J axes) ''axes'' = ?w axes"
    using assms(1) by (simp_all add: json_laws_def ToJson_inlined_vector_def)
  ultimately have "GetTaskValue J ?r (axes_json J axes) n ''axes'' = Inr axes" for n
    by (simp add: GetTaskValue_def json_codec_def)
  then show ?thesis
    using None assms(2,3)
    by (simp add: GetAxes_def AssignAxes_def AssignAxes_string_def HasAssignedAxes_def butlast_take
        adds_without_overwrite_def GetJsonValue_def json_prints_def map_add_def Let_def)
next
  case (Some s)
  then have "add_fa (attrs_of m i) [''axes'' \<mapsto> t] ''axes'' = Some s" for t
    using assms(3) by (simp add: adds_without_overwrite_def)
  then show ?thesis
    using Some
    by (simp add: GetAxes_def AssignAxes_def AssignAxes_string_def HasAssignedAxes_def Let_def
        cong: sum.case_cong)
qed

text \<open>Axis lists over a JSON library whose values are nested lists of strings.\<close>

datatype axes_value = AxNull | AxString string | AxArray "axes_value list" | AxObject string axes_value

definition axes_lib :: "axes_value json_api" where
  "axes_lib = \<lparr>jparse = (\<lambda>t. if t = ''doc'' then
        Some (AxObject ''axes'' (AxArray [AxArray [AxString ''x''], AxArray []])) else None),
     jwrite = (\<lambda>v. ''doc'' @ [CHR 0x0A]), jisNull = (\<lambda>v. v = AxNull), jisBool = (\<lambda>v. False),
     jisInt = (\<lambda>v. False), jisString = (\<lambda>v. case v of AxString s \<Rightarrow> True | _ \<Rightarrow> False),
     jisArray = (\<lambda>v. case v of AxArray vs \<Rightarrow> True | _ \<Rightarrow> False), jasBool = (\<lambda>v. False),
     jasInt = (\<lambda>v. 0), jasString = (\<lambda>v. case v of AxString s \<Rightarrow> s | _ \<Rightarrow> ''''),
     jelements = (\<lambda>v. case v of AxArray vs \<Rightarrow> vs | _ \<Rightarrow> []),
     jget = (\<lambda>v k. case v of AxObject n w \<Rightarrow> if n = k then w else AxNull | _ \<Rightarrow> AxNull),
     jarray = AxArray, jstring = AxString, jsingleton = AxObject\<rparr>"

lemma axes_lib_laws: "json_laws axes_lib"
  by (simp add: json_laws_def axes_lib_def)

lemma axes_lib_prints: "json_prints axes_lib (axes_json axes_lib [[''x''], []])"
  by (simp add: json_prints_def axes_lib_def ToJson_inlined_vector_def ToJson_string_def)

theorem axes_roundtrip_witness:
  "GetAxes axes_lib (AssignAxes axes_lib (\<lambda>old new. new ++ old) (sample_module [] []) 0
     [[''x''], []]) 0 = Inr (Some [[''x''], []])"
  using axes_roundtrip[OF axes_lib_laws axes_lib_prints, of "\<lambda>old new. new ++ old" "sample_module [] []" 0]
  by (simp add: adds_without_overwrite_def HasAssignedAxes_def sample_simps)

end
