(* ===== verification/Hlo_Partition.thy ===== *)
theory Hlo_Partition
  imports Mpmd_Instruction
begin

text \<open>
  \<open>hlo_partition.h\<close> and \<open>hlo_partition.cc\<close>: the registry of colors. A color names a task and
  maps to a device submesh and task options. Regular-expression matching (RE2) is a
  parameter carried by each registered task; \<open>stop\<close> stands for \<open>zuku::DeviceList::stop\<close> and
  \<open>dl0\<close> for a default-constructed device list. The pointer addresses that log lines print
  are left out.
\<close>

section \<open>State\<close>

record task_options =
  to_name :: "string option"
  to_devices :: "int list"
  to_dims :: "int list"
  to_axes :: "string list"
  to_logical_axes :: "(string \<times> string) list"
  to_split_backprop :: "(string \<times> string) option"
  to_loop_dependent_devices :: "(int \<Rightarrow> int list) option"

definition task_options_default :: task_options where
  "task_options_default = \<lparr>to_name = None, to_devices = [], to_dims = [], to_axes = [],
     to_logical_axes = [], to_split_backprop = None, to_loop_dependent_devices = None\<rparr>"

record color_config =
  cc_name :: string
  cc_devices :: device_list
  cc_backprop :: bool
  cc_noncritical :: bool
  cc_task_options :: task_options

record hlo_partition =
  p_devices :: device_list
  p_max_color :: nat
  p_colors :: "color \<rightharpoonup> color_config"
  p_matched_colors :: "(string \<times> bool) \<rightharpoonup> color"
  p_original_color :: "color \<rightharpoonup> color"
  p_device_list_to_colors :: "device_list \<rightharpoonup> color list"

definition kLoopIncrementColor :: color where
  "kLoopIncrementColor = ''loop_increment''"

definition kJvpTransposeMetadata :: string where
  "kJvpTransposeMetadata = ''transpose(jvp''"

definition kMultiMeshCustomCallTargets :: "string list" where
  "kMultiMeshCustomCallTargets =
     [''MultiMeshTask'', ''Microbatch'', ''MicrobatchInit'', ''MicrobatchSlice'', ''AutoSharding'']"

definition Create :: "device_list \<Rightarrow> hlo_partition" where
  "Create devices = \<lparr>p_devices = devices, p_max_color = 0, p_colors = Map.empty,
     p_matched_colors = Map.empty, p_original_color = Map.empty,
     p_device_list_to_colors = Map.empty\<rparr>"

section \<open>Queries\<close>

definition TotalDevices :: "hlo_partition \<Rightarrow> int" where
  "TotalDevices p = dl_size (p_devices p)"

definition HasColor :: "hlo_partition \<Rightarrow> color \<Rightarrow> bool" where
  "HasColor p color \<longleftrightarrow> p_colors p color \<noteq> None"

definition ConfigForColor :: "hlo_partition \<Rightarrow> color \<Rightarrow> color_config statusor" where
  "ConfigForColor p color =
     (case p_colors p color of
        None \<Rightarrow> Inl (Fatal (''no config exists for color '' @ color))
      | Some cfg \<Rightarrow> Inr cfg)"

definition ConfigForInstruction :: "hlo_partition \<Rightarrow> color option \<Rightarrow> color_config statusor" where
  "ConfigForInstruction p ic =
     (case ic of None \<Rightarrow> Inl (Undefined ''no color'') | Some c \<Rightarrow> ConfigForColor p c)"

definition DevicesForColor :: "hlo_partition \<Rightarrow> color \<Rightarrow> device_list statusor" where
  "DevicesForColor p color = bindR (ConfigForColor p color) (\<lambda>cfg. Inr (cc_devices cfg))"

definition DevicesForInstruction :: "hlo_partition \<Rightarrow> color option \<Rightarrow> device_list statusor" where
  "DevicesForInstruction p ic =
     (case ic of Some c \<Rightarrow> DevicesForColor p c | None \<Rightarrow> Inr (p_devices p))"

definition GetTaskOptions :: "hlo_partition \<Rightarrow> color \<Rightarrow> task_options statusor" where
  "GetTaskOptions p color = bindR (ConfigForColor p color) (\<lambda>cfg. Inr (cc_task_options cfg))"

definition DefaultPerTaskMesh :: "hlo_partition \<Rightarrow> color \<Rightarrow> device_list statusor" where
  "DefaultPerTaskMesh p color = bindR (ConfigForColor p color) (\<lambda>config. Inr (cc_devices config))"

definition NumDevicesForInstruction :: "hlo_partition \<Rightarrow> color option \<Rightarrow> int statusor" where
  "NumDevicesForInstruction p ic =
     (case ic of
        Some c \<Rightarrow> bindR (ConfigForColor p c) (\<lambda>config. Inr (dl_size (cc_devices config)))
      | None \<Rightarrow> Inr (dl_size (p_devices p)))"

definition IsBackprop_color :: "hlo_partition \<Rightarrow> color \<Rightarrow> bool" where
  "IsBackprop_color p color =
     (case p_colors p color of None \<Rightarrow> False | Some cfg \<Rightarrow> cc_backprop cfg)"

definition IsBackprop :: "hlo_partition \<Rightarrow> color option \<Rightarrow> bool" where
  "IsBackprop p ic = (case ic of Some c \<Rightarrow> \<not> IsBackprop_color p c | None \<Rightarrow> False)"

definition IsNonCritical_color :: "hlo_partition \<Rightarrow> color \<Rightarrow> bool" where
  "IsNonCritical_color p color =
     (case p_colors p color of None \<Rightarrow> False | Some cfg \<Rightarrow> cc_noncritical cfg)"

definition IsCritical :: "hlo_partition \<Rightarrow> color option \<Rightarrow> bool statusor" where
  "IsCritical p ic =
     (case ic of None \<Rightarrow> Inl (Undefined ''no color'') | Some c \<Rightarrow> Inr (\<not> IsNonCritical_color p c))"

definition IsNonCritical :: "hlo_partition \<Rightarrow> color option \<Rightarrow> bool" where
  "IsNonCritical p ic = (case ic of Some c \<Rightarrow> IsNonCritical_color p c | None \<Rightarrow> False)"

definition EquivalentMesh :: "hlo_partition \<Rightarrow> color \<Rightarrow> color \<Rightarrow> bool statusor" where
  "EquivalentMesh p lhs_color rhs_color =
     bindR (ConfigForColor p lhs_color) (\<lambda>lhs_config.
     bindR (ConfigForColor p rhs_color) (\<lambda>rhs_config.
     if dl_size (cc_devices lhs_config) \<noteq> dl_size (cc_devices rhs_config) then Inr False
     else if to_loop_dependent_devices (cc_task_options lhs_config) = None \<and>
             to_loop_dependent_devices (cc_task_options rhs_config) = None then Inr True
     else Inr False))"

definition SameMesh :: "hlo_partition \<Rightarrow> color option \<Rightarrow> color option \<Rightarrow> bool statusor" where
  "SameMesh p lhs rhs =
     (case lhs of None \<Rightarrow> Inr False
      | Some lhs_color \<Rightarrow>
        (case rhs of None \<Rightarrow> Inr False
         | Some rhs_color \<Rightarrow>
             bindR (ConfigForColor p lhs_color) (\<lambda>lhs_config.
             bindR (ConfigForColor p rhs_color) (\<lambda>rhs_config.
             if cc_devices lhs_config \<noteq> cc_devices rhs_config then Inr False
             else if to_loop_dependent_devices (cc_task_options lhs_config) = None \<and>
                     to_loop_dependent_devices (cc_task_options rhs_config) = None then Inr True
             else Inr False))))"

definition IsLoopIncrementColor :: "color \<Rightarrow> bool" where
  "IsLoopIncrementColor color \<longleftrightarrow> starts_with color kLoopIncrementColor"

definition OriginalColor :: "hlo_partition \<Rightarrow> color \<Rightarrow> color" where
  "OriginalColor p color = (case p_original_color p color of Some c \<Rightarrow> c | None \<Rightarrow> color)"

definition FindColor :: "hlo_partition \<Rightarrow> device_list \<Rightarrow> color option statusor" where
  "FindColor p devices =
     (case p_device_list_to_colors p devices of
        None \<Rightarrow> Inr None
      | Some [] \<Rightarrow> Inl (Undefined ''front of an empty vector'')
      | Some (c # cs) \<Rightarrow> Inr (Some c))"

section \<open>Updates\<close>

definition SetColorAsNonCritical :: "device_list \<Rightarrow> hlo_partition \<Rightarrow> color \<Rightarrow> hlo_partition" where
  "SetColorAsNonCritical dl0 p color =
     (let cfg = (case p_colors p color of Some cfg \<Rightarrow> cfg
                 | None \<Rightarrow> \<lparr>cc_name = '''', cc_devices = dl0, cc_backprop = False,
                            cc_noncritical = False, cc_task_options = task_options_default\<rparr>) in
      p\<lparr>p_colors := (p_colors p)(color \<mapsto> cfg\<lparr>cc_noncritical := True\<rparr>)\<rparr>)"

definition AllocateColor_config :: "hlo_partition \<Rightarrow> color_config \<Rightarrow> color \<times> hlo_partition" where
  "AllocateColor_config p config =
     (let color = p_max_color p;
          config = (if p_colors p (cc_name config) \<noteq> None
                    then config\<lparr>cc_name := cc_name config @ ''.'' @ show_nat color\<rparr> else config);
          dcs = (case p_device_list_to_colors p (cc_devices config) of None \<Rightarrow> [] | Some cs \<Rightarrow> cs) in
      (cc_name config,
       p\<lparr>p_max_color := Suc color,
         p_device_list_to_colors :=
           (p_device_list_to_colors p)(cc_devices config \<mapsto> dcs @ [cc_name config]),
         p_colors := (p_colors p)(cc_name config \<mapsto> config)\<rparr>))"

definition AllocateColor ::
  "hlo_partition \<Rightarrow> string \<Rightarrow> device_list \<Rightarrow> task_options \<Rightarrow> color \<times> hlo_partition" where
  "AllocateColor p name devices opts =
     AllocateColor_config p \<lparr>cc_name = name, cc_devices = devices, cc_backprop = False,
       cc_noncritical = False, cc_task_options = opts\<rparr>"

definition FindOrAllocateDefaultColor ::
  "(device_list \<Rightarrow> int) \<Rightarrow> hlo_partition \<Rightarrow> device_list \<Rightarrow> (color \<times> hlo_partition) statusor" where
  "FindOrAllocateDefaultColor stop p devices =
     (case p_device_list_to_colors p devices of
        None \<Rightarrow> Inr (AllocateColor p
                  (''devices_'' @ show_int (dl_start devices) @ ''-'' @ show_int (stop devices))
                  devices task_options_default)
      | Some [] \<Rightarrow> Inl (InternalError ''device list added to map, but has no assigned colors'')
      | Some (c # cs) \<Rightarrow> Inr (c, p))"

definition FindOrAllocateGlobalColor ::
  "(device_list \<Rightarrow> int) \<Rightarrow> hlo_partition \<Rightarrow> (color \<times> hlo_partition) statusor" where
  "FindOrAllocateGlobalColor stop p = FindOrAllocateDefaultColor stop p (p_devices p)"

definition AllocateLoopIncrementColor :: "hlo_partition \<Rightarrow> color \<times> hlo_partition" where
  "AllocateLoopIncrementColor p =
     AllocateColor p kLoopIncrementColor (p_devices p) task_options_default"

definition CloneColor ::
  "hlo_partition \<Rightarrow> color \<Rightarrow> color \<Rightarrow> device_list option \<Rightarrow> task_options option
     \<Rightarrow> (color \<times> hlo_partition) statusor" where
  "CloneColor p existing_color new_color devices_override task_options_override =
     (case p_colors p existing_color of
        None \<Rightarrow> Inl (InvalidArgument
          (''attempting to clone from non-existent color: '' @ existing_color))
      | Some cfg \<Rightarrow>
          if p_colors p new_color \<noteq> None
          then Inl (InvalidArgument (''color '' @ new_color @ ''exists when cloning '' @ existing_color))
          else let cfg = (case devices_override of None \<Rightarrow> cfg | Some d \<Rightarrow> cfg\<lparr>cc_devices := d\<rparr>);
                   cfg = (case task_options_override of None \<Rightarrow> cfg
                          | Some t \<Rightarrow> cfg\<lparr>cc_task_options := t\<rparr>) in
               Inr (new_color, p\<lparr>p_colors := (p_colors p)(new_color \<mapsto> cfg)\<rparr>))"

text \<open>
  \<open>Recolor\<close> walks a hash map from new to old colors. The list gives the entries in the
  order of that walk.
\<close>

fun recolor_loop ::
  "(color \<rightharpoonup> color_config) \<Rightarrow> (color \<times> color) list \<Rightarrow> (color \<rightharpoonup> color_config) \<Rightarrow> (color \<rightharpoonup> color)
     \<Rightarrow> ((color \<rightharpoonup> color_config) \<times> (color \<rightharpoonup> color)) statusor" where
  "recolor_loop colors [] new_configs original = Inr (new_configs, original)"
| "recolor_loop colors ((new_color, old_color) # rest) new_configs original =
     (case colors old_color of
        None \<Rightarrow> Inl (InvalidArgument
          (''cannot remap color '' @ old_color @ '', has not been created''))
      | Some cfg \<Rightarrow>
          recolor_loop colors rest (new_configs(new_color \<mapsto> cfg))
            (original(new_color \<mapsto>
               (case original old_color of Some mapped \<Rightarrow> mapped | None \<Rightarrow> old_color))))"

definition Recolor :: "hlo_partition \<Rightarrow> (color \<times> color) list \<Rightarrow> hlo_partition statusor" where
  "Recolor p color_map =
     bindR (recolor_loop (p_colors p) color_map Map.empty (p_original_color p)) (\<lambda>(cs, orig).
       Inr (p\<lparr>p_colors := cs, p_original_color := orig\<rparr>))"

section \<open>Tasks matched by metadata name\<close>

record named_task =
  nt_pattern :: string
  nt_match :: "string \<Rightarrow> string option"
  nt_callback :: "string \<Rightarrow> bool \<Rightarrow> task_options"

text \<open>The process-wide registration state: a stack of contexts and the enable flags.\<close>

record metadata_tasks =
  mt_enable :: bool
  mt_recompute :: bool
  mt_contexts :: "named_task list list"

definition NamedTaskContexts_init :: metadata_tasks where
  "NamedTaskContexts_init = \<lparr>mt_enable = True, mt_recompute = False, mt_contexts = [[]]\<rparr>"

definition RegisterMetadataNameTask :: "metadata_tasks \<Rightarrow> named_task \<Rightarrow> metadata_tasks statusor" where
  "RegisterMetadataNameTask mt task =
     (if mt_contexts mt = [] then Inl (Undefined ''back of an empty vector'')
      else Inr (mt\<lparr>mt_contexts := butlast (mt_contexts mt) @ [last (mt_contexts mt) @ [task]]\<rparr>))"

definition PushMetadataNameTaskContext :: "metadata_tasks \<Rightarrow> metadata_tasks" where
  "PushMetadataNameTaskContext mt = mt\<lparr>mt_contexts := mt_contexts mt @ [[]]\<rparr>"

definition PopMetadataNameTaskContext :: "metadata_tasks \<Rightarrow> metadata_tasks statusor" where
  "PopMetadataNameTaskContext mt =
     (if mt_contexts mt = [] then Inl (Undefined ''pop_back of an empty vector'')
      else Inr (mt\<lparr>mt_contexts := butlast (mt_contexts mt)\<rparr>))"

definition ClearMetadataNameTasks :: "metadata_tasks \<Rightarrow> metadata_tasks" where
  "ClearMetadataNameTasks mt = mt\<lparr>mt_contexts := [[]]\<rparr>"

definition SetEnableMetadataNameTasks :: "metadata_tasks \<Rightarrow> bool \<Rightarrow> metadata_tasks" where
  "SetEnableMetadataNameTasks mt flag = mt\<lparr>mt_enable := flag\<rparr>"

definition EnableMultiMeshRecomputation :: "metadata_tasks \<Rightarrow> bool \<Rightarrow> metadata_tasks" where
  "EnableMultiMeshRecomputation mt enable = mt\<lparr>mt_recompute := enable\<rparr>"

text \<open>
  One matched task. The name is moved out of the options before they are stored, which
  leaves an empty string behind.
\<close>

definition matched_task ::
  "hlo_partition \<Rightarrow> string \<Rightarrow> named_task \<Rightarrow> string \<Rightarrow> (color \<times> hlo_partition) statusor" where
  "matched_task p metadata_op_name task matched_name =
     (if matched_name = ''''
      then Inl (InvalidArgument (''matcher '' @ nt_pattern task @ '' produced an empty match on ''
             @ metadata_op_name))
      else let backprop = str_contains metadata_op_name kJvpTransposeMetadata in
      case p_matched_colors p (matched_name, backprop) of
        Some c \<Rightarrow> Inr (c, p)
      | None \<Rightarrow>
          let opts = nt_callback task matched_name backprop in
          (case to_name opts of
             None \<Rightarrow> Inl (InvalidArgument (''matcher '' @ matched_name
                       @ '' produed TaskOptions with no name specified''))
           | Some name \<Rightarrow>
               if to_devices opts = []
               then Inl (InvalidArgument (matched_name @ '' with color '' @ name
                      @ '' returned empty device vector''))
               else let dl = dl_create (hd (to_devices opts)) (int (length (to_devices opts))) in
               case p_colors p name of
                 Some cfg \<Rightarrow>
                   if dl \<noteq> cc_devices cfg
                   then Inl (InvalidArgument (''task '' @ matched_name @ '' on color '' @ name
                          @ '' was previously allocated with different device list, cannot ''
                          @ ''have multiple submeshes for a color''))
                   else Inr (name, p)
               | None \<Rightarrow>
                   let (uniquified_name, p') = AllocateColor p name dl (opts\<lparr>to_name := Some ''''\<rparr>) in
                   if uniquified_name \<noteq> name
                   then Inl (InternalError (''color '' @ name @ '' was already allocated with ''
                          @ ''mismatched config, cannot reallocate''))
                   else let p2 = p'\<lparr>p_colors := (p_colors p')(name \<mapsto>
                                   (the (p_colors p' name))\<lparr>cc_backprop := backprop\<rparr>)\<rparr> in
                   Inr (name, p2\<lparr>p_matched_colors :=
                          (p_matched_colors p2)((matched_name, backprop) \<mapsto> name)\<rparr>)))"

fun match_tasks ::
  "hlo_partition \<Rightarrow> string \<Rightarrow> named_task list \<Rightarrow> (color option \<times> hlo_partition) statusor" where
  "match_tasks p metadata_op_name [] = Inr (None, p)"
| "match_tasks p metadata_op_name (task # tasks) =
     (case nt_match task metadata_op_name of
        Some matched_name \<Rightarrow>
          bindR (matched_task p metadata_op_name task matched_name) (\<lambda>(c, p'). Inr (Some c, p'))
      | None \<Rightarrow> match_tasks p metadata_op_name tasks)"

definition ComputeMetadataNameColor ::
  "metadata_tasks \<Rightarrow> hlo_partition \<Rightarrow> string \<Rightarrow> (color option \<times> hlo_partition) statusor" where
  "ComputeMetadataNameColor mt p metadata_op_name =
     (if \<not> mt_enable mt then Inr (None, p)
      else if metadata_op_name = '''' then Inr (None, p)
      else match_tasks p metadata_op_name (concat (rev (mt_contexts mt))))"

text \<open>Computations of a module proto, as the opcode and custom-call target of each instruction.\<close>

definition ContainsMultiMeshCustomCall :: "(string \<times> string) list list \<Rightarrow> bool" where
  "ContainsMultiMeshCustomCall comps \<longleftrightarrow>
     list_ex (\<lambda>comp. list_ex (\<lambda>(op, target).
       op = ''custom-call'' \<and> target \<in> set kMultiMeshCustomCallTargets) comp) comps"

section \<open>The registry contract\<close>

text \<open>
  What a client of the registry relies on: a color found for a device list has those
  devices, and an allocated color is new, has the requested devices and disturbs no other
  color.
\<close>

locale color_registry =
  fixes ok :: "'p \<Rightarrow> bool"
    and devs :: "'p \<Rightarrow> color \<Rightarrow> device_list option"
    and find :: "'p \<Rightarrow> device_list \<Rightarrow> color option statusor"
    and ok_name :: "'p \<Rightarrow> string \<Rightarrow> bool"
    and alloc :: "'p \<Rightarrow> string \<Rightarrow> device_list \<Rightarrow> 'o \<Rightarrow> color \<times> 'p"
  assumes find_total: "ok p \<Longrightarrow> \<exists>r. find p d = Inr r"
    and find_sound: "ok p \<Longrightarrow> find p d = Inr (Some c) \<Longrightarrow> devs p c = Some d"
    and alloc_ok: "ok p \<Longrightarrow> ok_name p n \<Longrightarrow> alloc p n d t = (c, p') \<Longrightarrow> ok p'"
    and alloc_devs: "ok p \<Longrightarrow> ok_name p n \<Longrightarrow> alloc p n d t = (c, p') \<Longrightarrow>
          devs p c = None \<and> devs p' = (devs p)(c \<mapsto> d)"
    and alloc_find: "ok p \<Longrightarrow> ok_name p n \<Longrightarrow> find p d = Inr None \<Longrightarrow> alloc p n d t = (c, p') \<Longrightarrow>
          find p' d = Inr (Some c)"
begin

definition find_or_alloc :: "'p \<Rightarrow> string \<Rightarrow> device_list \<Rightarrow> 'o \<Rightarrow> (color \<times> 'p) statusor" where
  "find_or_alloc p n d t =
     bindR (find p d) (\<lambda>r. case r of Some c \<Rightarrow> Inr (c, p) | None \<Rightarrow> Inr (alloc p n d t))"

lemma find_or_alloc_total:
  assumes "ok p" and "ok_name p n"
  obtains c p' where "find_or_alloc p n d t = Inr (c, p')"
    and "ok p'" and "devs p' c = Some d" and "find p' d = Inr (Some c)"
    and "\<And>c'. devs p c' \<noteq> None \<Longrightarrow> devs p' c' = devs p c'"
proof -
  obtain r where r: "find p d = Inr r" using find_total[OF assms(1)] by blast
  show thesis
  proof (cases r)
    case None
    obtain c p' where a: "alloc p n d t = (c, p')" by (cases "alloc p n d t")
    show thesis
    proof (rule that[of c p'])
      show "find_or_alloc p n d t = Inr (c, p')"
        using r None a by (simp add: find_or_alloc_def)
      show "ok p'" using assms a by (rule alloc_ok)
      show "devs p' c = Some d" "\<And>c'. devs p c' \<noteq> None \<Longrightarrow> devs p' c' = devs p c'"
        using alloc_devs[OF assms a] by auto
      show "find p' d = Inr (Some c)"
        using alloc_find[OF assms _ a] r None by simp
    qed
  next
    case (Some c)
    show thesis
      by (rule that[of c p]) (use assms r Some find_sound in \<open>simp_all add: find_or_alloc_def\<close>)
  qed
qed

end

definition color_devices :: "hlo_partition \<Rightarrow> color \<Rightarrow> device_list option" where
  "color_devices p c = map_option cc_devices (p_colors p c)"

text \<open>
  The registry's invariant: a device list in the index has colors, all registered on that
  list; remembered matches are registered; and no registered name already carries a numeric
  suffix that a later allocation may append.
\<close>

definition reserved_name :: "hlo_partition \<Rightarrow> string \<Rightarrow> bool" where
  "reserved_name p n \<longleftrightarrow> (\<exists>base k. p_max_color p \<le> k \<and> n = base @ ''.'' @ show_nat k)"

definition registry_ok :: "hlo_partition \<Rightarrow> bool" where
  "registry_ok p \<longleftrightarrow>
     (\<forall>dl cs. p_device_list_to_colors p dl = Some cs \<longrightarrow>
        cs \<noteq> [] \<and> (\<forall>c \<in> set cs. color_devices p c = Some dl)) \<and>
     (\<forall>mn c. p_matched_colors p mn = Some c \<longrightarrow> p_colors p c \<noteq> None) \<and>
     (\<forall>c. p_colors p c \<noteq> None \<longrightarrow> \<not> reserved_name p c)"

lemma registry_ok_Create [simp]: "registry_ok (Create d)"
  by (simp add: registry_ok_def Create_def)

lemma show_int_no_dot [simp]: "CHR ''.'' \<notin> set (show_int i)"
  by (simp add: show_int_def)

lemma dotless_not_reserved: "CHR ''.'' \<notin> set n \<Longrightarrow> \<not> reserved_name p n"
  by (auto simp: reserved_name_def)

lemma reserved_name_suffix: "reserved_name p (n @ ''.'' @ show_nat k) \<longleftrightarrow> p_max_color p \<le> k"
proof
  assume "reserved_name p (n @ ''.'' @ show_nat k)"
  then obtain base j where "p_max_color p \<le> j" and "n @ ''.'' @ show_nat k = base @ ''.'' @ show_nat j"
    by (auto simp: reserved_name_def)
  then show "p_max_color p \<le> k"
    using dot_suffix_inject[of n "show_nat k" base "show_nat j"] by auto
qed (auto simp: reserved_name_def)

lemma AllocateColor_fields:
  assumes "AllocateColor p n d t = (c, p')"
  shows "c = (if p_colors p n = None then n else n @ ''.'' @ show_nat (p_max_color p))"
    and "p_max_color p' = Suc (p_max_color p)"
    and "p_matched_colors p' = p_matched_colors p"
    and "p_original_color p' = p_original_color p"
    and "p_devices p' = p_devices p"
    and "p_device_list_to_colors p' = (p_device_list_to_colors p)(d \<mapsto>
           (case p_device_list_to_colors p d of None \<Rightarrow> [] | Some cs \<Rightarrow> cs) @ [c])"
    and "p_colors p' = (p_colors p)(c \<mapsto> \<lparr>cc_name = c, cc_devices = d, cc_backprop = False,
           cc_noncritical = False, cc_task_options = t\<rparr>)"
  using assms by (auto simp: AllocateColor_def AllocateColor_config_def Let_def split: if_splits)

lemma AllocateColor_fresh:
  assumes "registry_ok p" and "AllocateColor p n d t = (c, p')"
  shows "p_colors p c = None"
proof (cases "p_colors p n")
  case None
  then show ?thesis using AllocateColor_fields(1)[OF assms(2)] by simp
next
  case (Some cfg)
  then have "c = n @ ''.'' @ show_nat (p_max_color p)"
    using AllocateColor_fields(1)[OF assms(2)] by simp
  then have "reserved_name p c" by (simp only: reserved_name_suffix)
  then show ?thesis using assms(1) by (auto simp: registry_ok_def)
qed

lemma AllocateColor_registry_ok:
  assumes ok: "registry_ok p" and nm: "\<not> reserved_name p n" and a: "AllocateColor p n d t = (c, p')"
  shows "registry_ok p'"
proof -
  note f = AllocateColor_fields[OF a] and fresh = AllocateColor_fresh[OF ok a]
  have dv: "color_devices p' = (color_devices p)(c \<mapsto> d)"
    by (auto simp: color_devices_def f(7))
  have old: "color_devices p' c' = Some dl" if "color_devices p c' = Some dl" for c' dl
    using that fresh by (auto simp: dv color_devices_def)
  have rc: "\<not> reserved_name p' c"
    using nm f(1) reserved_name_suffix[of p' n "p_max_color p"] f(2)
    by (auto simp: reserved_name_def split: if_splits)
  have mono: "reserved_name p' x \<Longrightarrow> reserved_name p x" for x
    unfolding reserved_name_def f(2) by (metis Suc_leD)
  show ?thesis
    unfolding registry_ok_def
  proof (intro conjI allI impI)
    fix dl cs assume cs: "p_device_list_to_colors p' dl = Some cs"
    show "cs \<noteq> []"
      using cs ok by (auto simp: f(6) registry_ok_def split: if_splits)
    show "\<forall>c\<in>set cs. color_devices p' c = Some dl"
    proof
      fix c' assume "c' \<in> set cs"
      then have "c' = c \<and> dl = d \<or> color_devices p c' = Some dl"
        using cs ok by (auto simp: f(6) registry_ok_def split: if_splits option.splits)
      then show "color_devices p' c' = Some dl" using old[of c' dl] fun_cong[OF dv, of c'] by auto
    qed
  next
    fix mn c' assume "p_matched_colors p' mn = Some c'"
    then show "p_colors p' c' \<noteq> None"
      using ok by (cases mn) (auto simp: f(3,7) registry_ok_def)
  next
    fix c' assume "p_colors p' c' \<noteq> None"
    then show "\<not> reserved_name p' c'"
      using ok rc mono by (auto simp: f(7) registry_ok_def split: if_splits)
  qed
qed

lemma AllocateColor_devices:
  assumes "registry_ok p" and "AllocateColor p n d t = (c, p')"
  shows "color_devices p c = None \<and> color_devices p' = (color_devices p)(c \<mapsto> d)"
  using AllocateColor_fresh[OF assms] AllocateColor_fields(7)[OF assms(2)]
  by (auto simp: color_devices_def)

interpretation registry: color_registry registry_ok color_devices FindColor
    "\<lambda>p n. \<not> reserved_name p n" AllocateColor
proof unfold_locales
  fix p d
  assume "registry_ok p"
  then show "\<exists>r. FindColor p d = Inr r"
    by (auto simp: FindColor_def registry_ok_def split: option.splits list.splits)
next
  fix p d c
  assume "registry_ok p" and "FindColor p d = Inr (Some c)"
  then show "color_devices p c = Some d"
    by (auto simp: FindColor_def registry_ok_def split: option.splits list.splits)
next
  fix p n d t c p'
  assume a: "registry_ok p" "\<not> reserved_name p n" "AllocateColor p n d t = (c, p')"
  show "registry_ok p'"
    using a by (rule AllocateColor_registry_ok)
  show "color_devices p c = None \<and> color_devices p' = (color_devices p)(c \<mapsto> d)"
    using a(1,3) by (rule AllocateColor_devices)
  show "FindColor p' d = Inr (Some c)" if "FindColor p d = Inr None"
    using that AllocateColor_fields(6)[OF a(3)]
    by (auto simp: FindColor_def split: option.splits list.splits)
qed

lemma FindOrAllocateDefaultColor_find_or_alloc:
  assumes "registry_ok p"
  shows "FindOrAllocateDefaultColor stop p d =
     registry.find_or_alloc p
       (''devices_'' @ show_int (dl_start d) @ ''-'' @ show_int (stop d)) d task_options_default"
  using assms
  by (auto simp: FindOrAllocateDefaultColor_def registry.find_or_alloc_def FindColor_def
      registry_ok_def split: option.splits list.splits)

lemma DevicesForColor_iff: "DevicesForColor p c = Inr d \<longleftrightarrow> color_devices p c = Some d"
  by (auto simp: DevicesForColor_def ConfigForColor_def color_devices_def split: option.splits)

section \<open>Properties\<close>

lemma default_color_not_reserved:
  "\<not> reserved_name p (''devices_'' @ show_int a @ ''-'' @ show_int b)"
  by (rule dotless_not_reserved) simp

text \<open>
  Asking for the default color of a device list never fails on a consistent registry:
  it returns a color registered on exactly those devices, keeps every existing color and the
  registry's consistency, and asking again returns the same color without allocating.
\<close>

theorem default_color_found:
  assumes "registry_ok p"
  shows "\<exists>c p'. FindOrAllocateDefaultColor stop p d = Inr (c, p') \<and> registry_ok p' \<and>
           DevicesForColor p' c = Inr d \<and>
           (\<forall>c' d'. DevicesForColor p c' = Inr d' \<longrightarrow> DevicesForColor p' c' = Inr d') \<and>
           FindOrAllocateDefaultColor stop p' d = Inr (c, p')"
proof -
  let ?n = "''devices_'' @ show_int (dl_start d) @ ''-'' @ show_int (stop d)"
  obtain c p' where f: "registry.find_or_alloc p ?n d task_options_default = Inr (c, p')"
    and ok: "registry_ok p'" and "color_devices p' c = Some d" and again: "FindColor p' d = Inr (Some c)"
    and "\<And>c'. color_devices p c' \<noteq> None \<Longrightarrow> color_devices p' c' = color_devices p c'"
    using registry.find_or_alloc_total[OF assms default_color_not_reserved] by metis
  moreover have "FindOrAllocateDefaultColor stop p' d = Inr (c, p')"
    using again by (simp add: FindOrAllocateDefaultColor_find_or_alloc[OF ok] registry.find_or_alloc_def)
  ultimately show ?thesis
    using FindOrAllocateDefaultColor_find_or_alloc[OF assms, of stop d]
    by (auto simp: DevicesForColor_iff)
qed

theorem default_color_found_witness:
  "\<exists>c p'. FindOrAllocateDefaultColor (\<lambda>d. dl_start d + dl_size d) (Create (dl_create 0 8)) (dl_create 0 4)
       = Inr (c, p') \<and> DevicesForColor p' c = Inr (dl_create 0 4)"
  using default_color_found[of "Create (dl_create 0 8)" "\<lambda>d. dl_start d + dl_size d" "dl_create 0 4"]
  by auto



text \<open>
  The suffix that makes a name unique is not itself checked. After the colors \<open>a\<close> and
  \<open>a.2\<close> were allocated on devices 0..3, allocating \<open>a\<close> again on devices 4..7 returns \<open>a.2\<close>
  and replaces the devices that color had.
\<close>

theorem allocate_color_may_overwrite:
  "let p0 = Create (dl_create 0 8);
       p1 = snd (AllocateColor p0 ''a'' (dl_create 0 4) task_options_default);
       p2 = snd (AllocateColor p1 ''a.2'' (dl_create 0 4) task_options_default);
       (c, p3) = AllocateColor p2 ''a'' (dl_create 4 4) task_options_default
   in c = ''a.2'' \<and> HasColor p2 c \<and> DevicesForColor p2 c = Inr (dl_create 0 4) \<and>
      DevicesForColor p3 c = Inr (dl_create 4 4)"
proof -
  have "show_nat 2 = ''2''" by code_simp
  then show ?thesis
    by (simp add: AllocateColor_def AllocateColor_config_def Create_def HasColor_def
        DevicesForColor_def ConfigForColor_def Let_def numeral_2_eq_2)
qed

subsection \<open>Recoloring\<close>

definition color_of_map :: "(color \<rightharpoonup> color) \<Rightarrow> color \<Rightarrow> color" where
  "color_of_map original c = (case original c of Some d \<Rightarrow> d | None \<Rightarrow> c)"

lemma OriginalColor_eq: "OriginalColor p c = color_of_map (p_original_color p) c"
  by (simp add: OriginalColor_def color_of_map_def)

lemma recolor_loop_defined:
  "(\<exists>r. recolor_loop colors cm nc og = Inr r) \<longleftrightarrow> (\<forall>(n, old) \<in> set cm. colors old \<noteq> None)"
proof (induction cm arbitrary: nc og)
  case (Cons e cm)
  then show ?case by (cases e; cases "colors (snd e)") (simp_all del: fun_upd_apply)
qed simp

lemma recolor_loop_configs:
  assumes "recolor_loop colors cm nc og = Inr (cs, og')" and "distinct (map fst cm)"
  shows "cs n = (case map_of cm n of Some old \<Rightarrow> colors old | None \<Rightarrow> nc n)"
  using assms
proof (induction cm arbitrary: nc og)
  case (Cons e cm)
  obtain n0 o0 where e: "e = (n0, o0)" by (cases e)
  obtain cfg og0 where cfg: "colors o0 = Some cfg"
    and rec: "recolor_loop colors cm (nc(n0 \<mapsto> cfg)) og0 = Inr (cs, og')"
    using Cons.prems(1) by (auto simp: e split: option.splits)
  have "map_of cm n0 = None"
    using Cons.prems(2) by (simp add: e map_of_eq_None_iff)
  then show ?case
    using Cons.IH[OF rec] Cons.prems(2) cfg by (simp add: e split: option.splits)
qed simp

text \<open>
  An entry that renames a color which is itself the target of a renaming must be an
  identity; otherwise the recorded original color depends on the order of the walk.
\<close>

definition order_free :: "(color \<times> color) list \<Rightarrow> bool" where
  "order_free cm \<longleftrightarrow> (\<forall>(n, old) \<in> set cm. \<forall>(n', old') \<in> set cm. n = old' \<longrightarrow> n = old)"

lemma order_free_ConsD:
  assumes "order_free ((n0, o0) # cm)"
  shows "order_free cm" and "(n, old) \<in> set ((n0, o0) # cm) \<Longrightarrow> old = n0 \<Longrightarrow> o0 = n0"
  using assms by (force simp: order_free_def)+

lemma recolor_loop_original_other:
  "recolor_loop colors cm nc og = Inr (cs, og') \<Longrightarrow> n \<notin> fst ` set cm \<Longrightarrow> og' n = og n"
  by (induction colors cm nc og rule: recolor_loop.induct) (auto split: option.splits)

lemma recolor_loop_original:
  assumes "recolor_loop colors cm nc og = Inr (cs, og')" and "distinct (map fst cm)"
    and "order_free cm" and "(n, old) \<in> set cm"
  shows "og' n = Some (color_of_map og old)"
  using assms
proof (induction cm arbitrary: nc og)
  case (Cons e cm)
  obtain n0 o0 where e: "e = (n0, o0)" by (cases e)
  let ?og = "og(n0 \<mapsto> color_of_map og o0)"
  obtain cfg where rec: "recolor_loop colors cm (nc(n0 \<mapsto> cfg)) ?og = Inr (cs, og')"
    using Cons.prems(1) by (auto simp: e color_of_map_def split: option.splits)
  show ?case
  proof (cases "(n, old) = (n0, o0)")
    case True
    then have "n \<notin> fst ` set cm" using Cons.prems(2) by (simp add: e)
    then show ?thesis using recolor_loop_original_other[OF rec] True by simp
  next
    case False
    then have "(n, old) \<in> set cm" using Cons.prems(4) by (auto simp: e)
    then have "og' n = Some (color_of_map ?og old)"
      using Cons.IH[OF rec] Cons.prems(2) order_free_ConsD(1)[of n0 o0 cm] Cons.prems(3)
      by (simp add: e del: fun_upd_apply)
    moreover have "old = n0 \<Longrightarrow> o0 = n0"
      using order_free_ConsD(2)[of n0 o0 cm n old] Cons.prems(3,4) unfolding e by blast
    ultimately show ?thesis by (auto simp: color_of_map_def)
  qed
qed simp

text \<open>
  C40. Recoloring succeeds exactly when every old color exists. Then the registered colors are
  exactly the new ones, each with the configuration of its old color, and the original color
  of a new color is that of its old color, provided the map is free of chains.
\<close>

theorem recolor_correct:
  assumes "distinct (map fst cm)"
  shows "((\<exists>p'. Recolor p cm = Inr p') \<longleftrightarrow> (\<forall>(n, old) \<in> set cm. HasColor p old)) \<and>
         (\<forall>p'. Recolor p cm = Inr p' \<longrightarrow>
            (\<forall>n. p_colors p' n = (case map_of cm n of Some old \<Rightarrow> p_colors p old | None \<Rightarrow> None)) \<and>
            (order_free cm \<longrightarrow> (\<forall>(n, old) \<in> set cm. OriginalColor p' n = OriginalColor p old)))"
proof (intro conjI allI impI)
  show "(\<exists>p'. Recolor p cm = Inr p') \<longleftrightarrow> (\<forall>(n, old) \<in> set cm. HasColor p old)"
    using recolor_loop_defined[of "p_colors p" cm Map.empty "p_original_color p"]
    by (auto simp: Recolor_def HasColor_def bindR_Inr_iff)
next
  fix p' assume "Recolor p cm = Inr p'"
  then obtain cs og where r: "recolor_loop (p_colors p) cm Map.empty (p_original_color p) = Inr (cs, og)"
    and p': "p' = p\<lparr>p_colors := cs, p_original_color := og\<rparr>"
    by (auto simp: Recolor_def bindR_Inr_iff)
  show "p_colors p' n = (case map_of cm n of Some old \<Rightarrow> p_colors p old | None \<Rightarrow> None)" for n
    using recolor_loop_configs[OF r assms] by (simp add: p')
  show "\<forall>(n, old) \<in> set cm. OriginalColor p' n = OriginalColor p old" if "order_free cm"
    using recolor_loop_original[OF r assms that]
    by (auto simp: OriginalColor_eq p' color_of_map_def[of og])
qed

definition two_colors :: hlo_partition where
  "two_colors = snd (AllocateColor (snd (AllocateColor (Create (dl_create 0 8)) ''a'' (dl_create 0 4)
     task_options_default)) ''b'' (dl_create 4 4) task_options_default)"

lemma two_colors_HasColor: "HasColor two_colors c \<longleftrightarrow> c = ''a'' \<or> c = ''b''"
  by (simp add: two_colors_def AllocateColor_def AllocateColor_config_def Create_def HasColor_def)

theorem recolor_correct_witness:
  "\<exists>p'. Recolor two_colors [(''a'', ''a''), (''0.a'', ''a'')] = Inr p'"
proof -
  have d: "distinct (map fst [(''a'', ''a''), (''0.a'', ''a'')])" by simp
  show ?thesis using recolor_correct[OF d, of two_colors] by (simp add: two_colors_HasColor)
qed

text \<open>
  Recoloring does not touch the index from device lists to colors: after it, \<open>FindColor\<close>
  can return a color that is no longer registered, for which \<open>DevicesForColor\<close> aborts.
\<close>

theorem recolor_leaves_stale_index:
  "\<exists>p' c. Recolor two_colors [(''a'', ''a'')] = Inr p' \<and>
     FindColor p' (dl_create 4 4) = Inr (Some c) \<and> \<not> HasColor p' c \<and>
     (\<exists>msg. DevicesForColor p' c = Inl (Fatal msg))"
  by (simp add: two_colors_def AllocateColor_def AllocateColor_config_def Create_def HasColor_def
      Recolor_def FindColor_def DevicesForColor_def ConfigForColor_def dl_create_def)

subsection \<open>Cloning, criticality, meshes\<close>

text \<open>
  A clone exists afterwards with the devices and options of its source unless they are
  overridden; cloning an unknown color or onto an existing one is refused; no other color
  changes.
\<close>

theorem clone_color_correct:
  "(case CloneColor p c new dov tov of
      Inl e \<Rightarrow> \<not> (HasColor p c \<and> \<not> HasColor p new) \<and> (\<exists>msg. e = InvalidArgument msg)
    | Inr (n, p') \<Rightarrow> n = new \<and> HasColor p c \<and> \<not> HasColor p new \<and>
        DevicesForColor p' new = (case dov of None \<Rightarrow> DevicesForColor p c | Some d \<Rightarrow> Inr d) \<and>
        GetTaskOptions p' new = (case tov of None \<Rightarrow> GetTaskOptions p c | Some t \<Rightarrow> Inr t) \<and>
        p_colors p' = (p_colors p)(new := p_colors p' new))"
  by (auto simp: CloneColor_def HasColor_def DevicesForColor_def GetTaskOptions_def
      ConfigForColor_def Let_def fun_eq_iff split: option.splits)

text \<open>
  The query \<open>IsBackprop\<close> on an instruction is the negation of the query on its color: an
  instruction of a color registered as backprop is reported as not backprop.
\<close>

lemma is_backprop_inverted: "IsBackprop p (Some c) \<longleftrightarrow> \<not> IsBackprop_color p c"
  by (simp add: IsBackprop_def)

text \<open>
  Instructions on the same mesh have colors with equivalent meshes; mesh equivalence is
  symmetric.
\<close>

theorem same_mesh_equivalent:
  assumes "SameMesh p (Some a) (Some b) = Inr True"
  shows "EquivalentMesh p a b = Inr True \<and> EquivalentMesh p b a = Inr True"
  using assms
  by (cases "p_colors p a"; cases "p_colors p b")
    (auto simp: SameMesh_def EquivalentMesh_def ConfigForColor_def split: if_splits)

theorem same_mesh_equivalent_witness:
  "EquivalentMesh two_colors ''a'' ''a'' = Inr True"
proof -
  have "SameMesh two_colors (Some ''a'') (Some ''a'') = Inr True"
    by (simp add: SameMesh_def two_colors_def AllocateColor_def AllocateColor_config_def Create_def
        ConfigForColor_def task_options_default_def)
  then show ?thesis using same_mesh_equivalent by blast
qed

subsection \<open>Metadata names\<close>

lemma matched_task_allocates:
  assumes "p_colors p name = None" and "AllocateColor p name d t = (c, p')"
  shows "c = name" and "p_colors p' name \<noteq> None"
  using AllocateColor_fields(1,7)[OF assms(2)] assms(1) by simp_all

lemma matched_task_no_internal: "matched_task p op task mn \<noteq> Inl (InternalError msg)"
  using matched_task_allocates(1)
  by (auto simp: matched_task_def Let_def split: option.splits prod.splits)

lemma matched_task_InrE:
  assumes "matched_task p op task mn = Inr (c, p')"
  obtains (same) "p' = p" and "p_matched_colors p (mn, str_contains op kJvpTransposeMetadata) = Some c
              \<or> p_colors p c \<noteq> None"
    | (new) "mn \<noteq> ''''" and "p_matched_colors p' (mn, str_contains op kJvpTransposeMetadata) = Some c"
        and "p_colors p' c \<noteq> None"
proof -
  let ?bp = "str_contains op kJvpTransposeMetadata"
  let ?o = "nt_callback task mn ?bp"
  have ne: "mn \<noteq> ''''" using assms by (auto simp: matched_task_def split: if_splits)
  show thesis
  proof (cases "p_matched_colors p (mn, ?bp)")
    case (Some c')
    then show thesis using assms ne same by (simp add: matched_task_def)
  next
    case None
    note hit = None
    obtain name where name: "to_name ?o = Some name"
      using assms ne hit by (cases "to_name ?o") (simp_all add: matched_task_def)
    have dev: "to_devices ?o \<noteq> []"
      using assms ne hit name by (auto simp: matched_task_def)
    show thesis
    proof (cases "p_colors p name")
      case (Some cfg)
      then show thesis
        using assms ne hit name dev same by (auto simp: matched_task_def Let_def split: if_splits)
    next
      case None
      let ?a = "AllocateColor p name (dl_create (hd (to_devices ?o)) (int (length (to_devices ?o))))
                  (?o\<lparr>to_name := Some ''''\<rparr>)"
      obtain c' p1 where al: "?a = (c', p1)" by (cases ?a)
      with None have "c' = name" by (rule matched_task_allocates(1))
      then show thesis
        using assms ne hit name dev None al new by (auto simp: matched_task_def Let_def)
    qed
  qed
qed

lemma matched_task_stable:
  assumes "registry_ok p" and "matched_task p op task mn = Inr (c, p')"
  shows "HasColor p' c" and "matched_task p' op task mn = Inr (c, p')"
proof -
  have "HasColor p' c \<and> matched_task p' op task mn = Inr (c, p')"
    using assms(2)
  proof (cases rule: matched_task_InrE)
    case same
    then show ?thesis using assms by (auto simp: HasColor_def registry_ok_def)
  next
    case new
    then show ?thesis by (simp add: HasColor_def matched_task_def)
  qed
  then show "HasColor p' c" and "matched_task p' op task mn = Inr (c, p')" by simp_all
qed

lemma match_tasks_stable:
  assumes "registry_ok p" and "match_tasks p op ts = Inr (Some c, p')"
  shows "HasColor p' c \<and> match_tasks p' op ts = Inr (Some c, p')"
  using assms(2)
proof (induction ts)
  case (Cons t ts)
  show ?case
  proof (cases "nt_match t op")
    case None
    then show ?thesis using Cons by simp
  next
    case (Some mn)
    then have "matched_task p op t mn = Inr (c, p')"
      using Cons.prems by (auto elim!: bindR_InrE)
    then show ?thesis
      using matched_task_stable[OF assms(1), of op t mn c p'] Some by simp
  qed
qed simp

lemma match_tasks_no_internal: "match_tasks p op ts \<noteq> Inl (InternalError msg)"
  by (induction ts)
    (auto simp: bindR_def matched_task_no_internal split: option.splits sum.splits)

text \<open>
  Coloring by metadata name is stable: the color it returns is registered, and asking
  again for the same metadata returns the same color and changes nothing. The internal
  error for a name that had to be made unique cannot occur.
\<close>

theorem metadata_color_stable:
  assumes "registry_ok p" and "ComputeMetadataNameColor mt p op = Inr (Some c, p')"
  shows "HasColor p' c \<and> ComputeMetadataNameColor mt p' op = Inr (Some c, p') \<and>
         (\<forall>q msg. ComputeMetadataNameColor mt q op \<noteq> Inl (InternalError msg))"
proof -
  have on: "mt_enable mt" "op \<noteq> ''''"
    and m: "match_tasks p op (concat (rev (mt_contexts mt))) = Inr (Some c, p')"
    using assms(2) by (simp_all add: ComputeMetadataNameColor_def split: if_splits)
  show ?thesis
    using match_tasks_stable[OF assms(1) m] match_tasks_no_internal[of _ op] on
    by (simp add: ComputeMetadataNameColor_def)
qed

definition layer_tasks :: metadata_tasks where
  "layer_tasks = NamedTaskContexts_init\<lparr>mt_contexts :=
     [[\<lparr>nt_pattern = ''layer'',
        nt_match = (\<lambda>s. if str_contains s ''layer'' then Some ''layer'' else None),
        nt_callback = (\<lambda>mn bp. task_options_default\<lparr>to_name := Some (if bp then ''bwd'' else ''fwd''),
                        to_devices := [0, 1]\<rparr>)\<rparr>]]\<rparr>"

theorem metadata_color_stable_witness:
  "\<exists>p'. ComputeMetadataNameColor layer_tasks (Create (dl_create 0 8)) ''jit/layer/dot'' = Inr (Some ''fwd'', p')
     \<and> HasColor p' ''fwd'' \<and> ComputeMetadataNameColor layer_tasks p' ''jit/layer/dot'' = Inr (Some ''fwd'', p')"
proof -
  have "\<exists>p'. ComputeMetadataNameColor layer_tasks (Create (dl_create 0 8)) ''jit/layer/dot''
      = Inr (Some ''fwd'', p')"
    by (simp add: layer_tasks_def NamedTaskContexts_init_def ComputeMetadataNameColor_def matched_task_def
        kJvpTransposeMetadata_def starts_with_def Create_def task_options_default_def
        AllocateColor_def AllocateColor_config_def Let_def)
  then show ?thesis
    using metadata_color_stable[OF registry_ok_Create] by blast
qed

end
