(* ===== verification/Mpmd_Loop.thy ===== *)
theory Mpmd_Loop
  imports Hlo Json_Utils
begin

text \<open>
  \<open>mpmd_loop.h\<close> and \<open>mpmd_loop.cc\<close>: the configuration of a microbatch loop, its parser, and
  the submesh that a load-balanced task uses in a given iteration.
\<close>

section \<open>Loop configuration\<close>

datatype schedule_kind =
  kFillDrain | k1F1B | kWavefront | kPrefetchWavefront | kCustom | kZeroBubbleH2

type_synonym custom_schedule = "(int \<times> string) list list"

record loop_config =
  num_iterations :: int
  unique_id :: int
  microbatch_size :: int
  microbatch_dim :: int
  slice_dim :: int
  slice_param_number :: "int option"
  schedule :: schedule_kind
  interleave :: "int option"
  num_stages :: "int option"
  unrolling :: "int option"
  custom_schedule :: "custom_schedule option"

definition kScheduleTypes :: "(string \<times> schedule_kind) list" where
  "kScheduleTypes =
     [(''1f1b'', k1F1B), (''fill-drain'', kFillDrain), (''breadth-first'', kFillDrain),
      (''gpipe'', kFillDrain), (''wavefront'', kWavefront),
      (''prefetch-wavefront'', kPrefetchWavefront), (''zero-bubble-h2'', kZeroBubbleH2),
      (''custom'', kCustom)]"

definition GetMicrobatchConfig :: "'j json_api \<Rightarrow> string \<Rightarrow> string \<Rightarrow> loop_config statusor" where
  "GetMicrobatchConfig J name text =
     bindR (GetJsonValue J text) (\<lambda>json.
     bindR (GetTaskValue J (GetTaskValue_int J) json name ''num_microbatches'') (\<lambda>num_microbatches.
     bindR (GetTaskValue J (GetTaskValue_int J) json name ''size'') (\<lambda>size.
     bindR (GetTaskValue J (GetTaskValue_int J) json name ''slice_dim'') (\<lambda>slice_dim.
     bindR (GetOptionalTaskValue_default J (GetTaskValue_int J) json name ''batch_dim'' slice_dim) (\<lambda>batch_dim.
     bindR (GetOptionalTaskValue J (GetTaskValue_int J) json name ''unrolling'') (\<lambda>unrolling.
     bindR (GetOptionalTaskValue_default J (GetTaskValue_string J) json name ''schedule'' '''') (\<lambda>schedule_string.
     bindR (if schedule_string = '''' then Inr kFillDrain
            else (case map_of kScheduleTypes schedule_string of
                    None \<Rightarrow> Inl (InvalidArgument
                      (concat (''Bad schedule type given to microbatch. Allow schedules are: ''
                               # map (\<lambda>(n, _). '', '' @ n) kScheduleTypes)))
                  | Some s \<Rightarrow> Inr s)) (\<lambda>schedule.
     bindR (GetOptionalTaskValue J (GetTaskValue_int J) json name ''interleave'') (\<lambda>interleave.
     bindR (GetOptionalTaskValue J (GetTaskValue_int J) json name ''num_stages'') (\<lambda>num_stages.
     bindR (GetOptionalTaskValue J
              (GetTaskValue_vector J (GetTaskValue_vector J
                 (GetTaskValue_pair J (GetTaskValue_int64 J) (GetTaskValue_string J))))
              json name ''custom_schedule'') (\<lambda>custom_schedule.
     Inr \<lparr>num_iterations = num_microbatches, unique_id = 0, microbatch_size = size,
          microbatch_dim = batch_dim, slice_dim = slice_dim, slice_param_number = None,
          schedule = schedule, interleave = interleave, num_stages = num_stages,
          unrolling = unrolling, custom_schedule = custom_schedule\<rparr>)))))))))))"

section \<open>Loop-dependent submeshes\<close>

record submesh_config =
  task_mesh_size :: int
  global_mesh_start :: int
  global_mesh_stop :: int
  reverse :: bool

definition submesh_config_default :: submesh_config where
  "submesh_config_default =
     \<lparr>task_mesh_size = -1, global_mesh_start = -1, global_mesh_stop = -1, reverse = False\<rparr>"

definition submesh_eq :: "submesh_config \<Rightarrow> submesh_config \<Rightarrow> bool" where
  "submesh_eq lhs rhs \<longleftrightarrow>
     task_mesh_size lhs = task_mesh_size rhs \<and> reverse lhs = reverse rhs \<and>
     global_mesh_start lhs = global_mesh_start rhs \<and> global_mesh_stop lhs = global_mesh_stop rhs"

definition SubmeshForIteration :: "submesh_config \<Rightarrow> int \<Rightarrow> device_list statusor" where
  "SubmeshForIteration cfg iteration =
     (let machine_size = global_mesh_stop cfg - global_mesh_start cfg in
      if task_mesh_size cfg = 0 then Inl (Undefined ''division by zero'')
      else let num_slices = machine_size sdiv task_mesh_size cfg in
      if num_slices = 0 then Inl (Undefined ''division by zero'')
      else let stage = iteration smod num_slices;
               offset = stage * task_mesh_size cfg in
        if reverse cfg
        then let start = global_mesh_stop cfg - offset - task_mesh_size cfg in
             Inr (dl_create start (task_mesh_size cfg))
        else Inr (dl_create offset (task_mesh_size cfg)))"

section \<open>Properties\<close>

lemma submesh_eq_iff: "submesh_eq a b \<longleftrightarrow> a = (b :: submesh_config)"
  by (cases a; cases b) (auto simp: submesh_eq_def)

definition wf_submesh :: "submesh_config \<Rightarrow> bool" where
  "wf_submesh cfg \<longleftrightarrow>
     0 < task_mesh_size cfg \<and>
     task_mesh_size cfg \<le> global_mesh_stop cfg - global_mesh_start cfg"

definition num_slices :: "submesh_config \<Rightarrow> int" where
  "num_slices cfg = (global_mesh_stop cfg - global_mesh_start cfg) div task_mesh_size cfg"

lemma num_slices_pos: "wf_submesh cfg \<Longrightarrow> 0 < num_slices cfg"
  by (auto simp: wf_submesh_def num_slices_def pos_imp_zdiv_pos_iff)

lemma num_slices_fit:
  "wf_submesh cfg \<Longrightarrow>
     num_slices cfg * task_mesh_size cfg \<le> global_mesh_stop cfg - global_mesh_start cfg"
proof -
  assume "wf_submesh cfg"
  then have "0 < task_mesh_size cfg" by (simp add: wf_submesh_def)
  then show ?thesis
    unfolding num_slices_def
    by (metis mult.commute div_mult_mod_eq[of "global_mesh_stop cfg - global_mesh_start cfg"]
        le_add_same_cancel1 pos_mod_sign)
qed

lemma SubmeshForIteration_eq:
  assumes "wf_submesh cfg" and "0 \<le> it"
  shows "SubmeshForIteration cfg it =
     Inr (dl_create
       (if reverse cfg
        then global_mesh_stop cfg - (it mod num_slices cfg + 1) * task_mesh_size cfg
        else (it mod num_slices cfg) * task_mesh_size cfg) (task_mesh_size cfg))"
proof -
  have t: "0 < task_mesh_size cfg"
    and d: "0 \<le> global_mesh_stop cfg - global_mesh_start cfg"
    using assms(1) by (auto simp: wf_submesh_def)
  have n: "(global_mesh_stop cfg - global_mesh_start cfg) sdiv task_mesh_size cfg = num_slices cfg"
    using sdiv_nonneg[OF d t] by (simp add: num_slices_def)
  have p: "0 < num_slices cfg"
    using assms(1) by (rule num_slices_pos)
  show ?thesis
    using t p smod_nonneg[OF assms(2) p]
    by (simp add: SubmeshForIteration_def n Let_def algebra_simps)
qed

definition dl_disjoint :: "device_list \<Rightarrow> device_list \<Rightarrow> bool" where
  "dl_disjoint a b \<longleftrightarrow> dl_start a + dl_size a \<le> dl_start b \<or> dl_start b + dl_size b \<le> dl_start a"

lemma slices_apart:
  assumes "0 < (s::int)" and "i < j"
  shows "i * s + s \<le> j * s"
proof -
  have "(i + 1) * s \<le> j * s"
    using assms by (intro mult_right_mono) auto
  then show ?thesis by (simp add: algebra_simps)
qed

text \<open>
  Load balancing by iteration: for a well-formed configuration every iteration gets a
  submesh of the configured size, and two iterations share their submesh exactly when they
  are congruent modulo the number of slices; otherwise the two submeshes are disjoint.
\<close>

theorem submesh_cycles:
  assumes "wf_submesh cfg" and "0 \<le> i" and "0 \<le> j"
  shows "\<exists>a b. SubmeshForIteration cfg i = Inr a \<and> SubmeshForIteration cfg j = Inr b \<and>
           dl_size a = task_mesh_size cfg \<and>
           (if i mod num_slices cfg = j mod num_slices cfg then a = b else dl_disjoint a b)"
proof -
  let ?n = "num_slices cfg" and ?s = "task_mesh_size cfg"
  have s: "0 < ?s" using assms(1) by (simp add: wf_submesh_def)
  consider "i mod ?n = j mod ?n" | "i mod ?n < j mod ?n" | "j mod ?n < i mod ?n" by linarith
  then show ?thesis
  proof cases
    case 1
    then show ?thesis by (simp add: SubmeshForIteration_eq assms)
  next
    case 2
    then show ?thesis
      using slices_apart[OF s 2]
      by (simp add: SubmeshForIteration_eq assms dl_disjoint_def algebra_simps)
  next
    case 3
    then show ?thesis
      using slices_apart[OF s 3]
      by (simp add: SubmeshForIteration_eq assms dl_disjoint_def algebra_simps)
  qed
qed

theorem submesh_cycles_witness:
  "\<exists>a b. SubmeshForIteration \<lparr>task_mesh_size = 2, global_mesh_start = 0, global_mesh_stop = 8, reverse = False\<rparr> 1 = Inr a
     \<and> SubmeshForIteration \<lparr>task_mesh_size = 2, global_mesh_start = 0, global_mesh_stop = 8, reverse = False\<rparr> 3 = Inr b
     \<and> dl_size a = 2 \<and> dl_disjoint a b"
  using submesh_cycles[of "\<lparr>task_mesh_size = 2, global_mesh_start = 0, global_mesh_stop = 8, reverse = False\<rparr>" 1 3]
  by (simp add: wf_submesh_def num_slices_def)

lemma slice_within:
  assumes "wf_submesh cfg"
  shows "(it mod num_slices cfg + 1) * task_mesh_size cfg
           \<le> global_mesh_stop cfg - global_mesh_start cfg"
    and "0 \<le> (it mod num_slices cfg) * task_mesh_size cfg"
proof -
  let ?n = "num_slices cfg" and ?s = "task_mesh_size cfg"
  have s: "0 < ?s" and n: "0 < ?n"
    using assms num_slices_pos by (auto simp: wf_submesh_def)
  have "it mod ?n + 1 \<le> ?n" using n pos_mod_bound[of ?n it] by linarith
  then have "(it mod ?n + 1) * ?s \<le> ?n * ?s" using s by (simp add: mult_right_mono)
  then show "(it mod ?n + 1) * ?s \<le> global_mesh_stop cfg - global_mesh_start cfg"
    using num_slices_fit[OF assms] by linarith
  show "0 \<le> (it mod ?n) * ?s" using s n by (simp add: pos_mod_sign)
qed

text \<open>
  The submesh of an iteration lies inside the global mesh
  [\<open>global_mesh_start\<close>, \<open>global_mesh_stop\<close>) whenever the assignment runs in reverse, or the
  global mesh starts at device 0. In forward direction the start of the global mesh is not
  added, so for a mesh that starts at a positive device iteration 0 gets a submesh that
  begins before the mesh.
\<close>

theorem submesh_within_global_mesh:
  assumes "wf_submesh cfg" and "0 \<le> it" and "SubmeshForIteration cfg it = Inr dl"
  shows "(reverse cfg \<or> global_mesh_start cfg = 0 \<longrightarrow>
            global_mesh_start cfg \<le> dl_start dl \<and> dl_start dl + dl_size dl \<le> global_mesh_stop cfg) \<and>
         (\<not> reverse cfg \<and> 0 < global_mesh_start cfg \<and> it = 0 \<longrightarrow>
            dl_start dl < global_mesh_start cfg)"
  using assms(3) slice_within[OF assms(1), of it]
  by (auto simp: SubmeshForIteration_eq[OF assms(1,2)] algebra_simps)

theorem submesh_within_global_mesh_witness:
  "SubmeshForIteration \<lparr>task_mesh_size = 2, global_mesh_start = 4, global_mesh_stop = 8, reverse = False\<rparr> 0
     = Inr (dl_create 0 2) \<and> dl_start (dl_create 0 2) < 4"
proof -
  let ?c = "\<lparr>task_mesh_size = 2, global_mesh_start = 4, global_mesh_stop = 8, reverse = False\<rparr>"
  have h: "SubmeshForIteration ?c 0 = Inr (dl_create 0 2)"
    by (simp add: SubmeshForIteration_eq wf_submesh_def num_slices_def)
  show ?thesis
    using submesh_within_global_mesh[of ?c 0 "dl_create 0 2"] h by (simp add: wf_submesh_def)
qed

lemma GetTaskValue_Inr_iff [statusor]:
  "GetTaskValue J rd p c n = Inr r \<longleftrightarrow> \<not> jisNull J (jget J p n) \<and> rd (jget J p n) = Some r"
  by (auto simp: GetTaskValue_def Let_def split: option.splits)

lemma GetOptionalTaskValue_default_Inr_iff [statusor]:
  "GetOptionalTaskValue_default J rd p c n d = Inr r \<longleftrightarrow>
     (if jisNull J (jget J p n) then r = d else rd (jget J p n) = Some r)"
  by (auto simp: GetOptionalTaskValue_default_def Let_def split: option.splits)

lemma GetOptionalTaskValue_Inr_iff [statusor]:
  "GetOptionalTaskValue J rd p c n = Inr r \<longleftrightarrow>
     (if jisNull J (jget J p n) then r = None else \<exists>v. rd (jget J p n) = Some v \<and> r = Some v)"
  by (auto simp: GetOptionalTaskValue_def Let_def split: option.splits)

text \<open>
  A microbatch configuration that parses takes its iteration count, size and slice
  dimension from the three mandatory integer fields, defaults the batch dimension to the
  slice dimension, and has either the default fill-drain schedule (field absent or empty) or
  the schedule the table \<open>kScheduleTypes\<close> gives for the named string.
\<close>

theorem microbatch_config_fields:
  assumes "GetMicrobatchConfig J name text = Inr cfg"
  shows "\<exists>json. jparse J text = Some json \<and>
     GetTaskValue_int J (jget J json ''num_microbatches'') = Some (num_iterations cfg) \<and>
     GetTaskValue_int J (jget J json ''size'') = Some (microbatch_size cfg) \<and>
     GetTaskValue_int J (jget J json ''slice_dim'') = Some (slice_dim cfg) \<and>
     (jisNull J (jget J json ''batch_dim'') \<longrightarrow> microbatch_dim cfg = slice_dim cfg) \<and>
     (if jisNull J (jget J json ''schedule'') then schedule cfg = kFillDrain
      else \<exists>s. GetTaskValue_string J (jget J json ''schedule'') = Some s \<and>
             (if s = '''' then schedule cfg = kFillDrain
              else map_of kScheduleTypes s = Some (schedule cfg)))"
  using assms unfolding GetMicrobatchConfig_def
proof (elim bindR_InrE, goal_cases)
  case (1 json nm sz sd bd un ss sch il ns cs)
  then show ?case
    by (intro exI[of _ json])
      (auto simp: GetJsonValue_def GetTaskValue_Inr_iff GetOptionalTaskValue_default_Inr_iff
        split: option.splits if_splits)
qed

text \<open>A JSON document with the mandatory fields only, for the witness.\<close>

definition tiny_json :: "(int + string) option json_api" where
  "tiny_json = \<lparr>jparse = (\<lambda>t. Some None), jwrite = (\<lambda>v. ''''), jisNull = (\<lambda>v. v = None),
     jisBool = (\<lambda>v. False), jisInt = (\<lambda>v. case v of Some (Inl i) \<Rightarrow> True | _ \<Rightarrow> False),
     jisString = (\<lambda>v. v \<noteq> None), jisArray = (\<lambda>v. False), jasBool = (\<lambda>v. False),
     jasInt = (\<lambda>v. case v of Some (Inl i) \<Rightarrow> i | _ \<Rightarrow> 0),
     jasString = (\<lambda>v. case v of Some (Inr s) \<Rightarrow> s | _ \<Rightarrow> ''''), jelements = (\<lambda>v. []),
     jget = (\<lambda>v k. if k = ''num_microbatches'' then Some (Inl 4)
                   else if k = ''size'' then Some (Inl 2)
                   else if k = ''slice_dim'' then Some (Inl 1)
                   else if k = ''schedule'' then Some (Inr ''1f1b'') else None),
     jarray = (\<lambda>vs. None), jstring = (\<lambda>s. Some (Inr s)), jsingleton = (\<lambda>k v. None)\<rparr>"

lemma tiny_json_config:
  "GetMicrobatchConfig tiny_json ''loop'' ''{}'' =
     Inr \<lparr>num_iterations = 4, unique_id = 0, microbatch_size = 2, microbatch_dim = 1, slice_dim = 1,
          slice_param_number = None, schedule = k1F1B, interleave = None, num_stages = None,
          unrolling = None, custom_schedule = None\<rparr>"
  by (simp add: GetMicrobatchConfig_def GetJsonValue_def GetTaskValue_def
      GetOptionalTaskValue_default_def GetOptionalTaskValue_def GetTaskValue_int_def
      GetTaskValue_string_def tiny_json_def kScheduleTypes_def)

theorem microbatch_config_fields_witness:
  "\<exists>json. jparse tiny_json ''{}'' = Some json \<and>
     GetTaskValue_int tiny_json (jget tiny_json json ''num_microbatches'') = Some 4 \<and>
     (\<exists>s. GetTaskValue_string tiny_json (jget tiny_json json ''schedule'') = Some s \<and>
        map_of kScheduleTypes ''1f1b'' = Some k1F1B)"
  using microbatch_config_fields[OF tiny_json_config]
  by (auto simp: tiny_json_def GetTaskValue_string_def kScheduleTypes_def)

end
