(* ===== verification/Loop_Scheduler.thy ===== *)
theory Loop_Scheduler
  imports Hlo_Partition Mpmd_Loop "HOL-Library.Sublist"
begin

text \<open>
  \<open>loop_scheduler.cc\<close>: the order in which the tasks of an unrolled microbatch loop are
  launched. \<open>tasks\<close> is the matrix iteration by stage; a schedule is a list of rows.

  Two orders are not fixed by the source: the iteration order of a hash set
  (\<open>hash_order\<close>) and the order in which a priority queue pops entries of equal priority
  (\<open>pop_order\<close>). Both are parameters. Logging, and the timers of the zero-bubble schedule
  that only feed the log, are left out. The 32-bit \<open>int\<close> variables hold task and
  iteration counts and are unbounded here.
\<close>

type_synonym task_matrix = "iid list list"

section \<open>Unrolling loop increments\<close>

definition color_at :: "hlo_module \<Rightarrow> iid \<Rightarrow> color statusor" where
  "color_at m t = (case Color m t of None \<Rightarrow> Inl (Undefined ''no color'') | Some c \<Rightarrow> Inr c)"

definition GetIndicesToUnroll :: "hlo_module \<Rightarrow> task_matrix \<Rightarrow> nat list statusor" where
  "GetIndicesToUnroll m tasks =
     bindR (subR tasks 0) (\<lambda>row.
     foldR (\<lambda>indices task_index.
       bindR (color_at m (row ! task_index)) (\<lambda>c.
       Inr (if IsLoopIncrementColor c then indices @ [task_index] else indices)))
     [] [0..<length row])"

definition push_task :: "task_matrix \<Rightarrow> nat \<Rightarrow> iid \<Rightarrow> task_matrix statusor" where
  "push_task sched row t =
     (if row < length sched then Inr (sched[row := sched ! row @ [t]])
      else Inl (Undefined ''subscript''))"

definition task_at :: "task_matrix \<Rightarrow> int \<Rightarrow> nat \<Rightarrow> iid statusor" where
  "task_at tasks iter stage = bindR (subZ tasks iter) (\<lambda>row. subR row stage)"

definition UnrollLoopIncrementTasks ::
  "(nat list \<Rightarrow> nat list) \<Rightarrow> task_matrix \<Rightarrow> nat list \<Rightarrow> task_matrix \<Rightarrow> (task_matrix \<times> task_matrix) statusor" where
  "UnrollLoopIncrementTasks hash_order tasks indices sched =
     bindR (foldR (\<lambda>sched (task_index, iter).
              bindR (task_at tasks (int iter) task_index) (\<lambda>t. push_task sched 0 t)) sched
              (concat (map (\<lambda>i. map (\<lambda>iter. (i, iter)) [0..<length tasks]) (hash_order indices)))) (\<lambda>sched'.
     Inr (sched', map (\<lambda>row. map ((!) row) (filter (\<lambda>j. j \<notin> set indices) [0..<length row])) tasks))"

section \<open>Fill-drain\<close>

definition gpipe_slots :: "nat \<Rightarrow> nat \<Rightarrow> (nat \<times> nat) list" where
  "gpipe_slots n k = concat (map (\<lambda>stage. map (\<lambda>iter. (iter, stage)) [0..<n]) [0..<k])"

definition ScheduleGpipe :: "loop_config \<Rightarrow> task_matrix \<Rightarrow> task_matrix statusor" where
  "ScheduleGpipe config tasks =
     bindR (subR tasks 0) (\<lambda>row0.
     foldR (\<lambda>sched (iter, task_index).
       bindR (task_at tasks (int iter) task_index) (\<lambda>t. push_task sched 0 t))
     [[]] (gpipe_slots (nat (num_iterations config)) (length row0)))"

section \<open>Wavefront\<close>

text \<open>The distinct submeshes of a row, without tasks on the global mesh, and the number of such tasks.\<close>

definition count_groups ::
  "hlo_partition \<Rightarrow> hlo_module \<Rightarrow> iid list \<Rightarrow> (int \<times> int) statusor" where
  "count_groups p m row =
     bindR (foldR (\<lambda>(groups, npt) task.
              bindR (color_at m task) (\<lambda>c.
              bindR (DevicesForColor p c) (\<lambda>devices.
              if dl_size devices \<noteq> TotalDevices p
              then Inr (List.insert devices groups, npt + 1) else Inr (groups, npt)))) ([], 0) row) (\<lambda>(groups, npt).
     Inr (max 1 (int (length groups)), npt))"

definition wavefront_step ::
  "task_matrix \<Rightarrow> int \<Rightarrow> int \<Rightarrow> int \<Rightarrow> task_matrix \<Rightarrow> int \<times> nat \<Rightarrow> task_matrix statusor" where
  "wavefront_step tasks delay minibatch_size num_microbatches sched wfs =
     (let (wf, stage) = wfs; tick = wf - int stage in
      if delay = 0 then Inl (Undefined ''division by zero'')
      else let minibatch = tick sdiv delay; minibatch_offset = tick smod delay in
      if 0 \<le> tick \<and> minibatch_offset < minibatch_size
      then let microbatch = minibatch * minibatch_size + minibatch_offset in
           if microbatch < num_microbatches
           then bindR (task_at tasks microbatch stage) (\<lambda>t. push_task sched 0 t)
           else Inr sched
      else Inr sched)"

definition next_minibatch_delay :: "loop_config \<Rightarrow> int \<Rightarrow> int" where
  "next_minibatch_delay config num_pipeline_tasks =
     (case Mpmd_Loop.num_stages config of Some s \<Rightarrow> s
      | None \<Rightarrow> max 1 ((num_pipeline_tasks + 1) sdiv 2))"

definition ScheduleWavefront_into ::
  "hlo_partition \<Rightarrow> hlo_module \<Rightarrow> task_matrix \<Rightarrow> loop_config \<Rightarrow> task_matrix \<Rightarrow> task_matrix statusor" where
  "ScheduleWavefront_into p m tasks config sched =
     (if tasks = [] then Inr sched
      else if length sched \<noteq> 1 then Inl (InvalidArgument ''Schedule must be a single vector'')
      else bindR (count_groups p m (hd tasks)) (\<lambda>(num_groups, num_pipeline_tasks).
      let delay = next_minibatch_delay config num_pipeline_tasks;
          num_stages = length (hd tasks);
          minibatch_size = num_groups;
          num_microbatches = num_iterations config;
          num_minibatches = (num_iterations config + num_groups - 1) sdiv num_groups;
          num_wavefronts = int num_stages + num_minibatches * delay in
      foldR (wavefront_step tasks delay minibatch_size num_microbatches) sched
        (concat (map (\<lambda>wf. map (\<lambda>stage. (wf, stage)) (rev [0..<num_stages])) [0..num_wavefronts - 1]))))"

definition SchedulePrefetchWavefront_indices ::
  "(nat list \<Rightarrow> nat list) \<Rightarrow> hlo_partition \<Rightarrow> hlo_module \<Rightarrow> loop_config \<Rightarrow> nat list \<Rightarrow> task_matrix
     \<Rightarrow> task_matrix statusor" where
  "SchedulePrefetchWavefront_indices hash_order p m config indices tasks =
     bindR (UnrollLoopIncrementTasks hash_order tasks indices [[]]) (\<lambda>(sched, remaining_tasks).
     ScheduleWavefront_into p m remaining_tasks config sched)"

definition ScheduleWavefront ::
  "(nat list \<Rightarrow> nat list) \<Rightarrow> hlo_partition \<Rightarrow> hlo_module \<Rightarrow> loop_config \<Rightarrow> task_matrix \<Rightarrow> task_matrix statusor" where
  "ScheduleWavefront hash_order p m config tasks =
     (if tasks = [] \<or> hd tasks = [] then Inr [[]]
      else if length (hd tasks) = 1 then ScheduleGpipe config tasks
      else bindR (GetIndicesToUnroll m tasks) (\<lambda>indices.
           SchedulePrefetchWavefront_indices hash_order p m config indices tasks))"

definition SchedulePrefetchWavefront ::
  "(nat list \<Rightarrow> nat list) \<Rightarrow> hlo_partition \<Rightarrow> hlo_module \<Rightarrow> loop_config \<Rightarrow> task_matrix \<Rightarrow> task_matrix statusor" where
  "SchedulePrefetchWavefront hash_order p m config tasks =
     (if tasks = [] \<or> hd tasks = [] then Inr [[]]
      else if length (hd tasks) = 1 then ScheduleGpipe config tasks
      else bindR (GetIndicesToUnroll m tasks) (\<lambda>indices.
           if indices \<noteq> [] then SchedulePrefetchWavefront_indices hash_order p m config indices tasks
           else ScheduleWavefront hash_order p m config tasks))"

section \<open>Custom schedules\<close>

definition schedule_names :: "custom_schedule \<Rightarrow> string list" where
  "schedule_names cs = remdups (map snd (concat cs))"

definition task_map_step ::
  "hlo_module \<Rightarrow> task_matrix \<Rightarrow> ((int \<times> string) \<rightharpoonup> iid) \<Rightarrow> nat \<times> string \<times> nat
     \<Rightarrow> ((int \<times> string) \<rightharpoonup> iid) statusor" where
  "task_map_step m tasks task_map e =
     (let (iter, task_name, idx) = e in
      bindR (task_at tasks (int iter) idx) (\<lambda>t.
      if str_contains (ColorOrDefault m t) task_name
      then if task_map (int iter, task_name) \<noteq> None
           then Inl (InvalidArgument (''Task '' @ task_name
                  @ '' appears multiple times in microbatch row '' @ show_nat iter))
           else Inr (task_map((int iter, task_name) \<mapsto> t))
      else Inr task_map))"

definition ScheduleCustomSchedule ::
  "(string list \<Rightarrow> string list) \<Rightarrow> hlo_module \<Rightarrow> custom_schedule \<Rightarrow> task_matrix \<Rightarrow> task_matrix \<Rightarrow> task_matrix statusor" where
  "ScheduleCustomSchedule name_order m cs tasks sched =
     bindR (subR tasks 0) (\<lambda>front.
     let num_microbatches = length tasks; tasks_per_iter = length front;
         names = name_order (schedule_names cs) in
     bindR (foldR (\<lambda>_ task_name.
              let count = count_list (map snd (concat cs)) task_name in
              if count \<noteq> num_microbatches
              then Inl (InvalidArgument (''Task '' @ task_name @ '' appears '' @ show_nat count
                     @ '' times in custom schedule, expected '' @ show_nat num_microbatches))
              else Inr ()) () names) (\<lambda>_.
     bindR (foldR (task_map_step m tasks) Map.empty
              (concat (map (\<lambda>iter. concat (map (\<lambda>task_name.
                 map (\<lambda>idx. (iter, task_name, idx)) [0..<tasks_per_iter]) names))
                 [0..<num_microbatches]))) (\<lambda>task_map.
     foldR (\<lambda>sched (mesh_id, iter, task_name).
       case task_map (iter, task_name) of
         None \<Rightarrow> Inl (InvalidArgument (''Task '' @ task_name @ '' not found in task map!''))
       | Some t \<Rightarrow> push_task sched mesh_id t) sched
       (concat (map (\<lambda>mesh_id. map (\<lambda>e. (mesh_id, e)) (cs ! mesh_id)) [0..<length cs])))))"

definition ScheduleCustom ::
  "(nat list \<Rightarrow> nat list) \<Rightarrow> (string list \<Rightarrow> string list) \<Rightarrow> hlo_module \<Rightarrow> loop_config \<Rightarrow> task_matrix
     \<Rightarrow> task_matrix statusor" where
  "ScheduleCustom hash_order name_order m config tasks =
     (case Mpmd_Loop.custom_schedule config of
        None \<Rightarrow> Inl (Throws ''Needs custom schedule or callback'')
      | Some cs \<Rightarrow>
          bindR (GetIndicesToUnroll m tasks) (\<lambda>indices.
          bindR (UnrollLoopIncrementTasks hash_order tasks indices (replicate (length cs) [])) (\<lambda>(sched, remaining_tasks).
          ScheduleCustomSchedule name_order m cs remaining_tasks sched)))"

section \<open>Zero bubble\<close>

text \<open>Entries of the non-critical queue: partner stage and stage.\<close>

definition critical_at :: "hlo_partition \<Rightarrow> hlo_module \<Rightarrow> iid \<Rightarrow> bool statusor" where
  "critical_at p m t = IsCritical p (Color m t)"

text \<open>
  The critical stages of the first row, in order; the tasks of a critical stage get that
  stage as their number, in every iteration.
\<close>

definition critical_stages ::
  "hlo_partition \<Rightarrow> hlo_module \<Rightarrow> task_matrix \<Rightarrow> ((iid \<rightharpoonup> nat) \<times> task_matrix \<times> nat) statusor" where
  "critical_stages p m tasks =
     foldR (\<lambda>(numbers, reordered, num_pipeline_tasks) stage.
       bindR (critical_at p m (hd tasks ! stage)) (\<lambda>crit.
       if crit
       then bindR (mapR (\<lambda>row. subR row stage) tasks) (\<lambda>column.
            Inr (foldl (\<lambda>f t. f(t \<mapsto> stage)) numbers column,
                 map2 (\<lambda>row t. row @ [t]) reordered column, Suc num_pipeline_tasks))
       else Inr (numbers, reordered, num_pipeline_tasks)))
     (Map.empty, map (\<lambda>_. []) tasks, 0) [0..<length (hd tasks)]"

definition critical_partner_stage :: "hlo_module \<Rightarrow> (iid \<rightharpoonup> nat) \<Rightarrow> iid \<Rightarrow> nat" where
  "critical_partner_stage m numbers t =
     foldl (\<lambda>best call_operand. case numbers call_operand of None \<Rightarrow> best | Some s \<Rightarrow> max best s) 0
       (concat (map (operands m) (operands m t)))"

definition non_critical_stages ::
  "hlo_partition \<Rightarrow> hlo_module \<Rightarrow> task_matrix \<Rightarrow> (iid \<rightharpoonup> nat) \<Rightarrow> (nat \<times> nat) list" where
  "non_critical_stages p m tasks numbers =
     concat (map (\<lambda>stage. let t = last tasks ! stage in
               if IsNonCritical p (Color m t) then [(critical_partner_stage m numbers t, stage)] else [])
       [0..<length (last tasks)])"

text \<open>The entries (wavefront, microbatch, stage) of the second queue, popped in increasing order.\<close>

definition zero_bubble_groups :: "int \<Rightarrow> int \<Rightarrow> int \<Rightarrow> nat \<Rightarrow> (int \<times> int \<times> nat) list" where
  "zero_bubble_groups num_minibatches minibatch_size delay stages =
     concat (map (\<lambda>minibatch. concat (map (\<lambda>mb. map (\<lambda>stage.
         (minibatch * delay + mb + int stage, minibatch * minibatch_size + mb, stage))
       [0..<stages]) [0..minibatch_size - 1])) [0..num_minibatches - 1])"

definition group_le :: "int \<times> int \<times> nat \<Rightarrow> int \<times> int \<times> nat \<Rightarrow> bool" where
  "group_le a b \<longleftrightarrow>
     (let (wf, mb, s) = a; (wf', mb', s') = b in
      if wf \<noteq> wf' then wf < wf' else if mb \<noteq> mb' then mb < mb' else s \<le> s')"

fun insert_group :: "int \<times> int \<times> nat \<Rightarrow> (int \<times> int \<times> nat) list \<Rightarrow> (int \<times> int \<times> nat) list" where
  "insert_group x [] = [x]"
| "insert_group x (y # ys) = (if group_le x y then x # y # ys else y # insert_group x ys)"

definition pop_groups :: "(int \<times> int \<times> nat) list \<Rightarrow> (int \<times> int \<times> nat) list" where
  "pop_groups xs = foldr insert_group xs []"

definition ScheduleZeroBubble ::
  "((nat \<times> nat) list \<Rightarrow> (nat \<times> nat) list) \<Rightarrow> hlo_partition \<Rightarrow> hlo_module \<Rightarrow> loop_config \<Rightarrow> task_matrix
     \<Rightarrow> task_matrix statusor" where
  "ScheduleZeroBubble pop_order p m config tasks =
     (if tasks = [] then Inr []
      else bindR (critical_stages p m tasks) (\<lambda>(numbers, reordered, num_pipeline_tasks).
      bindR (foldR (\<lambda>reordered (partner, stage).
               bindR (mapR (\<lambda>row. subR row stage) tasks) (\<lambda>column.
               Inr (map2 (\<lambda>row t. row @ [t]) reordered column)))
               reordered (pop_order (non_critical_stages p m tasks numbers))) (\<lambda>reordered_tasks.
      bindR (count_groups p m (hd tasks)) (\<lambda>(num_groups, _).
      let next_minibatch_delay = int ((num_pipeline_tasks + 1) div 2);
          minibatch_size = num_groups;
          num_minibatches = (num_iterations config + num_groups - 1) sdiv num_groups in
      bindR (foldR (\<lambda>order (wf, microbatch, stage).
               bindR (task_at reordered_tasks microbatch stage) (\<lambda>t.
               bindR (DevicesForInstruction p (Color m t)) (\<lambda>devices.
               bindR (critical_at p m (hd tasks ! stage)) (\<lambda>_.
               Inr (order @ [t])))))
             [] (pop_groups (zero_bubble_groups num_minibatches minibatch_size next_minibatch_delay
                   (length (hd tasks))))) (\<lambda>order.
      Inr [order])))))"

section \<open>Dispatch\<close>

definition ScheduleLoops ::
  "(nat list \<Rightarrow> nat list) \<Rightarrow> (string list \<Rightarrow> string list) \<Rightarrow> ((nat \<times> nat) list \<Rightarrow> (nat \<times> nat) list)
     \<Rightarrow> hlo_partition \<Rightarrow> hlo_module \<Rightarrow> loop_config \<Rightarrow> task_matrix \<Rightarrow> task_matrix statusor" where
  "ScheduleLoops hash_order name_order pop_order p m config tasks =
     (case schedule config of
        kCustom \<Rightarrow> ScheduleCustom hash_order name_order m config tasks
      | kFillDrain \<Rightarrow> ScheduleGpipe config tasks
      | kPrefetchWavefront \<Rightarrow> SchedulePrefetchWavefront hash_order p m config tasks
      | kZeroBubbleH2 \<Rightarrow> ScheduleZeroBubble pop_order p m config tasks
      | k1F1B \<Rightarrow> ScheduleWavefront hash_order p m config tasks
      | kWavefront \<Rightarrow> ScheduleWavefront hash_order p m config tasks)"

section \<open>Slot schedules\<close>

text \<open>
  A schedule kernel enumerates slots (iteration, stage). The contract every kernel must meet
  is that each slot of the n by k grid comes exactly once; an ordered kernel moreover
  launches the stages of an iteration in order, so that a task never precedes the task that
  feeds it.
\<close>

definition rect :: "'a list list \<Rightarrow> nat \<Rightarrow> nat \<Rightarrow> bool" where
  "rect tasks n k \<longleftrightarrow> length tasks = n \<and> (\<forall>row \<in> set tasks. length row = k)"

lemma rect_nth: "rect tasks n k \<Longrightarrow> i < n \<Longrightarrow> length (tasks ! i) = k"
  by (simp add: rect_def)

lemma concat_rect:
  "rect tasks n k \<Longrightarrow>
     concat tasks = map (\<lambda>(i, s). tasks ! i ! s) (concat (map (\<lambda>i. map (Pair i) [0..<k]) [0..<n]))"
proof (induction tasks arbitrary: n)
  case Nil
  then show ?case by (auto simp: rect_def)
next
  case (Cons row tasks)
  then obtain n' where n: "n = Suc n'" and r: "rect tasks n' k" and k: "length row = k"
    by (cases n) (auto simp: rect_def)
  have "[0..<n] = 0 # map Suc [0..<n']"
    by (simp add: n upt_conv_Cons map_Suc_upt del: upt_Suc)
  moreover have "row = map ((!) row) [0..<k]" using k by (metis map_nth)
  ultimately show ?case
    using Cons.IH[OF r] by (simp add: map_concat comp_def)
qed

locale slot_schedule =
  fixes slots :: "nat \<Rightarrow> nat \<Rightarrow> (nat \<times> nat) list"
  assumes slots_distinct: "distinct (slots n k)"
    and slots_set: "set (slots n k) = {..<n} \<times> {..<k}"
begin

lemma slots_mset: "mset (slots n k) = mset (concat (map (\<lambda>i. map (Pair i) [0..<k]) [0..<n]))"
proof (rule mset_eq_of_distinct_set[OF slots_distinct])
  show "distinct (concat (map (\<lambda>i. map (Pair i) [0..<k]) [0..<n]))"
    by (simp add: product_concat_map[symmetric] distinct_product)
  show "set (slots n k) = set (concat (map (\<lambda>i. map (Pair i) [0..<k]) [0..<n]))"
    by (auto simp: slots_set)
qed

lemma slots_launch_all:
  assumes "rect tasks n k"
  shows "mset (map (\<lambda>(i, s). tasks ! i ! s) (slots n k)) = mset (concat tasks)"
  unfolding concat_rect[OF assms] using slots_mset[of n k] by (metis mset_map)

lemma slots_length: "length (slots n k) = n * k"
  using distinct_card[OF slots_distinct[of n k]] by (simp add: slots_set card_cartesian_product)

end

locale ordered_slot_schedule = slot_schedule +
  assumes slots_ordered: "sorted_wrt (\<lambda>(i, s) (i', s'). i = i' \<longrightarrow> s < s') (slots n k)"
begin

lemma slots_dataflow:
  assumes "i < n" and "s < s'" and "s' < k"
  shows "\<exists>a b. a < b \<and> b < length (slots n k) \<and> slots n k ! a = (i, s) \<and> slots n k ! b = (i, s')"
proof -
  have "(i, s) \<in> set (slots n k)" and "(i, s') \<in> set (slots n k)"
    using assms by (auto simp: slots_set)
  then obtain a b where a: "a < length (slots n k)" "slots n k ! a = (i, s)"
    and b: "b < length (slots n k)" "slots n k ! b = (i, s')"
    by (metis in_set_conv_nth)
  moreover have "\<not> b < a"
    using sorted_wrt_nth_less[OF slots_ordered[of n k], of b a] a b assms(2) by auto
  moreover have "a \<noteq> b" using a b assms(2) by auto
  ultimately show ?thesis by (metis nat_neq_iff)
qed

end

subsection \<open>Fill-drain slots\<close>

lemma gpipe_slots_Suc: "gpipe_slots n (Suc k) = gpipe_slots n k @ map (\<lambda>i. (i, k)) [0..<n]"
  by (simp add: gpipe_slots_def)

lemma gpipe_slots_set: "set (gpipe_slots n k) = {..<n} \<times> {..<k}"
  by (auto simp: gpipe_slots_def)

interpretation gpipe: ordered_slot_schedule gpipe_slots
proof unfold_locales
  fix n k
  show "distinct (gpipe_slots n k)"
    by (induction k)
      (auto simp: gpipe_slots_Suc gpipe_slots_set distinct_map inj_on_def gpipe_slots_def[of n 0])
  show "set (gpipe_slots n k) = {..<n} \<times> {..<k}" by (rule gpipe_slots_set)
  show "sorted_wrt (\<lambda>(i, s) (i', s'). i = i' \<longrightarrow> s < s') (gpipe_slots n k)"
  proof (induction k)
    case 0
    then show ?case by (simp add: gpipe_slots_def)
  next
    case (Suc k)
    have "sorted_wrt (\<lambda>(i, s) (i', s'). i = i' \<longrightarrow> s < s') (map (\<lambda>i. (i, k)) [0..<n])"
      by (auto simp: sorted_wrt_map sorted_wrt_iff_nth_less)
    then show ?case
      using Suc by (auto simp: gpipe_slots_Suc sorted_wrt_append gpipe_slots_set)
  qed
qed

subsection \<open>Wavefront slots\<close>

text \<open>The grid of (wavefront, stage) pairs and the microbatch a pair launches, over natural numbers.\<close>

definition wavefront_grid :: "nat \<Rightarrow> nat \<Rightarrow> (nat \<times> nat) list" where
  "wavefront_grid w k = concat (map (\<lambda>wf. map (Pair wf) (rev [0..<k])) [0..<w])"

definition wavefront_live :: "nat \<Rightarrow> nat \<Rightarrow> nat \<Rightarrow> nat \<times> nat \<Rightarrow> bool" where
  "wavefront_live g d n e \<longleftrightarrow>
     snd e \<le> fst e \<and> (fst e - snd e) mod d < g \<and>
     (fst e - snd e) div d * g + (fst e - snd e) mod d < n"

definition wavefront_slot :: "nat \<Rightarrow> nat \<Rightarrow> nat \<times> nat \<Rightarrow> nat \<times> nat" where
  "wavefront_slot g d e = ((fst e - snd e) div d * g + (fst e - snd e) mod d, snd e)"

definition wavefront_slots :: "nat \<Rightarrow> nat \<Rightarrow> nat \<Rightarrow> nat \<Rightarrow> (nat \<times> nat) list" where
  "wavefront_slots g d n k =
     map (wavefront_slot g d) (filter (wavefront_live g d n)
       (wavefront_grid (k + (n + g - 1) div g * d) k))"

lemma wavefront_grid_set: "set (wavefront_grid w k) = {..<w} \<times> {..<k}"
  by (auto simp: wavefront_grid_def)

lemma wavefront_grid_Suc: "wavefront_grid (Suc w) k = wavefront_grid w k @ map (Pair w) (rev [0..<k])"
  by (simp add: wavefront_grid_def)

lemma wavefront_grid_distinct: "distinct (wavefront_grid w k)"
  by (induction w)
    (auto simp: wavefront_grid_Suc wavefront_grid_set distinct_map inj_on_def wavefront_grid_def[of 0])

lemma wavefront_grid_sorted: "sorted_wrt (\<lambda>(w, s) (w', s'). w \<le> w' \<and> (s \<le> s' \<longrightarrow> w < w')) (wavefront_grid w k)"
proof (induction w)
  case 0
  then show ?case by (simp add: wavefront_grid_def)
next
  case (Suc w)
  have "sorted_wrt (\<lambda>(w, s) (w', s'). w \<le> w' \<and> (s \<le> s' \<longrightarrow> w < w')) (map (Pair w) (rev [0..<k]))"
    by (auto simp: sorted_wrt_map sorted_wrt_iff_nth_less rev_nth)
  then show ?case
    using Suc by (auto simp: wavefront_grid_Suc sorted_wrt_append wavefront_grid_set)
qed

text \<open>The tick at which a microbatch enters the pipeline.\<close>

definition enter_tick :: "nat \<Rightarrow> nat \<Rightarrow> nat \<Rightarrow> nat" where
  "enter_tick g d b = b div g * d + b mod g"

lemma slot_tick:
  assumes "0 < g" and "0 < d" and "wavefront_live g d n (w, s)"
  shows "enter_tick g d (fst (wavefront_slot g d (w, s))) = w - s"
  using assms by (simp add: wavefront_live_def wavefront_slot_def enter_tick_def)

lemma wavefront_slots_set:
  assumes "0 < g" and "0 < d"
  shows "set (wavefront_slots g d n k) = {(b, s). b < n \<and> s < k \<and> b mod g < d}"
proof (intro set_eqI iffI)
  fix e assume "e \<in> set (wavefront_slots g d n k)"
  then show "e \<in> {(b, s). b < n \<and> s < k \<and> b mod g < d}"
    using assms
    by (auto simp: wavefront_slots_def wavefront_grid_set wavefront_live_def wavefront_slot_def)
next
  fix e assume "e \<in> {(b, s). b < n \<and> s < k \<and> b mod g < d}"
  then obtain b s where e: "e = (b, s)" and bs: "b < n" "s < k" "b mod g < d" by blast
  let ?t = "enter_tick g d b"
  have dm: "?t div d = b div g" "?t mod d = b mod g"
    using bs(3) assms by (simp_all add: enter_tick_def)
  have "b div g < (n + g - 1) div g"
  proof -
    have "b div g * g + g \<le> n + g - 1"
      using bs(1) div_mult_mod_eq[of b g] assms(1) by linarith
    then have "(b div g + 1) * g \<le> n + g - 1" by (simp add: algebra_simps)
    then show ?thesis using assms(1) less_eq_div_iff_mult_less_eq[of g "b div g + 1" "n + g - 1"] by simp
  qed
  then have "(b div g + 1) * d \<le> (n + g - 1) div g * d" by (intro mult_right_mono) auto
  then have "?t < (n + g - 1) div g * d"
    using bs(3) unfolding enter_tick_def by (simp add: algebra_simps)
  then have grid: "(?t + s, s) \<in> set (wavefront_grid (k + (n + g - 1) div g * d) k)"
    using bs(2) by (simp add: wavefront_grid_set)
  have "wavefront_live g d n (?t + s, s)" and "wavefront_slot g d (?t + s, s) = (b, s)"
    using dm bs assms by (simp_all add: wavefront_live_def wavefront_slot_def div_mult_mod_eq)
  then show "e \<in> set (wavefront_slots g d n k)"
    using grid unfolding wavefront_slots_def e set_map
    by (intro image_eqI[where x = "(?t + s, s)"]) simp_all
qed

lemma wavefront_slot_inj:
  assumes "0 < g" and "0 < d"
  shows "inj_on (wavefront_slot g d) {e. wavefront_live g d n e}"
proof (rule inj_onI)
  fix e e'
  assume l: "e \<in> {e. wavefront_live g d n e}" "e' \<in> {e. wavefront_live g d n e}"
    and eq: "wavefront_slot g d e = wavefront_slot g d e'"
  obtain w s w' s' where [simp]: "e = (w, s)" "e' = (w', s')" by (cases e, cases e')
  have "s = s'" using eq by (simp add: wavefront_slot_def)
  moreover have "w - s = w' - s'"
    using slot_tick[OF assms, of n w s] slot_tick[OF assms, of n w' s'] l eq by simp
  ultimately show "e = e'" using l by (auto simp: wavefront_live_def)
qed

lemma wavefront_slots_distinct:
  assumes "0 < g" and "0 < d"
  shows "distinct (wavefront_slots g d n k)"
  unfolding wavefront_slots_def distinct_map
  using wavefront_grid_distinct
  by (auto intro!: inj_on_subset[OF wavefront_slot_inj[OF assms, of n]])

lemma enter_tick_mono:
  assumes "0 < g" and "g \<le> d" and "b < b'"
  shows "enter_tick g d b < enter_tick g d b'"
proof (cases "b div g = b' div g")
  case True
  then have "b mod g < b' mod g"
    using assms(3) div_mult_mod_eq[of b g] div_mult_mod_eq[of b' g] by (metis nat_add_left_cancel_less)
  with True show ?thesis by (simp add: enter_tick_def)
next
  case False
  then have "b div g + 1 \<le> b' div g"
    using div_le_mono[of b b' g] assms(3) by linarith
  then have "(b div g + 1) * d \<le> b' div g * d" by (intro mult_right_mono) auto
  moreover have "b mod g < d" using assms by (meson less_le_trans mod_less_divisor)
  ultimately show ?thesis unfolding enter_tick_def by (simp add: algebra_simps)
qed

lemma enter_tick_lessD:
  assumes "0 < g" and "g \<le> d" and "enter_tick g d b < enter_tick g d b'"
  shows "b < b'"
  using assms enter_tick_mono[OF assms(1,2), of b' b] by (cases b b' rule: linorder_cases) auto

lemma wavefront_slots_ordered:
  assumes "0 < g" and "0 < d"
  shows "sorted_wrt (\<lambda>(b, s) (b', s'). b = b' \<longrightarrow> s < s') (wavefront_slots g d n k)"
    and "g \<le> d \<Longrightarrow> sorted_wrt (\<lambda>(b, s) (b', s'). s = s' \<longrightarrow> b < b') (wavefront_slots g d n k)"
proof -
  let ?G = "wavefront_grid (k + (n + g - 1) div g * d) k" and ?f = "wavefront_slot g d"
    and ?L = "wavefront_live g d n"
  let ?R = "\<lambda>(w, s) (w', s' :: nat). w \<le> w' \<and> (s \<le> s' \<longrightarrow> (w :: nat) < w')"
  have srt: "sorted_wrt ?R (filter ?L ?G)"
    using wavefront_grid_sorted by (rule sorted_wrt_filter)
  have tick: "enter_tick g d (fst (?f e)) = fst e - snd e \<and> snd e \<le> fst e \<and> snd (?f e) = snd e"
    if "e \<in> set (filter ?L ?G)" for e
    using that slot_tick[OF assms, of n "fst e" "snd e"]
    by (auto simp: wavefront_live_def wavefront_slot_def)
  show "sorted_wrt (\<lambda>(b, s) (b', s'). b = b' \<longrightarrow> s < s') (wavefront_slots g d n k)"
    unfolding wavefront_slots_def sorted_wrt_map
  proof (rule sorted_wrt_mono_rel[OF _ srt])
    fix e e' assume m: "e \<in> set (filter ?L ?G)" "e' \<in> set (filter ?L ?G)" and r: "?R e e'"
    show "(case ?f e of (b, s) \<Rightarrow> \<lambda>(b', s'). b = b' \<longrightarrow> s < s') (?f e')"
      using tick[OF m(1)] tick[OF m(2)] r by (auto split: prod.splits)
  qed
  assume gd: "g \<le> d"
  show "sorted_wrt (\<lambda>(b, s) (b', s'). s = s' \<longrightarrow> b < b') (wavefront_slots g d n k)"
    unfolding wavefront_slots_def sorted_wrt_map
  proof (rule sorted_wrt_mono_rel[OF _ srt])
    fix e e' assume m: "e \<in> set (filter ?L ?G)" "e' \<in> set (filter ?L ?G)" and r: "?R e e'"
    show "(case ?f e of (b, s) \<Rightarrow> \<lambda>(b', s'). s = s' \<longrightarrow> b < b') (?f e')"
      using tick[OF m(1)] tick[OF m(2)] r
      by (auto split: prod.splits intro: enter_tick_lessD[OF assms(1) gd])
  qed
qed


section \<open>The routines run their slots\<close>

abbreviation launched :: "task_matrix \<Rightarrow> (nat \<times> nat) list \<Rightarrow> iid list" where
  "launched tasks sl \<equiv> map (\<lambda>(i, s). tasks ! i ! s) sl"

lemma task_at_rect: "rect tasks n k \<Longrightarrow> i < n \<Longrightarrow> s < k \<Longrightarrow> task_at tasks (int i) s = Inr (tasks ! i ! s)"
  by (simp add: task_at_def rect_nth) (simp add: rect_def)

lemma push_task_first [simp]: "push_task (row # rows) 0 t = Inr ((row @ [t]) # rows)"
  by (simp add: push_task_def)

lemma push_slots:
  assumes "rect tasks n k" and "set sl \<subseteq> {..<n} \<times> {..<k}"
  shows "foldR (\<lambda>sched (i, s). bindR (task_at tasks (int i) s) (\<lambda>t. push_task sched 0 t)) (row # rows) sl
           = Inr ((row @ launched tasks sl) # rows)"
  using assms(2)
proof (induction sl arbitrary: row)
  case (Cons e sl)
  then show ?case by (cases e) (simp add: task_at_rect[OF assms(1)])
qed simp

lemma ScheduleGpipe_eq:
  assumes "rect tasks n k" and "0 < n" and "num_iterations config = int n"
  shows "ScheduleGpipe config tasks = Inr [launched tasks (gpipe_slots n k)]"
proof -
  have "subR tasks 0 = Inr (tasks ! 0)" and "length (tasks ! 0) = k"
    using assms(1,2) by (simp_all add: rect_def)
  then show ?thesis
    using push_slots[OF assms(1), of "gpipe_slots n k" "[]" "[]"] assms(3)
    by (simp add: ScheduleGpipe_def gpipe_slots_set)
qed

lemma upto_int_upt: "[0..int w - 1] = map int [0..<w]"
proof (induction w)
  case (Suc w)
  have "[0..int (Suc w) - 1] = [0..int w - 1] @ [int w]"
    by (subst upto_rec2) (auto simp: algebra_simps)
  then show ?case using Suc by simp
qed simp

lemma wavefront_step_nat:
  assumes "rect tasks n k" and "0 < d" and "s < k"
  shows "wavefront_step tasks (int d) (int g) (int n) (row # rows) (int w, s) =
     Inr ((if wavefront_live g d n (w, s)
           then row @ [(case wavefront_slot g d (w, s) of (i, t) \<Rightarrow> tasks ! i ! t)] else row) # rows)"
proof (cases "s \<le> w")
  case False
  then show ?thesis using assms(2) by (simp add: wavefront_step_def wavefront_live_def)
next
  case True
  have t: "int w - int s = int (w - s)" using True by simp
  have sd: "(int w - int s) sdiv int d = int ((w - s) div d)"
    and sm: "(int w - int s) smod int d = int ((w - s) mod d)"
    unfolding t using assms(2) by (simp_all add: sdiv_nonneg smod_nonneg zdiv_int zmod_int)
  have mb: "int ((w - s) div d) * int g + int ((w - s) mod d) = int ((w - s) div d * g + (w - s) mod d)"
    by simp
  show ?thesis
    using assms True task_at_rect[OF assms(1) _ assms(3), of "(w - s) div d * g + (w - s) mod d"]
    by (simp add: wavefront_step_def sd sm mb wavefront_live_def wavefront_slot_def Let_def
        del: of_nat_add of_nat_mult of_nat_diff)
qed

lemma wavefront_fold:
  assumes "rect tasks n k" and "0 < d" and "\<forall>(w, s) \<in> set grid. s < k"
  shows "foldR (wavefront_step tasks (int d) (int g) (int n)) (row # rows) (map (\<lambda>(w, s). (int w, s)) grid)
     = Inr ((row @ launched tasks (map (wavefront_slot g d) (filter (wavefront_live g d n) grid))) # rows)"
  using assms(3)
proof (induction grid arbitrary: row)
  case (Cons e grid)
  obtain w s where e: "e = (w, s)" by (cases e)
  have "s < k" and "\<forall>(w, s) \<in> set grid. s < k" using Cons.prems by (auto simp: e)
  then show ?case
    using wavefront_step_nat[OF assms(1,2) \<open>s < k\<close>] Cons.IH by (simp add: e)
qed simp

lemma count_groups_pos: "count_groups p m row = Inr (g, npt) \<Longrightarrow> 1 \<le> g"
  by (auto simp: count_groups_def bindR_Inr_iff)

lemma ceil_div_nat:
  assumes "0 < g"
  shows "(int n + int g - 1) sdiv int g = int ((n + g - 1) div g)"
proof -
  have "int n + int g - 1 = int (n + g - 1)" using assms by simp
  then show ?thesis using assms by (simp only: sdiv_nonneg zdiv_int of_nat_0_le_iff of_nat_0_less_iff)
qed

lemma ScheduleWavefront_into_eq:
  assumes "rect tasks n k" and "0 < n" and "num_iterations config = int n"
    and "count_groups p m (hd tasks) = Inr (int g, npt)"
    and "next_minibatch_delay config npt = int d" and "0 < d"
  shows "ScheduleWavefront_into p m tasks config [row] = Inr [row @ launched tasks (wavefront_slots g d n k)]"
proof -
  have ne: "tasks \<noteq> []" and k: "length (hd tasks) = k"
    using assms(1,2) by (auto simp: rect_def hd_conv_nth)
  have g: "0 < g" using count_groups_pos[OF assms(4)] by simp
  define q where "q = (n + g - 1) div g"
  let ?W = "k + q * d"
  have w: "int k + int q * int d - 1 = int ?W - 1" by simp
  have grid: "concat (map (\<lambda>wf. map (Pair wf) (rev [0..<k])) [0..int ?W - 1])
      = map (\<lambda>(w, s). (int w, s)) (wavefront_grid ?W k)"
    unfolding upto_int_upt wavefront_grid_def by (simp add: map_concat comp_def)
  have sl: "wavefront_slots g d n k = map (wavefront_slot g d) (filter (wavefront_live g d n) (wavefront_grid ?W k))"
    by (simp add: wavefront_slots_def q_def)
  have fold: "foldR (wavefront_step tasks (int d) (int g) (int n)) [row]
      (map (\<lambda>(w, s). (int w, s)) (wavefront_grid ?W k)) = Inr [row @ launched tasks (wavefront_slots g d n k)]"
    unfolding sl by (rule wavefront_fold[OF assms(1,6)]) (auto simp: wavefront_grid_set)
  have cd: "(int n + int g - 1) sdiv int g = int q"
    unfolding q_def by (rule ceil_div_nat[OF g])
  show ?thesis
    unfolding ScheduleWavefront_into_def using ne
    by (simp only: if_False list.size assms(3-5) bindR_simps prod.case Let_def k cd w grid fold) simp
qed

subsection \<open>Unrolled loop increments\<close>


definition kept_stages :: "nat \<Rightarrow> nat list \<Rightarrow> nat list" where
  "kept_stages k idx = filter (\<lambda>j. j \<notin> set idx) [0..<k]"

abbreviation remaining_tasks :: "task_matrix \<Rightarrow> nat \<Rightarrow> nat list \<Rightarrow> task_matrix" where
  "remaining_tasks tasks k idx \<equiv> map (\<lambda>row. map ((!) row) (kept_stages k idx)) tasks"










section \<open>Properties\<close>

text \<open>
  The fill-drain schedule launches every task of an n by k loop exactly once, and
  launches the stages of each microbatch in order.
\<close>

theorem gpipe_launches_all:
  assumes "rect tasks n k" and "0 < n" and "num_iterations config = int n"
    and "schedule config = kFillDrain"
  shows "\<exists>slots. ScheduleLoops hash_order name_order pop_order p m config tasks = Inr [launched tasks slots] \<and>
           mset (launched tasks slots) = mset (concat tasks) \<and>
           sorted_wrt (\<lambda>(i, s) (i', s'). i = i' \<longrightarrow> s < s') slots"
  using ScheduleGpipe_eq[OF assms(1-3)] gpipe.slots_launch_all[OF assms(1)] gpipe.slots_ordered
  by (intro exI[of _ "gpipe_slots n k"]) (simp add: ScheduleLoops_def assms(4))

definition sample_config :: "int \<Rightarrow> schedule_kind \<Rightarrow> loop_config" where
  "sample_config n sk = \<lparr>num_iterations = n, unique_id = 0, microbatch_size = 1, microbatch_dim = 0,
     slice_dim = 0, slice_param_number = None, schedule = sk, interleave = None, num_stages = None,
     unrolling = None, custom_schedule = None\<rparr>"

lemma sample_config_sel [simp]:
  "num_iterations (sample_config n sk) = n" "schedule (sample_config n sk) = sk"
  "Mpmd_Loop.num_stages (sample_config n sk) = None"
  by (simp_all add: sample_config_def)

theorem gpipe_launches_all_witness:
  "\<exists>slots. ScheduleLoops id id id two_colors (sample_module [] []) (sample_config 2 kFillDrain)
       [[10, 11, 12], [20, 21, 22]] = Inr [launched [[10, 11, 12], [20, 21, 22]] slots] \<and>
     mset (launched [[10, 11, 12], [20, 21, 22]] slots) = mset [10, 11, 12, 20, 21, 22]"
  using gpipe_launches_all[of "[[10, 11, 12], [20, 21, 22]]" 2 3 "sample_config 2 kFillDrain" id id id
      two_colors "sample_module [] []"]
  by (auto simp: rect_def sample_config_def)


text \<open>A pipeline of three forward stages on three disjoint submeshes of six devices.\<close>

definition three_meshes :: hlo_partition where
  "three_meshes = foldl (\<lambda>p (c, d). snd (AllocateColor p c d task_options_default)) (Create (dl_create 0 6))
     [(''a'', dl_create 0 2), (''b'', dl_create 2 2), (''c'', dl_create 4 2)]"

definition three_stage_tasks :: hlo_module where
  "three_stage_tasks = sample_module
     (map (\<lambda>(i, c). (i, blank_instr\<lparr>i_attrs := [''color'' \<mapsto> c]\<rparr>))
       [(10, ''a''), (11, ''b''), (12, ''c''), (20, ''a''), (21, ''b''), (22, ''c''),
        (30, ''a''), (31, ''b''), (32, ''c'')]) []"

lemma three_stage_colors [simp]:
  "Color three_stage_tasks 10 = Some ''a''" "Color three_stage_tasks 11 = Some ''b''"
  "Color three_stage_tasks 12 = Some ''c''" "Color three_stage_tasks 20 = Some ''a''"
  "Color three_stage_tasks 21 = Some ''b''" "Color three_stage_tasks 22 = Some ''c''"
  "Color three_stage_tasks 30 = Some ''a''" "Color three_stage_tasks 31 = Some ''b''"
  "Color three_stage_tasks 32 = Some ''c''"
  by (simp_all add: Color_def three_stage_tasks_def sample_simps)

lemma three_meshes_devices [simp]:
  "DevicesForColor three_meshes ''a'' = Inr (dl_create 0 2)"
  "DevicesForColor three_meshes ''b'' = Inr (dl_create 2 2)"
  "DevicesForColor three_meshes ''c'' = Inr (dl_create 4 2)"
  "TotalDevices three_meshes = 6"
  by (simp_all add: three_meshes_def DevicesForColor_def ConfigForColor_def TotalDevices_def
      AllocateColor_def AllocateColor_config_def Create_def HasColor_def Let_def)

lemma three_meshes_HasColor: "HasColor three_meshes c \<longleftrightarrow> c \<in> {''a'', ''b'', ''c''}"
  by (simp add: three_meshes_def AllocateColor_def AllocateColor_config_def Create_def HasColor_def Let_def)

lemma three_stage_groups:
  "count_groups three_meshes three_stage_tasks [10, 11, 12] = Inr (3, 3)"
  by (simp add: count_groups_def color_at_def List.insert_def)

lemma three_stage_indices:
  "GetIndicesToUnroll three_stage_tasks [[10, 11, 12], [20, 21, 22], [30, 31, 32]] = Inr []"
  by (simp add: GetIndicesToUnroll_def color_at_def IsLoopIncrementColor_def starts_with_def
      kLoopIncrementColor_def upt_rec)


text \<open>
  What the wavefront kernel launches in general: with g submeshes and delay d, exactly the
  slots whose microbatch b has b mod g below d, each once, the stages of a microbatch in order.
\<close>

theorem wavefront_exact:
  assumes "rect tasks n k" and "0 < n" and "num_iterations config = int n"
    and "count_groups p m (hd tasks) = Inr (int g, npt)"
    and "next_minibatch_delay config npt = int d" and "0 < d"
  shows "\<exists>slots. ScheduleWavefront_into p m tasks config [row] = Inr [row @ launched tasks slots] \<and>
           distinct slots \<and> set slots = {(b, s). b < n \<and> s < k \<and> b mod g < d} \<and>
           sorted_wrt (\<lambda>(b, s) (b', s'). b = b' \<longrightarrow> s < s') slots"
proof -
  have "0 < g" using count_groups_pos[OF assms(4)] by simp
  then show ?thesis
    using ScheduleWavefront_into_eq[OF assms] wavefront_slots_distinct[OF _ assms(6)]
      wavefront_slots_set[OF _ assms(6)] wavefront_slots_ordered(1)[OF _ assms(6)]
    by (intro exI[of _ "wavefront_slots g d n k"]) simp
qed

lemma three_stage_delay [simp]: "next_minibatch_delay (sample_config n sk) 3 = 2"
  by (simp add: next_minibatch_delay_def sample_config_def sdiv_nonneg)

theorem wavefront_exact_witness:
  "\<exists>slots. ScheduleWavefront_into three_meshes three_stage_tasks [[10, 11, 12], [20, 21, 22], [30, 31, 32]]
       (sample_config 3 kWavefront) [[]] = Inr [launched [[10, 11, 12], [20, 21, 22], [30, 31, 32]] slots] \<and>
     distinct slots \<and> set slots = {(b, s). b < 3 \<and> s < 3 \<and> b mod 3 < 2}"
  using wavefront_exact[of "[[10, 11, 12], [20, 21, 22], [30, 31, 32]]" 3 3 "sample_config 3 kWavefront"
      three_meshes three_stage_tasks 3 3 2 "[]"] three_stage_groups
  by (auto simp: rect_def)

text \<open>
  With the delay the code guesses, a forward-only pipeline on three submeshes and three
  microbatches loses the third microbatch: none of its tasks is launched, and no error is
  reported.
\<close>

theorem wavefront_guess_drops_microbatch:
  "\<exists>order. ScheduleLoops id id id three_meshes three_stage_tasks (sample_config 3 k1F1B)
       [[10, 11, 12], [20, 21, 22], [30, 31, 32]] = Inr [order] \<and>
     30 \<notin> set order \<and> 31 \<notin> set order \<and> 32 \<notin> set order"
proof -
  let ?tasks = "[[10, 11, 12], [20, 21, 22], [30, 31, 32]] :: task_matrix"
  have r: "rect ?tasks 3 3" by (simp add: rect_def)
  have w: "ScheduleWavefront_into three_meshes three_stage_tasks ?tasks (sample_config 3 k1F1B) [[]]
      = Inr [launched ?tasks (wavefront_slots 3 2 3 3)]"
    using ScheduleWavefront_into_eq[OF r, of "sample_config 3 k1F1B" three_meshes three_stage_tasks 3 3 2 "[]"]
      three_stage_groups by simp
  have u: "UnrollLoopIncrementTasks id ?tasks [] [[]] = Inr ([[]], ?tasks)"
    by (simp add: UnrollLoopIncrementTasks_def map_nth)
  have m: "b mod 3 < 2 \<longleftrightarrow> b < 2" if "b < 3" for b :: nat using that by simp
  have "set (wavefront_slots 3 2 3 3) = {..<2} \<times> {..<3}"
    using m by (subst wavefront_slots_set) auto
  moreover have "\<forall>b < 2. \<forall>s < 3. ?tasks ! b ! s \<notin> {30, 31, 32}"
    unfolding numeral_2_eq_2 numeral_3_eq_3 by (simp add: All_less_Suc)
  ultimately have "set (launched ?tasks (wavefront_slots 3 2 3 3)) \<inter> {30, 31, 32} = {}"
    by auto
  then show ?thesis
    using w u three_stage_indices
    by (intro exI[of _ "launched ?tasks (wavefront_slots 3 2 3 3)"])
      (simp add: ScheduleLoops_def ScheduleWavefront_def SchedulePrefetchWavefront_indices_def)
qed

end
