(* ===== verification/Zero_Bubble.thy ===== *)
theory Zero_Bubble
  imports Loop_Scheduler
begin

text \<open>
  The zero-bubble schedule of \<open>loop_scheduler.cc\<close>: its reordering of the stages is a
  permutation, its queue pops every (microbatch, stage) slot once and in stage order, and it
  runs off the task matrix exactly when the number of iterations is not a multiple of the
  number of submeshes.
\<close>

section \<open>Reordering the stages\<close>

abbreviation columns :: "task_matrix \<Rightarrow> nat list \<Rightarrow> task_matrix" where
  "columns tasks stages \<equiv> map (\<lambda>row. map ((!) row) stages) tasks"

lemma column_at:
  assumes "rect tasks n k" and "s < k"
  shows "mapR (\<lambda>row. subR row s) tasks = Inr (map (\<lambda>row. row ! s) tasks)"
  using assms by (intro mapR_all_Inr) (auto simp: rect_def)

lemma columns_snoc:
  "map2 (\<lambda>row t. row @ [t]) (columns tasks stages) (map (\<lambda>row. row ! s) tasks) = columns tasks (stages @ [s])"
  by (induction tasks) auto

lemma critical_stages_columns:
  assumes r: "rect tasks n k" and crit: "\<And>s. s < k \<Longrightarrow> critical_at p m (hd tasks ! s) = Inr (crit s)"
    and k: "length (hd tasks) = k"
  shows "\<exists>numbers. critical_stages p m tasks =
           Inr (numbers, columns tasks (filter crit [0..<k]), length (filter crit [0..<k]))"
proof -
  have "\<exists>num'. foldR (\<lambda>(numbers, reordered, num_pipeline_tasks) stage.
       bindR (critical_at p m (hd tasks ! stage)) (\<lambda>c.
       if c then bindR (mapR (\<lambda>row. subR row stage) tasks) (\<lambda>column.
            Inr (foldl (\<lambda>f t. f(t \<mapsto> stage)) numbers column,
                 map2 (\<lambda>row t. row @ [t]) reordered column, Suc num_pipeline_tasks))
       else Inr (numbers, reordered, num_pipeline_tasks)))
     (num, columns tasks acc, length acc) xs
     = Inr (num', columns tasks (acc @ filter crit xs), length (acc @ filter crit xs))"
    if "set xs \<subseteq> {..<k}" for xs num acc
    using that
  proof (induction xs arbitrary: num acc)
    case (Cons s xs)
    then show ?case
      using Cons.IH[of _ "acc @ [s]"] Cons.IH[of num acc]
      by (simp add: crit column_at[OF r] columns_snoc)
  qed simp
  from this[of "[0..<k]" Map.empty "[]"] show ?thesis
    by (simp add: critical_stages_def k atLeast0LessThan)
qed

lemma append_columns:
  assumes "rect tasks n k" and "set (map snd nc) \<subseteq> {..<k}"
  shows "foldR (\<lambda>reordered (partner, stage).
           bindR (mapR (\<lambda>row. subR row stage) tasks) (\<lambda>column.
           Inr (map2 (\<lambda>row t. row @ [t]) reordered column))) (columns tasks acc) nc
         = Inr (columns tasks (acc @ map snd nc))"
  using assms(2)
proof (induction nc arbitrary: acc)
  case (Cons e nc)
  obtain q s where e: "e = (q, s)" by (cases e)
  have "s < k" and "set (map snd nc) \<subseteq> {..<k}" using Cons.prems by (auto simp: e)
  then show ?case
    using Cons.IH[of "acc @ [s]"] by (simp add: e column_at[OF assms(1)] columns_snoc del: map_append)
qed simp

lemma non_critical_stages_snd:
  "map snd (non_critical_stages p m tasks numbers) =
     filter (\<lambda>s. IsNonCritical p (Color m (last tasks ! s))) [0..<length (last tasks)]"
proof -
  have *: "map snd (concat (map (\<lambda>s. if P s then [(f s, s)] else []) xs)) = filter P xs"
    for P :: "nat \<Rightarrow> bool" and f :: "nat \<Rightarrow> nat" and xs
    by (induction xs) auto
  show ?thesis unfolding non_critical_stages_def Let_def by (rule *)
qed

section \<open>The queue of slots\<close>

lemma group_le_linear: "group_le a b \<or> group_le b a"
  by (auto simp: group_le_def split: prod.splits)

lemma group_le_trans: "group_le a b \<Longrightarrow> group_le b c \<Longrightarrow> group_le a c"
  by (auto simp: group_le_def split: prod.splits if_splits)

lemma insert_group_mset [simp]: "mset (insert_group x ys) = add_mset x (mset ys)"
  by (induction ys) auto

lemma insert_group_set [simp]: "set (insert_group x ys) = insert x (set ys)"
  by (metis insert_group_mset set_mset_add_mset_insert set_mset_mset)

lemma insert_group_sorted: "sorted_wrt group_le ys \<Longrightarrow> sorted_wrt group_le (insert_group x ys)"
proof (induction ys)
  case (Cons y ys)
  then show ?case using group_le_linear[of x y] by (auto intro: group_le_trans)
qed simp

lemma pop_groups_mset: "mset (pop_groups xs) = mset xs"
  by (induction xs) (auto simp: pop_groups_def)

lemma pop_groups_sorted: "sorted_wrt group_le (pop_groups xs)"
  by (induction xs) (auto simp: pop_groups_def insert_group_sorted)

definition group_slot :: "int \<times> int \<times> nat \<Rightarrow> nat \<times> nat" where
  "group_slot e = (case e of (w, mb, s) \<Rightarrow> (nat mb, s))"

lemma upt_mult_Suc: "[0..<Suc q * g] = [0..<q * g] @ map (\<lambda>b. q * g + b) [0..<g]"
  using upt_add_eq_append[of 0 "q * g" g] by (simp add: add.commute map_add_upt[of "q * g" g])

lemma zero_bubble_slots:
  "map group_slot (zero_bubble_groups (int q) (int g) d k) =
     concat (map (\<lambda>i. map (Pair i) [0..<k]) [0..<q * g])"
proof (induction q)
  case (Suc q)
  have "map group_slot (zero_bubble_groups (int (Suc q)) (int g) d k) =
      map group_slot (zero_bubble_groups (int q) (int g) d k) @
      concat (map (\<lambda>b. map (Pair (q * g + b)) [0..<k]) [0..<g])"
    unfolding zero_bubble_groups_def upto_int_upt
    by (simp add: map_concat comp_def group_slot_def nat_add_distrib nat_mult_distrib)
  then show ?case
    unfolding Suc.IH upt_mult_Suc by (simp add: comp_def)
qed (simp add: zero_bubble_groups_def)

lemma zero_bubble_wavefront:
  assumes "(w, mb, s) \<in> set (zero_bubble_groups (int q) (int g) d k)"
  shows "w = mb div int g * d + mb mod int g + int s" and "0 \<le> mb" and "s < k"
  using assms unfolding zero_bubble_groups_def upto_int_upt by auto

definition zero_bubble_order :: "nat \<Rightarrow> nat \<Rightarrow> int \<Rightarrow> nat \<Rightarrow> (nat \<times> nat) list" where
  "zero_bubble_order q g d k = map group_slot (pop_groups (zero_bubble_groups (int q) (int g) d k))"

lemma zero_bubble_order_mset:
  "mset (zero_bubble_order q g d k) = mset (concat (map (\<lambda>i. map (Pair i) [0..<k]) [0..<q * g]))"
  unfolding zero_bubble_order_def by (metis mset_map pop_groups_mset zero_bubble_slots)

lemma zero_bubble_order_set: "set (zero_bubble_order q g d k) = {..<q * g} \<times> {..<k}"
proof -
  have "set (zero_bubble_order q g d k) = set (concat (map (\<lambda>i. map (Pair i) [0..<k]) [0..<q * g]))"
    by (metis zero_bubble_order_mset set_mset_mset)
  then show ?thesis by auto
qed

lemma zero_bubble_order_distinct: "distinct (zero_bubble_order q g d k)"
proof -
  have "distinct (concat (map (\<lambda>i. map (Pair i) [0..<k]) [0..<q * g]))"
    by (simp add: product_concat_map[symmetric] distinct_product)
  then show ?thesis using mset_eq_imp_distinct_iff[OF zero_bubble_order_mset] by blast
qed

lemma stage_order_strict:
  assumes "sorted_wrt (\<lambda>(b, s) (b', s'). b = b' \<longrightarrow> s \<le> s') sl" and "distinct sl"
  shows "sorted_wrt (\<lambda>(b :: nat, s :: nat) (b', s'). b = b' \<longrightarrow> s < s') sl"
  using assms by (induction sl) (auto simp: order.order_iff_strict)

lemma zero_bubble_order_stages:
  "sorted_wrt (\<lambda>(b, s) (b', s'). b = b' \<longrightarrow> s < s') (zero_bubble_order q g d k)"
proof -
  let ?P = "pop_groups (zero_bubble_groups (int q) (int g) d k)"
  have mem: "set ?P = set (zero_bubble_groups (int q) (int g) d k)"
    by (metis pop_groups_mset set_mset_mset)
  have le: "sorted_wrt (\<lambda>(b, s) (b', s'). b = b' \<longrightarrow> s \<le> s') (map group_slot ?P)"
    unfolding sorted_wrt_map
  proof (rule sorted_wrt_mono_rel[OF _ pop_groups_sorted])
    fix x y assume m: "x \<in> set ?P" "y \<in> set ?P" and gl: "group_le x y"
    obtain w b s w' b' s' where [simp]: "x = (w, b, s)" "y = (w', b', s')" by (cases x, cases y)
    have "w = b div int g * d + b mod int g + int s \<and> 0 \<le> b"
      "w' = b' div int g * d + b' mod int g + int s' \<and> 0 \<le> b'"
      using m zero_bubble_wavefront unfolding mem by auto
    then show "(case group_slot x of (b, s) \<Rightarrow> \<lambda>(b', s'). b = b' \<longrightarrow> s \<le> s') (group_slot y)"
      using gl by (auto simp: group_slot_def group_le_def eq_nat_nat_iff split: if_splits)
  qed
  moreover have "distinct (map group_slot ?P)"
    using zero_bubble_order_distinct by (simp add: zero_bubble_order_def)
  ultimately show ?thesis
    unfolding zero_bubble_order_def by (rule stage_order_strict)
qed

section \<open>The schedule\<close>

definition registered_tasks :: "hlo_partition \<Rightarrow> hlo_module \<Rightarrow> task_matrix \<Rightarrow> bool" where
  "registered_tasks p m tasks \<longleftrightarrow>
     (\<forall>t \<in> set (concat tasks). case Color m t of None \<Rightarrow> False | Some c \<Rightarrow> HasColor p c)"

definition same_criticality :: "hlo_partition \<Rightarrow> hlo_module \<Rightarrow> task_matrix \<Rightarrow> bool" where
  "same_criticality p m tasks \<longleftrightarrow>
     map (\<lambda>t. IsNonCritical p (Color m t)) (hd tasks) = map (\<lambda>t. IsNonCritical p (Color m t)) (last tasks)"

lemma registered_devices:
  assumes "registered_tasks p m tasks" and "t \<in> set (concat tasks)"
  shows "critical_at p m t = Inr (\<not> IsNonCritical p (Color m t))"
    and "\<exists>d. DevicesForInstruction p (Color m t) = Inr d"
proof -
  obtain c cfg where "Color m t = Some c" and "p_colors p c = Some cfg"
    using assms unfolding registered_tasks_def HasColor_def by (cases "Color m t") fastforce+
  then show "critical_at p m t = Inr (\<not> IsNonCritical p (Color m t))"
    and "\<exists>d. DevicesForInstruction p (Color m t) = Inr d"
    by (simp_all add: critical_at_def IsCritical_def IsNonCritical_def DevicesForInstruction_def
        DevicesForColor_def ConfigForColor_def)
qed

abbreviation launch_step ::
  "hlo_partition \<Rightarrow> hlo_module \<Rightarrow> task_matrix \<Rightarrow> task_matrix \<Rightarrow> iid list \<Rightarrow> int \<times> int \<times> nat \<Rightarrow> iid list statusor" where
  "launch_step p m tasks rows \<equiv> \<lambda>order (w, microbatch, stage).
     bindR (task_at rows microbatch stage) (\<lambda>t.
     bindR (DevicesForInstruction p (Color m t)) (\<lambda>devices.
     bindR (critical_at p m (hd tasks ! stage)) (\<lambda>_. Inr (order @ [t]))))"

lemma launch_slots:
  assumes "set sl \<subseteq> {..<n} \<times> {..<k}"
    and "rect rows n k" and "\<And>t. t \<in> set (concat rows) \<Longrightarrow> \<exists>d. DevicesForInstruction p (Color m t) = Inr d"
    and "\<And>s. s < k \<Longrightarrow> \<exists>c. critical_at p m (hd tasks ! s) = Inr c"
    and "map group_slot es = sl" and "\<forall>(w, b, s) \<in> set es. 0 \<le> b"
  shows "foldR (launch_step p m tasks rows) acc es
         = Inr (acc @ launched rows sl)"
  using assms(1,5,6)
proof (induction es arbitrary: acc sl)
  case (Cons e es)
  obtain w b s where e: "e = (w, b, s)" by (cases e)
  have sl: "sl = (nat b, s) # map group_slot es"
    using Cons.prems(2) by (auto simp: e group_slot_def[of "(w, b, s)"])
  have b: "nat b < n" "s < k" "0 \<le> b"
    and tl: "set (map group_slot es) \<subseteq> {..<n} \<times> {..<k}" and es: "\<forall>(w, b, s) \<in> set es. 0 \<le> b"
    using Cons.prems(1,3) by (simp_all add: e sl)
  have "rows ! nat b ! s \<in> set (concat rows)"
    using b assms(2) by (auto simp: rect_def intro!: bexI[of _ "rows ! nat b"])
  then obtain d c where "DevicesForInstruction p (Color m (rows ! nat b ! s)) = Inr d"
    and "critical_at p m (hd tasks ! s) = Inr c"
    using assms(3,4) b(2) by blast
  moreover have "task_at rows b s = Inr (rows ! nat b ! s)"
    using task_at_rect[OF assms(2) b(1,2)] b(3) by simp
  ultimately show ?case
    using Cons.IH[of "map group_slot es" "acc @ [rows ! nat b ! s]"] tl es by (simp add: e sl)
qed simp

lemma foldR_fails:
  assumes "\<And>s x. x \<in> set xs \<Longrightarrow> (\<exists>s'. f s x = Inr s') \<or> f s x = Inl e"
    and "x \<in> set xs" and "\<And>s. f s x = Inl e"
  shows "foldR f s xs = Inl e"
  using assms
proof (induction xs arbitrary: s)
  case (Cons y xs)
  show ?case
  proof (cases "f s y")
    case (Inl e')
    then show ?thesis using Cons.prems(1)[of y s] by auto
  next
    case (Inr s')
    then have "x \<in> set xs" using Cons.prems(2,3) by auto
    then show ?thesis using Cons.IH Cons.prems(1,3) Inr by simp
  qed
qed simp

lemma mset_filter_split: "mset (filter (\<lambda>x. \<not> P x) xs) + mset (filter P xs) = mset xs"
  by (induction xs) auto

lemma ceil_minibatches:
  fixes g n :: nat
  assumes "0 < g"
  shows "n \<le> (n + g - 1) div g * g" and "(n + g - 1) div g * g = n \<longleftrightarrow> g dvd n"
proof -
  let ?m = "n + g - 1"
  have "?m div g * g + ?m mod g = ?m" by simp
  moreover have "?m mod g < g" using assms by simp
  ultimately show le: "n \<le> ?m div g * g" by linarith
  show "?m div g * g = n \<longleftrightarrow> g dvd n"
  proof
    assume "g dvd n"
    then obtain c where "n = g * c" ..
    then have "?m = (g - 1) + g * c" using assms by simp
    then have "?m div g = c" using assms by (simp only: div_mult_self2) simp
    with \<open>n = g * c\<close> show "?m div g * g = n" by simp
  qed (metis dvd_triv_right)
qed

lemma zero_bubble_permutation:
  assumes r: "rect tasks n k" and k: "length (hd tasks) = k" "length (last tasks) = k"
    and same: "same_criticality p m tasks" and pop: "\<And>xs. mset (pop_order xs) = mset xs"
  defines "stages \<equiv> \<lambda>numbers. filter (\<lambda>s. \<not> IsNonCritical p (Color m (hd tasks ! s))) [0..<k] @
     map snd (pop_order (non_critical_stages p m tasks numbers))"
  shows "mset (stages numbers) = mset [0..<k]" and "set (map snd (pop_order (non_critical_stages p m tasks numbers))) \<subseteq> {..<k}"
proof -
  have nc: "IsNonCritical p (Color m (last tasks ! s)) = IsNonCritical p (Color m (hd tasks ! s))" if "s < k" for s
    using same that k unfolding same_criticality_def by (metis nth_map)
  have "mset (map snd (pop_order (non_critical_stages p m tasks numbers))) =
      mset (map snd (non_critical_stages p m tasks numbers))"
    using pop by (metis mset_map)
  also have "\<dots> = mset (filter (\<lambda>s. IsNonCritical p (Color m (hd tasks ! s))) [0..<k])"
    unfolding non_critical_stages_snd k(2) 
    by (intro arg_cong[where f = mset] filter_cong) (simp_all add: nc)
  finally have ms: "mset (map snd (pop_order (non_critical_stages p m tasks numbers))) = \<dots>" .
  show "mset (stages numbers) = mset [0..<k]"
    unfolding stages_def mset_append ms by (rule mset_filter_split)
  show "set (map snd (pop_order (non_critical_stages p m tasks numbers))) \<subseteq> {..<k}"
    using arg_cong[OF ms, of set_mset] by auto
qed

lemma columns_permutation:
  assumes "rect tasks n k" and "mset stages = mset [0..<k]"
  shows "rect (columns tasks stages) n k" and "mset (concat (columns tasks stages)) = mset (concat tasks)"
proof -
  have "length stages = k" using mset_eq_length[OF assms(2)] by simp
  with assms(1) show "rect (columns tasks stages) n k" by (auto simp: rect_def)
  have "mset (map ((!) row) stages) = mset row" if "length row = k" for row :: "iid list"
    using assms(2) that by (metis map_nth mset_map)
  with assms(1) show "mset (concat (columns tasks stages)) = mset (concat tasks)"
    by (simp add: rect_def mset_concat comp_def cong: map_cong)
qed

lemma launch_out_of_range:
  assumes r: "rect rows n k" and dev: "\<And>t. t \<in> set (concat rows) \<Longrightarrow> \<exists>d. DevicesForInstruction p (Color m t) = Inr d"
    and crit: "\<And>s. s < k \<Longrightarrow> \<exists>c. critical_at p m (hd tasks ! s) = Inr c"
    and es: "\<forall>(w, b, s) \<in> set es. 0 \<le> b \<and> s < k" and bad: "(w0, b0, s0) \<in> set es" "int n \<le> b0"
  shows "foldR (launch_step p m tasks rows) acc es
         = Inl (Undefined ''subscript'')"
proof (rule foldR_fails[OF _ bad(1)])
  fix acc
  have "task_at rows b0 s0 = Inl (Undefined ''subscript'')"
    using bad r by (auto simp: task_at_def subZ_def rect_def)
  then show "launch_step p m tasks rows acc (w0, b0, s0) = Inl (Undefined ''subscript'')"
    by simp
next
  fix acc e assume e: "e \<in> set es"
  obtain w b s where [simp]: "e = (w, b, s)" by (cases e)
  have bs: "0 \<le> b" "s < k" using es e by auto
  show "(\<exists>acc'. launch_step p m tasks rows acc e = Inr acc') \<or>
    launch_step p m tasks rows acc e = Inl (Undefined ''subscript'')"
  proof (cases "nat b < n")
    case True
    then have "task_at rows b s = Inr (rows ! nat b ! s)" and "rows ! nat b ! s \<in> set (concat rows)"
      using task_at_rect[OF r True bs(2)] bs r by (auto simp: rect_def intro!: bexI[of _ "rows ! nat b"])
    then show ?thesis using dev crit[OF bs(2)] by fastforce
  next
    case False
    then show ?thesis using r bs by (simp add: task_at_def subZ_def rect_def)
  qed
qed

text \<open>
  C22. The zero-bubble schedule, for an n by k loop whose tasks have registered colors and whose
  stages are critical in the last microbatch when they are in the first. If the number of
  submeshes divides n it launches every task once: the rows are reordered with the critical
  stages first, in order, and the stages of a microbatch are launched in that order. If it
  does not divide n the code indexes past the last microbatch.
\<close>

theorem zero_bubble_correct:
  assumes r: "rect tasks n k" and n: "0 < n" "0 < k"
    and cfg: "num_iterations config = int n" "schedule config = kZeroBubbleH2"
    and reg: "registered_tasks p m tasks" and same: "same_criticality p m tasks"
    and pop: "\<And>xs. mset (pop_order xs) = mset xs"
    and g: "count_groups p m (hd tasks) = Inr (int g, npt)"
  shows "if g dvd n then \<exists>rest slots. let stages = filter (\<lambda>s. \<not> IsNonCritical p (Color m (hd tasks ! s))) [0..<k] @ rest in
             ScheduleLoops hash_order name_order pop_order p m config tasks = Inr [launched (columns tasks stages) slots] \<and>
             mset stages = mset [0..<k] \<and>
             mset (launched (columns tasks stages) slots) = mset (concat tasks) \<and>
             sorted_wrt (\<lambda>(b, s) (b', s'). b = b' \<longrightarrow> s < s') slots
         else ScheduleLoops hash_order name_order pop_order p m config tasks = Inl (Undefined ''subscript'')"
proof -
  have ne: "tasks \<noteq> []" and k: "length (hd tasks) = k" "length (last tasks) = k"
    using r n by (auto simp: rect_def)
  have g0: "0 < g" using count_groups_pos[OF g] by simp
  let ?crit = "\<lambda>s. \<not> IsNonCritical p (Color m (hd tasks ! s))"
  have crit: "critical_at p m (hd tasks ! s) = Inr (?crit s)" if "s < k" for s
    using registered_devices(1)[OF reg] that ne k(1) by (metis concat.simps(2) list.collapse nth_mem Un_iff set_append)
  obtain numbers where cs: "critical_stages p m tasks = Inr (numbers, columns tasks (filter ?crit [0..<k]), length (filter ?crit [0..<k]))"
    using critical_stages_columns[OF r crit k(1)] by blast
  define rest where "rest = map snd (pop_order (non_critical_stages p m tasks numbers))"
  note perm = zero_bubble_permutation[OF r k same pop, of numbers, folded rest_def]
  let ?rows = "columns tasks (filter ?crit [0..<k] @ rest)"
  note rows = columns_permutation[OF r perm(1)]
  have dev: "\<exists>d. DevicesForInstruction p (Color m t) = Inr d" if "t \<in> set (concat ?rows)" for t
    using registered_devices(2)[OF reg] that rows(2) by (metis set_mset_mset)
  define q d where "q = (n + g - 1) div g" and "d = int ((length (filter ?crit [0..<k]) + 1) div 2)"
  let ?es = "pop_groups (zero_bubble_groups (int q) (int g) d k)"
  have run: "ScheduleLoops hash_order name_order pop_order p m config tasks =
      bindR (foldR (launch_step p m tasks ?rows) [] ?es) (\<lambda>order. Inr [order])"
    using ne append_columns[OF r perm(2)[unfolded rest_def]]
    by (simp add: ScheduleLoops_def cfg ScheduleZeroBubble_def cs g k ceil_div_nat[OF g0] q_def d_def rest_def Let_def)
  have mem: "set ?es = set (zero_bubble_groups (int q) (int g) d k)"
    by (metis pop_groups_mset set_mset_mset)
  have sl: "map group_slot ?es = zero_bubble_order q g d k"
    by (simp add: zero_bubble_order_def)
  have range: "\<forall>(w, b, s) \<in> set ?es. 0 \<le> b \<and> s < k"
    using zero_bubble_wavefront(2,3) unfolding mem by blast
  show ?thesis
  proof (cases "g dvd n")
    case True
    then have q: "q * g = n" using ceil_minibatches(2)[OF g0] by (simp add: q_def)
    let ?sl = "zero_bubble_order q g d k"
    have "ScheduleLoops hash_order name_order pop_order p m config tasks = Inr [launched ?rows ?sl]"
    proof -
      have sub: "set ?sl \<subseteq> {..<n} \<times> {..<k}" by (simp add: zero_bubble_order_set q)
      have nonneg: "\<forall>(w, b, s) \<in> set ?es. 0 \<le> b" using range by auto
      have ex: "\<exists>c. critical_at p m (hd tasks ! s) = Inr c" if "s < k" for s using crit[OF that] ..
      have "foldR (launch_step p m tasks ?rows) [] ?es = Inr ([] @ launched ?rows ?sl)"
        by (rule launch_slots[OF sub rows(1) dev ex sl nonneg])
      then show ?thesis unfolding run by simp
    qed
    moreover have "mset (launched ?rows ?sl) = mset (concat tasks)"
      unfolding rows(2)[symmetric] concat_rect[OF rows(1)] mset_map zero_bubble_order_mset q by (rule refl)
    ultimately show ?thesis
      using True perm(1) zero_bubble_order_stages[of q g d k]
      unfolding if_P[OF True] Let_def by blast
  next
    case False
    then have "n < q * g" using ceil_minibatches[OF g0, of n] by (simp add: q_def nat_less_le)
    then have "(n, 0) \<in> set (map group_slot ?es)"
      unfolding sl zero_bubble_order_set using n(2) by simp
    then obtain w b where wb: "(w, b, 0) \<in> set ?es" and "nat b = n"
      by (auto simp: group_slot_def)
    moreover have "int n \<le> b" using range wb \<open>nat b = n\<close> by force
    ultimately have "foldR (launch_step p m tasks ?rows) [] ?es
        = Inl (Undefined ''subscript'')"
      using crit by (intro launch_out_of_range[OF rows(1) dev _ range]) blast+
    then show ?thesis using False unfolding run by simp
  qed
qed

lemma three_stage_zero_bubble:
  "registered_tasks three_meshes three_stage_tasks [[10, 11], [20, 21], [30, 31]]"
  "same_criticality three_meshes three_stage_tasks [[10, 11], [20, 21], [30, 31]]"
  "registered_tasks three_meshes three_stage_tasks [[10, 11], [20, 21]]"
  "same_criticality three_meshes three_stage_tasks [[10, 11], [20, 21]]"
  "count_groups three_meshes three_stage_tasks [10, 11] = Inr (2, 2)"
  by (simp_all add: registered_tasks_def same_criticality_def count_groups_def color_at_def List.insert_def
      three_meshes_HasColor)

theorem zero_bubble_correct_witness:
  "(\<exists>order. ScheduleLoops id id id three_meshes three_stage_tasks (sample_config 2 kZeroBubbleH2)
      [[10, 11], [20, 21]] = Inr [order] \<and> mset order = mset [10, 11, 20, 21]) \<and>
   ScheduleLoops id id id three_meshes three_stage_tasks (sample_config 3 kZeroBubbleH2)
     [[10, 11], [20, 21], [30, 31]] = Inl (Undefined ''subscript'')"
  using zero_bubble_correct[of "[[10, 11], [20, 21]]" 2 2 "sample_config 2 kZeroBubbleH2"
      three_meshes three_stage_tasks id 2 2 id id]
    zero_bubble_correct[of "[[10, 11], [20, 21], [30, 31]]" 3 2 "sample_config 3 kZeroBubbleH2"
      three_meshes three_stage_tasks id 2 2 id id] three_stage_zero_bubble
  by (auto simp: rect_def Let_def)

end
