(* ===== verification/Custom_Schedule.thy ===== *)
theory Custom_Schedule
  imports Loop_Scheduler
begin

text \<open>
  The custom schedule of \<open>loop_scheduler.cc\<close>: what an accepted schedule guarantees, which
  schedules are refused, and one that is accepted although it skips a microbatch.
\<close>

section \<open>The task map\<close>

text \<open>The tasks of a row whose color contains a name.\<close>

definition matching_tasks :: "hlo_module \<Rightarrow> task_matrix \<Rightarrow> nat \<Rightarrow> string \<Rightarrow> iid set" where
  "matching_tasks m tasks iter name = {t \<in> set (tasks ! iter). str_contains (ColorOrDefault m t) name}"

lemma task_map_step_cases:
  assumes "task_map_step m tasks M (iter, name, idx) = Inr M'"
  obtains t where "task_at tasks (int iter) idx = Inr t"
    and "\<not> str_contains (ColorOrDefault m t) name" and "M' = M"
  | t where "task_at tasks (int iter) idx = Inr t"
    and "str_contains (ColorOrDefault m t) name" and "M (int iter, name) = None"
    and "M' = M((int iter, name) \<mapsto> t)"
  using assms by (auto simp: task_map_step_def bindR_Inr_iff split: if_splits) blast

lemma task_map_keeps:
  assumes "foldR (task_map_step m tasks) M xs = Inr M'" and "M key = Some t"
  shows "M' key = Some t"
  using assms
proof (induction xs arbitrary: M)
  case (Cons e xs)
  obtain iter name idx where e: "e = (iter, name, idx)" by (cases e)
  obtain M1 where M1: "task_map_step m tasks M (iter, name, idx) = Inr M1"
    and rest: "foldR (task_map_step m tasks) M1 xs = Inr M'"
    using Cons.prems(1) by (auto simp: e bindR_Inr_iff)
  from M1 Cons.prems(2) have "M1 key = Some t"
    by (elim task_map_step_cases) auto
  then show ?case by (rule Cons.IH[OF rest])
qed simp

lemma task_map_complete:
  assumes "foldR (task_map_step m tasks) M xs = Inr M'" and "(iter, name, idx) \<in> set xs"
    and "task_at tasks (int iter) idx = Inr t" and "str_contains (ColorOrDefault m t) name"
  shows "M' (int iter, name) = Some t"
  using assms(1,2)
proof (induction xs arbitrary: M)
  case (Cons e xs)
  obtain M1 where M1: "task_map_step m tasks M e = Inr M1"
    and rest: "foldR (task_map_step m tasks) M1 xs = Inr M'"
    using Cons.prems(1) by (auto simp: bindR_Inr_iff)
  show ?case
  proof (cases "e = (iter, name, idx)")
    case True
    then have "M1 (int iter, name) = Some t"
      using M1 assms(3,4) by (auto elim!: task_map_step_cases)
    then show ?thesis by (rule task_map_keeps[OF rest])
  next
    case False
    then show ?thesis using Cons.IH[OF rest] Cons.prems(2) by simp
  qed
qed simp

lemma task_map_sound:
  assumes "foldR (task_map_step m tasks) Map.empty xs = Inr M" and "M (i, name) = Some t"
    and "\<forall>(iter, name, idx) \<in> set xs. iter < n \<and> idx < k" and "rect tasks n k"
  shows "\<exists>iter. i = int iter \<and> iter < n \<and> t \<in> matching_tasks m tasks iter name"
proof -
  let ?P = "\<lambda>M. \<forall>i name t. M (i, name) = Some t \<longrightarrow>
      (\<exists>iter. i = int iter \<and> iter < n \<and> t \<in> matching_tasks m tasks iter name)"
  have "?P M"
  proof (rule foldR_invariant[OF assms(1), of ?P])
    fix M e M' assume "e \<in> set xs" and P: "?P M" and step: "task_map_step m tasks M e = Inr M'"
    obtain iter name idx where e: "e = (iter, name, idx)" by (cases e)
    have ik: "iter < n" "idx < k" using assms(3) \<open>e \<in> set xs\<close> by (auto simp: e)
    then have "task_at tasks (int iter) idx = Inr (tasks ! iter ! idx)"
      and "tasks ! iter ! idx \<in> set (tasks ! iter)"
      using task_at_rect[OF assms(4)] rect_nth[OF assms(4)] by auto
    with step P ik(1) show "?P M'"
      unfolding e by (elim task_map_step_cases) (auto simp: matching_tasks_def)
  qed simp
  then show ?thesis using assms(2) by blast
qed

section \<open>Populating the rows\<close>

lemma populate_row:
  assumes "foldR (\<lambda>sched (mesh_id, iter, task_name).
       case M (iter, task_name) of
         None \<Rightarrow> Inl (InvalidArgument (''Task '' @ task_name @ '' not found in task map!''))
       | Some t \<Rightarrow> push_task sched mesh_id t) sched (map (Pair r) es) = Inr sched'"
  shows "length sched' = length sched \<and> (\<forall>j. j \<noteq> r \<longrightarrow> sched' ! j = sched ! j) \<and>
    (r < length sched \<longrightarrow> (\<exists>ts. sched' ! r = sched ! r @ ts \<and> list_all2 (\<lambda>e t. M e = Some t) es ts))"
  using assms
proof (induction es arbitrary: sched)
  case (Cons e es)
  obtain i name where e: "e = (i, name)" by (cases e)
  obtain t where t: "M e = Some t" using Cons.prems by (cases "M e") (auto simp: e)
  obtain s1 where s1: "push_task sched r t = Inr s1" using Cons.prems t
    by (auto simp: e bindR_Inr_iff)
  then have s1': "s1 = sched[r := sched ! r @ [t]]" by (simp add: push_task_def split: if_splits)
  have "foldR (\<lambda>sched (mesh_id, iter, task_name).
       case M (iter, task_name) of
         None \<Rightarrow> Inl (InvalidArgument (''Task '' @ task_name @ '' not found in task map!''))
       | Some t \<Rightarrow> push_task sched mesh_id t) s1 (map (Pair r) es) = Inr sched'"
    using Cons.prems t s1 by (simp add: e)
  from Cons.IH[OF this] obtain ts where len: "length sched' = length sched"
    and other: "\<forall>j. j \<noteq> r \<longrightarrow> sched' ! j = sched ! j"
    and row: "r < length sched \<longrightarrow> sched' ! r = (sched ! r @ [t]) @ ts \<and> list_all2 (\<lambda>e t. M e = Some t) es ts"
    unfolding s1' by (auto simp: nth_list_update)
  show ?case
    using len other row t by (auto intro!: exI[of _ "t # ts"])
qed simp

abbreviation populate_step ::
  "((int \<times> string) \<rightharpoonup> iid) \<Rightarrow> task_matrix \<Rightarrow> nat \<times> int \<times> string \<Rightarrow> task_matrix statusor" where
  "populate_step M \<equiv> \<lambda>sched (mesh_id, iter, task_name).
       case M (iter, task_name) of
         None \<Rightarrow> Inl (InvalidArgument (''Task '' @ task_name @ '' not found in task map!''))
       | Some t \<Rightarrow> push_task sched mesh_id t"

lemma populate_rows:
  assumes "foldR (populate_step M) sched
      (concat (map (\<lambda>r. map (Pair r) (cs ! r)) [0..<n])) = Inr sched'" and "n \<le> length sched"
  shows "length sched' = length sched \<and> (\<forall>r \<ge> n. sched' ! r = sched ! r) \<and>
    (\<forall>r < n. \<exists>ts. sched' ! r = sched ! r @ ts \<and> list_all2 (\<lambda>e t. M e = Some t) (cs ! r) ts)"
  using assms
proof (induction n arbitrary: sched')
  case (Suc n)
  then obtain s1 where s1: "foldR (populate_step M) sched (concat (map (\<lambda>r. map (Pair r) (cs ! r)) [0..<n])) = Inr s1"
    and last: "foldR (populate_step M) s1 (map (Pair n) (cs ! n)) = Inr sched'"
    by (auto simp: foldR_append bindR_Inr_iff)
  have IH: "length s1 = length sched" "\<forall>r \<ge> n. s1 ! r = sched ! r"
    "\<forall>r < n. \<exists>ts. s1 ! r = sched ! r @ ts \<and> list_all2 (\<lambda>e t. M e = Some t) (cs ! r) ts"
    using Suc.IH[OF s1] Suc.prems(2) by auto
  have R: "length sched' = length s1" "\<forall>j. j \<noteq> n \<longrightarrow> sched' ! j = s1 ! j"
    "\<exists>ts. sched' ! n = s1 ! n @ ts \<and> list_all2 (\<lambda>e t. M e = Some t) (cs ! n) ts"
    using populate_row[OF last] Suc.prems(2) IH(1) by auto
  show ?case
    using IH R by (auto simp: less_Suc_eq)
qed simp

section \<open>Properties\<close>

lemma schedule_names_set: "set (schedule_names cs) = snd ` set (concat cs)"
  by (simp add: schedule_names_def)

lemma ScheduleCustomSchedule_runs:
  assumes "ScheduleCustomSchedule name_order m cs tasks sched = Inr result"
    and "rect tasks n k" and "0 < n"
  obtains M where
    "\<forall>name \<in> set (name_order (schedule_names cs)). count_list (map snd (concat cs)) name = n"
    "foldR (task_map_step m tasks) Map.empty (concat (map (\<lambda>iter. concat (map (\<lambda>task_name.
       map (\<lambda>idx. (iter, task_name, idx)) [0..<k]) (name_order (schedule_names cs)))) [0..<n])) = Inr M"
    "foldR (populate_step M) sched (concat (map (\<lambda>r. map (Pair r) (cs ! r)) [0..<length cs])) = Inr result"
proof -
  have sub: "subR tasks 0 = Inr (tasks ! 0)" "length (tasks ! 0) = k" "length tasks = n"
    using assms(2,3) by (auto simp: rect_def)
  let ?chk = "\<lambda>_ task_name.
              let count = count_list (map snd (concat cs)) task_name in
              if count \<noteq> n
              then Inl (InvalidArgument (''Task '' @ task_name @ '' appears '' @ show_nat count
                     @ '' times in custom schedule, expected '' @ show_nat n))
              else Inr ()"
  have chk: "foldR ?chk () names = Inr u \<Longrightarrow> \<forall>name \<in> set names. count_list (map snd (concat cs)) name = n" for names u
    by (induction names) (auto simp: Let_def bindR_Inr_iff split: if_splits)
  show ?thesis
    using assms(1) unfolding ScheduleCustomSchedule_def sub bindR_simps Let_def
    by (elim bindR_InrE) (rule that[OF chk[unfolded Let_def]]; assumption)
qed

lemma ScheduleCustomSchedule_spec:
  assumes run: "ScheduleCustomSchedule name_order m cs tasks sched = Inr result"
    and r: "rect tasks n k" "0 < n" and len: "length sched = length cs"
    and names: "\<And>xs. set (name_order xs) = set xs"
  shows "length result = length cs \<and>
    (\<forall>name \<in> snd ` set (concat cs). count_list (map snd (concat cs)) name = n) \<and>
    (\<forall>row < length cs. \<exists>ts. result ! row = sched ! row @ ts \<and>
       list_all2 (\<lambda>(iter, name) t. 0 \<le> iter \<and> nat iter < n \<and>
         matching_tasks m tasks (nat iter) name = {t}) (cs ! row) ts)"
proof -
  let ?xs = "concat (map (\<lambda>iter. concat (map (\<lambda>task_name.
       map (\<lambda>idx. (iter, task_name, idx)) [0..<k]) (name_order (schedule_names cs)))) [0..<n])"
  obtain M where cnt: "\<forall>name \<in> set (name_order (schedule_names cs)). count_list (map snd (concat cs)) name = n"
    and M: "foldR (task_map_step m tasks) Map.empty ?xs = Inr M"
    and pop: "foldR (populate_step M) sched (concat (map (\<lambda>r. map (Pair r) (cs ! r)) [0..<length cs])) = Inr result"
    by (rule ScheduleCustomSchedule_runs[OF run r])
  have uniq: "0 \<le> iter \<and> nat iter < n \<and> matching_tasks m tasks (nat iter) name = {t}"
    if t: "M (iter, name) = Some t" and nm: "name \<in> snd ` set (concat cs)" for iter name t
  proof -
    obtain i where i: "iter = int i" "i < n" and tm: "t \<in> matching_tasks m tasks i name"
      using task_map_sound[OF M t _ r(1)] by auto
    have "u = t" if u: "u \<in> matching_tasks m tasks i name" for u
    proof -
      obtain idx where idx: "idx < k" "tasks ! i ! idx = u" "str_contains (ColorOrDefault m u) name"
        using u rect_nth[OF r(1) i(2)] by (auto simp: matching_tasks_def in_set_conv_nth)
      have "name \<in> set (name_order (schedule_names cs))" using nm by (simp add: names schedule_names_set)
      then have "(i, name, idx) \<in> set ?xs" using i(2) idx(1) by (auto simp: image_iff)
      from task_map_complete[OF M this _ idx(3)] task_at_rect[OF r(1) i(2) idx(1)] idx(2)
      show ?thesis using t i(1) by simp
    qed
    then have "matching_tasks m tasks i name = {t}" using tm by blast
    then show ?thesis using i by simp
  qed
  have rows: "\<exists>ts. result ! row = sched ! row @ ts \<and> list_all2 (\<lambda>e t. M e = Some t) (cs ! row) ts"
    if "row < length cs" for row
    using populate_rows[OF pop] len that by simp
  have "\<exists>ts. result ! row = sched ! row @ ts \<and> list_all2 (\<lambda>(iter, name) t. 0 \<le> iter \<and> nat iter < n \<and>
         matching_tasks m tasks (nat iter) name = {t}) (cs ! row) ts" if row: "row < length cs" for row
  proof -
    obtain ts where ts: "result ! row = sched ! row @ ts" "list_all2 (\<lambda>e t. M e = Some t) (cs ! row) ts"
      using rows[OF row] by blast
    have "snd e \<in> snd ` set (concat cs)" if "e \<in> set (cs ! row)" for e
      using that row by (auto intro!: imageI bexI[of _ "cs ! row"])
    then have "list_all2 (\<lambda>(iter, name) t. 0 \<le> iter \<and> nat iter < n \<and>
         matching_tasks m tasks (nat iter) name = {t}) (cs ! row) ts"
      using ts(2) uniq by (fastforce elim!: list.rel_mono_strong)
    then show ?thesis using ts(1) by blast
  qed
  then show ?thesis
    using populate_rows[OF pop] len cnt by (simp add: names schedule_names_set)
qed

lemma ScheduleCustomSchedule_failure:
  assumes fail: "ScheduleCustomSchedule name_order m cs tasks sched = Inl e"
    and r: "rect tasks n k" "0 < n" and len: "length sched = length cs"
  shows "\<exists>msg. e = InvalidArgument msg"
proof -
  have sub: "subR tasks 0 = Inr (tasks ! 0)" "length (tasks ! 0) = k" "length tasks = n"
    using r by (auto simp: rect_def)
  let ?names = "name_order (schedule_names cs)"
  let ?xs = "concat (map (\<lambda>iter. concat (map (\<lambda>task_name.
       map (\<lambda>idx. (iter, task_name, idx)) [0..<k]) ?names)) [0..<n])"
  let ?es = "concat (map (\<lambda>r. map (Pair r) (cs ! r)) [0..<length cs])"
  have names: "\<exists>msg. e = InvalidArgument msg" if "foldR (\<lambda>_ task_name.
       if count_list (map snd (concat cs)) task_name \<noteq> n
       then Inl (InvalidArgument (f task_name)) else Inr ()) () ?names = Inl e" for f
    using foldR_failure[OF that, of "\<lambda>_. True"] by (auto split: if_splits)
  have tmap: "\<exists>msg. e = InvalidArgument msg" if "foldR (task_map_step m tasks) Map.empty ?xs = Inl e"
  proof -
    note run = that
    obtain M iter name idx where "(iter, name, idx) \<in> set ?xs"
      and f: "task_map_step m tasks M (iter, name, idx) = Inl e"
      using foldR_failure[OF run, of "\<lambda>_. True"] by (metis prod_cases3)
    then have "iter < n" "idx < k" by auto
    then show ?thesis
      using f task_at_rect[OF r(1)] by (auto simp: task_map_step_def split: if_splits)
  qed
  have pop: "\<exists>msg. e = InvalidArgument msg" if "foldR (populate_step M) sched ?es = Inl e" for M
  proof -
    have "\<exists>s' x. x \<in> set ?es \<and> length s' = length cs \<and> populate_step M s' x = Inl e"
      by (rule foldR_failure[OF that])
        (auto simp: len push_task_def split: option.splits if_splits)
    then show ?thesis by (auto simp: push_task_def split: option.splits if_splits)
  qed
  show ?thesis
    using fail names tmap pop unfolding ScheduleCustomSchedule_def sub bindR_simps Let_def
    by (auto simp: bindR_def split: sum.splits)
qed

text \<open>
  C24. A custom schedule that is accepted is followed: row r of the result is what was there
  before, followed by one task per entry of row r of the custom schedule, in its order; the
  task of entry (iter, name) is the only task of microbatch iter whose color contains the
  name, and iter is a microbatch of the loop. Every name is used once per microbatch in total.
\<close>

theorem custom_schedule_followed:
  assumes run: "ScheduleCustomSchedule name_order m cs tasks sched = Inr result"
    and r: "rect tasks n k" "0 < n" and len: "length sched = length cs"
    and names: "\<And>xs. set (name_order xs) = set xs"
  shows "length result = length cs \<and>
    (\<forall>name \<in> snd ` set (concat cs). count_list (map snd (concat cs)) name = n) \<and>
    (\<forall>row < length cs. \<exists>ts. result ! row = sched ! row @ ts \<and>
       list_all2 (\<lambda>(iter, name) t. 0 \<le> iter \<and> nat iter < n \<and>
         matching_tasks m tasks (nat iter) name = {t}) (cs ! row) ts)"
  using assms by (rule ScheduleCustomSchedule_spec)

lemma two_microbatches_scheduled:
  "ScheduleCustomSchedule id three_stage_tasks [[(0, ''a''), (1, ''a'')], [(0, ''b''), (1, ''b'')]]
     [[10, 11], [20, 21]] [[], []] = Inr [[10, 20], [11, 21]]"
  by (simp add: ScheduleCustomSchedule_def schedule_names_def task_map_step_def task_at_def subZ_def subR_def
      push_task_def ColorOrDefault_def starts_with_def upt_rec)

theorem custom_schedule_followed_witness:
  "\<exists>ts. [[10, 20], [11, 21]] ! 0 = ts \<and> list_all2 (\<lambda>(iter, name) t. 0 \<le> iter \<and> nat iter < 2 \<and>
     matching_tasks three_stage_tasks [[10, 11], [20, 21]] (nat iter) name = {t})
     [(0, ''a''), (1, ''a'')] ts"
  using custom_schedule_followed[OF two_microbatches_scheduled, of 2 2] by (fastforce simp: rect_def)

text \<open>
  A custom schedule is refused when some name does not occur once per microbatch in total,
  and when an entry names a task that its microbatch does not have.
\<close>

theorem custom_schedule_refused:
  assumes "rect tasks n k" and "0 < n" and "length sched = length cs"
    and "\<And>xs. set (name_order xs) = set xs"
    and "\<exists>row \<in> set cs. \<exists>(iter, name) \<in> set row. count_list (map snd (concat cs)) name \<noteq> n \<or>
           iter < 0 \<or> int n \<le> iter \<or> matching_tasks m tasks (nat iter) name = {}"
  shows "\<exists>msg. ScheduleCustomSchedule name_order m cs tasks sched = Inl (InvalidArgument msg)"
proof (cases "ScheduleCustomSchedule name_order m cs tasks sched")
  case (Inl e)
  then show ?thesis using ScheduleCustomSchedule_failure assms(1-3) by fastforce
next
  case (Inr result)
  note spec = ScheduleCustomSchedule_spec[OF Inr assms(1-4)]
  obtain row iter name where row: "row < length cs" and e: "(iter, name) \<in> set (cs ! row)"
    and bad: "count_list (map snd (concat cs)) name \<noteq> n \<or> iter < 0 \<or> int n \<le> iter \<or>
      matching_tasks m tasks (nat iter) name = {}"
    using assms(5) by (auto simp: in_set_conv_nth Bex_def)
  have "count_list (map snd (concat cs)) name = n"
    using spec row e by (force intro!: imageI bexI[of _ "cs ! row"])
  moreover obtain t where "0 \<le> iter \<and> nat iter < n \<and> matching_tasks m tasks (nat iter) name = {t}"
    using spec row e by (fastforce simp: in_set_conv_nth list_all2_conv_all_nth)
  ultimately show ?thesis using bad by auto
qed

theorem custom_schedule_refused_witness:
  "\<exists>msg. ScheduleCustomSchedule id three_stage_tasks [[(0, ''a''), (1, ''x'')]]
     [[10, 11], [20, 21]] [[]] = Inl (InvalidArgument msg)"
  using custom_schedule_refused[of "[[10, 11], [20, 21]]" 2 2 "[[]]" "[[(0, ''a''), (1, ''x'')]]" id
      three_stage_tasks] by (auto simp: rect_def)

text \<open>
  The first check counts the occurrences of a name, not its microbatches: a schedule that
  names microbatch 0 twice and microbatch 1 never is accepted, and the task of microbatch 1 is
  not launched.
\<close>

theorem custom_schedule_accepts_duplicates:
  "ScheduleCustomSchedule id three_stage_tasks [[(0, ''a''), (0, ''a'')]] [[10], [20]] [[]]
     = Inr [[10, 10]]"
  by (simp add: ScheduleCustomSchedule_def schedule_names_def task_map_step_def task_at_def subZ_def subR_def
      push_task_def ColorOrDefault_def starts_with_def upt_rec)

end
