(* ===== verification/Mm_Sharding.thy ===== *)
theory Mm_Sharding
  imports Hlo
begin

text \<open>
  \<open>mm_sharding.h\<close> and \<open>mm_sharding.cc\<close>: classification of shardings, their translation to
  canonical form, replication of dimensions, resizing, the placement of logical axes on a
  device grid, and the index arithmetic of a grid.

  What the code calls in XLA and zuku is the argument \<open>L\<close>, a record of functions; nothing is
  assumed about them unless a theorem says so. Subscripts out of range, division by zero and
  reads of moved-from vectors are \<open>Undefined\<close>. \<open>int\<close> variables of the index arithmetic are
  32 bits wide; \<open>int64_t\<close> values are unbounded.
\<close>

record sharding_dim =
  sd_size :: int
  sd_sharding :: int
  sd_permutation :: int

datatype supported_type =
  ST_PRED | ST_F16 | ST_BF16 | ST_F32 | ST_F64 | ST_S8 | ST_S16 | ST_S32 | ST_S64
  | ST_U8 | ST_U16 | ST_U32 | ST_U64 | ST_C64 | ST_C128

record sharded_shape =
  ss_type :: supported_type
  ss_dims :: "sharding_dim list"
  ss_devices :: device_list

record sharding_lib =
  L_FromProto :: "op_sharding \<Rightarrow> hlo_sharding statusor"
  L_Replicate :: hlo_sharding
  L_ToString :: "hlo_sharding \<Rightarrow> string"
  L_MakePartitionedShape :: "shape \<Rightarrow> hlo_sharding \<Rightarrow> shape"
  L_IotaCreate :: "int list \<Rightarrow> int list \<Rightarrow> nat list \<Rightarrow> int \<Rightarrow> iota_tile"
  L_device_at :: "device_list \<Rightarrow> int \<Rightarrow> int"
  L_device_ids :: "device_list \<Rightarrow> int list"
  L_device_stop :: "device_list \<Rightarrow> int"
  L_ShardingDim :: sharding_dim

section \<open>Classification\<close>

definition IsReplicatedOnAssignedSubmesh :: "hlo_sharding \<Rightarrow> bool" where
  "IsReplicatedOnAssignedSubmesh sharding =
     (if IsReplicated sharding then True
      else if ReplicateOnLastTileDim sharding
      then (let dims = ta_dims (tile_assignment_of sharding) in list_all (\<lambda>d. d = 1) (butlast dims))
      else False)"

definition IsReplicatedOrSubmeshReplicate :: "hlo_sharding \<Rightarrow> bool" where
  "IsReplicatedOrSubmeshReplicate sharding \<longleftrightarrow>
     IsReplicated sharding \<or> IsReplicatedOnAssignedSubmesh sharding \<or> IsTileMaximal sharding"

definition MeshEquivalentSharding :: "hlo_sharding \<Rightarrow> hlo_sharding \<Rightarrow> bool" where
  "MeshEquivalentSharding lhs rhs =
     (if IsReplicatedOrSubmeshReplicate lhs then IsReplicatedOrSubmeshReplicate rhs
      else if IsReplicatedOrSubmeshReplicate rhs then False
      else ta_dims (tile_assignment_of lhs) = ta_dims (tile_assignment_of rhs))"

definition GetDevices :: "hlo_sharding \<Rightarrow> device_list \<Rightarrow> device_list" where
  "GetDevices sharding default_devices =
     (if IsReplicated sharding then default_devices
      else dl_create (ta_first (tile_assignment_of sharding)) (ta_num_elements (tile_assignment_of sharding)))"

definition GetSpmdShape :: "sharding_lib \<Rightarrow> shape \<Rightarrow> hlo_sharding option \<Rightarrow> shape statusor" where
  "GetSpmdShape L shp sharding =
     (case sharding of
        None \<Rightarrow> Inr shp
      | Some sh \<Rightarrow>
          if \<not> IsTupleShape shp then Inr (L_MakePartitionedShape L shp sh)
          else bindR (mapR (\<lambda>idx. bindR (subR (tuple_elements sh) idx) (\<lambda>e.
                 Inr (L_MakePartitionedShape L (tuple_shapes shp ! idx) e)))
                 [0..<length (tuple_shapes shp)]) (\<lambda>subs.
               Inr (Shape TUPLE [] subs)))"

section \<open>Resizing\<close>

text \<open>The state of the loop: the dimensions written so far, whether one was resized, the replicate flag.\<close>

definition resize_step ::
  "shape \<Rightarrow> hlo_sharding \<Rightarrow> int \<Rightarrow> int \<Rightarrow> int list \<times> bool \<times> bool \<Rightarrow> nat \<Rightarrow> (int list \<times> bool \<times> bool) statusor" where
  "resize_step shp sharding src_size dst_size st dim =
     (case st of (out, matched, repl) \<Rightarrow>
      let dims = ta_dims (tile_assignment_of sharding); old_dim_size = dims ! dim in
      if src_size = 0 then Inl (Undefined ''division by zero'')
      else let new_dim_size = (old_dim_size * dst_size) sdiv src_size in
      bindR (subR (dimensions shp) dim) (\<lambda>shape_dim.
      let last_check = (\<lambda>out' matched'.
            if dim = length dims - 1 \<and> ReplicateOnLastTileDim sharding
            then bindR (subR out' dim) (\<lambda>d. Inr (out', matched', if d > 1 then True else repl))
            else Inr (out', matched', repl)) in
      if \<not> matched \<and> old_dim_size > 1 \<and> new_dim_size > 0 \<and> new_dim_size \<le> shape_dim
      then if src_size > dst_size \<and> dst_size = 0 then Inl (Undefined ''division by zero'')
           else if src_size > dst_size \<and> src_size smod dst_size \<noteq> 0 then Inr (out, matched, repl)
           else if src_size < dst_size \<and> dst_size smod src_size \<noteq> 0 then Inr (out, matched, repl)
           else last_check (out @ [new_dim_size]) True
      else last_check (out @ [old_dim_size]) matched))"

definition identity_perm :: "nat list \<Rightarrow> bool" where
  "identity_perm perm \<longleftrightarrow> list_all (\<lambda>dim. dim = perm ! dim) [0..<length perm]"

definition guess_proto ::
  "sharding_lib \<Rightarrow> hlo_sharding \<Rightarrow> int \<Rightarrow> device_list option \<Rightarrow> int list \<Rightarrow> bool \<Rightarrow> op_sharding" where
  "guess_proto L sharding num_elements devices dims repl =
     (if ta_iota (tile_assignment_of sharding) \<noteq> None \<or> devices = None
      then OpSharding OS_OTHER dims [] [num_elements] [0]
             (case devices of None \<Rightarrow> 0 | Some d \<Rightarrow> dl_start d) repl []
      else OpSharding OS_OTHER dims (case devices of None \<Rightarrow> [] | Some d \<Rightarrow> L_device_ids L d) [] [] 0 repl [])"

definition ResizeSharding ::
  "sharding_lib \<Rightarrow> shape \<Rightarrow> hlo_sharding \<Rightarrow> int \<Rightarrow> device_list option \<Rightarrow> hlo_sharding option statusor" where
  "ResizeSharding L shp sharding num_elements devices =
     (let ta = tile_assignment_of sharding in
      if (case ta_iota ta of None \<Rightarrow> False | Some io \<Rightarrow> \<not> identity_perm (iota_transpose_perm io))
      then Inr None
      else bindR (foldR (resize_step shp sharding (ta_num_elements ta) num_elements) ([], False, False)
                    [0..<length (ta_dims ta)]) (\<lambda>(dims, matched, repl).
           if matched
           then (case L_FromProto L (guess_proto L sharding num_elements devices dims repl) of
                   Inr new_sharding \<Rightarrow> Inr (Some new_sharding)
                 | Inl _ \<Rightarrow> Inr None)
           else Inr None))"

section \<open>Logical axes on a device grid\<close>

definition LogicalToPhysicalSharding ::
  "sharding_lib \<Rightarrow> nat list list \<Rightarrow> device_list \<Rightarrow> int list \<Rightarrow> bool \<Rightarrow> op_sharding statusor" where
  "LogicalToPhysicalSharding L logical_to_device_axes devices dims list_all_devices =
     (if list_ex (list_ex (\<lambda>dim. length dims \<le> dim)) logical_to_device_axes
      then Inl (Undefined ''subscript'')
      else let device_axes_used = foldl (\<lambda>used dim. used[dim := True]) (map (\<lambda>_. False) dims)
                 (concat logical_to_device_axes);
               fully_replicated = list_all (list_all (\<lambda>dim. dims ! dim \<le> 1)) logical_to_device_axes in
      if logical_to_device_axes = [] \<or> fully_replicated \<and> \<not> list_all_devices
      then Inr op_sharding_default
      else
      let replicated_device_axes = filter (\<lambda>dim. \<not> device_axes_used ! dim) [0..<length dims];
          replication_size = foldl (\<lambda>r dim. r * dims ! dim) 1 replicated_device_axes;
          total_mesh_size = prod_list_int dims;
          tile_dims = map (\<lambda>axes. foldl (\<lambda>r ax. r * dims ! ax) 1 (sort axes)) logical_to_device_axes;
          dim_permutation = concat (map sort logical_to_device_axes) @ replicated_device_axes;
          tile_dims' = (if replicated_device_axes \<noteq> [] then tile_dims @ [replication_size] else tile_dims);
          need_permutation = list_ex (\<lambda>idx. idx \<noteq> dim_permutation ! idx) [0..<length dims] in
      Inr (OpSharding OS_OTHER tile_dims' []
             (if need_permutation then dims else [total_mesh_size])
             (if need_permutation then dim_permutation else [0])
             (L_device_at L devices 0) (replicated_device_axes \<noteq> []) []))"

definition LogicalToPhysicalSharding_slice ::
  "sharding_lib \<Rightarrow> nat list list \<Rightarrow> int \<times> int \<Rightarrow> int list \<Rightarrow> bool \<Rightarrow> op_sharding statusor" where
  "LogicalToPhysicalSharding_slice L logical_to_device_axes start_size dims list_all_devices =
     LogicalToPhysicalSharding L logical_to_device_axes (dl_create (fst start_size) (snd start_size)) dims list_all_devices"

section \<open>Grouping tile dimensions by iota dimensions\<close>

text \<open>
  Both canonicalization and replication walk the tile dimensions and collect them into groups
  that span one iota dimension each. Canonicalization also refuses an iota dimension smaller
  than its tile dimension; \<open>too_small\<close> is that check.
\<close>

definition push_group :: "nat list list \<Rightarrow> nat \<Rightarrow> nat list list" where
  "push_group groups dim = butlast groups @ [last groups @ [dim]]"

definition group_step ::
  "(int \<Rightarrow> int \<Rightarrow> bool) \<Rightarrow> status \<Rightarrow> int list \<Rightarrow> int list \<Rightarrow> nat \<times> int \<times> nat list list \<Rightarrow> nat
     \<Rightarrow> (nat \<times> int \<times> nat list list) statusor" where
  "group_step too_small err spans tdims st ta_dim =
     (case st of (iota_dim, spanned_dimension, groups) \<Rightarrow>
      if iota_dim < length spans
      then let spanned = spanned_dimension * tdims ! ta_dim; span = spans ! iota_dim in
           if too_small span (tdims ! ta_dim) then Inl err
           else let groups' = push_group groups ta_dim in
           if spanned \<ge> span
           then Inr (Suc iota_dim, 1, if Suc iota_dim < length spans then groups' @ [[]] else groups')
           else Inr (iota_dim, spanned, groups')
      else Inr (iota_dim, spanned_dimension, push_group groups ta_dim))"

definition group_dims ::
  "(int \<Rightarrow> int \<Rightarrow> bool) \<Rightarrow> status \<Rightarrow> int list \<Rightarrow> int list \<Rightarrow> nat list list statusor" where
  "group_dims too_small err spans tdims =
     bindR (foldR (group_step too_small err spans tdims) (0, 1, [[]]) [0..<length tdims]) (\<lambda>(_, _, groups).
     Inr groups)"

text \<open>The groups in the order of the permutation. With \<open>mv\<close> a group is moved, so it can be taken once.\<close>

definition permute_step ::
  "bool \<Rightarrow> nat list list \<Rightarrow> nat list \<times> nat list list \<Rightarrow> nat \<times> nat \<Rightarrow> (nat list \<times> nat list list) statusor" where
  "permute_step mv groups st e =
     (case st of (used, out) \<Rightarrow> case e of (permuted_dim, src_dim) \<Rightarrow>
      bindR (subR groups src_dim) (\<lambda>g.
      if mv \<and> src_dim \<in> set used then Inl (Undefined ''moved-from vector'')
      else if permuted_dim < length out then Inr (src_dim # used, out[permuted_dim := g])
      else Inl (Undefined ''subscript'')))"

definition permute_groups :: "bool \<Rightarrow> nat list list \<Rightarrow> nat list \<Rightarrow> nat list list statusor" where
  "permute_groups mv groups perm =
     bindR (foldR (permute_step mv groups) ([], map (\<lambda>_. []) groups) (zip [0..<length perm] perm)) (\<lambda>(_, out).
     Inr out)"

section \<open>Canonical shardings\<close>

definition zuku_type_of :: "primitive_type \<Rightarrow> supported_type statusor" where
  "zuku_type_of t =
     (case t of
        PRED \<Rightarrow> Inr ST_PRED | F16 \<Rightarrow> Inr ST_F16 | BF16 \<Rightarrow> Inr ST_BF16 | F32 \<Rightarrow> Inr ST_F32
      | F64 \<Rightarrow> Inr ST_F64 | S8 \<Rightarrow> Inr ST_S8 | S16 \<Rightarrow> Inr ST_S16 | S32 \<Rightarrow> Inr ST_S32 | S64 \<Rightarrow> Inr ST_S64
      | U8 \<Rightarrow> Inr ST_U8 | U16 \<Rightarrow> Inr ST_U16 | U32 \<Rightarrow> Inr ST_U32 | U64 \<Rightarrow> Inr ST_U64
      | C64 \<Rightarrow> Inr ST_C64 | C128 \<Rightarrow> Inr ST_C128
      | TUPLE \<Rightarrow> Inl (InternalError ''Unsupported type: TUPLE'')
      | OtherType n \<Rightarrow> Inl (InternalError (''Unsupported type: '' @ n)))"

definition permuted_reshape_dims :: "iota_tile \<Rightarrow> int list statusor" where
  "permuted_reshape_dims io =
     (if iota_transpose_perm io = [] then Inr (iota_reshape_dims io)
      else if length (iota_reshape_dims io) < length (iota_transpose_perm io) then Inl (Undefined ''subscript'')
      else bindR (mapR (subR (iota_reshape_dims io)) (iota_transpose_perm io)) (\<lambda>xs.
           Inr (xs @ replicate (length (iota_reshape_dims io) - length (iota_transpose_perm io)) 0)))"

definition canonical_dim_step ::
  "int list \<Rightarrow> shape \<Rightarrow> bool \<Rightarrow> nat \<Rightarrow> sharding_dim list \<Rightarrow> nat \<times> nat \<Rightarrow> sharding_dim list statusor" where
  "canonical_dim_step tdims shp shape_is_global num_shape_dims dims e =
     (case e of (perm_dim, d) \<Rightarrow>
      let extent = tdims ! d in
      bindR (if d = num_shape_dims then Inr 1
             else bindR (subR (dimensions shp) d) (\<lambda>dim_size.
                  Inr (if shape_is_global then dim_size else dim_size * extent))) (\<lambda>size.
      Inr (dims[d := \<lparr>sd_size = size, sd_sharding = extent, sd_permutation = int perm_dim\<rparr>])))"

definition num_shape_dims :: "hlo_sharding \<Rightarrow> nat" where
  "num_shape_dims sharding =
     (let n = length (ta_dims (tile_assignment_of sharding)) in
      if ReplicateOnLastTileDim sharding then n - 1 else n)"

definition CanonicalizeSharding_iota ::
  "sharding_lib \<Rightarrow> hlo_sharding \<Rightarrow> tile_assignment \<Rightarrow> iota_tile \<Rightarrow> shape \<Rightarrow> bool \<Rightarrow> sharded_shape statusor" where
  "CanonicalizeSharding_iota L sharding ta io shp shape_is_global =
     bindR (permuted_reshape_dims io) (\<lambda>spans.
     bindR (group_dims (\<lambda>span d. span < d)
              (InvalidArgument (''CanonicalizeSharding: '' @ L_ToString L sharding
                 @ '' has multiple iota dims within a single tensor dimension, which is not yet supported''))
              spans (ta_dims ta)) (\<lambda>dimension_groups.
     bindR (permute_groups True dimension_groups (iota_transpose_perm io)) (\<lambda>permuted_groups.
     let full_permutation = concat permuted_groups;
         n_shape_dims = (if ReplicateOnLastTileDim sharding then length (ta_dims ta) - 1 else length (ta_dims ta)) in
     bindR (foldR (canonical_dim_step (ta_dims ta) shp shape_is_global n_shape_dims)
              (map (\<lambda>_. L_ShardingDim L) (ta_dims ta))
              (zip [0..<length full_permutation] full_permutation)) (\<lambda>dims.
     bindR (zuku_type_of (element_type shp)) (\<lambda>zuku_type.
     Inr \<lparr>ss_type = zuku_type, ss_dims = dims,
          ss_devices = dl_create (iota_offset io) (iota_num_elements io)\<rparr>)))))"

definition CanonicalizeSharding ::
  "sharding_lib \<Rightarrow> hlo_sharding \<Rightarrow> shape \<Rightarrow> bool \<Rightarrow> sharded_shape statusor" where
  "CanonicalizeSharding L sharding shp shape_is_global =
     (let ta = tile_assignment_of sharding in
      case ta_iota ta of
        Some io \<Rightarrow> CanonicalizeSharding_iota L sharding ta io shp shape_is_global
      | None \<Rightarrow>
          bindR (foldR (\<lambda>prev dev.
                   if dev \<noteq> prev + 1
                   then Inl (InvalidArgument ''CanonicalizeSharding: only supported for iota tile assignment'')
                   else Inr dev) (ta_first ta - 1) (ta_array ta)) (\<lambda>_.
          CanonicalizeSharding_iota L sharding ta
            (L_IotaCreate L (ta_dims ta) [ta_num_elements ta] [0] (ta_first ta)) shp shape_is_global))"

section \<open>Replicating dimensions\<close>

definition current_permutation :: "tile_assignment \<Rightarrow> iota_tile \<Rightarrow> nat list statusor" where
  "current_permutation ta io =
     (if iota_transpose_perm io = [] then Inr [0..<length (ta_dims ta)]
      else bindR (mapR (subR (iota_reshape_dims io)) (iota_transpose_perm io)) (\<lambda>spans.
           bindR (group_dims (\<lambda>_ _. False) (InvalidArgument []) spans (ta_dims ta)) (\<lambda>dimension_groups.
           bindR (permute_groups False dimension_groups (iota_transpose_perm io)) (\<lambda>permuted_groups.
           Inr (concat permuted_groups)))))"

text \<open>One replicated dimension: its old position goes to a new unit dimension at the end.\<close>

definition replicate_step :: "nat list \<Rightarrow> nat list \<times> nat \<Rightarrow> nat \<Rightarrow> (nat list \<times> nat) statusor" where
  "replicate_step cur st dim =
     (case st of (new_permutation, extra_dim) \<Rightarrow>
      bindR (subR cur dim) (\<lambda>c. Inr ((new_permutation @ [c])[dim := extra_dim], Suc extra_dim)))"

definition total_replication :: "hlo_sharding \<Rightarrow> int list \<Rightarrow> nat list \<Rightarrow> int" where
  "total_replication sharding tdims replicated_dims =
     foldl (\<lambda>r dim. r * tdims ! dim)
       (if ReplicateOnLastTileDim sharding then tdims ! (length tdims - 1) else 1) replicated_dims"

definition replicated_tile_dims :: "hlo_sharding \<Rightarrow> int list \<Rightarrow> nat list \<Rightarrow> int list" where
  "replicated_tile_dims sharding tdims replicated_dims =
     foldl (\<lambda>ds dim. ds[dim := 1])
       (if ReplicateOnLastTileDim sharding
        then tdims[length tdims - 1 := total_replication sharding tdims replicated_dims]
        else tdims @ [total_replication sharding tdims replicated_dims]) replicated_dims"

definition ReplicateDims ::
  "sharding_lib \<Rightarrow> nat list \<Rightarrow> hlo_sharding \<Rightarrow> hlo_sharding statusor" where
  "ReplicateDims L replicated_dims sharding =
     (let ta = tile_assignment_of sharding; tdims = ta_dims ta in
      case ta_iota ta of
        None \<Rightarrow> Inl (InvalidArgument ''ReplicateDims only supported for iota tile assignment'')
      | Some io \<Rightarrow>
          bindR (current_permutation ta io) (\<lambda>cur.
          bindR (foldR (replicate_step cur) (cur, length cur) replicated_dims) (\<lambda>(new_permutation, _).
          if list_ex (\<lambda>dim. length tdims \<le> dim) replicated_dims \<or>
             ReplicateOnLastTileDim sharding \<and> tdims = []
          then Inl (Undefined ''subscript'')
          else if total_replication sharding tdims replicated_dims = ta_num_elements ta
          then Inr (L_Replicate L)
          else L_FromProto L (OpSharding OS_OTHER (replicated_tile_dims sharding tdims replicated_dims) []
                 (map ((!) tdims) cur @ map (\<lambda>_. 1) replicated_dims) new_permutation 0 True []))))"

section \<open>Sharded shapes\<close>

definition XlaShapeToZukuShape ::
  "sharding_lib \<Rightarrow> shape \<Rightarrow> device_list \<Rightarrow> hlo_sharding \<Rightarrow> bool \<Rightarrow> sharded_shape statusor" where
  "XlaShapeToZukuShape L shp devices sharding shape_is_global =
     bindR (zuku_type_of (element_type shp)) (\<lambda>zuku_type.
     if IsReplicated sharding \<or> IsTileMaximal sharding
     then let sharding_dims = map (\<lambda>(dim_number, dim).
                  \<lparr>sd_size = dim, sd_sharding = 1, sd_permutation = int dim_number\<rparr>)
                (zip [0..<length (dimensions shp)] (dimensions shp)) in
          Inr \<lparr>ss_type = zuku_type,
               ss_dims = (if dl_size devices > 1
                          then sharding_dims @ [\<lparr>sd_size = 1, sd_sharding = dl_size devices,
                                 sd_permutation = int (length (dimensions shp))\<rparr>]
                          else sharding_dims),
               ss_devices = devices\<rparr>
     else bindR (CanonicalizeSharding L sharding shp shape_is_global) (\<lambda>ss.
          if devices \<noteq> ss_devices ss
          then if dl_size devices \<noteq> dl_size (ss_devices ss)
               then Inl (InvalidArgument (''devices=['' @ show_int (dl_start devices) @ ''...''
                      @ show_int (L_device_stop L devices)
                      @ '') given to XlaShapeToZukuShape differs from sharding: '' @ L_ToString L sharding))
               else Inr (ss\<lparr>ss_devices := devices\<rparr>)
          else Inr ss))"

section \<open>Grid indices\<close>

definition ComputeIndexSet :: "int \<Rightarrow> int list \<Rightarrow> int list statusor" where
  "ComputeIndexSet global_index dims =
     bindR (foldR (\<lambda>(remainder, dim_stride, indices) d.
              if d = 0 then Inl (Undefined ''division by zero'')
              else let dim_stride = narrow32 (dim_stride sdiv d) in
              if dim_stride = 0 then Inl (Undefined ''division by zero'')
              else let index = remainder sdiv dim_stride in
              Inr (narrow32 (remainder - index * dim_stride), dim_stride, indices @ [index]))
            (narrow32 global_index, foldl (\<lambda>stride d. narrow32 (stride * d)) 1 dims, []) dims) (\<lambda>(_, _, indices).
     Inr indices)"

definition ComputeGlobalIndex :: "int list \<Rightarrow> int list \<Rightarrow> int statusor" where
  "ComputeGlobalIndex indices dims =
     (if length dims < length indices then Inl (Undefined ''subscript'')
      else Inr (snd (foldl (\<lambda>(stride, index) (i, d). (narrow32 (stride * d), narrow32 (index + stride * i)))
             (1, 0) (rev (zip indices dims)))))"

section \<open>Mesh equivalence\<close>

text \<open>
  Mesh equivalence of shardings is an equivalence relation.
\<close>

theorem mesh_equivalent_equivp: "equivp MeshEquivalentSharding"
  by (rule equivpI) (auto simp: reflp_def symp_def transp_def MeshEquivalentSharding_def split: if_splits)

section \<open>Grid index lemmas\<close>

text \<open>The index vector of a number in a grid, and back, without machine arithmetic.\<close>

fun index_set :: "int \<Rightarrow> int list \<Rightarrow> int list" where
  "index_set i [] = []"
| "index_set i (d # ds) = i div prod_list ds # index_set (i mod prod_list ds) ds"

fun global_of :: "int list \<Rightarrow> int list \<Rightarrow> int" where
  "global_of (i # is) (d # ds) = i * prod_list ds + global_of is ds"
| "global_of _ _ = 0"

definition positive_dims :: "int list \<Rightarrow> bool" where
  "positive_dims dims \<longleftrightarrow> (\<forall>d \<in> set dims. 0 < d)"

lemma positive_dims_simps [simp]:
  "positive_dims []" "positive_dims (d # ds) \<longleftrightarrow> 0 < d \<and> positive_dims ds"
  by (auto simp: positive_dims_def)

lemma positive_prod [simp, intro]: "positive_dims dims \<Longrightarrow> 0 < prod_list dims"
  by (induction dims) auto

lemma prod_factor_le: "positive_dims ds \<Longrightarrow> 0 < a \<Longrightarrow> (a :: int) \<le> a * prod_list ds"
proof -
  assume "positive_dims ds" and "0 < a"
  then have "0 < prod_list ds" by blast
  then show "a \<le> a * prod_list ds" using mult_left_mono[of 1 "prod_list ds" a] \<open>0 < a\<close> by simp
qed

lemma prod_tail_less:
  assumes "positive_dims (d # ds)" and "prod_list (d # ds) < (n :: int)"
  shows "prod_list ds < n"
proof -
  have "prod_list ds \<le> prod_list ds * d"
    using assms(1) mult_left_mono[of 1 d "prod_list ds"] positive_prod[of ds] by simp
  then show ?thesis using assms(2) by (simp only: prod_list.Cons mult.commute)
qed

lemma stride_product:
  "positive_dims dims \<Longrightarrow> 0 < a \<Longrightarrow> a * prod_list dims < 2 ^ 31 \<Longrightarrow>
     foldl (\<lambda>stride d. narrow32 (stride * d)) a dims = a * prod_list dims"
proof (induction dims arbitrary: a)
  case (Cons d ds)
  have "0 < a * d" using Cons.prems by simp
  moreover have "a * d \<le> a * d * prod_list ds" using prod_factor_le[of ds "a * d"] Cons.prems by simp
  ultimately have n: "narrow32 (a * d) = a * d" using Cons.prems(3) by (intro narrow32_id) (auto simp: mult.assoc)
  have "foldl (\<lambda>stride d. narrow32 (stride * d)) (a * d) ds = a * d * prod_list ds"
    using Cons.prems by (intro Cons.IH) (auto simp: mult.assoc)
  then show ?case by (simp add: n mult.assoc)
qed simp

abbreviation index_step :: "int \<times> int \<times> int list \<Rightarrow> int \<Rightarrow> (int \<times> int \<times> int list) statusor" where
  "index_step \<equiv> \<lambda>(remainder, dim_stride, indices) d.
              if d = 0 then Inl (Undefined ''division by zero'')
              else let dim_stride = narrow32 (dim_stride sdiv d) in
              if dim_stride = 0 then Inl (Undefined ''division by zero'')
              else let index = remainder sdiv dim_stride in
              Inr (narrow32 (remainder - index * dim_stride), dim_stride, indices @ [index])"

lemma index_step_eq:
  assumes "positive_dims (d # ds)" and "prod_list (d # ds) < 2 ^ 31"
    and "0 \<le> r" and "r < prod_list (d # ds)"
  shows "index_step (r, prod_list (d # ds), acc) d =
    Inr (r mod prod_list ds, prod_list ds, acc @ [r div prod_list ds])"
proof -
  let ?q = "prod_list ds"
  have q: "0 < ?q" "0 < d" using assms(1) by auto
  have lt: "?q < 2 ^ 31" by (rule prod_tail_less[OF assms(1,2)])
  have "(d * ?q) sdiv d = ?q" using q by (simp add: sdiv_nonneg)
  moreover have "narrow32 ?q = ?q" using lt q by (intro narrow32_id) auto
  moreover have "r sdiv ?q = r div ?q" using assms(3) q by (simp add: sdiv_nonneg)
  moreover have "r - r div ?q * ?q = r mod ?q" by (simp add: minus_div_mult_eq_mod)
  moreover have "narrow32 (r mod ?q) = r mod ?q"
  proof -
    have "0 \<le> r mod ?q" "r mod ?q < ?q" using q by simp_all
    then show ?thesis using lt by (intro narrow32_id) auto
  qed
  ultimately show ?thesis using q by (simp add: Let_def)
qed

lemma index_fold:
  assumes "positive_dims ds" and "prod_list ds < 2 ^ 31" and "0 \<le> r" and "r < prod_list ds"
  shows "foldR index_step (r, prod_list ds, acc) ds = Inr (0, 1, acc @ index_set r ds)"
  using assms
proof (induction ds arbitrary: r acc)
  case (Cons d ds)
  have q: "0 < prod_list ds" "0 < d" using Cons.prems(1) by auto
  have lt: "prod_list ds < 2 ^ 31" by (rule prod_tail_less[OF Cons.prems(1,2)])
  have "foldR index_step (r mod prod_list ds, prod_list ds, acc @ [r div prod_list ds]) ds =
      Inr (0, 1, (acc @ [r div prod_list ds]) @ index_set (r mod prod_list ds) ds)"
    using Cons.prems q lt by (intro Cons.IH) auto
  then show ?case
    unfolding foldR.simps index_step_eq[OF Cons.prems] bindR_simps by simp
qed simp

lemma ComputeIndexSet_eq:
  assumes "positive_dims dims" and "prod_list dims < 2 ^ 31" and "0 \<le> i" and "i < prod_list dims"
  shows "ComputeIndexSet i dims = Inr (index_set i dims)"
proof -
  have "narrow32 i = i" using assms by (intro narrow32_id) auto
  then show ?thesis
    unfolding ComputeIndexSet_def using stride_product[of dims 1] index_fold[OF assms, of "[]"] assms
    by simp
qed

lemma global_bounds:
  "positive_dims ds \<Longrightarrow> list_all2 (\<lambda>i d. 0 \<le> i \<and> i < d) is ds \<Longrightarrow>
     0 \<le> global_of is ds \<and> global_of is ds < prod_list ds"
proof (induction "is" ds rule: global_of.induct)
  case (1 i "is" d ds)
  then have q: "0 < prod_list ds" "0 \<le> i" "i < d" by auto
  then have "(i + 1) * prod_list ds \<le> d * prod_list ds" by (intro mult_right_mono) auto
  then show ?case using 1 q by (auto simp: algebra_simps)
qed auto

lemma global_index_set:
  "positive_dims ds \<Longrightarrow> 0 \<le> i \<Longrightarrow> i < prod_list ds \<Longrightarrow> global_of (index_set i ds) ds = i"
proof (induction ds arbitrary: i)
  case (Cons d ds)
  then show ?case by (simp add: div_mult_mod_eq)
qed simp

lemma index_set_bounds:
  "positive_dims ds \<Longrightarrow> 0 \<le> i \<Longrightarrow> i < prod_list ds \<Longrightarrow> list_all2 (\<lambda>i d. 0 \<le> i \<and> i < d) (index_set i ds) ds"
proof (induction ds arbitrary: i)
  case (Cons d ds)
  have "i div prod_list ds < d"
  proof (rule ccontr)
    assume "\<not> i div prod_list ds < d"
    moreover have "0 < prod_list ds" using Cons.prems(1) by auto
    ultimately have "d * prod_list ds \<le> i div prod_list ds * prod_list ds" by (intro mult_right_mono) auto
    also have "\<dots> \<le> i" using \<open>0 < prod_list ds\<close> by (simp add: div_mult_mod_eq[symmetric] minus_mod_eq_div_mult[symmetric])
    finally show False using Cons.prems(3) by simp
  qed
  then show ?case using Cons by (auto simp: pos_imp_zdiv_nonneg_iff)
qed simp

lemma index_set_global:
  "positive_dims ds \<Longrightarrow> list_all2 (\<lambda>i d. 0 \<le> i \<and> i < d) is ds \<Longrightarrow> index_set (global_of is ds) ds = is"
proof (induction "is" ds rule: global_of.induct)
  case (1 i "is" d ds)
  then have b: "0 \<le> global_of is ds" "global_of is ds < prod_list ds"
    using global_bounds[of ds "is"] by auto
  then have "(i * prod_list ds + global_of is ds) div prod_list ds = i"
    and "(i * prod_list ds + global_of is ds) mod prod_list ds = global_of is ds"
    by (simp_all add: div_pos_pos_trivial)
  then show ?case using 1 by simp
qed auto

lemma global_fold:
  assumes "positive_dims ds" and "prod_list ds < 2 ^ 31" and "list_all2 (\<lambda>i d. 0 \<le> i \<and> i < d) is ds"
  shows "foldl (\<lambda>(stride, index) (i, d). (narrow32 (stride * d), narrow32 (index + stride * i))) (1, 0)
           (rev (zip is ds)) = (prod_list ds, global_of is ds)"
  using assms
proof (induction "is" ds rule: global_of.induct)
  case (1 i "is" d ds)
  have lt: "prod_list ds < 2 ^ 31" by (rule prod_tail_less[OF 1(2,3)])
  have b: "0 \<le> global_of (i # is) (d # ds)" "global_of (i # is) (d # ds) < 2 ^ 31"
    using global_bounds[of "d # ds" "i # is"] 1(2-4) by auto
  have "0 < prod_list (d # ds)" using 1(2) by blast
  then have "narrow32 (prod_list (d # ds)) = prod_list (d # ds)"
    using 1(3) by (intro narrow32_id) auto
  moreover have "narrow32 (global_of (i # is) (d # ds)) = global_of (i # is) (d # ds)"
    using b by (intro narrow32_id) auto
  ultimately show ?case using 1 lt by (simp add: mult.commute add.commute)
qed auto

lemma ComputeGlobalIndex_eq:
  assumes "positive_dims dims" and "prod_list dims < 2 ^ 31"
    and "list_all2 (\<lambda>i d. 0 \<le> i \<and> i < d) indices dims"
  shows "ComputeGlobalIndex indices dims = Inr (global_of indices dims)"
  using global_fold[OF assms] list_all2_lengthD[OF assms(3)] by (simp add: ComputeGlobalIndex_def)

text \<open>
  On a grid of fewer than 2^31 cells the two index functions are inverse to each other:
  every cell number has an index vector inside the grid that leads back to it, and every
  index vector inside the grid has a cell number that leads back to it.
\<close>

theorem grid_index_roundtrip:
  assumes "positive_dims dims" and "prod_list dims < 2 ^ 31"
  shows "(\<forall>i. 0 \<le> i \<and> i < prod_list dims \<longrightarrow> (\<exists>is. ComputeIndexSet i dims = Inr is \<and>
            list_all2 (\<lambda>i d. 0 \<le> i \<and> i < d) is dims \<and> ComputeGlobalIndex is dims = Inr i)) \<and>
         (\<forall>is. list_all2 (\<lambda>i d. 0 \<le> i \<and> i < d) is dims \<longrightarrow>
            (\<exists>i. ComputeGlobalIndex is dims = Inr i \<and> 0 \<le> i \<and> i < prod_list dims \<and>
              ComputeIndexSet i dims = Inr is))"
  using ComputeIndexSet_eq[OF assms] ComputeGlobalIndex_eq[OF assms] index_set_bounds[OF assms(1)]
    global_index_set[OF assms(1)] index_set_global[OF assms(1)] global_bounds[OF assms(1)]
  by (intro conjI allI impI) (simp_all)

theorem grid_index_roundtrip_witness:
  "\<exists>is. ComputeIndexSet 13 [1, 2, 3, 4] = Inr is \<and> ComputeGlobalIndex is [1, 2, 3, 4] = Inr 13"
  using grid_index_roundtrip[of "[1, 2, 3, 4]"] by (auto elim!: allE[of _ 13])

text \<open>
  The stride is an \<open>int\<close>: on a grid of 65536 by 65536 devices it wraps to zero and the
  index computation divides by zero.
\<close>

theorem grid_index_stride_overflow:
  "ComputeIndexSet 0 [65536, 65536] = Inl (Undefined ''division by zero'')"
  by (simp add: ComputeIndexSet_def narrow32_def)

end
