(* ===== verification/Sharding_Dims.thy ===== *)
theory Sharding_Dims
  imports Mm_Sharding
begin

text \<open>
  What the rewriting of shardings in \<open>mm_sharding.cc\<close> preserves: the tile dimensions are
  grouped without loss, the permutations written out are permutations, and the number of
  devices is kept.
\<close>

section \<open>Grouping\<close>

text \<open>
  The contract of a grouping: the groups are consecutive, cover all tile dimensions, and are no
  more than the iota dimensions. Its client is the reordering of the groups.
\<close>

locale dim_grouping =
  fixes group :: "int list \<Rightarrow> int list \<Rightarrow> nat list list statusor"
  assumes group_concat: "group spans tdims = Inr gs \<Longrightarrow> concat gs = [0..<length tdims]"
    and group_count: "group spans tdims = Inr gs \<Longrightarrow> spans \<noteq> [] \<Longrightarrow> length gs \<le> length spans"
begin

lemma reordered_groups:
  assumes "group spans tdims = Inr gs" and "spans \<noteq> []"
    and "length perm = length spans" and "distinct perm" and "set perm = {..<length spans}"
    and "length perm \<le> length gs" and "out = map ((!) gs) perm @ replicate (length gs - length perm) []"
  shows "mset (concat out) = mset [0..<length tdims]"
proof -
  have len: "length gs = length perm" using group_count[OF assms(1,2)] assms(3,6) by simp
  have "mset perm = mset [0..<length gs]"
  proof (rule mset_eq_of_distinct_set[OF assms(4)])
    show "set perm = set [0..<length gs]" by (simp add: assms(5) len assms(3) atLeast0LessThan)
  qed simp
  from mset_concat_perm[OF mset_map_nth_perm[OF this]]
  have "mset (concat (map ((!) gs) perm)) = mset (concat gs)" .
  then show ?thesis using assms(7) len group_concat[OF assms(1)] by simp
qed

end

lemma concat_push_group: "groups \<noteq> [] \<Longrightarrow> concat (push_group groups d) = concat groups @ [d]"
  by (cases groups rule: rev_cases) (simp_all add: push_group_def)

lemma length_push_group: "groups \<noteq> [] \<Longrightarrow> length (push_group groups d) = length groups"
  by (cases groups rule: rev_cases) (simp_all add: push_group_def)

lemma group_fold:
  assumes "foldR (group_step too_small err spans tdims) (0, 1, [[]]) [0..<n] = Inr (k, sp, gs)"
  shows "gs \<noteq> [] \<and> concat gs = [0..<n] \<and> k \<le> length spans \<and>
    (spans \<noteq> [] \<longrightarrow> length gs = (if k < length spans then Suc k else length spans))"
  using assms
proof (induction n arbitrary: k sp gs)
  case (Suc n)
  obtain k0 sp0 gs0 where pre: "foldR (group_step too_small err spans tdims) (0, 1, [[]]) [0..<n] = Inr (k0, sp0, gs0)"
    and step: "group_step too_small err spans tdims (k0, sp0, gs0) n = Inr (k, sp, gs)"
    using Suc.prems by (auto simp: foldR_append bindR_Inr_iff)
  note IH = Suc.IH[OF pre]
  have push: "push_group gs0 n \<noteq> []" by (simp add: push_group_def)
  from step IH push show ?case
    by (auto simp: group_step_def Let_def concat_push_group length_push_group split: if_splits)
qed auto

interpretation grouping: dim_grouping "group_dims too_small err" for too_small err
proof unfold_locales
  fix spans tdims gs
  assume "group_dims too_small err spans tdims = Inr gs"
  then obtain k sp where
    "foldR (group_step too_small err spans tdims) (0, 1, [[]]) [0..<length tdims] = Inr (k, sp, gs)"
    by (auto simp: group_dims_def bindR_Inr_iff)
  from group_fold[OF this] show "concat gs = [0..<length tdims]"
    and "spans \<noteq> [] \<Longrightarrow> length gs \<le> length spans" by auto
qed

lemma permute_step_Inr:
  "permute_step mv groups (used, out) (j, src) = Inr st \<Longrightarrow>
     j < length out \<and> st = (src # used, out[j := groups ! src])"
  by (auto simp: permute_step_def bindR_Inr_iff subR_Inr_iff split: if_splits)

lemma permute_fold:
  assumes "foldR (permute_step mv groups) (used, out) (enumerate j perm) = Inr (used', out')"
    and "j \<le> length out"
  shows "j + length perm \<le> length out \<and>
    out' = take j out @ map ((!) groups) perm @ drop (j + length perm) out"
  using assms
proof (induction perm arbitrary: j used out)
  case (Cons src perm)
  obtain st where step: "permute_step mv groups (used, out) (j, src) = Inr st"
    and "foldR (permute_step mv groups) st (enumerate (Suc j) perm) = Inr (used', out')"
    using Cons.prems(1) by (auto simp: bindR_Inr_iff)
  then have rest: "foldR (permute_step mv groups) (src # used, out[j := groups ! src]) (enumerate (Suc j) perm)
      = Inr (used', out')" and j: "j < length out"
    using permute_step_Inr[OF step] by simp_all
  have "take (Suc j) (out[j := groups ! src]) = take j out @ [groups ! src]"
    using j by (simp add: take_Suc_conv_app_nth)
  moreover have "drop (Suc j + length perm) (out[j := groups ! src]) = drop (Suc j + length perm) out"
    by (rule drop_update_cancel) simp
  ultimately show ?case
    using Cons.IH[OF rest] j by simp
qed simp

lemma permute_groups_eq:
  assumes "permute_groups mv groups perm = Inr out"
  shows "length perm \<le> length groups"
    and "out = map ((!) groups) perm @ replicate (length groups - length perm) []"
proof -
  obtain used where "foldR (permute_step mv groups) ([], map (\<lambda>_. []) groups) (enumerate 0 perm) = Inr (used, out)"
    using assms by (auto simp: permute_groups_def bindR_Inr_iff enumerate_eq_zip)
  then have f: "length perm \<le> length groups \<and> out = map ((!) groups) perm @ drop (length perm) (map (\<lambda>_. []) groups)"
    using permute_fold[of mv groups "[]" "map (\<lambda>_. []) groups" 0 perm used out] by simp
  then show "length perm \<le> length groups" by simp
  have "drop (length perm) (map (\<lambda>_. []) groups) = replicate (length groups - length perm) ([] :: nat list)"
    by (simp add: map_replicate_const)
  with f show "out = map ((!) groups) perm @ replicate (length groups - length perm) []" by simp
qed

text \<open>An iota whose permutation is one.\<close>

definition wf_iota :: "iota_tile \<Rightarrow> bool" where
  "wf_iota io \<longleftrightarrow> length (iota_transpose_perm io) = length (iota_reshape_dims io) \<and>
     distinct (iota_transpose_perm io) \<and> set (iota_transpose_perm io) = {..<length (iota_reshape_dims io)}"

lemma regrouped_permutation:
  assumes "wf_iota io" and "iota_transpose_perm io \<noteq> []" and "length spans = length (iota_reshape_dims io)"
    and "group_dims too_small err spans tdims = Inr gs"
    and "permute_groups mv gs (iota_transpose_perm io) = Inr out"
  shows "mset (concat out) = mset [0..<length tdims]"
proof (rule grouping.reordered_groups[OF assms(4), where perm = "iota_transpose_perm io"])
  show "spans \<noteq> []" using assms(1-3) unfolding wf_iota_def by (metis length_0_conv)
qed (use assms(1,3) permute_groups_eq[OF assms(5)] in \<open>simp_all add: wf_iota_def\<close>)

lemma current_permutation_mset:
  assumes "current_permutation ta io = Inr cur" and "wf_iota io"
  shows "mset cur = mset [0..<length (ta_dims ta)]"
proof (cases "iota_transpose_perm io = []")
  case True
  then show ?thesis using assms(1) by (simp add: current_permutation_def)
next
  case False
  then obtain spans gs out where
    s: "mapR (subR (iota_reshape_dims io)) (iota_transpose_perm io) = Inr spans"
    and "group_dims (\<lambda>_ _. False) (InvalidArgument []) spans (ta_dims ta) = Inr gs"
    and "permute_groups False gs (iota_transpose_perm io) = Inr out" and "cur = concat out"
    using assms(1) unfolding current_permutation_def if_not_P[OF False] by (elim bindR_InrE) simp
  moreover have "length spans = length (iota_reshape_dims io)"
    using list_all2_lengthD[OF s[unfolded mapR_Inr_iff]] assms(2) unfolding wf_iota_def by simp
  ultimately show ?thesis using regrouped_permutation[OF assms(2) False] by blast
qed

section \<open>Replicated dimensions\<close>

lemma replicate_fold:
  assumes "distinct rd" and "\<forall>d \<in> set rd. d < length cur \<and> d < length np \<and> np ! d = cur ! d"
    and "mset np = mset [0..<e]" and "length np = e"
  shows "\<exists>np'. foldR (replicate_step cur) (np, e) rd = Inr (np', e + length rd) \<and>
    mset np' = mset [0..<e + length rd]"
  using assms
proof (induction rd arbitrary: np e)
  case (Cons d rd)
  let ?np = "(np @ [cur ! d])[d := e]"
  have d: "d < length cur" "d < e" "np ! d = cur ! d" using Cons.prems by auto
  have step: "replicate_step cur (np, e) d = Inr (?np, Suc e)"
    using d by (simp add: replicate_step_def)
  have "mset ?np = mset np - {#cur ! d#} + {#cur ! d#} + {#e#}"
    using d Cons.prems(4) by (simp add: mset_update list_update_append)
  also have "\<dots> = mset np + {#e#}"
    using d Cons.prems(4) by (metis insert_DiffM2 nth_mem set_mset_mset)
  finally have m: "mset ?np = mset [0..<Suc e]" using Cons.prems(3) by simp
  have "\<forall>d' \<in> set rd. d' < length cur \<and> d' < length ?np \<and> ?np ! d' = cur ! d'"
    using Cons.prems by (auto simp: nth_list_update nth_append)
  from Cons.IH[OF _ this m] show ?case using Cons.prems(1,4) step by simp
qed simp

lemma prod_update:
  "i < length xs \<Longrightarrow> prod_list (xs[i := v]) * xs ! i = prod_list xs * (v :: int)"
  by (induction xs arbitrary: i) (auto simp: algebra_simps split: nat.splits)

lemma prod_ones:
  assumes "distinct rd" and "\<forall>d \<in> set rd. d < length xs" and "\<forall>d \<in> set rd. (0 :: int) < xs ! d"
  shows "prod_list (foldl (\<lambda>ds d. ds[d := 1]) xs rd) * foldl (\<lambda>r d. r * xs ! d) c rd = c * prod_list xs"
  using assms
proof (induction rd arbitrary: xs c)
  case (Cons d rd)
  let ?xs = "xs[d := 1]"
  have "foldl (\<lambda>r d. r * xs ! d) c' rd = foldl (\<lambda>r d. r * ?xs ! d) c' rd" for c'
    using Cons.prems(1) by (intro foldl_cong arg_cong2[where f = "(*)"]) (auto, metis nth_list_update_neq)
  moreover have "prod_list (foldl (\<lambda>ds d. ds[d := 1]) ?xs rd) * foldl (\<lambda>r d. r * ?xs ! d) (c * xs ! d) rd
      = c * xs ! d * prod_list ?xs"
    using Cons.prems by (intro Cons.IH) (auto simp: nth_list_update)
  moreover have "prod_list ?xs * xs ! d = prod_list xs" using prod_update[of d xs 1] Cons.prems(2) by simp
  ultimately show ?case by (simp add: mult.commute mult.left_commute)
qed simp

lemma fold_product:
  "foldl (\<lambda>r d. r * f d) (c :: int) rd = c * foldl (\<lambda>r d. r * f d) 1 rd"
proof (induction rd arbitrary: c)
  case (Cons d rd)
  show ?case using Cons.IH[of "c * f d"] Cons.IH[of "f d"] by simp
qed simp

lemma fold_product_pos: "\<forall>d \<in> set rd. (0 :: int) < f d \<Longrightarrow> 0 < c \<Longrightarrow> 0 < foldl (\<lambda>r d. r * f d) c rd"
  by (induction rd arbitrary: c) auto

lemma replicated_tile_dims_prod:
  assumes rd: "distinct rd" "\<forall>d \<in> set rd. d < (if ReplicateOnLastTileDim sh then length tdims - 1 else length tdims)"
    and pos: "positive_dims tdims" "tdims \<noteq> []"
  shows "prod_list (replicated_tile_dims sh tdims rd) = prod_list tdims"
proof -
  let ?n = "length tdims" and ?X = "foldl (\<lambda>r d. r * tdims ! d) 1 rd"
  let ?S = "if ReplicateOnLastTileDim sh then tdims[?n - 1 := total_replication sh tdims rd]
     else tdims @ [total_replication sh tdims rd]"
  have in_range: "\<forall>d \<in> set rd. d < ?n" using rd(2) by (auto split: if_splits)
  have pos': "\<forall>d \<in> set rd. 0 < tdims ! d" using in_range pos(1) by (auto simp: positive_dims_def)
  have same: "foldl (\<lambda>r d. r * ?S ! d) 1 rd = ?X"
    using rd(2) in_range by (intro foldl_cong) (auto simp: nth_list_update nth_append)
  have "prod_list (replicated_tile_dims sh tdims rd) * foldl (\<lambda>r d. r * ?S ! d) 1 rd = 1 * prod_list ?S"
    unfolding replicated_tile_dims_def
    using rd in_range pos' by (intro prod_ones) (auto simp: nth_list_update nth_append less_SucI)
  moreover have "prod_list ?S = prod_list tdims * ?X"
  proof (cases "ReplicateOnLastTileDim sh")
    case True
    have "0 < tdims ! (?n - 1)" using pos by (auto simp: positive_dims_def)
    moreover have "prod_list ?S * tdims ! (?n - 1) = prod_list tdims * (tdims ! (?n - 1) * ?X)"
      using prod_update[of "?n - 1" tdims "total_replication sh tdims rd"] pos(2) True
        fold_product[of "(!) tdims" "tdims ! (?n - 1)" rd]
      by (simp add: total_replication_def)
    ultimately show ?thesis by (simp add: mult.commute mult.left_commute)
  next
    case False
    then show ?thesis by (simp add: total_replication_def)
  qed
  moreover have "0 < ?X" by (rule fold_product_pos[OF pos']) simp
  ultimately show ?thesis by (simp add: same)
qed

text \<open>
  Replicating distinct dimensions of a well-formed iota sharding whose grouping succeeds
  gives the replicated sharding when everything is replicated; otherwise the sharding built
  from a protocol buffer that is again well-formed: its tile dimensions and its iota
  dimensions both multiply to the number of devices, its permutation is one, the last
  dimension is the replication, and every requested dimension has one tile.
\<close>

theorem replicate_dims_wf:
  assumes sh: "ta = tile_assignment_of sh" "ta_iota ta = Some io" "wf_iota io"
    and pos: "positive_dims (ta_dims ta)" "ta_dims ta \<noteq> []"
    and cur: "current_permutation ta io = Inr cur"
    and rd: "distinct rd" "\<forall>d \<in> set rd. d < num_shape_dims sh"
  shows "if total_replication sh (ta_dims ta) rd = ta_num_elements ta
         then ReplicateDims L rd sh = Inr (L_Replicate L)
         else \<exists>op. ReplicateDims L rd sh = L_FromProto L op \<and>
           prod_list (os_tile_assignment_dimensions op) = prod_list (ta_dims ta) \<and>
           prod_list (os_iota_reshape_dims op) = prod_list (ta_dims ta) \<and>
           mset (os_iota_transpose_perm op) = mset [0..<length (os_iota_reshape_dims op)] \<and>
           os_replicate_on_last_tile_dim op \<and>
           (\<forall>d \<in> set rd. os_tile_assignment_dimensions op ! d = 1)"
proof -
  let ?tdims = "ta_dims ta"
  let ?n = "length ?tdims"
  have cm: "mset cur = mset [0..<?n]" by (rule current_permutation_mset[OF cur sh(3)])
  then have len: "length cur = ?n" by (metis length_upt minus_nat.diff_0 size_mset)
  have rd': "\<forall>d \<in> set rd. d < (if ReplicateOnLastTileDim sh then ?n - 1 else ?n)"
    using rd(2) sh(1) by (simp add: num_shape_dims_def Let_def split: if_splits)
  then have rdn: "\<forall>d \<in> set rd. d < ?n" by (auto split: if_splits)
  obtain np where np: "foldR (replicate_step cur) (cur, ?n) rd = Inr (np, ?n + length rd)"
    and nm: "mset np = mset [0..<?n + length rd]"
    using replicate_fold[OF rd(1) _ cm len, of cur] rdn len by auto
  let ?op = "OpSharding OS_OTHER (replicated_tile_dims sh ?tdims rd) []
      (map ((!) ?tdims) cur @ map (\<lambda>_. 1) rd) np 0 True []"
  have run: "ReplicateDims L rd sh =
      (if total_replication sh ?tdims rd = ta_num_elements ta then Inr (L_Replicate L) else L_FromProto L ?op)"
    using sh cur np len pos(2) rdn by (auto simp: ReplicateDims_def Let_def list_ex_iff)
  have one: "replicated_tile_dims sh ?tdims rd ! d = 1" if "d \<in> set rd" for d
  proof -
    have keep: "foldl (\<lambda>ds d. ds[d := 1]) xs ys ! d = 1"
      if "xs ! d = (1 :: int)" "d < length xs" for xs ys d
      using that
      by (induction ys arbitrary: xs) (auto, metis length_list_update nth_list_update_eq nth_list_update_neq)
    have "foldl (\<lambda>ds d. ds[d := 1]) xs ys ! d = (1 :: int)" if "d \<in> set ys" "d < length xs" for xs ys
      using that by (induction ys arbitrary: xs) (auto simp: keep)
    then show ?thesis using that rdn by (simp add: replicated_tile_dims_def less_Suc_eq)
  qed
  have "prod_list (map ((!) ?tdims) cur @ map (\<lambda>_. 1) rd) = prod_list ?tdims"
    using prod_list_perm[OF mset_map_nth_perm[OF cm]] by (simp add: map_replicate_const)
  then show ?thesis
    using run one nm len replicated_tile_dims_prod[OF rd(1) rd' pos] by auto
qed

text \<open>A sharding of thirty devices starting at device four, with a cyclic permutation.\<close>

definition cyclic_sharding :: hlo_sharding where
  "cyclic_sharding = HloSharding False False False False False
     \<lparr>ta_dims = [2, 3, 5], ta_iota = Some \<lparr>iota_reshape_dims = [5, 2, 3], iota_transpose_perm = [1, 2, 0],
        iota_offset = 4, iota_num_elements = 30\<rparr>, ta_array = [], ta_first = 4, ta_num_elements = 30\<rparr> []"

definition echo_lib :: "(op_sharding \<Rightarrow> hlo_sharding statusor) \<Rightarrow> sharding_lib" where
  "echo_lib from_proto = \<lparr>L_FromProto = from_proto, L_Replicate = cyclic_sharding,
     L_ToString = (\<lambda>_. []), L_MakePartitionedShape = (\<lambda>s _. s),
     L_IotaCreate = (\<lambda>_ rd pm off. \<lparr>iota_reshape_dims = rd, iota_transpose_perm = pm, iota_offset = off,
        iota_num_elements = prod_list rd\<rparr>),
     L_device_at = (\<lambda>d i. dl_start d + i), L_device_ids = (\<lambda>d. [dl_start d..dl_start d + dl_size d - 1]),
     L_device_stop = (\<lambda>d. dl_start d + dl_size d),
     L_ShardingDim = \<lparr>sd_size = 0, sd_sharding = 0, sd_permutation = 0\<rparr>\<rparr>"

lemma cyclic_permutation:
  "current_permutation (tile_assignment_of cyclic_sharding)
     (the (ta_iota (tile_assignment_of cyclic_sharding))) = Inr [1, 2, 0]"
  by (simp add: current_permutation_def cyclic_sharding_def group_dims_def group_step_def push_group_def
      permute_groups_def permute_step_def upt_rec)

lemma cyclic_facts:
  "ta_iota (tile_assignment_of cyclic_sharding) = Some (the (ta_iota (tile_assignment_of cyclic_sharding)))"
  "wf_iota (the (ta_iota (tile_assignment_of cyclic_sharding)))"
  "ta_dims (tile_assignment_of cyclic_sharding) = [2, 3, 5]"
  "num_shape_dims cyclic_sharding = 3"
  "total_replication cyclic_sharding [2, 3, 5] [1] = 3"
  "ta_num_elements (tile_assignment_of cyclic_sharding) = 30"
  by (auto simp: cyclic_sharding_def wf_iota_def num_shape_dims_def total_replication_def)

theorem replicate_dims_wf_witness:
  "\<forall>L. \<exists>op. ReplicateDims L [1] cyclic_sharding = L_FromProto L op \<and>
     prod_list (os_tile_assignment_dimensions op) = 30 \<and> os_tile_assignment_dimensions op ! 1 = 1"
proof
  fix L
  show "\<exists>op. ReplicateDims L [1] cyclic_sharding = L_FromProto L op \<and>
     prod_list (os_tile_assignment_dimensions op) = 30 \<and> os_tile_assignment_dimensions op ! 1 = 1"
    using replicate_dims_wf[OF refl cyclic_facts(1,2) _ _ cyclic_permutation, of "[1]" L]
    by (auto simp: cyclic_facts(3,4,6) cyclic_facts(5)[simplified])
qed

text \<open>
  Replicating no dimension at all does not keep the device assignment: the offset of the
  devices is lost, and for a cyclic permutation the iota dimensions are written in the wrong
  order. The input transposes 5 by 2 by 3 into tiles of 2 by 3 by 5; the output transposes
  3 by 5 by 2 by the same permutation, which gives 5 by 2 by 3.
\<close>

theorem replicate_dims_changes_devices:
  "ReplicateDims L [] cyclic_sharding = L_FromProto L (OpSharding OS_OTHER [2, 3, 5, 1] [] [3, 5, 2] [1, 2, 0] 0 True [])"
  using cyclic_permutation
  by (simp add: ReplicateDims_def cyclic_sharding_def total_replication_def replicated_tile_dims_def Let_def)

section \<open>Logical axes\<close>

definition in_grid :: "int list \<Rightarrow> int list \<Rightarrow> bool" where
  "in_grid x dims \<longleftrightarrow> list_all2 (\<lambda>i d. 0 \<le> i \<and> i < d) x dims"

text \<open>
  The iota tile assignment of the library: position \<open>pos\<close> of the array that numbers a grid of
  \<open>reshape\<close> dimensions row by row and is then transposed by \<open>perm\<close> holds the number \<open>dev\<close>.
\<close>

definition iota_places :: "int list \<Rightarrow> nat list \<Rightarrow> int \<Rightarrow> int \<Rightarrow> bool" where
  "iota_places reshape perm pos dev \<longleftrightarrow>
     (\<exists>x. in_grid x reshape \<and> dev = global_of x reshape \<and>
       pos = global_of (map ((!) x) perm) (map ((!) reshape) perm))"

definition unused_axes :: "nat list list \<Rightarrow> int list \<Rightarrow> nat list" where
  "unused_axes axes dims = filter (\<lambda>d. d \<notin> set (concat axes)) [0..<length dims]"

definition axis_groups :: "nat list list \<Rightarrow> int list \<Rightarrow> nat list list" where
  "axis_groups axes dims =
     map sort axes @ (if unused_axes axes dims = [] then [] else [unused_axes axes dims])"

text \<open>The tile of the device at grid position \<open>x\<close>: one coordinate per logical axis, then the replica.\<close>

definition tile_coords :: "nat list list \<Rightarrow> int list \<Rightarrow> int list \<Rightarrow> int list" where
  "tile_coords axes dims x = map (\<lambda>g. global_of (map ((!) x) g) (map ((!) dims) g)) (axis_groups axes dims)"

lemma global_append:
  "length xs = length ds \<Longrightarrow>
     global_of (xs @ ys) (ds @ es) = global_of xs ds * prod_list es + global_of ys es"
  by (induction xs ds rule: list_induct2) (simp_all add: algebra_simps)

lemma global_concat:
  "global_of (map f (concat gs)) (map h (concat gs)) =
     global_of (map (\<lambda>g. global_of (map f g) (map h g)) gs) (map (\<lambda>g. prod_list (map h g)) gs)"
proof (induction gs)
  case (Cons g gs)
  have "prod_list (map h (concat gs)) = prod_list (map (\<lambda>g. prod_list (map h g)) gs)"
    by (induction gs) simp_all
  then show ?case using Cons by (simp add: global_append)
qed simp

lemma used_axes_fold:
  "foldl (\<lambda>used dim. used[dim := True]) u axs ! d \<longleftrightarrow> u ! d \<or> d \<in> set axs" if "d < length u"
  using that
proof (induction axs arbitrary: u)
  case (Cons a axs)
  then show ?case by (cases "a = d") simp_all
qed simp

lemma unused_axes_eq:
  "filter (\<lambda>dim. \<not> foldl (\<lambda>used dim. used[dim := True]) (map (\<lambda>_. False) dims) (concat axes) ! dim) [0..<length dims]
     = unused_axes axes dims"
  unfolding unused_axes_def by (rule filter_cong) (simp_all add: used_axes_fold)

lemma tile_dim_prod: "foldl (\<lambda>r ax. r * dims ! ax) (c :: int) axs = c * prod_list (map ((!) dims) axs)"
  by (induction axs arbitrary: c) (auto simp: algebra_simps)

lemma axis_groups_perm:
  assumes "distinct (concat axes)" and "\<forall>a \<in> set (concat axes). a < length dims"
  shows "mset (concat (axis_groups axes dims)) = mset [0..<length dims]"
proof -
  have s: "mset (concat (map sort axes)) = mset (concat axes)"
    by (induction axes) simp_all
  have "mset (concat axes @ unused_axes axes dims) = mset [0..<length dims]"
    using assms by (intro mset_eq_of_distinct_set) (auto simp: unused_axes_def)
  then show ?thesis using s by (cases "unused_axes axes dims = []") (simp_all add: axis_groups_def)
qed

definition axis_permutation :: "nat list list \<Rightarrow> int list \<Rightarrow> nat list" where
  "axis_permutation axes dims = concat (axis_groups axes dims)"

lemma LogicalToPhysicalSharding_other:
  assumes "\<forall>a \<in> set (concat axes). a < length dims"
    and "LogicalToPhysicalSharding L axes devices dims all = Inr op" and "os_type op = OS_OTHER"
  shows "os_tile_assignment_dimensions op = map (\<lambda>g. prod_list (map ((!) dims) g)) (axis_groups axes dims)"
    and "os_iota_offset op = L_device_at L devices 0"
    and "os_replicate_on_last_tile_dim op \<longleftrightarrow> unused_axes axes dims \<noteq> []"
    and "(os_iota_reshape_dims op, os_iota_transpose_perm op) =
      (if \<exists>i < length dims. i \<noteq> axis_permutation axes dims ! i then (dims, axis_permutation axes dims)
       else ([prod_list dims], [0]))"
proof -
  let ?perm = "axis_permutation axes dims" and ?rep = "unused_axes axes dims"
  let ?tiles = "map (\<lambda>g. prod_list (map ((!) dims) g)) (axis_groups axes dims)"
  have ok: "\<not> list_ex (list_ex (\<lambda>dim. length dims \<le> dim)) axes"
    using assms(1) by (force simp: list_ex_iff)
  have perm: "concat (map sort axes) @ ?rep = ?perm"
    by (simp add: axis_permutation_def axis_groups_def)
  have tiles: "(if ?rep \<noteq> [] then map (\<lambda>axes. foldl (\<lambda>r ax. r * dims ! ax) 1 (sort axes)) axes @
       [foldl (\<lambda>r dim. r * dims ! dim) 1 ?rep]
     else map (\<lambda>axes. foldl (\<lambda>r ax. r * dims ! ax) 1 (sort axes)) axes) = ?tiles"
    by (simp add: axis_groups_def tile_dim_prod)
  let ?need = "list_ex (\<lambda>idx. idx \<noteq> ?perm ! idx) [0..<length dims]"
  have "LogicalToPhysicalSharding L axes devices dims all =
      (if axes = [] \<or> list_all (list_all (\<lambda>dim. dims ! dim \<le> 1)) axes \<and> \<not> all then Inr op_sharding_default
       else Inr (OpSharding OS_OTHER ?tiles [] (if ?need then dims else [prod_list dims])
         (if ?need then ?perm else [0]) (L_device_at L devices 0) (?rep \<noteq> []) []))"
    unfolding LogicalToPhysicalSharding_def if_not_P[OF ok] unused_axes_eq Let_def perm tiles prod_list_int_eq ..
  then have op: "op = OpSharding OS_OTHER ?tiles [] (if ?need then dims else [prod_list dims])
         (if ?need then ?perm else [0]) (L_device_at L devices 0) (?rep \<noteq> []) []"
    using assms(2,3) by (simp add: op_sharding_default_def split: if_splits)
  show "os_tile_assignment_dimensions op = ?tiles" and "os_iota_offset op = L_device_at L devices 0"
    and "os_replicate_on_last_tile_dim op \<longleftrightarrow> ?rep \<noteq> []"
    unfolding op by simp_all
  have need: "(\<exists>i < length dims. i \<noteq> ?perm ! i) \<longleftrightarrow> ?need" by (auto simp: list_ex_iff)
  show "(os_iota_reshape_dims op, os_iota_transpose_perm op) =
      (if \<exists>i < length dims. i \<noteq> ?perm ! i then (dims, ?perm) else ([prod_list dims], [0]))"
    unfolding op op_sharding.sel need by (cases ?need) (simp_all only: if_True if_False)
qed

lemma iota_places_perm:
  assumes "in_grid x dims"
  shows "iota_places dims perm (global_of (map ((!) x) perm) (map ((!) dims) perm)) (global_of x dims)"
  using assms unfolding iota_places_def by blast

lemma iota_places_identity:
  assumes "in_grid x dims" and "positive_dims dims"
  shows "iota_places [prod_list dims] [0] (global_of x dims) (global_of x dims)"
  unfolding iota_places_def using global_bounds[OF assms(2) assms(1)[unfolded in_grid_def]]
  by (intro exI[of _ "[global_of x dims]"]) (simp add: in_grid_def)

text \<open>
  C38. Logical axes are placed where the mapping says. When every device axis is used at most
  once, the sharding has one tile dimension per logical axis, the product of its device axes,
  and one more for the unused axes if there are any; together they cover all devices. The
  device at any position of the device grid is the one its iota assignment puts at the tile
  with that device's logical coordinates, and device numbers start at the first device.
\<close>

theorem logical_sharding_places:
  assumes "distinct (concat axes)" and "\<forall>a \<in> set (concat axes). a < length dims" and "positive_dims dims"
    and "LogicalToPhysicalSharding L axes devices dims all = Inr op" and "os_type op = OS_OTHER"
  shows "prod_list (os_tile_assignment_dimensions op) = prod_list dims \<and>
    (\<forall>i < length axes. os_tile_assignment_dimensions op ! i = prod_list (map ((!) dims) (axes ! i))) \<and>
    os_iota_offset op = L_device_at L devices 0 \<and>
    (\<forall>x. in_grid x dims \<longrightarrow> iota_places (os_iota_reshape_dims op) (os_iota_transpose_perm op)
       (global_of (tile_coords axes dims x) (os_tile_assignment_dimensions op)) (global_of x dims))"
proof (intro conjI allI impI)
  let ?perm = "axis_permutation axes dims"
  note op = LogicalToPhysicalSharding_other[OF assms(2,4,5)]
  have pm: "mset ?perm = mset [0..<length dims]"
    using axis_groups_perm[OF assms(1,2)] by (simp add: axis_permutation_def)
  have pc: "prod_list (map (\<lambda>g. prod_list (map f g)) gs) = prod_list (map f (concat gs))"
    for f :: "nat \<Rightarrow> int" and gs by (induction gs) simp_all
  show "prod_list (os_tile_assignment_dimensions op) = prod_list dims"
    unfolding op(1) pc using prod_list_perm[OF mset_map_nth_perm[OF pm]] by (simp add: axis_permutation_def)
  show "os_iota_offset op = L_device_at L devices 0" by (rule op(2))
  show "os_tile_assignment_dimensions op ! i = prod_list (map ((!) dims) (axes ! i))" if "i < length axes" for i
  proof -
    have "mset (map ((!) dims) (sort (axes ! i))) = mset (map ((!) dims) (axes ! i))" by simp
    from prod_list_perm[OF this] show ?thesis
      using that by (simp add: op(1) axis_groups_def nth_append)
  qed
  fix x assume x: "in_grid x dims"
  have pos: "global_of (tile_coords axes dims x) (os_tile_assignment_dimensions op) =
      global_of (map ((!) x) ?perm) (map ((!) dims) ?perm)"
    unfolding op(1) tile_coords_def axis_permutation_def global_concat ..
  show "iota_places (os_iota_reshape_dims op) (os_iota_transpose_perm op)
       (global_of (tile_coords axes dims x) (os_tile_assignment_dimensions op)) (global_of x dims)"
  proof (cases "\<exists>i < length dims. i \<noteq> ?perm ! i")
    case True
    then show ?thesis using op(4) iota_places_perm[OF x] pos by simp
  next
    case False
    have "length ?perm = length dims" using arg_cong[OF pm, of size] by simp
    with False have "?perm = [0..<length dims]" by (intro nth_equalityI) auto
    moreover have "length x = length dims" using x by (auto simp: in_grid_def dest: list_all2_lengthD)
    ultimately have "map ((!) x) ?perm = x" and "map ((!) dims) ?perm = dims"
      by (simp_all add: map_nth) (metis map_nth)
    then show ?thesis using op(4)[unfolded if_not_P[OF False]] pos iota_places_identity[OF x assms(3)] by simp
  qed
qed

text \<open>The mapping (0,2), (), (1) on a grid of 2 by 2 by 2: logical device 5 is physical device 6.\<close>

lemma logical_sample:
  "LogicalToPhysicalSharding (echo_lib f) [[0, 2], [], [1]] (dl_create 0 8) [2, 2, 2] False =
     Inr (OpSharding OS_OTHER [4, 1, 2] [] [2, 2, 2] [0, 2, 1] 0 False [])"
  by (simp add: LogicalToPhysicalSharding_def echo_lib_def prod_list_int_def upt_rec Let_def)

theorem logical_sharding_places_witness:
  "iota_places [2, 2, 2] [0, 2, 1] 5 6"
proof -
  have "in_grid [1, 1, 0] [2, 2, 2]" by (simp add: in_grid_def)
  moreover have "tile_coords [[0, 2], [], [1]] [2, 2, 2] [1, 1, 0] = [2, 0, 1]"
    by (simp add: tile_coords_def axis_groups_def unused_axes_def upt_rec)
  ultimately show ?thesis
    using logical_sharding_places[OF _ _ _ logical_sample[of "\<lambda>_. Inl (Fatal [])"]]
    by (auto dest: spec[of _ "[1, 1, 0]"])
qed

end
