(* ===== verification/Canonical_Sharding.thy ===== *)
theory Canonical_Sharding
  imports Sharding_Dims
begin

text \<open>
  Canonical form and resizing of shardings (\<open>mm_sharding.cc\<close>): what \<open>CanonicalizeSharding\<close>
  and \<open>XlaShapeToZukuShape\<close> write for each dimension, and which shardings \<open>ResizeSharding\<close>
  proposes.
\<close>

section \<open>Canonical form\<close>

definition canonical_size :: "int list \<Rightarrow> shape \<Rightarrow> bool \<Rightarrow> nat \<Rightarrow> nat \<Rightarrow> int" where
  "canonical_size tdims shp shape_is_global n_shape d =
     (if d = n_shape then 1
      else if shape_is_global then dimensions shp ! d else dimensions shp ! d * tdims ! d)"

lemma canonical_dim_step_Inr:
  "canonical_dim_step tdims shp gl ns dims (j, d) = Inr dims' \<Longrightarrow>
     dims' = dims[d := \<lparr>sd_size = canonical_size tdims shp gl ns d, sd_sharding = tdims ! d, sd_permutation = int j\<rparr>]
     \<and> (d \<noteq> ns \<longrightarrow> d < length (dimensions shp))"
  by (auto simp: canonical_dim_step_def canonical_size_def Let_def bindR_Inr_iff subR_Inr_iff split: if_splits)

lemma canonical_fold:
  assumes "foldR (canonical_dim_step tdims shp gl ns) dims (enumerate j full) = Inr dims'"
    and "distinct full" and "\<forall>d \<in> set full. d < length dims"
  shows "length dims' = length dims \<and> (\<forall>d. d \<notin> set full \<longrightarrow> dims' ! d = dims ! d) \<and>
    (\<forall>i < length full. dims' ! (full ! i) = \<lparr>sd_size = canonical_size tdims shp gl ns (full ! i),
       sd_sharding = tdims ! (full ! i), sd_permutation = int (j + i)\<rparr>)"
  using assms
proof (induction full arbitrary: j dims)
  case (Cons d full)
  obtain dims1 where step: "canonical_dim_step tdims shp gl ns dims (j, d) = Inr dims1"
    and rest: "foldR (canonical_dim_step tdims shp gl ns) dims1 (enumerate (Suc j) full) = Inr dims'"
    using Cons.prems(1) by (auto simp: bindR_Inr_iff)
  let ?new = "\<lparr>sd_size = canonical_size tdims shp gl ns d, sd_sharding = tdims ! d, sd_permutation = int j\<rparr>"
  have d1: "dims1 = dims[d := ?new]" using canonical_dim_step_Inr[OF step] by simp
  have IH: "length dims' = length dims \<and> (\<forall>d'. d' \<notin> set full \<longrightarrow> dims' ! d' = dims1 ! d') \<and>
    (\<forall>i < length full. dims' ! (full ! i) = \<lparr>sd_size = canonical_size tdims shp gl ns (full ! i),
       sd_sharding = tdims ! (full ! i), sd_permutation = int (Suc j + i)\<rparr>)"
    using Cons.IH[OF rest] Cons.prems(2,3) d1 by simp
  have "dims' ! d = ?new" using IH Cons.prems(2,3) d1 by simp
  then show ?case
    using IH d1 by (auto simp: nth_Cons split: nat.splits)
qed simp

text \<open>The canonical form of a sharding over a permutation of the tile dimensions.\<close>

definition canonical_of :: "int list \<Rightarrow> shape \<Rightarrow> bool \<Rightarrow> nat \<Rightarrow> sharding_dim list \<Rightarrow> bool" where
  "canonical_of tdims shp gl ns dims \<longleftrightarrow>
     map sd_sharding dims = tdims \<and>
     map sd_size dims = map (canonical_size tdims shp gl ns) [0..<length tdims] \<and>
     mset (map sd_permutation dims) = mset (map int [0..<length tdims])"

lemma canonical_ofI:
  assumes f: "foldR (canonical_dim_step tdims shp gl ns) dims0 (enumerate 0 full) = Inr dims"
    and full: "mset full = mset [0..<length tdims]" and len: "length dims0 = length tdims"
  shows "canonical_of tdims shp gl ns dims"
proof -
  let ?n = "length tdims"
  note dist = index_permutation(1)[OF full] and sf = index_permutation(2)[OF full]
    and lenf = index_permutation(3)[OF full]
  have c: "length dims = ?n" "\<And>i. i < ?n \<Longrightarrow> dims ! (full ! i) = \<lparr>sd_size = canonical_size tdims shp gl ns (full ! i),
       sd_sharding = tdims ! (full ! i), sd_permutation = int i\<rparr>"
    using canonical_fold[OF f dist] sf len lenf by auto
  have at: "sd_size (dims ! d) = canonical_size tdims shp gl ns d \<and> sd_sharding (dims ! d) = tdims ! d"
    if "d < ?n" for d
  proof -
    have "d \<in> set full" using that sf by simp
    then obtain i where i: "i < ?n" "full ! i = d" unfolding in_set_conv_nth lenf by blast
    then show ?thesis using c(2)[OF i(1)] by simp
  qed
  have "map sd_permutation (map ((!) dims) full) = map int [0..<?n]"
    using c lenf by (intro nth_equalityI) auto
  then have "image_mset sd_permutation (mset (map ((!) dims) full)) = mset (map int [0..<?n])"
    by (metis mset_map)
  then have "mset (map sd_permutation dims) = mset (map int [0..<?n])"
    using mset_map_nth_perm[of full dims] full c(1) by simp
  then show ?thesis
    using at c(1) by (auto simp: canonical_of_def intro!: nth_equalityI)
qed

lemma permuted_reshape_dims_length:
  "permuted_reshape_dims io = Inr spans \<Longrightarrow> wf_iota io \<Longrightarrow> length spans = length (iota_reshape_dims io)"
  unfolding permuted_reshape_dims_def wf_iota_def
  by (cases "iota_transpose_perm io = []") (auto simp: bindR_Inr_iff mapR_Inr_iff list_all2_lengthD)

lemma CanonicalizeSharding_iota_spec:
  assumes run: "CanonicalizeSharding_iota L sh ta io shp gl = Inr ss"
    and wf: "wf_iota io" "iota_transpose_perm io \<noteq> []"
  shows "canonical_of (ta_dims ta) shp gl
      (if ReplicateOnLastTileDim sh then length (ta_dims ta) - 1 else length (ta_dims ta)) (ss_dims ss)"
    and "ss_devices ss = dl_create (iota_offset io) (iota_num_elements io)"
    and "zuku_type_of (element_type shp) = Inr (ss_type ss)"
proof -
  obtain spans gs out dims ty where
    spans: "permuted_reshape_dims io = Inr spans"
    and gs: "group_dims (\<lambda>span d. span < d)
      (InvalidArgument (''CanonicalizeSharding: '' @ L_ToString L sh
         @ '' has multiple iota dims within a single tensor dimension, which is not yet supported''))
      spans (ta_dims ta) = Inr gs"
    and out: "permute_groups True gs (iota_transpose_perm io) = Inr out"
    and dims: "foldR (canonical_dim_step (ta_dims ta) shp gl
        (if ReplicateOnLastTileDim sh then length (ta_dims ta) - 1 else length (ta_dims ta)))
      (map (\<lambda>_. L_ShardingDim L) (ta_dims ta)) (enumerate 0 (concat out)) = Inr dims"
    and ty: "zuku_type_of (element_type shp) = Inr ty"
    and ss: "ss = \<lparr>ss_type = ty, ss_dims = dims, ss_devices = dl_create (iota_offset io) (iota_num_elements io)\<rparr>"
    using run unfolding CanonicalizeSharding_iota_def Let_def
    by (elim bindR_InrE) (simp add: enumerate_eq_zip)
  have "mset (concat out) = mset [0..<length (ta_dims ta)]"
    by (rule regrouped_permutation[OF wf permuted_reshape_dims_length[OF spans wf(1)] gs out])
  from canonical_ofI[OF dims this]
  show "canonical_of (ta_dims ta) shp gl
      (if ReplicateOnLastTileDim sh then length (ta_dims ta) - 1 else length (ta_dims ta)) (ss_dims ss)"
    by (simp add: ss)
  show "ss_devices ss = dl_create (iota_offset io) (iota_num_elements io)"
    and "zuku_type_of (element_type shp) = Inr (ss_type ss)" using ty by (simp_all add: ss)
qed

lemma canonical_of_devices: "canonical_of tdims shp gl ns dims \<Longrightarrow> prod_list (map sd_sharding dims) = prod_list tdims"
  by (simp add: canonical_of_def)

text \<open>
  The sharded shape of an array on \<open>devices\<close> is on these devices, and its tile counts
  multiply to their number: a replicated array has one tile per dimension and, on more than
  one device, a replication dimension; an iota sharding keeps its tile dimensions in place
  with the sizes of the array, its positions form a permutation, and it is refused unless the
  number of devices agrees.
\<close>

theorem sharded_shape_correct:
  assumes run: "XlaShapeToZukuShape L shp devices sh gl = Inr ss"
    and dev: "1 \<le> dl_size devices"
    and io: "\<not> (IsReplicated sh \<or> IsTileMaximal sh) \<longrightarrow> ta_iota (tile_assignment_of sh) = Some io \<and>
      wf_iota io \<and> iota_transpose_perm io \<noteq> [] \<and>
      iota_num_elements io = prod_list (ta_dims (tile_assignment_of sh))"
  shows "ss_devices ss = devices \<and> zuku_type_of (element_type shp) = Inr (ss_type ss) \<and>
    prod_list (map sd_sharding (ss_dims ss)) = dl_size devices \<and>
    (if IsReplicated sh \<or> IsTileMaximal sh
     then map sd_size (ss_dims ss) = dimensions shp @ (if 1 < dl_size devices then [1] else []) \<and>
       map sd_permutation (ss_dims ss) = map int [0..<length (ss_dims ss)]
     else canonical_of (ta_dims (tile_assignment_of sh)) shp gl (num_shape_dims sh) (ss_dims ss))"
proof (cases "IsReplicated sh \<or> IsTileMaximal sh")
  case True
  let ?dims = "map (\<lambda>(dim_number, dim). \<lparr>sd_size = dim, sd_sharding = 1, sd_permutation = int dim_number\<rparr>)
      (zip [0..<length (dimensions shp)] (dimensions shp))"
  obtain ty where ty: "zuku_type_of (element_type shp) = Inr ty"
    and ss: "ss = \<lparr>ss_type = ty, ss_dims = (if dl_size devices > 1
        then ?dims @ [\<lparr>sd_size = 1, sd_sharding = dl_size devices, sd_permutation = int (length (dimensions shp))\<rparr>]
        else ?dims), ss_devices = devices\<rparr>"
    using run True unfolding XlaShapeToZukuShape_def Let_def by (elim bindR_InrE) simp
  have "map sd_size ?dims = dimensions shp" "map sd_permutation ?dims = map int [0..<length (dimensions shp)]"
    and ones: "map sd_sharding ?dims = replicate (length (dimensions shp)) 1"
    by (auto intro!: nth_equalityI)
  moreover have "prod_list (map sd_sharding ?dims) = 1" unfolding ones by simp
  ultimately show ?thesis using True ty dev by (simp add: ss del: map_map)
next
  case False
  let ?ta = "tile_assignment_of sh"
  have io': "ta_iota ?ta = Some io" "wf_iota io" "iota_transpose_perm io \<noteq> []"
    "iota_num_elements io = prod_list (ta_dims ?ta)" using io False by auto
  obtain cs where cs: "CanonicalizeSharding_iota L sh ?ta io shp gl = Inr cs"
    and ss: "(if devices \<noteq> ss_devices cs
          then if dl_size devices \<noteq> dl_size (ss_devices cs)
               then Inl (InvalidArgument (''devices=['' @ show_int (dl_start devices) @ ''...''
                      @ show_int (L_device_stop L devices)
                      @ '') given to XlaShapeToZukuShape differs from sharding: '' @ L_ToString L sh))
               else Inr (cs\<lparr>ss_devices := devices\<rparr>)
          else Inr cs) = Inr ss"
    using run unfolding XlaShapeToZukuShape_def CanonicalizeSharding_def Let_def if_not_P[OF False] io'(1) option.case
    by (elim bindR_InrE) simp
  note spec = CanonicalizeSharding_iota_spec[OF cs io'(2,3)]
  have "dl_size devices = prod_list (ta_dims ?ta)"
    using ss spec(2) io'(4) by (auto split: if_splits)
  moreover have "ss_devices ss = devices" "ss_dims ss = ss_dims cs" "ss_type ss = ss_type cs"
    using ss by (auto split: if_splits)
  ultimately show ?thesis
    using False spec(1,3) canonical_of_devices[OF spec(1)] by (simp add: num_shape_dims_def Let_def)
qed

definition plain_iota_sharding :: hlo_sharding where
  "plain_iota_sharding = HloSharding False False False False True
     \<lparr>ta_dims = [2, 1, 3], ta_iota = Some \<lparr>iota_reshape_dims = [6], iota_transpose_perm = [0],
        iota_offset = 0, iota_num_elements = 6\<rparr>, ta_array = [], ta_first = 0, ta_num_elements = 6\<rparr> []"

lemma plain_canonical:
  "XlaShapeToZukuShape (echo_lib f) (Shape F32 [8, 5] []) (dl_create 10 6) plain_iota_sharding True =
     Inr \<lparr>ss_type = ST_F32, ss_dims =
       [\<lparr>sd_size = 8, sd_sharding = 2, sd_permutation = 0\<rparr>, \<lparr>sd_size = 5, sd_sharding = 1, sd_permutation = 1\<rparr>,
        \<lparr>sd_size = 1, sd_sharding = 3, sd_permutation = 2\<rparr>], ss_devices = dl_create 10 6\<rparr>"
  by (simp add: XlaShapeToZukuShape_def plain_iota_sharding_def zuku_type_of_def CanonicalizeSharding_def
      CanonicalizeSharding_iota_def permuted_reshape_dims_def group_dims_def group_step_def push_group_def
      permute_groups_def permute_step_def canonical_dim_step_def echo_lib_def upt_rec)

theorem sharded_shape_correct_witness:
  "prod_list (map sd_sharding [\<lparr>sd_size = 8, sd_sharding = 2, sd_permutation = 0\<rparr>,
     \<lparr>sd_size = 5, sd_sharding = 1, sd_permutation = 1\<rparr>, \<lparr>sd_size = 1, sd_sharding = 3, sd_permutation = 2\<rparr>])
     = dl_size (dl_create 10 6)"
  using sharded_shape_correct[OF plain_canonical[of "\<lambda>_. Inl (Fatal [])"],
      of "the (ta_iota (tile_assignment_of plain_iota_sharding))"]
  by (simp add: plain_iota_sharding_def wf_iota_def lessThan_Suc)

section \<open>Resizing\<close>

definition resizable :: "int \<Rightarrow> int \<Rightarrow> bool" where
  "resizable src dst \<longleftrightarrow> (if src > dst then src smod dst = 0 else if src < dst then dst smod src = 0 else True)"

text \<open>The dimensions written after \<open>k\<close> steps: at most one, \<open>i\<close>, is resized.\<close>

definition resized_prefix :: "int list \<Rightarrow> int \<Rightarrow> int \<Rightarrow> shape \<Rightarrow> nat \<Rightarrow> nat option \<Rightarrow> int list \<Rightarrow> bool" where
  "resized_prefix tdims src dst shp k r out \<longleftrightarrow>
     (case r of None \<Rightarrow> out = take k tdims
      | Some i \<Rightarrow> i < k \<and> i < length (dimensions shp) \<and> 1 < tdims ! i \<and> 0 < (tdims ! i * dst) sdiv src \<and>
          (tdims ! i * dst) sdiv src \<le> dimensions shp ! i \<and>
          out = (take k tdims)[i := (tdims ! i * dst) sdiv src])"

lemma resize_step_Inr:
  assumes "resize_step shp sh src dst (out, matched, repl) dim = Inr (out', matched', repl')"
    and "resizable src dst"
  shows "dim < length (dimensions shp) \<and>
    (let new = (ta_dims (tile_assignment_of sh) ! dim * dst) sdiv src in
     if \<not> matched \<and> ta_dims (tile_assignment_of sh) ! dim > 1 \<and> new > 0 \<and> new \<le> dimensions shp ! dim
     then out' = out @ [new] \<and> matched'
     else out' = out @ [ta_dims (tile_assignment_of sh) ! dim] \<and> matched' = matched)"
  using assms unfolding resize_step_def resizable_def
  by (auto simp: Let_def bindR_Inr_iff subR_Inr_iff split: if_splits)

lemma resize_fold:
  assumes "foldR (resize_step shp sh src dst) ([], False, False) [0..<k] = Inr (out, matched, repl)"
    and "resizable src dst" and "k \<le> length (ta_dims (tile_assignment_of sh))"
  shows "\<exists>r. resized_prefix (ta_dims (tile_assignment_of sh)) src dst shp k r out \<and> (matched \<longleftrightarrow> r \<noteq> None)"
  using assms(1,3)
proof (induction k arbitrary: out matched repl)
  case (Suc k)
  let ?t = "ta_dims (tile_assignment_of sh)"
  obtain out0 m0 r0 where pre: "foldR (resize_step shp sh src dst) ([], False, False) [0..<k] = Inr (out0, m0, r0)"
    and step: "resize_step shp sh src dst (out0, m0, r0) k = Inr (out, matched, repl)"
    using Suc.prems(1) by (auto simp: foldR_append bindR_Inr_iff)
  obtain r where r: "resized_prefix ?t src dst shp k r out0" "m0 \<longleftrightarrow> r \<noteq> None"
    using Suc.IH[OF pre] Suc.prems(2) by auto
  have tk: "take (Suc k) ?t = take k ?t @ [?t ! k]" using Suc.prems(2) by (simp add: take_Suc_conv_app_nth)
  have lk: "length (take k ?t) = k" using Suc.prems(2) by simp
  note S = resize_step_Inr[OF step assms(2)]
  show ?case
  proof (cases "\<not> m0 \<and> ?t ! k > 1 \<and> (?t ! k * dst) sdiv src > 0 \<and> (?t ! k * dst) sdiv src \<le> dimensions shp ! k")
    case True
    then show ?thesis
      using S r lk by (intro exI[of _ "Some k"]) (auto simp: resized_prefix_def tk list_update_append Let_def)
  next
    case False
    then have "out = out0 @ [?t ! k]" "matched = m0" using S by (auto simp: Let_def split: if_splits)
    then show ?thesis
      using r lk by (intro exI[of _ r]) (auto simp: resized_prefix_def tk list_update_append split: option.splits)
  qed
qed (auto simp: resized_prefix_def intro!: exI[of _ None])

lemma resize_unmatched:
  assumes "foldR (resize_step shp sh src dst) (out0, False, repl0) dims = Inr (out, matched, repl)"
    and "\<not> resizable src dst"
  shows "\<not> matched"
proof -
  have "(\<lambda>(_, m, _). \<not> m) (out, matched, repl)"
  proof (rule foldR_invariant[OF assms(1)])
    fix st dim st'
    assume "(\<lambda>(_, m, _). \<not> m) st" and step: "resize_step shp sh src dst st dim = Inr st'"
    then obtain o1 r1 where "st = (o1, False, r1)" by (cases st) auto
    with step assms(2) show "(\<lambda>(_, m, _). \<not> m) st'"
      by (auto simp: resize_step_def resizable_def Let_def bindR_Inr_iff split: if_splits)
  qed simp
  then show ?thesis by simp
qed

lemma resizable_dvd: "0 < src \<Longrightarrow> 0 < dst \<Longrightarrow> resizable src dst \<Longrightarrow> src dvd dst \<or> dst dvd src"
  by (auto simp: resizable_def smod_nonneg dvd_eq_mod_eq_0 split: if_splits)

lemma ResizeSharding_Some:
  assumes "ResizeSharding L shp sh num devices = Inr (Some s)"
  shows "\<exists>dims repl. foldR (resize_step shp sh (ta_num_elements (tile_assignment_of sh)) num) ([], False, False)
      [0..<length (ta_dims (tile_assignment_of sh))] = Inr (dims, True, repl) \<and>
    L_FromProto L (guess_proto L sh num devices dims repl) = Inr s"
proof -
  let ?ta = "tile_assignment_of sh"
  let ?F = "foldR (resize_step shp sh (ta_num_elements ?ta) num) ([], False, False) [0..<length (ta_dims ?ta)]"
  let ?stop = "case ta_iota ?ta of None \<Rightarrow> False | Some io \<Rightarrow> \<not> identity_perm (iota_transpose_perm io)"
  have go: "\<not> ?stop"
  proof
    assume "?stop"
    then have "ResizeSharding L shp sh num devices = Inr None"
      unfolding ResizeSharding_def Let_def by (rule if_P)
    with assms show False by simp
  qed
  have run: "ResizeSharding L shp sh num devices = bindR ?F (\<lambda>(dims, matched, repl).
           if matched
           then (case L_FromProto L (guess_proto L sh num devices dims repl) of
                   Inr new_sharding \<Rightarrow> Inr (Some new_sharding)
                 | Inl _ \<Rightarrow> Inr None)
           else Inr None)"
    unfolding ResizeSharding_def Let_def using go by (rule if_not_P)
  show ?thesis
  proof (cases ?F)
    case (Inr st)
    obtain dims matched repl where "st = (dims, matched, repl)" by (cases st)
    then show ?thesis using assms Inr unfolding run by (auto split: if_splits sum.splits)
  qed (use assms run in simp)
qed

text \<open>
  A proposed resize scales exactly one tile dimension, one that was split, by the ratio of
  the sizes, and keeps the others; one size divides the other and the new dimension fits the
  array. Growing a sharding gives one of exactly the requested number of devices.
\<close>

theorem resize_sharding_correct:
  assumes run: "ResizeSharding L shp sh num devices = Inr (Some s)"
    and ta: "tdims = ta_dims (tile_assignment_of sh)" "src = ta_num_elements (tile_assignment_of sh)"
    and pos: "0 < src" "0 < num" "positive_dims tdims"
  shows "\<exists>op i. L_FromProto L op = Inr s \<and> i < length tdims \<and> 1 < tdims ! i \<and>
    os_tile_assignment_dimensions op = tdims[i := tdims ! i * num div src] \<and>
    0 < tdims ! i * num div src \<and> tdims ! i * num div src \<le> dimensions shp ! i \<and>
    (src dvd num \<or> num dvd src) \<and>
    (src = prod_list tdims \<and> src dvd num \<longrightarrow> prod_list (os_tile_assignment_dimensions op) = num)"
proof -
  obtain dims repl where
    f: "foldR (resize_step shp sh src num) ([], False, False) [0..<length tdims] = Inr (dims, True, repl)"
    and proto: "L_FromProto L (guess_proto L sh num devices dims repl) = Inr s"
    using ResizeSharding_Some[OF run] unfolding ta by blast
  have rz: "resizable src num" using resize_unmatched[OF f] by blast
  obtain i where r: "resized_prefix tdims src num shp (length tdims) (Some i) dims"
    using resize_fold[OF f rz] ta(1) by (cases "length tdims") auto
  let ?new = "tdims ! i * num div src"
  have i: "i < length tdims" "1 < tdims ! i" using r by (auto simp: resized_prefix_def)
  have sd: "(tdims ! i * num) sdiv src = ?new" using i pos by (simp add: sdiv_nonneg)
  have dims: "dims = tdims[i := ?new]" "0 < ?new" "?new \<le> dimensions shp ! i"
    using r by (auto simp: resized_prefix_def sd)
  have grow: "prod_list (tdims[i := ?new]) = num" if "src = prod_list tdims" "src dvd num"
  proof -
    have "src dvd num" by (rule that(2))
    then obtain c where c: "num = src * c" ..
    have "?new = tdims ! i * c" using c pos by simp
    then have "prod_list (tdims[i := ?new]) * tdims ! i = num * tdims ! i"
      using prod_update[OF i(1), of ?new] c that(1) by simp
    then show ?thesis using i(2) by simp
  qed
  have "os_tile_assignment_dimensions (guess_proto L sh num devices dims repl) = dims"
    by (simp add: guess_proto_def)
  then show ?thesis
    using proto i dims grow resizable_dvd[OF pos(1,2) rz] by metis
qed

theorem resize_sharding_correct_witness:
  "\<exists>op i. L_FromProto (echo_lib (\<lambda>_. Inr plain_iota_sharding)) op = Inr plain_iota_sharding \<and>
     prod_list (os_tile_assignment_dimensions op) = 12"
proof -
  have "ResizeSharding (echo_lib (\<lambda>_. Inr plain_iota_sharding)) (Shape F32 [8, 5, 1] []) plain_iota_sharding 12 None
      = Inr (Some plain_iota_sharding)"
    by (simp add: ResizeSharding_def plain_iota_sharding_def identity_perm_def resize_step_def sdiv_nonneg
        smod_nonneg echo_lib_def upt_rec)
  from resize_sharding_correct[OF this refl refl] show ?thesis
    by (auto simp: plain_iota_sharding_def)
qed

text \<open>
  A sharding whose last tile dimension is replication has one tile dimension more than the
  array has dimensions, and \<open>ResizeSharding\<close> reads that dimension of the array too.
\<close>

theorem resize_reads_past_shape:
  assumes "tile_assignment_of sh = \<lparr>ta_dims = [2, 2], ta_iota = None, ta_array = [0, 1, 2, 3], ta_first = 0,
      ta_num_elements = 4\<rparr>" and "ReplicateOnLastTileDim sh"
  shows "ResizeSharding L (Shape F32 [n] []) sh 8 devices = Inl (Undefined ''subscript'')"
  using assms by (auto simp: ResizeSharding_def resize_step_def sdiv_nonneg smod_nonneg upt_rec Let_def)

theorem resize_reads_past_shape_witness:
  "\<forall>L devices. ResizeSharding L (Shape F32 [16] []) (HloSharding False False False False True
     \<lparr>ta_dims = [2, 2], ta_iota = None, ta_array = [0, 1, 2, 3], ta_first = 0, ta_num_elements = 4\<rparr> []) 8 devices
   = Inl (Undefined ''subscript'')"
  by (intro allI resize_reads_past_shape) simp_all

end
