(* ===== verification/Mpmd_Utils.thy ===== *)
theory Mpmd_Utils
  imports Hlo Json_Utils
begin

text \<open>
  \<open>mpmd_utils.h\<close> and \<open>mpmd_utils.cc\<close>: graph helpers, device lists, and the class
  \<open>InstructionProperties\<close> that records per instruction what it is derived from, its aliases
  across call and loop boundaries, and its role in loops.

  References into the hash map are taken to stay valid. A subscript out of range or a null
  pointer is \<open>Undefined\<close>, a failed \<open>CHECK\<close> or cast is \<open>Fatal\<close>. Recursion into called
  computations and walks along aliases run on fuel and end in \<open>out_of_fuel\<close> without it.
\<close>

definition out_of_fuel :: status where
  "out_of_fuel = Undefined ''no end reached''"

section \<open>Names of custom calls\<close>

definition kCustomCallArgumentRecolor :: string where
  "kCustomCallArgumentRecolor = ''ArgumentRecolor''"

definition kCustomCallReshard :: string where
  "kCustomCallReshard = ''Reshard''"

definition kCustomCallSliceOffset :: string where
  "kCustomCallSliceOffset = ''SliceOffset''"

definition kCustomCallRootTupleRecolor :: string where
  "kCustomCallRootTupleRecolor = ''RootTupleRecolor''"

definition kCustomCallDummyOperation :: string where
  "kCustomCallDummyOperation = ''DummyOperation''"

section \<open>Graph access\<close>

definition operandR :: "hlo_module \<Rightarrow> iid \<Rightarrow> nat \<Rightarrow> iid statusor" where
  "operandR m i k = subR (operands m i) k"

definition calledR :: "hlo_module \<Rightarrow> iid \<Rightarrow> cid statusor" where
  "calledR m i = subR (called m i) 0"

definition tuple_indexR :: "hlo_module \<Rightarrow> iid \<Rightarrow> nat statusor" where
  "tuple_indexR m i =
     (if opcode m i = kGetTupleElement then Inr (tuple_index m i) else Inl (Fatal ''not a get-tuple-element''))"

definition paramR :: "hlo_module \<Rightarrow> cid \<Rightarrow> nat \<Rightarrow> iid statusor" where
  "paramR m c k = subR (params m c) k"

text \<open>\<open>operand_index\<close>: the first position of an instruction among the operands.\<close>

fun index_in :: "iid list \<Rightarrow> iid \<Rightarrow> nat statusor" where
  "index_in [] i = Inl (Fatal ''not an operand'')"
| "index_in (j # js) i = (if j = i then Inr 0 else bindR (index_in js i) (\<lambda>k. Inr (Suc k)))"

definition operand_index :: "hlo_module \<Rightarrow> iid \<Rightarrow> iid \<Rightarrow> nat statusor" where
  "operand_index m user i = index_in (operands m user) i"

definition IsTuple :: "hlo_module \<Rightarrow> iid \<Rightarrow> bool" where
  "IsTuple m i = IsTupleShape (i_shape (m_instr m i))"

section \<open>Helpers\<close>

definition IsReplicatedOrNotSharded :: "hlo_module \<Rightarrow> iid \<Rightarrow> bool" where
  "IsReplicatedOrNotSharded m i =
     (case sharding_of m i of None \<Rightarrow> True
      | Some s \<Rightarrow> IsReplicated s \<or> IsManual s \<or> IsTileMaximal s)"

definition ShardingHasTileAssignment :: "hlo_module \<Rightarrow> iid \<Rightarrow> bool" where
  "ShardingHasTileAssignment m i =
     (case sharding_of m i of None \<Rightarrow> False
      | Some s \<Rightarrow> \<not> (IsReplicated s \<or> IsManual s \<or> IsTupleSharding s \<or> IsTileMaximal s))"

definition GetTupleOrComputationAlias :: "hlo_module \<Rightarrow> iid \<Rightarrow> iid option statusor" where
  "GetTupleOrComputationAlias m i =
     (if opcode m i = kGetTupleElement
      then bindR (operandR m i 0) (\<lambda>operand.
           if opcode m operand = kTuple
           then bindR (operandR m operand (tuple_index m i)) (\<lambda>a. Inr (Some a))
           else if opcode m operand = kParameter then Inr None
           else if opcode m operand = kCall \<or> opcode m operand = kWhile
           then bindR (calledR m operand) (\<lambda>c.
                bindR (operandR m (root m c) (tuple_index m i)) (\<lambda>a. Inr (Some a)))
           else if opcode m operand = kOptimizationBarrier
           then bindR (operandR m operand 0) (\<lambda>t.
                bindR (operandR m t (tuple_index m i)) (\<lambda>a. Inr (Some a)))
           else Inr None)
      else if opcode m i = kCall \<or> opcode m i = kWhile
      then bindR (calledR m i) (\<lambda>c. Inr (Some (root m c)))
      else Inr None)"

fun UnwrapCustomCall :: "nat \<Rightarrow> hlo_module \<Rightarrow> iid \<Rightarrow> iid option" where
  "UnwrapCustomCall 0 m i = None"
| "UnwrapCustomCall (Suc fuel) m i =
     (if opcode m i = kCustomCall then UnwrapCustomCall fuel m i else Some i)"

definition GetComputationRootTuplePartner :: "hlo_module \<Rightarrow> iid \<Rightarrow> cid \<Rightarrow> iid statusor" where
  "GetComputationRootTuplePartner m gte body =
     bindR (tuple_indexR m gte) (\<lambda>k. operandR m (root m body) k)"

fun find_user :: "hlo_module \<Rightarrow> nat \<Rightarrow> iid list \<Rightarrow> iid option statusor" where
  "find_user m k [] = Inr None"
| "find_user m k (u # us) =
     bindR (tuple_indexR m u) (\<lambda>j. if j = k then Inr (Some u) else find_user m k us)"

definition GetTupleElement :: "hlo_module \<Rightarrow> iid \<Rightarrow> nat \<Rightarrow> iid option statusor" where
  "GetTupleElement m t k = find_user m k (users m t)"

definition DimensionProduct :: "shape \<Rightarrow> int" where
  "DimensionProduct shp = foldl (*) 1 (dimensions shp)"

definition CreateDeviceList :: "int list \<Rightarrow> device_list statusor" where
  "CreateDeviceList devices =
     (if list_ex (\<lambda>k. devices ! k < devices ! (k - 1)) [1..<length devices]
      then Inl (Unimplemented ''non-contiguous device lists not yet supported'')
      else bindR (subR devices 0) (\<lambda>front. Inr (dl_create front (int (length devices)))))"

definition CreateDeviceList_tile :: "tile_assignment \<Rightarrow> device_list statusor" where
  "CreateDeviceList_tile ta =
     (case ta_iota ta of
        Some io \<Rightarrow> Inr (dl_create (iota_offset io) (iota_num_elements io))
      | None \<Rightarrow>
          bindR (foldR (\<lambda>prev dev. if dev \<noteq> prev + 1
                   then Inl (Unimplemented ''non-iota tile assignments not yet supported for DeviceList'')
                   else Inr dev) (ta_first ta - 1) (ta_array ta)) (\<lambda>prev_device.
          let last_device = prev_device + 1 in Inr (dl_create (ta_first ta) (last_device - ta_first ta))))"

definition EnforceBijectiveTasks :: "'j json_api \<Rightarrow> hlo_module \<Rightarrow> cid \<Rightarrow> bool statusor" where
  "EnforceBijectiveTasks J m c =
     (case find (\<lambda>i. opcode m i = kWhile \<and> i_backend_config (m_instr m i) \<noteq> None) (comp_instructions m c) of
        None \<Rightarrow> Inr False
      | Some i \<Rightarrow>
          bindR (GetJsonValue J (the (i_backend_config (m_instr m i)))) (\<lambda>json.
          bindR (GetOptionalTaskValue_default J (GetTaskValue_string J) json (i_name (m_instr m i))
                   ''schedule'' '''') (\<lambda>schedule_string.
          Inr (schedule_string = ''custom'' \<or> schedule_string = ''zero-bubble-h2''))))"

fun OperandWeight :: "nat \<Rightarrow> (shape \<Rightarrow> int) \<Rightarrow> hlo_module \<Rightarrow> iid \<Rightarrow> int statusor" where
  "OperandWeight 0 elements_in m i = Inl out_of_fuel"
| "OperandWeight (Suc fuel) elements_in m i =
     (if opcode m i = kBroadcast
      then bindR (operandR m i 0) (\<lambda>operand. OperandWeight fuel elements_in m operand)
      else Inr (elements_in (i_shape (m_instr m i))))"

definition AllowOverride :: "nat \<Rightarrow> bool list \<Rightarrow> bool" where
  "AllowOverride index overrides =
     (if length overrides > index then overrides ! index
      else if overrides = [] then False else overrides ! 0)"

definition depth_at :: "(iid \<rightharpoonup> nat) \<Rightarrow> iid \<Rightarrow> nat" where
  "depth_at depth i = (case depth i of None \<Rightarrow> 0 | Some d \<Rightarrow> d)"

definition depth_operand :: "iid \<Rightarrow> (iid \<rightharpoonup> nat) \<Rightarrow> iid \<Rightarrow> (iid \<rightharpoonup> nat)" where
  "depth_operand i depth operand =
     (let depth' = depth(operand \<mapsto> depth_at depth operand) in
      depth'(i \<mapsto> max (depth_at depth' i) (depth_at depth' operand + 1)))"

definition depth_step :: "hlo_module \<Rightarrow> (iid \<rightharpoonup> nat) \<Rightarrow> iid \<Rightarrow> (iid \<rightharpoonup> nat)" where
  "depth_step m depth i = foldl (depth_operand i) (depth(i \<mapsto> 0)) (operands m i)"

definition ComputeDepthMap :: "hlo_module \<Rightarrow> cid \<Rightarrow> (iid \<rightharpoonup> nat)" where
  "ComputeDepthMap m c = foldl (depth_step m) Map.empty (post_order m c)"

definition CreateTopologicalIndexMap :: "hlo_module \<Rightarrow> cid \<Rightarrow> (iid \<rightharpoonup> nat)" where
  "CreateTopologicalIndexMap m c =
     foldl (\<lambda>index_map (k, i). index_map(i \<mapsto> k)) Map.empty (enumerate 0 (post_order m c))"

end
