(* ===== verification/Instruction_Properties.thy ===== *)
theory Instruction_Properties
  imports Mpmd_Utils
begin

text \<open>
  The class \<open>InstructionProperties\<close> of \<open>mpmd_utils.h\<close> and \<open>mpmd_utils.cc\<close>: a map from
  instructions to entries, filled by one pass over the entry parameters, one forward pass and
  one backward pass over the computation and everything it calls.
\<close>

section \<open>State\<close>

record prop_entry =
  derived_constant :: bool
  derived_parameter :: bool
  allow_recomputation :: bool
  parameter_copy :: bool
  forward_alias :: "iid option"
  backward_alias :: "iid option"
  parameter_number :: "nat option"
  loop_carried_index :: "nat option"
  loop_parameter_index :: "nat option"
  elementwise_connected :: "iid option"
  equivalent_to_while_output :: "iid option"
  additive_to_while_input :: "iid list"
  loop_carried_initializer :: "iid option"

definition entry_default :: prop_entry where
  "entry_default = \<lparr>derived_constant = False, derived_parameter = False, allow_recomputation = True,
     parameter_copy = False, forward_alias = None, backward_alias = None, parameter_number = None,
     loop_carried_index = None, loop_parameter_index = None, elementwise_connected = None,
     equivalent_to_while_output = None, additive_to_while_input = [], loop_carried_initializer = None\<rparr>"

type_synonym entries = "iid \<rightharpoonup> prop_entry"

text \<open>\<open>entries_[i]\<close>: the entry, made if missing; and an assignment through it.\<close>

definition ent :: "entries \<Rightarrow> iid \<Rightarrow> prop_entry" where
  "ent es i = (case es i of None \<Rightarrow> entry_default | Some e \<Rightarrow> e)"

definition upd :: "entries \<Rightarrow> iid \<Rightarrow> (prop_entry \<Rightarrow> prop_entry) \<Rightarrow> entries" where
  "upd es i f = es(i \<mapsto> f (ent es i))"

abbreviation touch :: "entries \<Rightarrow> iid \<Rightarrow> entries" where
  "touch es i \<equiv> upd es i id"

definition CopyFromAlias :: "prop_entry \<Rightarrow> prop_entry \<Rightarrow> prop_entry" where
  "CopyFromAlias self entry = self\<lparr>derived_constant := derived_constant entry,
     derived_parameter := derived_parameter entry, allow_recomputation := allow_recomputation entry,
     parameter_number := parameter_number entry, loop_carried_index := loop_carried_index entry,
     loop_parameter_index := loop_parameter_index entry,
     elementwise_connected := elementwise_connected entry,
     equivalent_to_while_output := equivalent_to_while_output entry,
     additive_to_while_input := additive_to_while_input entry,
     loop_carried_initializer := loop_carried_initializer entry, parameter_copy := parameter_copy entry\<rparr>"

section \<open>Aliases\<close>

fun alias_walk :: "nat \<Rightarrow> (prop_entry \<Rightarrow> iid option) \<Rightarrow> entries \<Rightarrow> iid \<Rightarrow> iid list statusor" where
  "alias_walk 0 next_alias es i = Inl out_of_fuel"
| "alias_walk (Suc w) next_alias es i =
     (case es i of
        None \<Rightarrow> Inl (Fatal ''Check failed'')
      | Some e \<Rightarrow> (case next_alias e of
          None \<Rightarrow> Inr []
        | Some a \<Rightarrow> bindR (alias_walk w next_alias es a) (\<lambda>rest. Inr (a # rest))))"

definition ForEachBackwardAlias :: "nat \<Rightarrow> entries \<Rightarrow> iid \<Rightarrow> iid list statusor" where
  "ForEachBackwardAlias w es i = alias_walk w backward_alias es i"

definition ForEachForwardAlias :: "nat \<Rightarrow> entries \<Rightarrow> iid \<Rightarrow> iid list statusor" where
  "ForEachForwardAlias w es i = alias_walk w forward_alias es i"

definition ForEachAlias :: "nat \<Rightarrow> entries \<Rightarrow> iid \<Rightarrow> iid list statusor" where
  "ForEachAlias w es i =
     bindR (ForEachBackwardAlias w es i) (\<lambda>bs. bindR (ForEachForwardAlias w es i) (\<lambda>fs. Inr (bs @ fs)))"

definition ForEachAliasAndSelf :: "nat \<Rightarrow> entries \<Rightarrow> iid \<Rightarrow> iid list statusor" where
  "ForEachAliasAndSelf w es i = bindR (ForEachAlias w es i) (\<lambda>xs. Inr (i # xs))"

definition ForEachBackwardAliasAndSelf :: "nat \<Rightarrow> entries \<Rightarrow> iid \<Rightarrow> iid list statusor" where
  "ForEachBackwardAliasAndSelf w es i = bindR (ForEachBackwardAlias w es i) (\<lambda>xs. Inr (i # xs))"

definition ForEachForwardAliasAndSelf :: "nat \<Rightarrow> entries \<Rightarrow> iid \<Rightarrow> iid list statusor" where
  "ForEachForwardAliasAndSelf w es i = bindR (ForEachForwardAlias w es i) (\<lambda>xs. Inr (i # xs))"

definition Get :: "entries \<Rightarrow> iid \<Rightarrow> prop_entry statusor" where
  "Get es i = (case es i of None \<Rightarrow> Inl (Fatal ''has no properties'') | Some e \<Rightarrow> Inr e)"

definition AllowRecomputation :: "entries \<Rightarrow> iid \<Rightarrow> bool statusor" where
  "AllowRecomputation es i = bindR (Get es i) (\<lambda>e. Inr (allow_recomputation e))"

definition ForwardAlias :: "entries \<Rightarrow> iid \<Rightarrow> iid option statusor" where
  "ForwardAlias es i = bindR (Get es i) (\<lambda>e. Inr (forward_alias e))"

definition BackwardAlias :: "entries \<Rightarrow> iid \<Rightarrow> iid option statusor" where
  "BackwardAlias es i = bindR (Get es i) (\<lambda>e. Inr (backward_alias e))"

text \<open>The accessors of the header that follow an alias chain to its end.\<close>

fun chain_end :: "nat \<Rightarrow> (iid \<Rightarrow> iid option statusor) \<Rightarrow> iid \<Rightarrow> iid statusor" where
  "chain_end 0 next_alias i = Inl out_of_fuel"
| "chain_end (Suc w) next_alias i =
     bindR (next_alias i) (\<lambda>a. case a of None \<Rightarrow> Inr i | Some j \<Rightarrow> chain_end w next_alias j)"

definition Operands :: "nat \<Rightarrow> hlo_module \<Rightarrow> entries \<Rightarrow> iid \<Rightarrow> iid list statusor" where
  "Operands w m es i = bindR (chain_end w (BackwardAlias es) i) (\<lambda>s. Inr (operands m s))"

definition Users :: "nat \<Rightarrow> hlo_module \<Rightarrow> entries \<Rightarrow> iid \<Rightarrow> iid list statusor" where
  "Users w m es i = bindR (chain_end w (ForwardAlias es) i) (\<lambda>s. Inr (users m s))"

definition AddBackwardAlias :: "entries \<Rightarrow> iid \<Rightarrow> iid \<Rightarrow> entries" where
  "AddBackwardAlias es i alias = upd (touch es alias) i (\<lambda>e. e\<lparr>backward_alias := Some alias\<rparr>)"

definition AddForwardAlias :: "entries \<Rightarrow> iid \<Rightarrow> iid \<Rightarrow> entries" where
  "AddForwardAlias es i alias = upd (touch es alias) i (\<lambda>e. e\<lparr>forward_alias := Some alias\<rparr>)"

definition AddDefaultProperties :: "entries \<Rightarrow> iid \<Rightarrow> entries" where
  "AddDefaultProperties es i = touch es i"

section \<open>Forward pass\<close>

definition forward_unary :: "hlo_module \<Rightarrow> entries \<Rightarrow> iid \<Rightarrow> entries statusor" where
  "forward_unary m es i =
     bindR (operandR m i 0) (\<lambda>operand.
     let es = touch es operand; op = ent es operand in
     Inr (upd es i (\<lambda>e. e\<lparr>derived_constant := derived_constant op,
                          derived_parameter := derived_parameter op\<rparr>)))"

definition call_param_step :: "hlo_module \<Rightarrow> iid \<Rightarrow> cid \<Rightarrow> entries \<Rightarrow> nat \<Rightarrow> entries statusor" where
  "call_param_step m i c es k =
     bindR (paramR m c k) (\<lambda>inner_param.
     bindR (operandR m i k) (\<lambda>input_alias.
     let es = touch es input_alias in
     Inr (es(inner_param \<mapsto> (CopyFromAlias entry_default (ent es input_alias))
                             \<lparr>backward_alias := Some input_alias\<rparr>))))"

definition call_user_step :: "hlo_module \<Rightarrow> cid \<Rightarrow> entries \<Rightarrow> iid \<Rightarrow> entries statusor" where
  "call_user_step m c es user =
     bindR (tuple_indexR m user) (\<lambda>k.
     bindR (operandR m (root m c) k) (\<lambda>matching_root.
     let es = touch es user in
     if es matching_root = None then Inl (Throws ''out of range'')
     else let es = upd es matching_root (\<lambda>e. e\<lparr>forward_alias := Some user\<rparr>) in
          Inr (upd es user (\<lambda>e. e\<lparr>backward_alias := Some matching_root\<rparr>))))"

definition forward_call ::
  "(cid \<Rightarrow> entries \<Rightarrow> entries statusor) \<Rightarrow> hlo_module \<Rightarrow> entries \<Rightarrow> iid \<Rightarrow> entries statusor" where
  "forward_call rec m es i =
     bindR (calledR m i) (\<lambda>c.
     bindR (foldR (call_param_step m i c) es [0..<length (params m c)]) (\<lambda>es.
     bindR (rec c es) (\<lambda>es.
     if IsTuple m i then foldR (call_user_step m c) es (users m i)
     else Inr (AddForwardAlias es (root m c) i))))"

definition while_param_step ::
  "nat \<Rightarrow> hlo_module \<Rightarrow> iid \<Rightarrow> iid \<Rightarrow> entries \<Rightarrow> iid \<Rightarrow> entries statusor" where
  "while_param_step w m input_tuple root_tuple es user =
     bindR (tuple_indexR m user) (\<lambda>k.
     bindR (operandR m input_tuple k) (\<lambda>input_alias.
     let es = touch es user in
     if es input_alias = None then Inl (Throws ''out of range'')
     else let es = upd es user (\<lambda>e. (CopyFromAlias e (ent es input_alias))\<lparr>backward_alias := Some input_alias\<rparr>) in
     bindR (operandR m root_tuple k) (\<lambda>matching_root_input.
     if matching_root_input = user
     then let es = upd es user (\<lambda>e. e\<lparr>loop_parameter_index := Some k\<rparr>) in
          bindR (ForEachBackwardAlias w es user) (\<lambda>aliases.
          Inr (foldl (\<lambda>es a. upd es a (\<lambda>e. e\<lparr>loop_parameter_index := Some k\<rparr>)) es aliases))
     else let carried = (\<lambda>e. e\<lparr>loop_carried_index := Some k, loop_carried_initializer := Some input_alias\<rparr>);
              es = upd es user carried in
          bindR (ForEachBackwardAliasAndSelf w es input_alias) (\<lambda>aliases.
          let es = foldl (\<lambda>es a. upd es a (\<lambda>e. e\<lparr>loop_parameter_index := Some k\<rparr>)) es aliases in
          Inr (upd (upd es input_alias carried) matching_root_input carried)))))"

definition while_user_step :: "hlo_module \<Rightarrow> iid \<Rightarrow> entries \<Rightarrow> iid \<Rightarrow> entries statusor" where
  "while_user_step m root_tuple es user =
     bindR (tuple_indexR m user) (\<lambda>k.
     bindR (operandR m root_tuple k) (\<lambda>matching_root_input.
     let es = touch es matching_root_input;
         user_properties = (CopyFromAlias entry_default (ent es matching_root_input))
            \<lparr>backward_alias := Some matching_root_input\<rparr>;
         es = upd es matching_root_input (\<lambda>e. e\<lparr>forward_alias := Some user\<rparr>) in
     Inr (es(user \<mapsto> user_properties))))"

definition forward_while ::
  "nat \<Rightarrow> (cid \<Rightarrow> entries \<Rightarrow> entries statusor) \<Rightarrow> hlo_module \<Rightarrow> entries \<Rightarrow> iid \<Rightarrow> entries statusor" where
  "forward_while w rec m es i =
     bindR (operandR m i 0) (\<lambda>input_tuple.
     bindR (calledR m i) (\<lambda>c.
     let root_tuple = root m c in
     if opcode m root_tuple \<noteq> kTuple \<or> length (params m c) \<noteq> 1 then Inl (Fatal ''Check failed'')
     else bindR (paramR m c 0) (\<lambda>body_tuple_param.
     if \<not> IsTuple m body_tuple_param then Inl (Fatal ''Check failed'')
     else bindR (foldR (while_param_step w m input_tuple root_tuple) es (users m body_tuple_param)) (\<lambda>es.
     bindR (foldR (while_user_step m root_tuple) es (users m i)) (\<lambda>es.
     rec c es)))))"

definition forward_barrier :: "hlo_module \<Rightarrow> entries \<Rightarrow> iid \<Rightarrow> entries statusor" where
  "forward_barrier m es i =
     (if IsTuple m i
      then bindR (operandR m i 0) (\<lambda>input_tuple.
           foldR (\<lambda>es user. bindR (tuple_indexR m user) (\<lambda>k.
                            bindR (operandR m input_tuple k) (\<lambda>alias.
                            Inr (AddBackwardAlias es user alias)))) es (users m i))
      else Inr es)"

definition forward_copy :: "hlo_module \<Rightarrow> entries \<Rightarrow> iid \<Rightarrow> entries statusor" where
  "forward_copy m es i =
     (let es = upd es i (\<lambda>e. e\<lparr>allow_recomputation := False\<rparr>) in
      bindR (operandR m i 0) (\<lambda>operand.
      let es = touch es operand; op = ent es operand in
      Inr (if parameter_number op \<noteq> None \<or> parameter_copy op
           then upd es i (\<lambda>e. e\<lparr>parameter_copy := True\<rparr>) else es)))"

definition IsCustomCall :: "hlo_module \<Rightarrow> iid \<Rightarrow> string \<Rightarrow> bool" where
  "IsCustomCall m i target \<longleftrightarrow> opcode m i = kCustomCall \<and> i_custom_call_target (m_instr m i) = target"

definition forward_custom_call :: "hlo_module \<Rightarrow> entries \<Rightarrow> iid \<Rightarrow> entries statusor" where
  "forward_custom_call m es i =
     (if IsCustomCall m i ''Reshard''
      then bindR (operandR m i 0) (\<lambda>operand.
           let es = touch es operand; op = ent es operand;
               es = upd es i (\<lambda>e. e\<lparr>derived_parameter := derived_parameter op\<rparr>) in
           Inr (if parameter_number op \<noteq> None then upd es i (\<lambda>e. e\<lparr>parameter_copy := True\<rparr>) else es))
      else Inr es)"

definition forward_step ::
  "nat \<Rightarrow> (cid \<Rightarrow> entries \<Rightarrow> entries statusor) \<Rightarrow> hlo_module \<Rightarrow> entries \<Rightarrow> iid \<Rightarrow> entries statusor" where
  "forward_step w rec m es i =
     (let es = touch es i in
      if opcode m i = kConstant then Inr (upd es i (\<lambda>e. e\<lparr>derived_constant := True\<rparr>))
      else if opcode m i \<in> {kTranspose, kBroadcast, kReshape, kConvert} then forward_unary m es i
      else if opcode m i = kCall then forward_call rec m es i
      else if opcode m i = kWhile then forward_while w rec m es i
      else if opcode m i = kOptimizationBarrier then forward_barrier m es i
      else if opcode m i = kCopy then forward_copy m es i
      else if opcode m i = kCustomCall then forward_custom_call m es i
      else Inr es)"

fun AddForwardProperties ::
  "nat \<Rightarrow> nat \<Rightarrow> hlo_module \<Rightarrow> cid \<Rightarrow> entries \<Rightarrow> entries statusor" where
  "AddForwardProperties 0 w m c es = Inl out_of_fuel"
| "AddForwardProperties (Suc fuel) w m c es =
     foldR (forward_step w (AddForwardProperties fuel w m) m) es (post_order m c)"

section \<open>Backward pass\<close>

definition kNoOpCustomCalls :: "string list" where
  "kNoOpCustomCalls = [''Reshard'', ''Sharding'', ''ArgumentRecolor'', ''SPMDFullToShardShape'',
     ''SPMDShardToFullShape'']"

text \<open>The test looks at the target of the instruction the walk started from.\<close>

fun dealias_loop :: "nat \<Rightarrow> hlo_module \<Rightarrow> iid \<Rightarrow> iid \<Rightarrow> iid option statusor" where
  "dealias_loop 0 m i operand = Inl out_of_fuel"
| "dealias_loop (Suc w) m i operand =
     (if opcode m operand = kCustomCall \<and> i_custom_call_target (m_instr m i) \<in> set kNoOpCustomCalls
      then bindR (operandR m operand 0) (\<lambda>next. dealias_loop w m i next)
      else if opcode m operand = kGetTupleElement
      then bindR (operandR m operand 0) (\<lambda>tup. Inr (if opcode m tup = kParameter then Some operand else None))
      else Inr None)"

definition DealiasLoopInput :: "nat \<Rightarrow> hlo_module \<Rightarrow> iid \<Rightarrow> iid option statusor" where
  "DealiasLoopInput w m i = dealias_loop w m i i"

definition propagate_elementwise :: "prop_entry \<Rightarrow> prop_entry \<Rightarrow> prop_entry" where
  "propagate_elementwise src target =
     (if elementwise_connected target = None
      then target\<lparr>elementwise_connected := elementwise_connected src\<rparr> else target)"

definition propagate_additive_elementwise :: "prop_entry \<Rightarrow> prop_entry \<Rightarrow> prop_entry" where
  "propagate_additive_elementwise src target =
     (propagate_elementwise src target)\<lparr>additive_to_while_input := additive_to_while_input src\<rparr>"

definition propagate_no_op_elementwise :: "prop_entry \<Rightarrow> prop_entry \<Rightarrow> prop_entry" where
  "propagate_no_op_elementwise src target =
     (propagate_elementwise src target)\<lparr>equivalent_to_while_output := equivalent_to_while_output src,
        additive_to_while_input := additive_to_while_input src\<rparr>"

text \<open>Apply a propagation from one instruction's entry to another's.\<close>

definition flow :: "(prop_entry \<Rightarrow> prop_entry \<Rightarrow> prop_entry) \<Rightarrow> entries \<Rightarrow> iid \<Rightarrow> iid \<Rightarrow> entries" where
  "flow prop es src target = (let es = touch es src in upd es target (prop (ent es src)))"

definition push_additive :: "entries \<Rightarrow> iid \<Rightarrow> iid \<Rightarrow> entries" where
  "push_additive es i a = upd es i (\<lambda>e. e\<lparr>additive_to_while_input := additive_to_while_input e @ [a]\<rparr>)"

definition backward_add :: "nat \<Rightarrow> hlo_module \<Rightarrow> entries \<Rightarrow> iid \<Rightarrow> entries statusor" where
  "backward_add w m es i =
     bindR (operandR m i 0) (\<lambda>lhs.
     let es = flow propagate_elementwise es i lhs in
     bindR (DealiasLoopInput w m lhs) (\<lambda>lhs_loop_input.
     bindR (operandR m i 1) (\<lambda>rhs.
     let es = flow propagate_elementwise es i rhs in
     bindR (DealiasLoopInput w m rhs) (\<lambda>rhs_loop_input.
     case lhs_loop_input of
       Some l \<Rightarrow> Inr (push_additive (push_additive es i l) rhs l)
     | None \<Rightarrow> (case rhs_loop_input of
         Some r \<Rightarrow> Inr (push_additive (push_additive es i r) lhs r)
       | None \<Rightarrow>
           if additive_to_while_input (ent es i) \<noteq> []
           then let es = (if length (users m lhs) = 1 then flow propagate_additive_elementwise es i lhs else es);
                    es = (if length (users m rhs) = 1 then flow propagate_additive_elementwise es i rhs else es)
                in Inr es
           else Inr es)))))"

definition backward_first :: "(prop_entry \<Rightarrow> prop_entry \<Rightarrow> prop_entry) \<Rightarrow> hlo_module \<Rightarrow> entries \<Rightarrow> iid \<Rightarrow> entries statusor" where
  "backward_first prop m es i = bindR (operandR m i 0) (\<lambda>operand. Inr (flow prop es i operand))"

definition backward_binary :: "hlo_module \<Rightarrow> entries \<Rightarrow> iid \<Rightarrow> entries statusor" where
  "backward_binary m es i =
     bindR (operandR m i 0) (\<lambda>lhs. bindR (operandR m i 1) (\<lambda>rhs.
     Inr (flow propagate_elementwise (flow propagate_elementwise es i lhs) i rhs)))"

definition backward_reduce :: "hlo_module \<Rightarrow> entries \<Rightarrow> iid \<Rightarrow> entries statusor" where
  "backward_reduce m es i =
     bindR (calledR m i) (\<lambda>c.
     if opcode m (root m c) = kAdd
     then bindR (operandR m i 0) (\<lambda>operand.
          Inr (upd es operand (\<lambda>e. e\<lparr>additive_to_while_input := additive_to_while_input (ent es i)\<rparr>)))
     else Inr es)"

definition user_root_flow :: "hlo_module \<Rightarrow> cid \<Rightarrow> entries \<Rightarrow> iid \<Rightarrow> entries statusor" where
  "user_root_flow m c es user =
     bindR (tuple_indexR m user) (\<lambda>k.
     bindR (operandR m (root m c) k) (\<lambda>root_input.
     Inr (flow propagate_elementwise es user root_input)))"

definition backward_call ::
  "(bool \<Rightarrow> cid \<Rightarrow> entries \<Rightarrow> entries statusor) \<Rightarrow> hlo_module \<Rightarrow> entries \<Rightarrow> iid \<Rightarrow> entries statusor" where
  "backward_call rec m es i =
     bindR (calledR m i) (\<lambda>subcomp.
     bindR (if IsTuple m i then foldR (user_root_flow m subcomp) es (users m i) else Inr es) (\<lambda>es.
     bindR (rec False subcomp es) (\<lambda>es.
     foldR (\<lambda>es k. bindR (operandR m i k) (\<lambda>operand. bindR (paramR m subcomp k) (\<lambda>param.
                   Inr (flow propagate_elementwise es param operand))))
       es [0..<length (operands m i)])))"

definition backward_while ::
  "(bool \<Rightarrow> cid \<Rightarrow> entries \<Rightarrow> entries statusor) \<Rightarrow> hlo_module \<Rightarrow> cid \<Rightarrow> entries \<Rightarrow> iid \<Rightarrow> entries statusor" where
  "backward_while rec m c es i =
     bindR (calledR m i) (\<lambda>subcomp.
     let es = (if opcode m (root m subcomp) = kTuple
               then foldl (\<lambda>es operand. upd es operand (\<lambda>e. e\<lparr>equivalent_to_while_output := Some operand\<rparr>))
                      es (operands m (root m subcomp))
               else upd es (root m subcomp) (\<lambda>e. e\<lparr>equivalent_to_while_output := Some (root m c)\<rparr>)) in
     bindR (foldR (user_root_flow m subcomp) es (users m i)) (\<lambda>es.
     bindR (rec True subcomp es) (\<lambda>es.
     bindR (operandR m i 0) (\<lambda>input_tuple.
     bindR (paramR m subcomp 0) (\<lambda>param.
     foldR (\<lambda>es user. bindR (tuple_indexR m user) (\<lambda>k.
                      bindR (operandR m input_tuple k) (\<lambda>tuple_operand.
                      Inr (flow propagate_elementwise es user tuple_operand))))
       es (users m param))))))"

definition backward_step ::
  "nat \<Rightarrow> (bool \<Rightarrow> cid \<Rightarrow> entries \<Rightarrow> entries statusor) \<Rightarrow> hlo_module \<Rightarrow> cid \<Rightarrow> entries \<Rightarrow> iid \<Rightarrow> entries statusor" where
  "backward_step w rec m c es i =
     (let es = touch es i in
      if opcode m i = kAdd then backward_add w m es i
      else if opcode m i = kCustomCall
      then if i_custom_call_target (m_instr m i) \<in> set kNoOpCustomCalls
           then backward_first propagate_no_op_elementwise m es i else Inr es
      else if opcode m i = kReduce then backward_reduce m es i
      else if opcode m i \<in> {kTranspose, kReshape, kConvert, kBitcast}
      then backward_first propagate_no_op_elementwise m es i
      else if opcode m i \<in> {kMultiply, kDivide, kOr, kSubtract, kSelect, kAnd} then backward_binary m es i
      else if opcode m i \<in> {kSin, kCos, kExp, kCeil, kCopy, kLog, kNegate, kNot, kReducePrecision,
                            kSqrt, kTan, kTanh}
      then backward_first propagate_elementwise m es i
      else if opcode m i = kCall then backward_call rec m es i
      else if opcode m i = kWhile then backward_while rec m c es i
      else Inr es)"

fun AddBackwardProperties ::
  "nat \<Rightarrow> nat \<Rightarrow> hlo_module \<Rightarrow> bool \<Rightarrow> cid \<Rightarrow> entries \<Rightarrow> entries statusor" where
  "AddBackwardProperties 0 w m loop c es = Inl out_of_fuel"
| "AddBackwardProperties (Suc fuel) w m loop c es =
     bindR (if loop then paramR m c 0 else Inr 0) (\<lambda>_.
     foldR (backward_step w (AddBackwardProperties fuel w m) m c) es (rev (post_order m c)))"

section \<open>Entry properties and construction\<close>

definition AddEntryProperties :: "hlo_module \<Rightarrow> cid \<Rightarrow> entries \<Rightarrow> entries" where
  "AddEntryProperties m c es =
     (let es = foldl (\<lambda>es (k, i). upd es i (\<lambda>e. e\<lparr>derived_parameter := True, parameter_number := Some k\<rparr>))
                 es (enumerate 0 (params m c)) in
      if opcode m (root m c) = kTuple
      then foldl (\<lambda>es operand. upd es operand (\<lambda>e. e\<lparr>elementwise_connected := Some operand\<rparr>))
             es (operands m (root m c))
      else upd es (root m c) (\<lambda>e. e\<lparr>elementwise_connected := Some (root m c)\<rparr>))"

definition Add :: "entries \<Rightarrow> entries \<Rightarrow> entries" where
  "Add es other = (\<lambda>i. case other i of None \<Rightarrow> es i | Some e \<Rightarrow> Some (CopyFromAlias (ent es i) e))"

definition Create_computation :: "nat \<Rightarrow> nat \<Rightarrow> hlo_module \<Rightarrow> cid \<Rightarrow> entries statusor" where
  "Create_computation fuel w m c =
     bindR (AddForwardProperties fuel w m c (AddEntryProperties m c Map.empty)) (\<lambda>es.
     AddBackwardProperties fuel w m False c es)"

definition Create_module :: "nat \<Rightarrow> nat \<Rightarrow> hlo_module \<Rightarrow> entries statusor" where
  "Create_module fuel w m = Create_computation fuel w m (m_entry m)"

definition Clone :: "entries \<Rightarrow> iid \<Rightarrow> iid \<Rightarrow> entries" where
  "Clone es source target =
     (let es = touch es source in es(target \<mapsto> CopyFromAlias entry_default (ent es source)))"

section \<open>Queries\<close>

definition ParameterNumber :: "entries \<Rightarrow> iid \<Rightarrow> nat option statusor" where
  "ParameterNumber es i = bindR (Get es i) (\<lambda>e. Inr (parameter_number e))"

definition ParameterAlias :: "entries \<Rightarrow> iid \<Rightarrow> bool statusor" where
  "ParameterAlias es i = bindR (Get es i) (\<lambda>e. Inr (parameter_number e \<noteq> None))"

definition ParameterCopy :: "entries \<Rightarrow> iid \<Rightarrow> bool statusor" where
  "ParameterCopy es i = bindR (Get es i) (\<lambda>e. Inr (parameter_copy e))"

definition DerivedConstant :: "entries \<Rightarrow> iid \<Rightarrow> bool statusor" where
  "DerivedConstant es i = bindR (Get es i) (\<lambda>e. Inr (derived_constant e))"

definition DerivedParameter :: "entries \<Rightarrow> iid \<Rightarrow> bool statusor" where
  "DerivedParameter es i = bindR (Get es i) (\<lambda>e. Inr (derived_parameter e))"

definition DerivedInput :: "entries \<Rightarrow> iid \<Rightarrow> bool statusor" where
  "DerivedInput es i = bindR (Get es i) (\<lambda>e. Inr (derived_parameter e \<or> derived_constant e))"

section \<open>Nesting fuel\<close>

lemma bindR_eqI: "m = m' \<Longrightarrow> (\<And>x. m = Inr x \<Longrightarrow> f x = f' x) \<Longrightarrow> bindR m f = bindR m' f'"
  by (cases m) auto

lemma calledR_mem: "calledR m i = Inr c \<Longrightarrow> c \<in> set (called m i)"
  by (auto simp: calledR_def subR_Inr_iff)

lemma forward_step_cong:
  assumes "\<And>c es. c \<in> set (called m i) \<Longrightarrow> rec c es = rec' c es"
  shows "forward_step w rec m es i = forward_step w rec' m es i"
proof -
  have "forward_call rec m es i = forward_call rec' m es i" for es
    unfolding forward_call_def using assms calledR_mem by (auto intro!: bindR_eqI)
  moreover have "forward_while w rec m es i = forward_while w rec' m es i" for es
    unfolding forward_while_def Let_def using assms calledR_mem by (auto intro!: bindR_eqI)
  ultimately show ?thesis by (simp add: forward_step_def Let_def)
qed

lemma backward_step_cong:
  assumes "\<And>l c es. c \<in> set (called m i) \<Longrightarrow> rec l c es = rec' l c es"
  shows "backward_step w rec m d es i = backward_step w rec' m d es i"
proof -
  have "backward_call rec m es i = backward_call rec' m es i" for es
    unfolding backward_call_def using assms calledR_mem by (auto intro!: bindR_eqI)
  moreover have "backward_while rec m d es i = backward_while rec' m d es i" for es
    unfolding backward_while_def Let_def using assms calledR_mem by (auto intro!: bindR_eqI)
  ultimately show ?thesis by (simp add: backward_step_def Let_def)
qed

lemma AddForwardProperties_fuel:
  assumes "acyclic_calls m rk" and "rk c < fuel" and "rk c < fuel'"
  shows "AddForwardProperties fuel w m c es = AddForwardProperties fuel' w m c es"
  using assms(2,3)
proof (induction fuel arbitrary: fuel' c es)
  case (Suc fuel)
  then obtain f' where f': "fuel' = Suc f'" by (cases fuel') auto
  have "forward_step w (AddForwardProperties fuel w m) m es i = forward_step w (AddForwardProperties f' w m) m es i"
    if i: "i \<in> set (post_order m c)" for es i
  proof (rule forward_step_cong)
    fix d es assume "d \<in> set (called m i)"
    then have "rk d < rk c" using assms(1) i by (auto simp: acyclic_calls_def)
    then show "AddForwardProperties fuel w m d es = AddForwardProperties f' w m d es"
      using Suc.prems f' by (intro Suc.IH) auto
  qed
  then show ?case by (simp add: f' cong: foldR_cong)
qed simp

lemma AddBackwardProperties_fuel:
  assumes "acyclic_calls m rk" and "rk c < fuel" and "rk c < fuel'"
  shows "AddBackwardProperties fuel w m l c es = AddBackwardProperties fuel' w m l c es"
  using assms(2,3)
proof (induction fuel arbitrary: fuel' c es l)
  case (Suc fuel)
  then obtain f' where f': "fuel' = Suc f'" by (cases fuel') auto
  have "backward_step w (AddBackwardProperties fuel w m) m c es i = backward_step w (AddBackwardProperties f' w m) m c es i"
    if i: "i \<in> set (post_order m c)" for es i
  proof (rule backward_step_cong)
    fix l d es assume "d \<in> set (called m i)"
    then have "rk d < rk c" using assms(1) i by (auto simp: acyclic_calls_def)
    then show "AddBackwardProperties fuel w m l d es = AddBackwardProperties f' w m l d es"
      using Suc.prems f' by (intro Suc.IH) auto
  qed
  then have "foldR (backward_step w (AddBackwardProperties fuel w m) m c) es (rev (post_order m c)) =
      foldR (backward_step w (AddBackwardProperties f' w m) m c) es (rev (post_order m c))"
    by (intro foldR_cong) simp_all
  then show ?case by (simp add: f')
qed simp

end
