(* ===== verification/Property_Facts.thy ===== *)
theory Property_Facts
  imports Instruction_Properties
begin

text \<open>
  What \<open>InstructionProperties\<close> guarantees: enough nesting fuel exists whenever calls are
  acyclic, the backward pass never touches what the forward pass found, and on computations
  without calls and loops the flags are exactly what the graph says.
\<close>

lemma ent_upd [simp]: "ent (upd es i f) j = (if j = i then f (ent es i) else ent es j)"
  by (simp add: ent_def upd_def)

lemma ent_put [simp]: "ent (es(i \<mapsto> e)) j = (if j = i then e else ent es j)"
  by (simp add: ent_def)

section \<open>The backward pass\<close>

text \<open>The fields the backward pass does not own.\<close>

definition forward_part :: "prop_entry \<Rightarrow> prop_entry" where
  "forward_part e = e\<lparr>elementwise_connected := None, equivalent_to_while_output := None,
     additive_to_while_input := []\<rparr>"

definition known :: "entries \<Rightarrow> iid set" where
  "known es = dom es"

lemma known_upd [simp]: "known (upd es i f) = insert i (known es)"
  by (simp add: known_def upd_def)

lemma Get_known: "i \<in> known es \<Longrightarrow> Get es i = Inr (ent es i)"
  by (auto simp: known_def Get_def ent_def)

definition keeps :: "entries \<Rightarrow> entries \<Rightarrow> bool" where
  "keeps es es' \<longleftrightarrow> (\<forall>i. forward_part (ent es' i) = forward_part (ent es i)) \<and> known es \<subseteq> known es'"

lemma keeps_refl [simp, intro]: "keeps es es"
  by (simp add: keeps_def)

lemma keeps_trans: "keeps es es' \<Longrightarrow> keeps es' es'' \<Longrightarrow> keeps es es''"
  unfolding keeps_def by (metis subset_trans)

lemma forward_part_simps [simp]:
  "forward_part (id e) = forward_part e"
  "forward_part (elementwise_connected_update f e) = forward_part e"
  "forward_part (equivalent_to_while_output_update g e) = forward_part e"
  "forward_part (additive_to_while_input_update h e) = forward_part e"
  by (simp_all add: forward_part_def)

lemma propagate_keeps [simp]:
  "forward_part (propagate_elementwise src e) = forward_part e"
  "forward_part (propagate_additive_elementwise src e) = forward_part e"
  "forward_part (propagate_no_op_elementwise src e) = forward_part e"
  by (simp_all add: propagate_elementwise_def propagate_additive_elementwise_def propagate_no_op_elementwise_def)

lemma keeps_upd [simp]:
  "(\<And>e. forward_part (f e) = forward_part e) \<Longrightarrow> keeps es es0 \<Longrightarrow> keeps es (upd es0 i f)"
  unfolding keeps_def by auto

lemma keeps_flow [simp]:
  assumes "keeps es es0"
  shows "keeps es (flow propagate_elementwise es0 i j)"
    "keeps es (flow propagate_additive_elementwise es0 i j)"
    "keeps es (flow propagate_no_op_elementwise es0 i j)"
  using assms by (simp_all add: flow_def Let_def)

lemma keeps_push [simp]: "keeps es es0 \<Longrightarrow> keeps es (push_additive es0 i a)"
  by (simp add: push_additive_def)

lemma foldR_keeps:
  assumes "foldR f es xs = Inr es'" and "\<And>es x es'. f es x = Inr es' \<Longrightarrow> keeps es es'"
  shows "keeps es es'"
  using assms(1) by (rule foldR_invariant) (auto intro: keeps_trans assms(2))

lemma foldl_keeps: "(\<And>es x. keeps es (f es x)) \<Longrightarrow> keeps es (foldl f es xs)"
  by (induction xs arbitrary: es) (auto intro: keeps_trans)

lemma backward_add_keeps: "backward_add w m es i = Inr es' \<Longrightarrow> keeps es es'"
  unfolding backward_add_def Let_def by (auto elim!: bindR_InrE split: option.splits if_splits)

lemma user_root_flow_keeps: "user_root_flow m c es u = Inr es' \<Longrightarrow> keeps es es'"
  unfolding user_root_flow_def by (auto elim!: bindR_InrE)

lemma backward_reduce_keeps: "backward_reduce m es i = Inr es' \<Longrightarrow> keeps es es'"
  unfolding backward_reduce_def by (auto elim!: bindR_InrE split: if_splits)

lemma backward_call_keeps:
  assumes "backward_call rec m es i = Inr es'" and "\<And>l c es es'. rec l c es = Inr es' \<Longrightarrow> keeps es es'"
  shows "keeps es es'"
proof -
  obtain c es1 es2 where
    1: "(if IsTuple m i then foldR (user_root_flow m c) es (users m i) else Inr es) = Inr es1"
    and 2: "rec False c es1 = Inr es2"
    and 3: "foldR (\<lambda>es k. bindR (operandR m i k) (\<lambda>operand. bindR (paramR m c k) (\<lambda>param.
                   Inr (flow propagate_elementwise es param operand)))) es2 [0..<length (operands m i)] = Inr es'"
    using assms(1) unfolding backward_call_def by (elim bindR_InrE)
  have "keeps es es1" using 1 by (auto split: if_splits elim!: foldR_keeps user_root_flow_keeps)
  moreover have "keeps es1 es2" by (rule assms(2)[OF 2])
  moreover have "keeps es2 es'" using 3 by (rule foldR_keeps) (auto elim!: bindR_InrE)
  ultimately show ?thesis by (blast intro: keeps_trans)
qed

lemma backward_while_keeps:
  assumes "backward_while rec m c es i = Inr es'" and "\<And>l c es es'. rec l c es = Inr es' \<Longrightarrow> keeps es es'"
  shows "keeps es es'"
proof -
  let ?eq = "\<lambda>sub. if opcode m (root m sub) = kTuple
               then foldl (\<lambda>es operand. upd es operand (\<lambda>e. e\<lparr>equivalent_to_while_output := Some operand\<rparr>))
                      es (operands m (root m sub))
               else upd es (root m sub) (\<lambda>e. e\<lparr>equivalent_to_while_output := Some (root m c)\<rparr>)"
  obtain sub es1 es2 tup param where
    1: "foldR (user_root_flow m sub) (?eq sub) (users m i) = Inr es1" and 2: "rec True sub es1 = Inr es2"
    and 3: "foldR (\<lambda>es user. bindR (tuple_indexR m user) (\<lambda>k.
                      bindR (operandR m tup k) (\<lambda>tuple_operand.
                      Inr (flow propagate_elementwise es user tuple_operand)))) es2 (users m param) = Inr es'"
    using assms(1) unfolding backward_while_def Let_def by (elim bindR_InrE)
  have "keeps es (?eq sub)" by (auto intro!: foldl_keeps)
  moreover have "keeps (?eq sub) es1" by (rule foldR_keeps[OF 1 user_root_flow_keeps])
  moreover have "keeps es1 es2" by (rule assms(2)[OF 2])
  moreover have "keeps es2 es'" using 3 by (rule foldR_keeps) (auto elim!: bindR_InrE)
  ultimately show ?thesis by (blast intro: keeps_trans)
qed

lemma backward_step_keeps:
  assumes "backward_step w rec m c es i = Inr es'" and "\<And>l c es es'. rec l c es = Inr es' \<Longrightarrow> keeps es es'"
  shows "keeps es es'"
proof -
  have "keeps es (touch es i)" by auto
  moreover have "keeps (touch es i) es'"
    using assms(1) unfolding backward_step_def Let_def backward_first_def backward_binary_def
    by (auto split: if_split_asm elim!: bindR_InrE dest: backward_add_keeps backward_reduce_keeps
        backward_call_keeps[OF _ assms(2)] backward_while_keeps[OF _ assms(2)])
  ultimately show ?thesis by (rule keeps_trans)
qed

lemma AddBackwardProperties_keeps: "AddBackwardProperties fuel w m l c es = Inr es' \<Longrightarrow> keeps es es'"
proof (induction fuel arbitrary: l c es es')
  case (Suc fuel)
  from Suc.prems obtain k where
    "foldR (backward_step w (AddBackwardProperties fuel w m) m c) es (rev (post_order m c)) = Inr es'"
    by (auto elim!: bindR_InrE)
  then show ?case by (rule foldR_keeps) (blast intro: backward_step_keeps Suc.IH)
qed simp

section \<open>The forward pass on flat computations\<close>

text \<open>What the graph says: derived from a constant or a parameter, copied from a parameter.\<close>

abbreviation reshaping :: "hlo_opcode set" where
  "reshaping \<equiv> {kTranspose, kBroadcast, kReshape, kConvert}"

inductive const_derived :: "hlo_module \<Rightarrow> iid \<Rightarrow> bool" for m where
  const_self: "opcode m i = kConstant \<Longrightarrow> const_derived m i"
| const_reshaped: "opcode m i \<in> reshaping \<Longrightarrow> operandR m i 0 = Inr j \<Longrightarrow> const_derived m j \<Longrightarrow> const_derived m i"

inductive param_derived :: "hlo_module \<Rightarrow> iid \<Rightarrow> bool" for m where
  param_self: "opcode m i = kParameter \<Longrightarrow> param_derived m i"
| param_reshaped: "opcode m i \<in> reshaping \<or> IsCustomCall m i ''Reshard'' \<Longrightarrow> operandR m i 0 = Inr j \<Longrightarrow>
    param_derived m j \<Longrightarrow> param_derived m i"

inductive param_copied :: "hlo_module \<Rightarrow> iid \<Rightarrow> bool" for m where
  copied_param: "opcode m i = kCopy \<or> IsCustomCall m i ''Reshard'' \<Longrightarrow> operandR m i 0 = Inr j \<Longrightarrow>
    opcode m j = kParameter \<Longrightarrow> param_copied m i"
| copied_copy: "opcode m i = kCopy \<Longrightarrow> operandR m i 0 = Inr j \<Longrightarrow> param_copied m j \<Longrightarrow> param_copied m i"

inductive_simps const_derived_iff: "const_derived m i"
inductive_simps param_derived_iff: "param_derived m i"
inductive_simps param_copied_iff: "param_copied m i"

text \<open>The flags of an entry, and the entry the graph prescribes.\<close>

definition flags :: "prop_entry \<Rightarrow> bool \<times> bool \<times> bool \<times> bool \<times> nat option" where
  "flags e = (derived_constant e, derived_parameter e, allow_recomputation e, parameter_copy e, parameter_number e)"

definition graph_flags :: "hlo_module \<Rightarrow> (iid \<Rightarrow> nat option) \<Rightarrow> iid \<Rightarrow> bool \<times> bool \<times> bool \<times> bool \<times> nat option" where
  "graph_flags m pn i = (const_derived m i, param_derived m i, opcode m i \<noteq> kCopy, param_copied m i, pn i)"

definition initial_flags :: "hlo_module \<Rightarrow> (iid \<Rightarrow> nat option) \<Rightarrow> iid \<Rightarrow> bool \<times> bool \<times> bool \<times> bool \<times> nat option" where
  "initial_flags m pn i = (False, pn i \<noteq> None, True, False, pn i)"

definition flat_op :: "hlo_opcode \<Rightarrow> bool" where
  "flat_op opc \<longleftrightarrow> opc \<noteq> kCall \<and> opc \<noteq> kWhile"

lemma flags_upd [simp]:
  "(\<And>e. flags (f e) = flags e) \<Longrightarrow> flags (ent (upd es i f) j) = flags (ent es j)"
  by simp

lemma flags_alias [simp]: "flags (backward_alias_update f e) = flags e"
  by (simp add: flags_def)

lemma barrier_flags:
  assumes "forward_barrier m es i = Inr es'"
  shows "flags (ent es' j) = flags (ent es j)"
proof -
  have "flags (ent es2 j) = flags (ent es j)"
    if "foldR (\<lambda>es user. bindR (tuple_indexR m user) (\<lambda>k.
                            bindR (operandR m t k) (\<lambda>alias.
                            Inr (AddBackwardAlias es user alias)))) es us = Inr es2" for t us es2
    using that by (rule foldR_invariant[where P = "\<lambda>es'. flags (ent es' j) = flags (ent es j)"])
      (auto elim!: bindR_InrE simp: AddBackwardAlias_def simp del: ent_upd)
  then show ?thesis using assms unfolding forward_barrier_def by (auto split: if_splits elim!: bindR_InrE)
qed

lemma forward_step_other:
  assumes "forward_step w rec m es i = Inr es'" and "flat_op (opcode m i)" and "j \<noteq> i"
  shows "flags (ent es' j) = flags (ent es j)"
  using assms barrier_flags[of m "touch es i" i es' j]
  unfolding forward_step_def Let_def forward_unary_def forward_copy_def forward_custom_call_def flat_op_def
  by (auto split: if_split_asm elim!: bindR_InrE)

lemma forward_step_self:
  assumes step: "forward_step w rec m es i = Inr es'" and flat: "flat_op (opcode m i)"
    and init: "flags (ent es i) = initial_flags m pn i"
    and ops: "\<And>j. j \<in> set (operands m i) \<Longrightarrow> j \<noteq> i \<and> flags (ent es j) = graph_flags m pn j"
    and pn: "\<And>j. j = i \<or> j \<in> set (operands m i) \<Longrightarrow> pn j \<noteq> None \<longleftrightarrow> opcode m j = kParameter"
  shows "flags (ent es' i) = graph_flags m pn i"
proof -
  have op: "j \<noteq> i \<and> flags (ent es j) = graph_flags m pn j" if "operandR m i 0 = Inr j" for j
    using that ops by (auto simp: operandR_def subR_Inr_iff)
  note init' = init[unfolded flags_def initial_flags_def] and pni = pn[of i, simplified]
  have fl: "flags e = graph_flags m pn i"
    if "derived_constant e = const_derived m i" "derived_parameter e = param_derived m i"
      "allow_recomputation e \<longleftrightarrow> opcode m i \<noteq> kCopy" "parameter_copy e = param_copied m i"
      "parameter_number e = pn i" for e
    using that by (simp add: flags_def graph_flags_def)
  have opf: "j \<noteq> i" "derived_constant (ent es j) = const_derived m j" "derived_parameter (ent es j) = param_derived m j"
    "parameter_copy (ent es j) = param_copied m j" "parameter_number (ent es j) = pn j"
    "pn j \<noteq> None \<longleftrightarrow> opcode m j = kParameter"
    if "operandR m i 0 = Inr j" for j
    using op[OF that] pn[of j] that by (auto simp: flags_def graph_flags_def operandR_def subR_Inr_iff)
  consider (const) "opcode m i = kConstant" | (unary) "opcode m i \<in> reshaping"
    | (barrier) "opcode m i = kOptimizationBarrier" | (copy) "opcode m i = kCopy"
    | (custom) "opcode m i = kCustomCall"
    | (other) "opcode m i \<notin> {kConstant, kOptimizationBarrier, kCopy, kCustomCall} \<union> reshaping"
    by blast
  then show ?thesis
  proof cases
    case const
    then have es': "es' = upd (touch es i) i (\<lambda>e. e\<lparr>derived_constant := True\<rparr>)"
      using step by (simp add: forward_step_def)
    have "const_derived m i" using const by (rule const_self)
    moreover have "\<not> param_derived m i" "\<not> param_copied m i"
      using const by (auto simp: param_derived_iff[of m i] param_copied_iff[of m i] IsCustomCall_def)
    ultimately show ?thesis using const init' pni by (intro fl) (simp_all add: es')
  next
    case unary
    then obtain j where j: "operandR m i 0 = Inr j"
      and es': "es' = upd (touch (touch es i) j) i (\<lambda>e. e\<lparr>derived_constant := derived_constant (ent (touch (touch es i) j) j),
                          derived_parameter := derived_parameter (ent (touch (touch es i) j) j)\<rparr>)"
      using step by (auto simp: forward_step_def forward_unary_def Let_def elim!: bindR_InrE)
    have "const_derived m i = const_derived m j" "param_derived m i = param_derived m j" "\<not> param_copied m i"
      using unary j by (auto simp: const_derived_iff[of m i] param_derived_iff[of m i] param_copied_iff[of m i] IsCustomCall_def)
    moreover have "opcode m i \<noteq> kCopy" "opcode m i \<noteq> kParameter" using unary by auto
    ultimately show ?thesis using init' pni opf[OF j] by (intro fl) (simp_all add: es')
  next
    case barrier
    then have "flags (ent es' i) = flags (ent es i)"
      using step barrier_flags[of m "touch es i" i es' i] by (simp add: forward_step_def)
    moreover have "\<not> const_derived m i" "\<not> param_derived m i" "\<not> param_copied m i"
      using barrier by (auto simp: const_derived_iff[of m i] param_derived_iff[of m i] param_copied_iff[of m i] IsCustomCall_def)
    ultimately show ?thesis using barrier init pni by (simp add: graph_flags_def initial_flags_def)
  next
    case copy
    then obtain j where j: "operandR m i 0 = Inr j"
      and es': "es' = (let es2 = touch (upd (touch es i) i (\<lambda>e. e\<lparr>allow_recomputation := False\<rparr>)) j in
         if parameter_number (ent es2 j) \<noteq> None \<or> parameter_copy (ent es2 j)
         then upd es2 i (\<lambda>e. e\<lparr>parameter_copy := True\<rparr>) else es2)"
      using step by (auto simp: forward_step_def forward_copy_def Let_def elim!: bindR_InrE)
    have "\<not> const_derived m i" "\<not> param_derived m i" "param_copied m i \<longleftrightarrow> opcode m j = kParameter \<or> param_copied m j"
      using copy j by (auto simp: const_derived_iff[of m i] param_derived_iff[of m i] param_copied_iff[of m i] IsCustomCall_def)
    then show ?thesis
      using copy init' pni opf[OF j] by (intro fl) (auto simp add: es' Let_def)
  next
    case custom
    show ?thesis
    proof (cases "IsCustomCall m i ''Reshard''")
      case True
      then obtain j where j: "operandR m i 0 = Inr j"
        and es': "es' = (let es2 = touch (touch es i) j;
           es3 = upd es2 i (\<lambda>e. e\<lparr>derived_parameter := derived_parameter (ent es2 j)\<rparr>) in
           if parameter_number (ent es2 j) \<noteq> None then upd es3 i (\<lambda>e. e\<lparr>parameter_copy := True\<rparr>) else es3)"
        using step custom by (auto simp: forward_step_def forward_custom_call_def Let_def elim!: bindR_InrE)
      have "\<not> const_derived m i" "param_derived m i = param_derived m j" "param_copied m i \<longleftrightarrow> opcode m j = kParameter"
        using True custom j by (auto simp: const_derived_iff[of m i] param_derived_iff[of m i] param_copied_iff[of m i])
      then show ?thesis
        using custom init' pni opf[OF j] by (intro fl) (auto simp add: es' Let_def)
    next
      case False
      then have es': "es' = touch es i" using step custom by (simp add: forward_step_def forward_custom_call_def)
      have "\<not> const_derived m i" "\<not> param_derived m i" "\<not> param_copied m i"
        using False custom by (auto simp: const_derived_iff[of m i] param_derived_iff[of m i] param_copied_iff[of m i])
      then show ?thesis using custom init' pni by (intro fl) (simp_all add: es')
    qed
  next
    case other
    then have es': "es' = touch es i" using step flat by (auto simp: forward_step_def flat_op_def)
    have "\<not> const_derived m i" "param_derived m i \<longleftrightarrow> opcode m i = kParameter" "\<not> param_copied m i"
      using other by (auto simp: const_derived_iff[of m i] param_derived_iff[of m i] param_copied_iff[of m i] IsCustomCall_def)
    then show ?thesis using other init' pni by (intro fl) (auto simp add: es')
  qed
qed

lemma barrier_dom:
  assumes "forward_barrier m es i = Inr es'" and j: "j \<in> known es"
  shows "j \<in> known es'"
proof -
  have "j \<in> known es2"
    if "foldR (\<lambda>es user. bindR (tuple_indexR m user) (\<lambda>k.
                            bindR (operandR m t k) (\<lambda>alias.
                            Inr (AddBackwardAlias es user alias)))) es us = Inr es2" for t us es2
    using that j by (rule foldR_invariant[where P = "\<lambda>es'. j \<in> known es'"])
      (auto elim!: bindR_InrE simp: AddBackwardAlias_def)
  then show ?thesis using assms unfolding forward_barrier_def by (auto split: if_splits elim!: bindR_InrE)
qed

lemma forward_step_dom:
  assumes "forward_step w rec m es i = Inr es'" and "flat_op (opcode m i)" and "j \<in> insert i (known es)"
  shows "j \<in> known es'"
  using assms barrier_dom[of m "touch es i" i es' j]
  unfolding forward_step_def Let_def forward_unary_def forward_copy_def forward_custom_call_def flat_op_def
  by (auto split: if_split_asm elim!: bindR_InrE)

definition forward_done :: "hlo_module \<Rightarrow> (iid \<Rightarrow> nat option) \<Rightarrow> iid set \<Rightarrow> entries \<Rightarrow> bool" where
  "forward_done m pn S es \<longleftrightarrow>
     (\<forall>j. flags (ent es j) = (if j \<in> S then graph_flags m pn j else initial_flags m pn j)) \<and>
     S \<subseteq> known es"

lemma forward_fold:
  assumes "topo_sorted (operands m) seen is" and "foldR (forward_step w rec m) es is = Inr es'"
    and "\<forall>i \<in> set is. flat_op (opcode m i)"
    and "\<forall>j \<in> set seen \<union> set is. pn j \<noteq> None \<longleftrightarrow> opcode m j = kParameter"
    and "forward_done m pn (set seen) es"
  shows "forward_done m pn (set seen \<union> set is) es'"
  using assms
proof (induction "is" arbitrary: seen es)
  case (Cons i "is")
  obtain es1 where step: "forward_step w rec m es i = Inr es1"
    and rest: "foldR (forward_step w rec m) es1 is = Inr es'"
    using Cons.prems(2) by (auto elim!: bindR_InrE)
  have new: "i \<notin> set seen" and ops: "\<forall>j \<in> set (operands m i). j \<in> set seen"
    and topo: "topo_sorted (operands m) (i # seen) is" using Cons.prems(1) by auto
  have flat: "flat_op (opcode m i)" using Cons.prems(3) by simp
  have D: "\<And>j. flags (ent es j) = (if j \<in> set seen then graph_flags m pn j else initial_flags m pn j)"
    "set seen \<subseteq> known es" using Cons.prems(5) by (auto simp: forward_done_def)
  have "flags (ent es1 i) = graph_flags m pn i"
    using Cons.prems(4) ops new D by (intro forward_step_self[OF step flat]) auto
  moreover have "flags (ent es1 j) = flags (ent es j)" if "j \<noteq> i" for j
    by (rule forward_step_other[OF step flat that])
  moreover have "set (i # seen) \<subseteq> known es1"
    using D(2) forward_step_dom[OF step flat] by auto
  moreover have "flags (ent es1 j) = (if j \<in> set (i # seen) then graph_flags m pn j else initial_flags m pn j)" for j
    using D(1)[of j] calculation(1) calculation(2)[of j] by (cases "j = i") simp_all
  ultimately have "forward_done m pn (set (i # seen)) es1"
    by (auto simp: forward_done_def)
  from Cons.IH[OF topo rest _ _ this] Cons.prems(3,4) show ?case by simp
qed simp

lemma param_fold:
  assumes "distinct ps"
  shows "flags (ent (foldl (\<lambda>es (k, i). upd es i (\<lambda>e. e\<lparr>derived_parameter := True, parameter_number := Some k\<rparr>)) es (enumerate n ps)) j)
    = (if j \<in> set ps then (derived_constant (ent es j), True, allow_recomputation (ent es j), parameter_copy (ent es j),
         Some (n + length (takeWhile (\<lambda>i. i \<noteq> j) ps))) else flags (ent es j))"
  using assms
proof (induction ps arbitrary: es n)
  case (Cons p ps)
  then show ?case by (cases "j = p") (auto simp: flags_def)
qed simp

definition param_index :: "hlo_module \<Rightarrow> cid \<Rightarrow> iid \<Rightarrow> nat option" where
  "param_index m c i =
     (if i \<in> set (params m c) then Some (length (takeWhile (\<lambda>j. j \<noteq> i) (params m c))) else None)"

lemma entry_flags:
  assumes "distinct (params m c)"
  shows "flags (ent (AddEntryProperties m c Map.empty) j) = initial_flags m (param_index m c) j"
proof -
  have ew: "flags (elementwise_connected_update f e) = flags e" for f e by (simp add: flags_def)
  have fold: "flags (ent (foldl (\<lambda>es operand. upd es operand (\<lambda>e. e\<lparr>elementwise_connected := Some operand\<rparr>)) es os) j)
      = flags (ent es j)" for es os
    by (induction os arbitrary: es) (simp_all add: ew del: ent_upd)
  show ?thesis
    using param_fold[OF assms, where es = Map.empty and n = 0 and j = j]
    by (simp add: AddEntryProperties_def Let_def fold ew initial_flags_def param_index_def del: ent_upd)
      (simp add: ent_def entry_default_def flags_def)
qed

lemma forward_part_flags: "forward_part e = forward_part e' \<Longrightarrow> flags e = flags e'"
  by (cases e; cases e') (simp add: forward_part_def flags_def)

definition flat_computation :: "hlo_module \<Rightarrow> cid \<Rightarrow> bool" where
  "flat_computation m c \<longleftrightarrow> wf_computation m c \<and> distinct (params m c) \<and>
     (\<forall>i \<in> set (post_order m c). flat_op (opcode m i) \<and> (opcode m i = kParameter \<longleftrightarrow> i \<in> set (params m c)))"

section \<open>Properties\<close>

text \<open>
  On a computation without calls and loops the properties are what the graph says:
  derived from a constant through reshaping operations, derived from a parameter through
  reshaping operations and reshards, a copy of a parameter, recomputable unless a copy, and
  numbered if and only if a parameter, by its position.
\<close>

theorem flat_properties_correct:
  assumes flat: "flat_computation m c" and run: "Create_computation (Suc fuel) w m c = Inr es"
    and i: "i \<in> set (post_order m c)"
  shows "DerivedConstant es i = Inr (const_derived m i) \<and> DerivedParameter es i = Inr (param_derived m i) \<and>
    ParameterCopy es i = Inr (param_copied m i) \<and> AllowRecomputation es i = Inr (opcode m i \<noteq> kCopy) \<and>
    ParameterNumber es i = Inr (param_index m c i)"
proof -
  obtain es1 where f: "AddForwardProperties (Suc fuel) w m c (AddEntryProperties m c Map.empty) = Inr es1"
    and b: "AddBackwardProperties (Suc fuel) w m False c es1 = Inr es"
    using run unfolding Create_computation_def by (elim bindR_InrE)
  have ini: "forward_done m (param_index m c) (set []) (AddEntryProperties m c Map.empty)"
    using entry_flags flat by (simp add: forward_done_def flat_computation_def)
  have "forward_done m (param_index m c) (set [] \<union> set (post_order m c)) es1"
    using flat f by (intro forward_fold[OF _ _ _ _ ini])
      (auto simp: flat_computation_def wf_computation_def param_index_def)
  then have "flags (ent es1 i) = graph_flags m (param_index m c) i" and k1: "i \<in> known es1"
    using i by (auto simp: forward_done_def)
  moreover have "keeps es1 es" by (rule AddBackwardProperties_keeps[OF b])
  ultimately have fl: "flags (ent es i) = graph_flags m (param_index m c) i" and k: "i \<in> known es"
    using forward_part_flags[of "ent es i" "ent es1 i"] by (auto simp: keeps_def)
  then show ?thesis
    by (simp add: flags_def graph_flags_def DerivedConstant_def DerivedParameter_def ParameterCopy_def
        AllowRecomputation_def ParameterNumber_def Get_known)
qed

text \<open>A parameter, its reshape, a copy of it, a constant, and a tuple of them.\<close>

definition flat_sample :: hlo_module where
  "flat_sample = sample_module
     [(0, blank_instr\<lparr>i_opcode := kParameter\<rparr>), (1, blank_instr\<lparr>i_opcode := kReshape, i_operands := [0]\<rparr>),
      (2, blank_instr\<lparr>i_opcode := kCopy, i_operands := [0]\<rparr>), (3, blank_instr),
      (4, blank_instr\<lparr>i_opcode := kTuple, i_operands := [1, 2, 3]\<rparr>)]
     [(0, blank_comp\<lparr>c_root := 4, c_post_order := [0, 1, 2, 3, 4], c_params := [0]\<rparr>)]"

lemma flat_sample_ok: "flat_computation flat_sample 0"
  by (simp add: flat_computation_def flat_sample_def wf_computation_def flat_op_def sample_simps)

lemma flat_sample_runs: "\<exists>es. Create_computation (Suc 0) w flat_sample 0 = Inr es"
  by (simp add: Create_computation_def forward_step_def forward_unary_def forward_copy_def operandR_def
      backward_step_def backward_first_def flat_sample_def sample_simps Let_def)

theorem flat_properties_correct_witness:
  "\<exists>es. Create_computation (Suc 0) 0 flat_sample 0 = Inr es \<and> DerivedParameter es 1 = Inr True \<and>
     ParameterNumber es 0 = Inr (Some 0)"
proof -
  obtain es where es: "Create_computation (Suc 0) 0 flat_sample 0 = Inr es" using flat_sample_runs by blast
  have "param_derived flat_sample 0" by (rule param_self) (simp add: flat_sample_def sample_simps)
  then have "param_derived flat_sample 1"
    by (rule param_reshaped[rotated 2]) (simp_all add: flat_sample_def sample_simps operandR_def)
  moreover have "param_index flat_sample 0 0 = Some 0"
    by (simp add: param_index_def flat_sample_def sample_simps)
  moreover have "0 \<in> set (post_order flat_sample 0)" "1 \<in> set (post_order flat_sample 0)"
    by (simp_all add: flat_sample_def sample_simps)
  ultimately show ?thesis
    using es flat_properties_correct[OF flat_sample_ok es, of 0] flat_properties_correct[OF flat_sample_ok es, of 1]
    by auto
qed

text \<open>
  The recursion into called computations ends: when calls are acyclic, fuel beyond the
  rank of a computation makes no difference to the properties of it.
\<close>

theorem create_ends:
  assumes "acyclic_calls m rk" and "rk c < fuel"
  shows "Create_computation fuel w m c = Create_computation (Suc (rk c)) w m c"
proof -
  have f: "AddForwardProperties fuel w m c = AddForwardProperties (Suc (rk c)) w m c"
    by (rule ext) (rule AddForwardProperties_fuel[OF assms lessI])
  have b: "AddBackwardProperties fuel w m False c = AddBackwardProperties (Suc (rk c)) w m False c"
    by (rule ext) (rule AddBackwardProperties_fuel[OF assms lessI])
  show ?thesis unfolding Create_computation_def f b ..
qed

theorem create_ends_witness: "Create_computation 7 0 flat_sample 0 = Create_computation 1 0 flat_sample 0"
  using create_ends[of flat_sample "\<lambda>_. 0" 0 7 0]
  by (simp add: acyclic_calls_def flat_sample_def sample_simps split: option.splits)

text \<open>
  The backward pass leaves every field alone that the forward pass computes: derivation,
  copies, aliases, parameter numbers and loop indices stay as they are, for all nestings of
  calls and loops.
\<close>

theorem backward_keeps_forward:
  assumes "AddBackwardProperties fuel w m l c es = Inr es'" and "Get es i = Inr e"
  shows "\<exists>e'. Get es' i = Inr e' \<and> forward_part e' = forward_part e"
proof -
  have k: "keeps es es'" by (rule AddBackwardProperties_keeps[OF assms(1)])
  have "i \<in> known es" and "e = ent es i"
    using assms(2) by (auto simp: Get_def known_def ent_def split: option.splits)
  then show ?thesis using k Get_known[of i es'] by (auto simp: keeps_def)
qed

theorem backward_keeps_forward_witness:
  "\<exists>es. AddBackwardProperties 1 0 flat_sample False 0 (AddDefaultProperties Map.empty 2) = Inr es \<and>
     (\<exists>e. Get es 2 = Inr e \<and> allow_recomputation e)"
proof -
  obtain es where es: "AddBackwardProperties 1 0 flat_sample False 0 (AddDefaultProperties Map.empty 2) = Inr es"
    by (simp add: backward_step_def backward_first_def operandR_def flat_sample_def sample_simps Let_def)
  have "Get (AddDefaultProperties Map.empty 2) 2 = Inr entry_default"
    by (simp add: Get_def AddDefaultProperties_def upd_def ent_def)
  from backward_keeps_forward[OF es this] obtain e where "Get es 2 = Inr e" "forward_part e = forward_part entry_default"
    by blast
  then show ?thesis using es by (cases e) (auto simp: forward_part_def entry_default_def)
qed

end
