(* ===== verification/Utils_Facts.thy ===== *)
theory Utils_Facts
  imports Mpmd_Utils
begin

text \<open>
  What the graph helpers of \<open>mpmd_utils.cc\<close> compute: the depth map against longest operand
  chains, the topological numbering, the device lists of tile assignments, and the recursions
  \<open>OperandWeight\<close> (which ends) and \<open>UnwrapCustomCall\<close> (which does not).
\<close>

section \<open>Depth\<close>

text \<open>\<open>operand_chain m i n\<close>: some chain of \<open>n\<close> steps leads from \<open>i\<close> to operands of operands.\<close>

inductive operand_chain :: "hlo_module \<Rightarrow> iid \<Rightarrow> nat \<Rightarrow> bool" for m where
  chain_stop: "operand_chain m i 0"
| chain_step: "j \<in> set (operands m i) \<Longrightarrow> operand_chain m j n \<Longrightarrow> operand_chain m i (Suc n)"

inductive_cases operand_chain_0E: "operand_chain m i 0"
inductive_cases operand_chain_SucE: "operand_chain m i (Suc n)"

definition longest_chain :: "hlo_module \<Rightarrow> iid \<Rightarrow> nat \<Rightarrow> bool" where
  "longest_chain m i d \<longleftrightarrow> operand_chain m i d \<and> (\<forall>n. operand_chain m i n \<longrightarrow> n \<le> d)"

lemma depth_operands:
  assumes "i \<notin> set js" and "\<And>j. j \<in> set js \<Longrightarrow> depth j \<noteq> None" and "depth i = Some d"
  shows "foldl (depth_operand i) depth js = depth(i \<mapsto> foldl (\<lambda>d j. max d (Suc (the (depth j)))) d js)"
  using assms
proof (induction js arbitrary: depth d)
  case (Cons j js)
  obtain dj where dj: "depth j = Some dj" using Cons.prems(2)[of j] by auto
  have ij: "i \<noteq> j" using Cons.prems(1) by auto
  let ?D = "depth(i \<mapsto> max d (Suc dj))"
  have step: "depth_operand i depth j = ?D"
    using dj ij Cons.prems(3) by (auto simp: depth_operand_def depth_at_def Let_def fun_eq_iff)
  have same: "the (?D k) = the (depth k)" if "k \<in> set js" for k
    using that Cons.prems(1) by auto
  have known: "?D k \<noteq> None" if "k \<in> set js" for k using Cons.prems(2)[of k] that by auto
  have "foldl (depth_operand i) ?D js =
      ?D(i \<mapsto> foldl (\<lambda>d j. max d (Suc (the (?D j)))) (max d (Suc dj)) js)"
    using Cons.prems(1) by (intro Cons.IH known) auto
  also have "foldl (\<lambda>d j. max d (Suc (the (?D j)))) (max d (Suc dj)) js =
      foldl (\<lambda>d j. max d (Suc (the (depth j)))) (max d (Suc dj)) js"
    by (intro foldl_cong refl) (simp only: same)
  finally show ?case by (simp only: foldl_Cons step fun_upd_upd dj option.sel)
qed (simp add: fun_upd_idem)

lemma foldl_max_mem:
  "foldl (\<lambda>d j. max d (f j)) (a :: nat) js = a \<or> (\<exists>j \<in> set js. foldl (\<lambda>d j. max d (f j)) a js = f j)"
  by (induction js arbitrary: a) (auto simp: max_def)

lemma foldl_max_ge:
  "(a :: nat) \<le> foldl (\<lambda>d j. max d (f j)) a js \<and> (\<forall>j \<in> set js. f j \<le> foldl (\<lambda>d j. max d (f j)) a js)"
proof (induction js arbitrary: a)
  case (Cons j js)
  show ?case using Cons.IH[of "max a (f j)"] by auto
qed simp

lemma longest_chain_step:
  assumes "\<And>j. j \<in> set (operands m i) \<Longrightarrow> longest_chain m j (f j)"
  shows "longest_chain m i (foldl (\<lambda>d j. max d (Suc (f j))) 0 (operands m i))" (is "longest_chain m i ?d")
  unfolding longest_chain_def
proof (intro conjI allI impI)
  show "operand_chain m i ?d"
    using foldl_max_mem[of "\<lambda>j. Suc (f j)" 0 "operands m i"]
  proof
    assume "?d = 0" then show ?thesis by (simp only:) (rule chain_stop)
  next
    assume "\<exists>j \<in> set (operands m i). ?d = Suc (f j)"
    then obtain j where "j \<in> set (operands m i)" "?d = Suc (f j)" by blast
    moreover have "operand_chain m j (f j)" if "j \<in> set (operands m i)" for j
      using assms[OF that] by (simp add: longest_chain_def)
    ultimately show ?thesis by (simp only:) (rule chain_step)
  qed
next
  fix n assume "operand_chain m i n"
  then show "n \<le> ?d"
  proof cases
    case (chain_step j k)
    have "k \<le> f j" using assms chain_step by (auto simp: longest_chain_def)
    moreover have "Suc (f j) \<le> ?d"
      using foldl_max_ge[of 0 "\<lambda>j. Suc (f j)" "operands m i"] chain_step by blast
    ultimately show ?thesis using chain_step by simp
  qed simp
qed

lemma depth_map_fold:
  assumes "topo_sorted (operands m) seen is" and "dom depth = set seen"
    and "\<And>j d. depth j = Some d \<Longrightarrow> longest_chain m j d"
  shows "dom (foldl (depth_step m) depth is) = set seen \<union> set is \<and>
    (\<forall>j d. foldl (depth_step m) depth is j = Some d \<longrightarrow> longest_chain m j d)"
  using assms
proof (induction "is" arbitrary: seen depth)
  case (Cons i "is")
  let ?js = "operands m i"
  have ops: "j \<in> set seen" if "j \<in> set ?js" for j using Cons.prems(1) that by auto
  have fresh: "i \<notin> set ?js" using ops Cons.prems(1) by auto
  have known: "(depth(i \<mapsto> 0)) j \<noteq> None" if "j \<in> set ?js" for j
    using ops[OF that] Cons.prems(2) by auto
  let ?d = "foldl (\<lambda>d j. max d (Suc (the ((depth(i \<mapsto> 0)) j)))) 0 ?js"
  have step: "depth_step m depth i = depth(i \<mapsto> ?d)"
    unfolding depth_step_def by (subst depth_operands[OF fresh known, of _ 0]) auto
  have "longest_chain m i ?d"
  proof (rule longest_chain_step)
    fix j assume j: "j \<in> set ?js"
    then show "longest_chain m j (the ((depth(i \<mapsto> 0)) j))"
      using ops[OF j] fresh Cons.prems(2,3) by (auto simp: dom_def set_eq_iff)
  qed
  then have "dom (depth_step m depth i) = set (i # seen)"
    "\<And>j d. depth_step m depth i j = Some d \<Longrightarrow> longest_chain m j d"
    using Cons.prems(2,3) by (auto simp: step split: if_splits)
  moreover have "topo_sorted (operands m) (i # seen) is" using Cons.prems(1) by simp
  ultimately show ?case using Cons.IH[of "i # seen" "depth_step m depth i"] by auto
qed auto

text \<open>A small computation: \<open>2 = f(0, 1)\<close>, \<open>3 = g(2, 0)\<close>.\<close>

definition dag_sample :: hlo_module where
  "dag_sample = sample_module
     [(0, blank_instr), (1, blank_instr), (2, blank_instr\<lparr>i_opcode := kAdd, i_operands := [0, 1]\<rparr>),
      (3, blank_instr\<lparr>i_opcode := kBroadcast, i_operands := [2, 0]\<rparr>)]
     [(0, blank_comp\<lparr>c_root := 3, c_post_order := [0, 1, 2, 3]\<rparr>)]"

text \<open>
  \<open>ComputeDepthMap\<close> assigns every instruction of a computation, and no other, the length
  of the longest chain of operands that starts at it.
\<close>

theorem depth_map_longest_chain:
  assumes "wf_computation m c"
  shows "dom (ComputeDepthMap m c) = set (post_order m c) \<and>
    (\<forall>i d. ComputeDepthMap m c i = Some d \<longrightarrow> longest_chain m i d)"
  using assms depth_map_fold[of m "[]" "post_order m c" Map.empty]
  by (simp add: wf_computation_def ComputeDepthMap_def)

theorem depth_map_longest_chain_witness: "longest_chain dag_sample 3 2"
proof -
  have "wf_computation dag_sample 0" by (simp add: wf_computation_def dag_sample_def sample_simps)
  moreover have "ComputeDepthMap dag_sample 0 3 = Some 2"
    by (simp add: ComputeDepthMap_def depth_step_def depth_operand_def depth_at_def Let_def dag_sample_def
        sample_simps)
  ultimately show ?thesis using depth_map_longest_chain[of dag_sample 0] by blast
qed

section \<open>Topological numbering\<close>

lemma foldl_enumerate_map:
  assumes "distinct xs" and "k < length xs"
  shows "foldl (\<lambda>index_map (k, i). index_map(i \<mapsto> k)) f (enumerate n xs) (xs ! k) = Some (n + k)"
  using assms
proof (induction xs arbitrary: f n k)
  case (Cons x xs)
  have other: "foldl (\<lambda>index_map (k, i). index_map(i \<mapsto> k)) g (enumerate l ys) y = g y"
    if "y \<notin> set ys" for g l y and ys :: "'a list"
    using that by (induction ys arbitrary: g l) auto
  show ?case using Cons.prems Cons.IH[of "k - 1" "f(x \<mapsto> n)" "Suc n"] other[of x xs]
    by (cases k) (auto simp del: fun_upd_apply, auto)
qed simp

lemma foldl_enumerate_dom:
  "dom (foldl (\<lambda>index_map (k, i). index_map(i \<mapsto> k)) f (enumerate n xs)) = dom f \<union> set xs"
  by (induction xs arbitrary: f n) auto

lemma topo_sorted_operand_before:
  assumes "topo_sorted ops seen xs" and "k < length xs" and "j \<in> set (ops (xs ! k))"
  shows "j \<in> set seen \<or> (\<exists>l < k. xs ! l = j)"
  using assms
proof (induction xs arbitrary: seen k)
  case (Cons x xs)
  show ?case
  proof (cases k)
    case 0
    then show ?thesis using Cons.prems by auto
  next
    case (Suc k')
    then have "j \<in> set (x # seen) \<or> (\<exists>l < k'. xs ! l = j)"
      using Cons.IH[of "x # seen" k'] Cons.prems by simp
    then show ?thesis using Suc by (auto intro: exI[of _ 0] exI[of _ "Suc _"])
  qed
qed simp

text \<open>
  The topological index map numbers the instructions of a computation one to one by
  \<open>0 .. n - 1\<close>, and an operand always has a smaller number than its user.
\<close>

theorem topological_index_correct:
  assumes "wf_computation m c"
  shows "dom (CreateTopologicalIndexMap m c) = set (post_order m c) \<and>
    inj_on (CreateTopologicalIndexMap m c) (set (post_order m c)) \<and>
    (\<forall>i k. CreateTopologicalIndexMap m c i = Some k \<longrightarrow> k < length (post_order m c) \<and>
       (\<forall>j \<in> set (operands m i). \<exists>l < k. CreateTopologicalIndexMap m c j = Some l))"
proof -
  let ?p = "post_order m c" and ?t = "CreateTopologicalIndexMap m c"
  have topo: "topo_sorted (operands m) [] ?p" using assms by (simp add: wf_computation_def)
  then have dist: "distinct ?p" using topo_sorted_distinct by blast
  have num: "?t (?p ! k) = Some k" if "k < length ?p" for k
    using foldl_enumerate_map[OF dist that, of Map.empty 0] by (simp add: CreateTopologicalIndexMap_def)
  have d: "dom ?t = set ?p" by (simp add: CreateTopologicalIndexMap_def foldl_enumerate_dom)
  have inv: "k < length ?p \<and> ?p ! k = i" if ti: "?t i = Some k" for i k
  proof -
    have "i \<in> set ?p" using ti d by auto
    then obtain l where "l < length ?p" "?p ! l = i" by (auto simp: in_set_conv_nth)
    then show ?thesis using num[of l] ti by auto
  qed
  have "inj_on ?t (set ?p)" using num by (auto simp: inj_on_def in_set_conv_nth)
  moreover have "\<exists>l < k. ?t j = Some l" if ti: "?t i = Some k" and ji: "j \<in> set (operands m i)" for i j k
  proof -
    obtain l where "l < k" "?p ! l = j"
      using topo_sorted_operand_before[OF topo, of k j] inv[OF ti] ji by auto
    then show ?thesis using num[of l] inv[OF ti] by auto
  qed
  ultimately show ?thesis using d inv by blast
qed

theorem topological_index_correct_witness:
  "\<exists>l < 3. CreateTopologicalIndexMap dag_sample 0 2 = Some l"
proof -
  have "wf_computation dag_sample 0" by (simp add: wf_computation_def dag_sample_def sample_simps)
  moreover have "CreateTopologicalIndexMap dag_sample 0 3 = Some 3"
    by (simp add: CreateTopologicalIndexMap_def dag_sample_def sample_simps)
  moreover have "2 \<in> set (operands dag_sample 3)" by (simp add: dag_sample_def sample_simps)
  ultimately show ?thesis using topological_index_correct[of dag_sample 0] by blast
qed

section \<open>Device lists\<close>

lemma contiguous_fold:
  "foldR (\<lambda>prev dev. if dev \<noteq> prev + 1 then Inl e else Inr dev) p xs =
     (if xs = map (\<lambda>k. p + 1 + int k) [0..<length xs] then Inr (p + int (length xs)) else Inl e)"
proof (induction xs arbitrary: p)
  case (Cons x xs)
  have "map (\<lambda>k. p + 1 + int k) [0..<length (x # xs)] = (p + 1) # map (\<lambda>k. p + 1 + 1 + int k) [0..<length xs]"
    by (simp add: upt_rec[of 0 "Suc (length xs)"] map_Suc_upt[symmetric] del: upt_Suc map_Suc_upt)
  then show ?case using Cons.IH[of x] by auto
qed simp

text \<open>
  The device list of a tile assignment without iota form is accepted exactly when the
  devices are the consecutive numbers from the first one on, and then lists just these devices.
\<close>

theorem tile_device_list_contiguous:
  assumes "wf_tile_assignment ta" and "ta_iota ta = None"
  shows "CreateDeviceList_tile ta =
    (if ta_array ta = map (\<lambda>k. ta_first ta + int k) [0..<length (ta_array ta)]
     then Inr (dl_create (ta_first ta) (ta_num_elements ta))
     else Inl (Unimplemented ''non-iota tile assignments not yet supported for DeviceList''))"
  using assms by (simp add: CreateDeviceList_tile_def contiguous_fold wf_tile_assignment_def Let_def)

theorem tile_device_list_contiguous_witness:
  "CreateDeviceList_tile \<lparr>ta_dims = [3], ta_iota = None, ta_array = [4, 5, 6], ta_first = 4, ta_num_elements = 3\<rparr> =
     Inr (dl_create 4 3)"
  by (subst tile_device_list_contiguous) (simp_all add: wf_tile_assignment_def upt_rec)

lemma vector_device_list_gap: "CreateDeviceList [0, 2] = Inr (dl_create 0 2)"
  by (simp add: CreateDeviceList_def upt_rec)

section \<open>Recursions\<close>

text \<open>
  \<open>UnwrapCustomCall\<close> calls itself on the same instruction, so on a custom call it never
  returns, whatever the fuel.
\<close>

theorem unwrap_custom_call_diverges:
  "UnwrapCustomCall fuel m i = (if fuel = 0 \<or> opcode m i = kCustomCall then None else Some i)"
  by (induction fuel) auto

lemma chain_bounded_by_index:
  assumes "topo_sorted ops seen xs" and "k < length xs" and "j \<in> set (ops (xs ! k))" and "j \<notin> set seen"
  obtains l where "l < k" "xs ! l = j"
  using topo_sorted_operand_before[OF assms(1-3)] assms(4) by blast

lemma OperandWeight_ends:
  assumes "topo_sorted (operands m) [] p" and "\<And>i. opcode m i = kBroadcast \<Longrightarrow> operands m i \<noteq> []"
    and "k < length p" and "k < fuel"
  shows "\<exists>j \<in> set p. opcode m j \<noteq> kBroadcast \<and>
    OperandWeight fuel elements_in m (p ! k) = Inr (elements_in (i_shape (m_instr m j)))"
  using assms(3,4)
proof (induction fuel arbitrary: k)
  case (Suc fuel)
  show ?case
  proof (cases "opcode m (p ! k) = kBroadcast")
    case True
    then obtain j js where ops: "operands m (p ! k) = j # js" using assms(2) by (cases "operands m (p ! k)") auto
    then obtain l where l: "l < k" "p ! l = j"
      using topo_sorted_operand_before[OF assms(1) Suc.prems(1), of j] by auto
    then show ?thesis using Suc.IH[of l] Suc.prems True ops by (simp add: operandR_def)
  next
    case False
    then show ?thesis using Suc.prems(1) by (intro bexI[of _ "p ! k"]) auto
  qed
qed simp

text \<open>
  \<open>OperandWeight\<close> returns for every instruction of a well-formed computation, with the
  element count of an instruction that is not a broadcast; fuel the size of the computation is
  enough.
\<close>

theorem operand_weight_returns:
  assumes "wf_computation m c" and "\<And>i. opcode m i = kBroadcast \<Longrightarrow> operands m i \<noteq> []"
    and "i \<in> set (post_order m c)"
  shows "\<exists>j \<in> set (post_order m c). opcode m j \<noteq> kBroadcast \<and>
    OperandWeight (length (post_order m c)) elements_in m i = Inr (elements_in (i_shape (m_instr m j)))"
proof -
  obtain k where k: "k < length (post_order m c)" "post_order m c ! k = i"
    using assms(3) by (auto simp: in_set_conv_nth)
  then show ?thesis
    using OperandWeight_ends[of m "post_order m c" k "length (post_order m c)" elements_in] assms(1,2)
    by (auto simp: wf_computation_def)
qed

theorem operand_weight_returns_witness:
  "\<exists>j \<in> set (post_order dag_sample 0). opcode dag_sample j \<noteq> kBroadcast \<and>
     OperandWeight (length (post_order dag_sample 0)) (\<lambda>_. 7) dag_sample 3 = Inr 7"
proof -
  have "wf_computation dag_sample 0" by (simp add: wf_computation_def dag_sample_def sample_simps)
  moreover have "operands dag_sample i \<noteq> []" if "opcode dag_sample i = kBroadcast" for i
    using that by (simp add: dag_sample_def sample_simps split: if_splits)
  moreover have "3 \<in> set (post_order dag_sample 0)" by (simp add: dag_sample_def sample_simps)
  ultimately show ?thesis using operand_weight_returns[of dag_sample 0 3 "\<lambda>_. 7"] by blast
qed

end
