(* ===== verification/Assigned_Colors.thy ===== *)
theory Assigned_Colors
  imports Hlo_Partition Instruction_Properties
begin

text \<open>
  \<open>mpmd_compute_assigned_colors.cc\<close>: the pass that gives instructions the colors their
  attributes, metadata names and explicit shardings ask for. The state is the module and the
  color registry. The recursion into while bodies runs on fuel.
\<close>

type_synonym color_state = "hlo_module \<times> hlo_partition"

definition CheckForExplicitShardingColor ::
  "entries \<Rightarrow> color_state \<Rightarrow> iid \<Rightarrow> (color option \<times> hlo_partition) statusor" where
  "CheckForExplicitShardingColor es st i =
     (let (m, p) = st in
      case sharding_of m i of
        None \<Rightarrow> Inr (None, p)
      | Some explicit_sharding \<Rightarrow>
          bindR (if IsReplicated explicit_sharding
                 then bindR (ParameterNumber es i) (\<lambda>parameter_number.
                      case parameter_number of
                        Some k \<Rightarrow> Inr (AllowOverride k (m_allow_propagation_to_parameters m))
                      | None \<Rightarrow> Inr True)
                 else Inr False) (\<lambda>unset.
          if unset then Inr (None, p)
          else bindR (if IsReplicated explicit_sharding then Inr (p_devices p)
                      else case CreateDeviceList_tile (tile_assignment_of explicit_sharding) of
                             Inl e \<Rightarrow> Inl (Fatal ''device list of an error'')
                           | Inr d \<Rightarrow> Inr d) (\<lambda>devices.
               bindR (FindColor p devices) (\<lambda>devices_color.
               case devices_color of
                 Some c \<Rightarrow> Inr (Some c, p)
               | None \<Rightarrow> let (c, p') = AllocateColor p ''sharding'' devices task_options_default in
                         Inr (Some c, p')))))"

definition check_mesh :: "color_state \<Rightarrow> iid \<Rightarrow> color \<Rightarrow> unit statusor" where
  "check_mesh st i c =
     (let (m, p) = st in
      if ShardingHasTileAssignment m i
      then bindR (DevicesForColor p c) (\<lambda>d.
           case sharding_of m i of
             None \<Rightarrow> Inr ()
           | Some s \<Rightarrow>
               if dl_size d \<noteq> ta_num_elements (tile_assignment_of s)
               then Inl (InvalidArgument (''instruction '' @ i_name (m_instr m i) @ '' was added to color '' @ c))
               else Inr ())
      else Inr ())"

definition color_if_unassigned :: "color \<Rightarrow> hlo_module \<Rightarrow> iid \<Rightarrow> hlo_module" where
  "color_if_unassigned c m i = (if IsAssignedColor m i then m else AssignColor m i c)"

definition assign_color_and_aliases :: "nat \<Rightarrow> entries \<Rightarrow> hlo_module \<Rightarrow> iid \<Rightarrow> color \<Rightarrow> hlo_module statusor" where
  "assign_color_and_aliases w es m i c =
     bindR (ForEachAlias w es i) (\<lambda>as. Inr (foldl (color_if_unassigned c) (AssignColor m i c) as))"

definition finish_instruction ::
  "(cid \<Rightarrow> color_state \<Rightarrow> color_state statusor) \<Rightarrow> nat \<Rightarrow> entries \<Rightarrow> color_state \<Rightarrow> iid \<Rightarrow> color option
     \<Rightarrow> color_state statusor" where
  "finish_instruction visit w es st i c =
     (let (m, p) = st in
      bindR (case c of None \<Rightarrow> Inr m | Some c \<Rightarrow> assign_color_and_aliases w es m i c) (\<lambda>m'.
      if opcode m' i = kWhile then bindR (calledR m' i) (\<lambda>body. visit body (m', p)) else Inr (m', p)))"

definition assigned_step ::
  "(cid \<Rightarrow> color_state \<Rightarrow> color_state statusor) \<Rightarrow> nat \<Rightarrow> metadata_tasks \<Rightarrow> entries \<Rightarrow> cid
     \<Rightarrow> color_state \<Rightarrow> iid \<Rightarrow> color_state statusor" where
  "assigned_step visit w mt es c st i =
     (let (m, p) = st in
      if i = root m c \<and> opcode m i = kTuple then Inr (m, p)
      else case Color m i of
        Some col \<Rightarrow>
          if \<not> HasColor p col
          then Inl (InvalidArgument (''color '' @ col @ '' has not been assigned a device mesh''))
          else bindR (check_mesh (m, p) i col) (\<lambda>_. finish_instruction visit w es (m, p) i (Some col))
      | None \<Rightarrow>
          if opcode m i = kTuple then Inr (ColorTuple m i, p)
          else bindR (ComputeMetadataNameColor mt p (i_op_name (m_instr m i))) (\<lambda>(col, p).
               case col of
                 Some col \<Rightarrow>
                   bindR (check_mesh (m, p) i col) (\<lambda>_. finish_instruction visit w es (m, p) i (Some col))
               | None \<Rightarrow>
                   bindR (CheckForExplicitShardingColor es (m, p) i) (\<lambda>(col, p).
                   finish_instruction visit w es (m, p) i col)))"

fun ComputeAssignedColors ::
  "nat \<Rightarrow> nat \<Rightarrow> metadata_tasks \<Rightarrow> entries \<Rightarrow> cid \<Rightarrow> color_state \<Rightarrow> color_state statusor" where
  "ComputeAssignedColors 0 w mt es c st = Inl out_of_fuel"
| "ComputeAssignedColors (Suc fuel) w mt es c st =
     foldR (assigned_step (ComputeAssignedColors fuel w mt es) w mt es c) st (post_order (fst st) c)"

definition MpmdComputeAssignedColors_Run :: "nat \<Rightarrow> nat \<Rightarrow> metadata_tasks \<Rightarrow> color_state \<Rightarrow> (bool \<times> color_state) statusor" where
  "MpmdComputeAssignedColors_Run fuel w mt st =
     bindR (Create_module fuel w (fst st)) (\<lambda>properties.
     bindR (ComputeAssignedColors fuel w mt properties (m_entry (fst st)) st) (\<lambda>st'.
     Inr (True, st')))"

section \<open>What the pass may change\<close>

text \<open>
  A state extends another one when colors are only added, to instructions and to the registry,
  colors new on anything but a tuple are registered, and the rest of the module is the same.
\<close>

definition extends_colors :: "color_state \<Rightarrow> color_state \<Rightarrow> bool" where
  "extends_colors st st' \<longleftrightarrow>
     Color (fst st) \<subseteq>\<^sub>m Color (fst st') \<and> same_graph (fst st) (fst st') \<and>
     sharding_of (fst st') = sharding_of (fst st) \<and>
     (\<forall>i c. opcode (fst st) i \<noteq> kTuple \<longrightarrow> Color (fst st) i = None \<longrightarrow> Color (fst st') i = Some c \<longrightarrow>
        HasColor (snd st') c) \<and>
     color_devices (snd st) \<subseteq>\<^sub>m color_devices (snd st') \<and>
     (\<forall>n. reserved_name (snd st') n \<longrightarrow> reserved_name (snd st) n)"



lemma extends_colors_refl [simp, intro]: "extends_colors st st"
  by (simp add: extends_colors_def)







section \<open>The registry under the two sources of colors\<close>














section \<open>The pass\<close>













end
