(* ===== verification/Mpmd_Coloring.thy ===== *)
theory Mpmd_Coloring
  imports Assigned_Colors "HOL-Library.AList"
begin

text \<open>
  \<open>mpmd_coloring.cc\<close>: colors spread from the instructions that have one to the rest of the
  module. A filter is the set of instructions it accepts, as a predicate. \<open>walk\<close> is the order in which a
  hash map is iterated and \<open>ByteSizeOf\<close> the size in bytes of a shape; both are parameters, as
  are the passes of the pipeline that rewrite the graph. Loops over a worklist, rounds until
  nothing changes, and nested loops run on fuel. Numbers are unbounded; \<open>int64_max\<close> is the
  value that stands for a missing entry.
\<close>

definition int64_max :: int where
  "int64_max = 2 ^ 63 - 1"

datatype priority = kWeight | kDepth | kTopological

definition GetColorPropagationPriorityFromString :: "string \<Rightarrow> priority" where
  "GetColorPropagationPriorityFromString s =
     (if s = ''WEIGHT'' then kWeight else if s = ''DEPTH'' then kDepth
      else if s = ''TOPOLOGICAL'' then kTopological else kWeight)"

definition value_or :: "('k \<rightharpoonup> 'v) \<Rightarrow> 'k \<Rightarrow> 'v \<Rightarrow> 'v" where
  "value_or m k v = (case m k of None \<Rightarrow> v | Some x \<Rightarrow> x)"

section \<open>Backward coloring\<close>

text \<open>The instructions pushed for \<open>i\<close>, in the order they are pushed.\<close>

definition add_visits :: "nat \<Rightarrow> hlo_module \<Rightarrow> entries \<Rightarrow> iid \<Rightarrow> iid list statusor" where
  "add_visits w m es i =
     (let ops = filter (\<lambda>operand. opcode m operand \<noteq> kParameter \<or> \<not> IsTuple m operand) (operands m i) in
      bindR (ForEachBackwardAlias w es i) (\<lambda>as. Inr (ops @ as)))"

text \<open>The back of the vector \<open>to_visit\<close> is the head of the list.\<close>

fun color_backwards_loop ::
  "nat \<Rightarrow> nat \<Rightarrow> color \<Rightarrow> iid \<Rightarrow> entries \<Rightarrow> hlo_module \<Rightarrow> iid list \<Rightarrow> hlo_module statusor" where
  "color_backwards_loop fuel w c instruction es m [] = Inr m"
| "color_backwards_loop 0 w c instruction es m (x # to_visit) = Inl out_of_fuel"
| "color_backwards_loop (Suc fuel) w c instruction es m (x # to_visit) =
     (if IsCustomCall m instruction kCustomCallSliceOffset
      then color_backwards_loop fuel w c instruction es m to_visit
      else bindR (DerivedConstant es x) (\<lambda>dc.
        if dc then color_backwards_loop fuel w c instruction es m to_visit
        else if \<not> IsAssignedColor m x
        then let m = AssignColor m x c in
             bindR (add_visits w m es x) (\<lambda>more.
             color_backwards_loop fuel w c instruction es m (rev more @ to_visit))
        else color_backwards_loop fuel w c instruction es m to_visit))"

definition ColorBackwards :: "nat \<Rightarrow> nat \<Rightarrow> color \<Rightarrow> iid \<Rightarrow> entries \<Rightarrow> hlo_module \<Rightarrow> hlo_module statusor" where
  "ColorBackwards fuel w c instruction es m =
     (if \<not> IsAssignedColor m instruction
      then Inl (Fatal ''was not assigned color before coloring backward'')
      else bindR (add_visits w m es instruction) (\<lambda>more.
           color_backwards_loop fuel w c instruction es m (rev more)))"

section \<open>Colors by depth\<close>

definition color_depth_step ::
  "(iid \<rightharpoonup> nat) \<Rightarrow> hlo_module \<Rightarrow> (color \<times> nat) list \<Rightarrow> iid \<Rightarrow> (color \<times> nat) list statusor" where
  "color_depth_step depth m color_depth i =
     (case Color m i of
        None \<Rightarrow> Inr color_depth
      | Some c \<Rightarrow>
          (case depth i of
             None \<Rightarrow> Inl (Throws ''out_of_range'')
           | Some d \<Rightarrow> Inr (AList.update c (max (value_or (map_of color_depth) c 0) d) color_depth)))"

text \<open>Assignment into a \<open>btree_map\<close>, kept as the sorted list of its entries.\<close>

fun btree_set :: "nat \<Rightarrow> 'v \<Rightarrow> (nat \<times> 'v) list \<Rightarrow> (nat \<times> 'v) list" where
  "btree_set k v [] = [(k, v)]"
| "btree_set k v ((k', v') # rest) =
     (if k < k' then (k, v) # (k', v') # rest
      else if k = k' then (k, v) # rest
      else (k', v') # btree_set k v rest)"

definition ComputeColorDepthMap ::
  "((color \<times> nat) list \<Rightarrow> (color \<times> nat) list) \<Rightarrow> hlo_module \<Rightarrow> cid \<Rightarrow> (iid \<rightharpoonup> nat) \<Rightarrow> (nat \<times> color) list statusor" where
  "ComputeColorDepthMap walk m c depth =
     bindR (foldR (color_depth_step depth m) [] (post_order m c)) (\<lambda>color_depth.
     Inr (foldl (\<lambda>depth_to_color (color, d). btree_set d color depth_to_color) [] (walk color_depth)))"

section \<open>Propagation along one direction\<close>

definition recolor_alias :: "color \<Rightarrow> iid list \<Rightarrow> hlo_module \<Rightarrow> iid \<Rightarrow> hlo_module" where
  "recolor_alias c fixed m i =
     (if \<not> IsAssignedColor m i \<or> i \<notin> set fixed then AssignColor m i c else m)"

definition related_step ::
  "nat \<Rightarrow> entries \<Rightarrow> color \<Rightarrow> (iid \<Rightarrow> bool) \<Rightarrow> iid list \<Rightarrow> hlo_module \<times> bool \<Rightarrow> iid \<Rightarrow> (hlo_module \<times> bool) statusor" where
  "related_step w es c if_visit fixed st related =
     (let (m, changed) = st in
      bindR (if if_visit related \<and> related \<notin> set fixed
             then bindR (ForEachAlias w es related) (\<lambda>as.
                  Inr (foldl (recolor_alias c fixed) (AssignColor m related c) as, True))
             else Inr (m, changed)) (\<lambda>(m, changed).
      Inr (if opcode m related = kTuple then ColorTuple m related else m, changed)))"

definition process_instruction ::
  "nat \<Rightarrow> entries \<Rightarrow> color \<Rightarrow> (iid \<Rightarrow> bool) \<Rightarrow> iid list \<Rightarrow> (hlo_module \<Rightarrow> iid \<Rightarrow> iid list)
     \<Rightarrow> hlo_module \<times> bool \<Rightarrow> iid \<Rightarrow> (hlo_module \<times> bool) statusor" where
  "process_instruction w es c if_visit fixed related_of st i =
     (let (m, changed) = st in
      if ColorOrDefault m i = c
      then foldR (related_step w es c if_visit fixed) (m, changed) (related_of m i)
      else Inr (m, changed))"

definition PropagateDirectionally ::
  "nat \<Rightarrow> hlo_module \<Rightarrow> iid list \<Rightarrow> color \<Rightarrow> entries \<Rightarrow> (iid \<Rightarrow> bool) \<Rightarrow> iid list \<Rightarrow> bool \<Rightarrow> (hlo_module \<times> bool) statusor" where
  "PropagateDirectionally w m postorder c es if_visit fixed propagate_forward =
     (if propagate_forward
      then foldR (process_instruction w es c if_visit fixed users) (m, False) postorder
      else foldR (process_instruction w es c if_visit fixed operands) (m, False) (rev postorder))"

section \<open>The best color among users and operands\<close>

record tally =
  t_weights :: "color \<rightharpoonup> int"
  t_depths :: "color \<rightharpoonup> int"
  t_topos :: "color \<rightharpoonup> int"
  t_best :: "color option"
  t_max_weight :: int
  t_max_depth :: int
  t_max_topo :: int

definition tally_init :: tally where
  "tally_init = \<lparr>t_weights = Map.empty, t_depths = Map.empty, t_topos = Map.empty, t_best = None,
     t_max_weight = 0, t_max_depth = int64_max, t_max_topo = int64_max\<rparr>"

text \<open>\<open>update_max_color\<close>, apart from the test for a first color.\<close>

fun better :: "priority \<Rightarrow> int \<Rightarrow> int \<Rightarrow> int \<Rightarrow> int \<Rightarrow> int \<Rightarrow> int \<Rightarrow> bool" where
  "better kWeight w d t mw md mt =
     (w > mw \<or> (w = mw \<and> (d < md \<or> (d = md \<and> t < mt))))"
| "better kDepth w d t mw md mt =
     (d < md \<or> (d = md \<and> (w > mw \<or> (w = mw \<and> t < mt))))"
| "better kTopological w d t mw md mt = (t < mt)"

definition tally_color :: "priority \<Rightarrow> color \<Rightarrow> int \<Rightarrow> int \<Rightarrow> int \<Rightarrow> tally \<Rightarrow> tally" where
  "tally_color prio c weight depth_diff topo_diff t =
     (let w = value_or (t_weights t) c 0 + weight;
          d = min (value_or (t_depths t) c int64_max) depth_diff;
          tp = min (value_or (t_topos t) c int64_max) topo_diff;
          t = t\<lparr>t_weights := (t_weights t)(c \<mapsto> w), t_depths := (t_depths t)(c \<mapsto> d), t_topos := (t_topos t)(c \<mapsto> tp)\<rparr> in
      if t_best t = None \<or> better prio w d tp (t_max_weight t) (t_max_depth t) (t_max_topo t)
      then t\<lparr>t_best := Some c, t_max_weight := w, t_max_depth := d, t_max_topo := tp\<rparr> else t)"

definition index_or_max :: "(iid \<rightharpoonup> nat) \<Rightarrow> iid \<Rightarrow> int" where
  "index_or_max index i = (case index i of None \<Rightarrow> int64_max | Some k \<Rightarrow> int k)"

text \<open>The instruction whose color counts for a neighbour: the operand of a broadcast.\<close>

definition weighed :: "hlo_module \<Rightarrow> iid \<Rightarrow> iid statusor" where
  "weighed m i = (if opcode m i = kBroadcast then operandR m i 0 else Inr i)"

definition add_user_or_operand ::
  "(shape \<Rightarrow> int) \<Rightarrow> priority \<Rightarrow> (iid \<Rightarrow> bool) \<Rightarrow> (iid \<rightharpoonup> nat) \<Rightarrow> (iid \<rightharpoonup> nat) \<Rightarrow> hlo_module \<Rightarrow> iid
     \<Rightarrow> tally \<Rightarrow> iid \<Rightarrow> tally statusor" where
  "add_user_or_operand ByteSizeOf prio if_visit depth topo m instruction t i =
     (if if_visit i
      then bindR (weighed m i) (\<lambda>i.
        case Color m i of
          None \<Rightarrow> Inr t
        | Some c \<Rightarrow> Inr (tally_color prio c (ByteSizeOf (i_shape (m_instr m i)))
            \<bar>index_or_max depth i - index_or_max depth instruction\<bar>
            \<bar>index_or_max topo i - index_or_max topo instruction\<bar> t))
      else Inr t)"

definition PropagateFromUsersAndOperands ::
  "nat \<Rightarrow> (shape \<Rightarrow> int) \<Rightarrow> priority \<Rightarrow> hlo_module \<Rightarrow> iid \<Rightarrow> entries \<Rightarrow> (iid \<Rightarrow> bool) \<Rightarrow> (iid \<rightharpoonup> nat) \<Rightarrow> (iid \<rightharpoonup> nat)
     \<Rightarrow> (hlo_module \<times> bool) statusor" where
  "PropagateFromUsersAndOperands w ByteSizeOf prio m instruction es if_visit depth topo =
     bindR (Operands w m es instruction) (\<lambda>ops.
     bindR (foldR (add_user_or_operand ByteSizeOf prio if_visit depth topo m instruction) tally_init ops) (\<lambda>t.
     bindR (Users w m es instruction) (\<lambda>us.
     bindR (foldR (add_user_or_operand ByteSizeOf prio if_visit depth topo m instruction) t us) (\<lambda>t.
     case t_best t of
       None \<Rightarrow> Inr (m, False)
     | Some c \<Rightarrow> bindR (assign_color_and_aliases w es m instruction c) (\<lambda>m. Inr (m, True))))))"

section \<open>Rounds of propagation\<close>

definition propagate_visit ::
  "(cid \<Rightarrow> hlo_module \<Rightarrow> (hlo_module \<times> bool) statusor) \<Rightarrow> nat \<Rightarrow> (shape \<Rightarrow> int) \<Rightarrow> priority \<Rightarrow> entries \<Rightarrow> (iid \<Rightarrow> bool)
     \<Rightarrow> (iid \<rightharpoonup> nat) \<Rightarrow> (iid \<rightharpoonup> nat) \<Rightarrow> hlo_module \<times> bool \<Rightarrow> iid \<Rightarrow> (hlo_module \<times> bool) statusor" where
  "propagate_visit nested w ByteSizeOf prio es if_visit depth topo st i =
     (let (m, propagated) = st in
      if opcode m i = kTuple then Inr (ColorTuple m i, propagated)
      else bindR (if if_visit i \<and> \<not> IsAssignedColor m i
                  then bindR (PropagateFromUsersAndOperands w ByteSizeOf prio m i es if_visit depth topo) (\<lambda>(m, b).
                       Inr (m, propagated \<or> b))
                  else Inr (m, propagated)) (\<lambda>(m, propagated).
           if opcode m i = kWhile
           then bindR (calledR m i) (\<lambda>body. bindR (nested body m) (\<lambda>(m, b). Inr (m, propagated \<or> b)))
           else Inr (m, propagated)))"

fun propagate_rounds ::
  "nat \<Rightarrow> (hlo_module \<times> bool \<Rightarrow> iid \<Rightarrow> (hlo_module \<times> bool) statusor) \<Rightarrow> iid list \<Rightarrow> hlo_module \<Rightarrow> bool
     \<Rightarrow> (hlo_module \<times> bool) statusor" where
  "propagate_rounds 0 visit postorder m changed = Inl out_of_fuel"
| "propagate_rounds (Suc rounds) visit postorder m changed =
     bindR (foldR visit (m, False) postorder) (\<lambda>(m, propagated).
     if propagated then propagate_rounds rounds visit postorder m True else Inr (m, changed))"

fun PropagateIf ::
  "nat \<Rightarrow> nat \<Rightarrow> nat \<Rightarrow> (shape \<Rightarrow> int) \<Rightarrow> priority \<Rightarrow> entries \<Rightarrow> (iid \<Rightarrow> bool) \<Rightarrow> cid \<Rightarrow> hlo_module
     \<Rightarrow> (hlo_module \<times> bool) statusor" where
  "PropagateIf 0 rounds w ByteSizeOf prio es if_visit c m = Inl out_of_fuel"
| "PropagateIf (Suc nesting) rounds w ByteSizeOf prio es if_visit c m =
     (let depth = ComputeDepthMap m c; topo = CreateTopologicalIndexMap m c in
      propagate_rounds rounds
        (propagate_visit (PropagateIf nesting rounds w ByteSizeOf prio es if_visit) w ByteSizeOf prio es if_visit depth topo)
        (post_order m c) m False)"

section \<open>Loop colors by depth\<close>

definition color_unassigned_aliases :: "color \<Rightarrow> hlo_module \<times> bool \<Rightarrow> iid \<Rightarrow> hlo_module \<times> bool" where
  "color_unassigned_aliases c st i =
     (let (m, changed) = st in if IsAssignedColor m i then (m, changed) else (AssignColor m i c, True))"

text \<open>One instruction of a preprocessing pass: \<open>st\<close> is the module, whether it changed, and the fixed instructions.\<close>

definition fix_colored ::
  "nat \<Rightarrow> entries \<Rightarrow> hlo_module \<times> bool \<times> iid list \<Rightarrow> iid \<Rightarrow> (hlo_module \<times> bool \<times> iid list) statusor" where
  "fix_colored w es st i =
     (let (m, changed, fixed) = st in
      case Color m i of
        None \<Rightarrow> Inr (m, changed, fixed)
      | Some c \<Rightarrow>
          bindR (ForEachAlias w es i) (\<lambda>as.
          let (m, changed) = foldl (color_unassigned_aliases c) (m, changed) as in
          Inr (m, changed, fixed @ [i])))"

definition fix_colored_outer ::
  "nat \<Rightarrow> entries \<Rightarrow> (hlo_module \<times> bool \<times> iid list) \<times> cid option \<Rightarrow> iid
     \<Rightarrow> ((hlo_module \<times> bool \<times> iid list) \<times> cid option) statusor" where
  "fix_colored_outer w es st i =
     (let (fst_st, while_computation) = st in
      bindR (fix_colored w es fst_st i) (\<lambda>fst_st.
      if opcode (fst fst_st) i = kWhile
      then bindR (calledR (fst fst_st) i) (\<lambda>c. Inr (fst_st, Some c))
      else Inr (fst_st, while_computation)))"

definition propagate_colors ::
  "nat \<Rightarrow> entries \<Rightarrow> (iid \<Rightarrow> bool) \<Rightarrow> iid list \<Rightarrow> iid list \<Rightarrow> bool \<Rightarrow> hlo_module \<times> bool \<Rightarrow> nat \<times> color
     \<Rightarrow> (hlo_module \<times> bool) statusor" where
  "propagate_colors w es if_visit fixed while_postorder propagate_forward st depth_and_color =
     (let (m, changed) = st in
      bindR (PropagateDirectionally w m while_postorder (snd depth_and_color) es if_visit fixed propagate_forward) (\<lambda>(m, b).
      Inr (m, changed \<or> b)))"

definition PropagateLoopColorDepth ::
  "nat \<Rightarrow> ((color \<times> nat) list \<Rightarrow> (color \<times> nat) list) \<Rightarrow> hlo_module \<Rightarrow> cid \<Rightarrow> entries \<Rightarrow> (iid \<Rightarrow> bool)
     \<Rightarrow> (hlo_module \<times> bool) statusor" where
  "PropagateLoopColorDepth w walk m c es if_visit =
     bindR (foldR (fix_colored_outer w es) ((m, False, []), None) (post_order m c)) (\<lambda>((m, changed, fixed), while_computation).
     case while_computation of
       None \<Rightarrow> Inr (m, changed)
     | Some wc \<Rightarrow>
         let while_postorder = post_order m wc in
         bindR (foldR (fix_colored w es) (m, changed, fixed) while_postorder) (\<lambda>(m, _, fixed).
         let loop_depth = ComputeDepthMap m wc in
         bindR (ComputeColorDepthMap walk m wc loop_depth) (\<lambda>depth_to_colors.
         bindR (foldR (propagate_colors w es if_visit fixed while_postorder True) (m, changed) depth_to_colors) (\<lambda>st.
         foldR (propagate_colors w es if_visit fixed while_postorder False) st (rev depth_to_colors)))))"

section \<open>The pass\<close>

definition color_root ::
  "nat \<Rightarrow> nat \<Rightarrow> (device_list \<Rightarrow> int) \<Rightarrow> entries \<Rightarrow> color_state \<Rightarrow> iid \<Rightarrow> color_state statusor" where
  "color_root fuel w stop es st i =
     (let (m, p) = st in
      if \<not> IsAssignedColor m i
      then bindR (FindOrAllocateGlobalColor stop p) (\<lambda>(c, p).
           let m = AssignColor m i c in
           bindR (ColorBackwards fuel w c i es m) (\<lambda>m. Inr (m, p)))
      else Inr (m, p))"

definition color_roots ::
  "nat \<Rightarrow> nat \<Rightarrow> (device_list \<Rightarrow> int) \<Rightarrow> entries \<Rightarrow> color_state \<Rightarrow> color_state statusor" where
  "color_roots fuel w stop es st =
     (let m = fst st; r = root m (m_entry m) in
      if IsTuple m r then foldR (color_root fuel w stop es) st (operands m r)
      else color_root fuel w stop es st r)"

record coloring_env =
  ce_ByteSizeOf :: "shape \<Rightarrow> int"
  ce_ElementsIn :: "shape \<Rightarrow> int"
  ce_IsElementwise :: "hlo_module \<Rightarrow> iid \<Rightarrow> bool"
  ce_stop :: "device_list \<Rightarrow> int"
  ce_walk :: "(color \<times> nat) list \<Rightarrow> (color \<times> nat) list"
  ce_inline_explicit_tasks :: "color_state \<Rightarrow> color_state statusor"
  ce_insert_root_tuple_shardings :: "color_state \<Rightarrow> color_state statusor"
  ce_unpack_optimization_barrier :: "hlo_module \<Rightarrow> hlo_module statusor"
  ce_repack_optimization_barrier :: "hlo_module \<Rightarrow> hlo_module statusor"

definition visit_loop_colors :: "hlo_module \<Rightarrow> iid \<Rightarrow> bool" where
  "visit_loop_colors m i = (opcode m i \<noteq> kConstant \<and> (\<not> IsTuple m i \<or> opcode m i = kRngBitGenerator))"

definition visit_elementwise :: "coloring_env \<Rightarrow> hlo_module \<Rightarrow> iid \<Rightarrow> bool" where
  "visit_elementwise E m i = (opcode m i \<noteq> kConstant \<and> \<not> IsTuple m i \<and>
     (ce_IsElementwise E m i \<or> opcode m i = kParameter \<or> opcode m i = kReduce))"

definition visit_nontrivial :: "coloring_env \<Rightarrow> hlo_module \<Rightarrow> iid \<Rightarrow> bool" where
  "visit_nontrivial E m i = (opcode m i \<noteq> kConstant \<and> \<not> IsTuple m i \<and> ce_ElementsIn E (i_shape (m_instr m i)) > 1)"

definition visit_any :: "hlo_module \<Rightarrow> iid \<Rightarrow> bool" where
  "visit_any m i = (opcode m i \<noteq> kConstant \<and> (opcode m i = kRngBitGenerator \<or> \<not> IsTuple m i))"

text \<open>The propagation proper, between the two pipelines.\<close>

definition color_module ::
  "nat \<Rightarrow> nat \<Rightarrow> nat \<Rightarrow> coloring_env \<Rightarrow> priority \<Rightarrow> color_state \<Rightarrow> color_state statusor" where
  "color_module fuel rounds w E prio st =
     (let (m, p) = st; c = m_entry m in
      bindR (Create_module fuel w m) (\<lambda>properties.
      bindR (PropagateLoopColorDepth w (ce_walk E) m c properties (visit_loop_colors m)) (\<lambda>(m, _).
      bindR (PropagateIf fuel rounds w (ce_ByteSizeOf E) prio properties (visit_elementwise E m) c m) (\<lambda>(m, _).
      bindR (PropagateIf fuel rounds w (ce_ByteSizeOf E) prio properties (visit_nontrivial E m) c m) (\<lambda>(m, _).
      bindR (PropagateIf fuel rounds w (ce_ByteSizeOf E) prio properties (visit_any m) c m) (\<lambda>(m, _).
      color_roots fuel w (ce_stop E) properties (m, p)))))))"

definition MpmdColoring_Run ::
  "nat \<Rightarrow> nat \<Rightarrow> nat \<Rightarrow> coloring_env \<Rightarrow> priority \<Rightarrow> metadata_tasks \<Rightarrow> color_state \<Rightarrow> (bool \<times> color_state) statusor" where
  "MpmdColoring_Run fuel rounds w E prio mt st =
     bindR (ce_inline_explicit_tasks E st) (\<lambda>st.
     bindR (ce_insert_root_tuple_shardings E st) (\<lambda>st.
     bindR (MpmdComputeAssignedColors_Run fuel w mt st) (\<lambda>(_, (m, p)).
     bindR (ce_unpack_optimization_barrier E m) (\<lambda>m.
     bindR (color_module fuel rounds w E prio (m, p)) (\<lambda>(m, p).
     bindR (ce_repack_optimization_barrier E m) (\<lambda>m.
     Inr (True, (m, p))))))))"

end
