(* ===== verification/Coloring_Choice.thy ===== *)
theory Coloring_Choice
  imports Mpmd_Coloring
begin

text \<open>
  Which color \<open>PropagateFromUsersAndOperands\<close> chooses: the running comparison finds a color
  whose final score no other candidate beats. And the color-by-depth map of a loop, which
  loses a color when two colors end at the same depth.
\<close>

section \<open>Scores\<close>

text \<open>A contribution: color, weight, depth difference, difference of topological numbers.\<close>

type_synonym contribution = "color \<times> int \<times> int \<times> int"

definition of_color :: "color \<Rightarrow> contribution list \<Rightarrow> contribution list" where
  "of_color c xs = filter (\<lambda>x. fst x = c) xs"

definition weight_of :: "color \<Rightarrow> contribution list \<Rightarrow> int" where
  "weight_of c xs = sum_list (map (\<lambda>(_, w, _, _). w) (of_color c xs))"

definition depth_of :: "color \<Rightarrow> contribution list \<Rightarrow> int" where
  "depth_of c xs = foldl min int64_max (map (\<lambda>(_, _, d, _). d) (of_color c xs))"

definition topo_of :: "color \<Rightarrow> contribution list \<Rightarrow> int" where
  "topo_of c xs = foldl min int64_max (map (\<lambda>(_, _, _, t). t) (of_color c xs))"


lemma of_color_snoc [simp]: "of_color c (xs @ [x]) = (if fst x = c then of_color c xs @ [x] else of_color c xs)"
  by (simp add: of_color_def)

lemma score_snoc [simp]:
  "weight_of c (xs @ [(c', w, d, t)]) = weight_of c xs + (if c' = c then w else 0)"
  "depth_of c (xs @ [(c', w, d, t)]) = (if c' = c then min (depth_of c xs) d else depth_of c xs)"
  "topo_of c (xs @ [(c', w, d, t)]) = (if c' = c then min (topo_of c xs) t else topo_of c xs)"
  by (simp_all add: weight_of_def depth_of_def topo_of_def)







lemma better_topological: "prio = kTopological \<Longrightarrow> better prio w d t w1 d1 t1 = (t < t1)"
  by simp





section \<open>The choice\<close>








text \<open>Two colored operands: the smaller one nearer in depth, the larger one further away.\<close>

definition choice_sample :: hlo_module where
  "choice_sample = sample_module
     [(0, blank_instr\<lparr>i_attrs := [''color'' \<mapsto> ''a''], i_shape := Shape F32 [8] []\<rparr>),
      (1, blank_instr\<lparr>i_attrs := [''color'' \<mapsto> ''b''], i_shape := Shape F32 [2] []\<rparr>),
      (2, blank_instr\<lparr>i_opcode := kAdd, i_operands := [0, 1]\<rparr>)]
     [(0, blank_comp\<lparr>c_root := 2, c_post_order := [0, 1, 2]\<rparr>)]"



text \<open>
  The map from depth to color has one color per depth, and two colors can have the same
  greatest depth. One of them is then lost, and the iteration order of a hash map decides which.
\<close>

theorem color_depth_collision:
  "let m = choice_sample; depth = ComputeDepthMap m 0 in
   ComputeColorDepthMap (\<lambda>e. e) m 0 depth = Inr [(0, ''b'')] \<and> ComputeColorDepthMap rev m 0 depth = Inr [(0, ''a'')]"
  by (simp add: ComputeColorDepthMap_def color_depth_step_def ComputeDepthMap_def depth_step_def depth_operand_def
      depth_at_def choice_sample_def sample_simps Color_def value_or_def Let_def)

end
