(* ===== verification/Coloring_Rounds.thy ===== *)
theory Coloring_Rounds
  imports Mpmd_Coloring
begin

text \<open>
  \<open>PropagateIf\<close> ends, colors are only ever added on the way (tuples apart), and it stops where
  nothing is left to do: an instruction the filter accepts that still has no color has no
  colored neighbour the filter accepts, in the computation and in every while body below it.
\<close>

section \<open>Growth of colors\<close>

definition colors_grow :: "hlo_module \<Rightarrow> hlo_module \<Rightarrow> bool" where
  "colors_grow m m' \<longleftrightarrow> same_graph m m' \<and>
     (\<forall>i. Color m i \<noteq> None \<longrightarrow> Color m' i \<noteq> None \<and> (opcode m i \<noteq> kTuple \<longrightarrow> Color m' i = Color m i))"

lemma colors_grow_refl [simp, intro]: "colors_grow m m"
  by (simp add: colors_grow_def)

lemma colors_grow_trans [trans]: "colors_grow a b \<Longrightarrow> colors_grow b c \<Longrightarrow> colors_grow a c"
  using same_graphD(1) unfolding colors_grow_def by (metis same_graph_trans)

lemma AssignColor_grow: "Color m i = None \<Longrightarrow> colors_grow m (AssignColor m i c)"
  by (auto simp: colors_grow_def colors.put_frame)

lemma ColorTuple_grow: "opcode m i = kTuple \<Longrightarrow> colors_grow m (ColorTuple m i)"
  by (auto simp: colors_grow_def ColorTuple_def colors.put_frame split: option.splits)

lemma color_aliases_grow: "colors_grow m (foldl (color_if_unassigned c) m as)"
proof (induction as arbitrary: m)
  case (Cons a as)
  have "colors_grow m (color_if_unassigned c m a)"
    by (simp add: color_if_unassigned_def IsAssignedColor_iff AssignColor_grow)
  then show ?case using Cons.IH[of "color_if_unassigned c m a"] colors_grow_trans by auto
qed simp

lemma assign_color_and_aliases_grow:
  assumes "assign_color_and_aliases w es m i c = Inr m'" and "Color m i = None"
  shows "colors_grow m m'" and "Color m' i \<noteq> None"
proof -
  obtain as where m': "m' = foldl (color_if_unassigned c) (AssignColor m i c) as"
    using assms(1) by (auto simp: assign_color_and_aliases_def elim!: bindR_InrE)
  have g: "colors_grow (AssignColor m i c) m'" unfolding m' by (rule color_aliases_grow)
  show "colors_grow m m'" using AssignColor_grow[OF assms(2)] g by (rule colors_grow_trans)
  have "Color (AssignColor m i c) i \<noteq> None" by simp
  then show "Color m' i \<noteq> None" using g unfolding colors_grow_def by blast
qed

text \<open>Modules that agree on the colors of everything but tuples.\<close>

definition same_colors :: "hlo_module \<Rightarrow> hlo_module \<Rightarrow> bool" where
  "same_colors m m' \<longleftrightarrow> same_graph m m' \<and> (\<forall>i. opcode m i \<noteq> kTuple \<longrightarrow> Color m' i = Color m i)"

lemma same_colors_refl [simp, intro]: "same_colors m m"
  by (simp add: same_colors_def)

lemma same_colors_trans [trans]: "same_colors a b \<Longrightarrow> same_colors b c \<Longrightarrow> same_colors a c"
  using same_graphD(1) unfolding same_colors_def by (metis same_graph_trans)

lemma ColorTuple_same: "opcode m i = kTuple \<Longrightarrow> same_colors m (ColorTuple m i)"
  by (auto simp: same_colors_def ColorTuple_def colors.put_frame split: option.splits)

definition uncolored :: "hlo_module \<Rightarrow> iid set \<Rightarrow> iid set" where
  "uncolored m U = {i \<in> U. Color m i = None}"

lemma uncolored_grow: "colors_grow m m' \<Longrightarrow> uncolored m' U \<subseteq> uncolored m U"
  by (auto simp: uncolored_def colors_grow_def)

lemma card_uncolored_le: "finite U \<Longrightarrow> colors_grow m m' \<Longrightarrow> card (uncolored m' U) \<le> card (uncolored m U)"
  using uncolored_grow by (auto intro!: card_mono simp: uncolored_def)

lemma card_uncolored_less:
  assumes "finite U" and "colors_grow m m'" and "i \<in> U" and "Color m i = None" and "Color m' i \<noteq> None"
  shows "card (uncolored m' U) < card (uncolored m U)"
proof (rule psubset_card_mono)
  show "finite (uncolored m U)" using assms(1) by (simp add: uncolored_def)
  have "i \<in> uncolored m U" "i \<notin> uncolored m' U" using assms by (auto simp: uncolored_def)
  then show "uncolored m' U \<subset> uncolored m U" using uncolored_grow[OF assms(2), of U] by blast
qed

section \<open>Settled computations\<close>

text \<open>
  What the propagation relies on: instructions of computations are among \<open>U\<close>, alias chains
  end, broadcasts have an operand, while instructions a body, and the filter accepts no tuple.
\<close>

definition propagation_ready :: "nat \<Rightarrow> hlo_module \<Rightarrow> entries \<Rightarrow> iid set \<Rightarrow> (iid \<Rightarrow> bool) \<Rightarrow> bool" where
  "propagation_ready w m es U if_visit \<longleftrightarrow>
     finite U \<and> (\<forall>c. set (post_order m c) \<subseteq> U) \<and>
     (\<forall>i \<in> U. (\<exists>as. ForEachAlias w es i = Inr as) \<and> (\<exists>ops. Operands w m es i = Inr ops) \<and>
        (\<exists>us. Users w m es i = Inr us) \<and> (opcode m i = kWhile \<longrightarrow> called m i \<noteq> [])) \<and>
     (\<forall>i. if_visit i \<longrightarrow> opcode m i \<noteq> kTuple \<and> (\<exists>k. weighed m i = Inr k \<and> opcode m k \<noteq> kTuple))"

text \<open>An instruction of \<open>g\<close> at which, with the colors of \<open>m\<close>, nothing can be propagated.\<close>

definition settled_at :: "nat \<Rightarrow> hlo_module \<Rightarrow> entries \<Rightarrow> (iid \<Rightarrow> bool) \<Rightarrow> hlo_module \<Rightarrow> iid \<Rightarrow> bool" where
  "settled_at w g es if_visit m i \<longleftrightarrow>
     (if_visit i \<longrightarrow> Color m i = None \<longrightarrow>
        (\<forall>ops us j k. Operands w g es i = Inr ops \<longrightarrow> Users w g es i = Inr us \<longrightarrow> j \<in> set (ops @ us) \<longrightarrow>
           if_visit j \<longrightarrow> weighed g j = Inr k \<longrightarrow> Color m k = None))"

inductive while_reach :: "hlo_module \<Rightarrow> cid \<Rightarrow> cid \<Rightarrow> bool" for g where
  reach_self: "while_reach g c c"
| reach_body: "i \<in> set (post_order g c) \<Longrightarrow> opcode g i = kWhile \<Longrightarrow> calledR g i = Inr d \<Longrightarrow>
    while_reach g d e \<Longrightarrow> while_reach g c e"

inductive_cases while_reachE: "while_reach g c e"

definition settled :: "nat \<Rightarrow> hlo_module \<Rightarrow> entries \<Rightarrow> (iid \<Rightarrow> bool) \<Rightarrow> hlo_module \<Rightarrow> cid \<Rightarrow> bool" where
  "settled w g es if_visit m c \<longleftrightarrow>
     (\<forall>d i. while_reach g c d \<longrightarrow> i \<in> set (post_order g d) \<longrightarrow> settled_at w g es if_visit m i)"

lemma settled_stepI:
  assumes "\<And>i. i \<in> set (post_order g c) \<Longrightarrow> settled_at w g es if_visit m i"
    and "\<And>i d. i \<in> set (post_order g c) \<Longrightarrow> opcode g i = kWhile \<Longrightarrow> calledR g i = Inr d \<Longrightarrow> settled w g es if_visit m d"
  shows "settled w g es if_visit m c"
  using assms unfolding settled_def by (metis while_reachE)

lemma settled_at_cong:
  assumes "propagation_ready w g es U if_visit" and "same_graph g m" and "same_colors m m'"
  shows "settled_at w g es if_visit m' i \<longleftrightarrow> settled_at w g es if_visit m i"
proof -
  have oc: "opcode m = opcode g" using assms(2) by (rule same_graphD)
  have nt: "Color m' k = Color m k" if "opcode g k \<noteq> kTuple" for k
    using assms(3) that by (simp add: same_colors_def oc)
  have ci: "Color m' i = Color m i" if "if_visit i" using assms(1) that nt by (simp add: propagation_ready_def)
  have ck: "Color m' k = Color m k" if "if_visit j" "weighed g j = Inr k" for j k
    using assms(1) that nt by (auto simp: propagation_ready_def)
  show ?thesis
    unfolding settled_at_def using ci by (cases "if_visit i"; cases "Color m i") (simp_all add: ck cong: imp_cong)
qed

lemma settled_cong:
  assumes "propagation_ready w g es U if_visit" and "same_graph g m" and "same_colors m m'"
  shows "settled w g es if_visit m' c \<longleftrightarrow> settled w g es if_visit m c"
  unfolding settled_def settled_at_cong[OF assms] ..

lemma graph_cong:
  assumes "same_graph g m"
  shows "Operands w m es = Operands w g es" "Users w m es = Users w g es" "weighed m = weighed g"
    "calledR m = calledR g" "ComputeDepthMap m = ComputeDepthMap g"
    "CreateTopologicalIndexMap m = CreateTopologicalIndexMap g"
  using same_graphD[OF assms]
  by (auto simp: fun_eq_iff Operands_def Users_def weighed_def operandR_def calledR_def ComputeDepthMap_def
      depth_step_def[abs_def] CreateTopologicalIndexMap_def)

section \<open>One visit\<close>

lemma add_user_or_operand_total:
  assumes "if_visit j \<longrightarrow> (\<exists>k. weighed m j = Inr k)"
  shows "\<exists>t'. add_user_or_operand B prio if_visit depth topo m i t j = Inr t'"
  using assms by (auto simp: add_user_or_operand_def split: option.splits)

lemma tally_color_found [simp]: "(t_best (tally_color prio c wt d tp t) = None) = False"
  by (simp add: tally_color_def Let_def)

lemma add_user_or_operand_best:
  assumes "add_user_or_operand B prio if_visit depth topo m i t j = Inr t'"
  shows "t_best t' = None \<Longrightarrow> t_best t = None"
    and "t_best t' = None \<Longrightarrow> if_visit j \<Longrightarrow> weighed m j = Inr k \<Longrightarrow> Color m k = None"
  using assms
  by (auto simp: add_user_or_operand_def elim!: bindR_InrE split: if_splits option.splits)

lemma add_fold_best:
  assumes "foldR (add_user_or_operand B prio if_visit depth topo m i) t js = Inr t'" and "t_best t' = None"
    and "j \<in> set js" and "if_visit j" and "weighed m j = Inr k"
  shows "Color m k = None"
  using assms(1,3)
proof (induction js arbitrary: t)
  case (Cons j0 js)
  then obtain t1 where s: "add_user_or_operand B prio if_visit depth topo m i t j0 = Inr t1"
    and f: "foldR (add_user_or_operand B prio if_visit depth topo m i) t1 js = Inr t'" by auto
  have "t_best t1 = None"
  proof (rule ccontr)
    assume "t_best t1 \<noteq> None"
    with f have "t_best t' \<noteq> None"
      by (rule foldR_invariant) (metis add_user_or_operand_best(1))
    then show False using assms(2) by simp
  qed
  then show ?case using add_user_or_operand_best(2)[OF s, of k] Cons.IH[OF f] Cons.prems(2) assms(4,5)
    by (cases "j = j0") auto
qed simp

lemma propagate_from_total:
  assumes r: "propagation_ready w g es U if_visit" and g: "same_graph g m" and i: "i \<in> U"
    and u: "Color m i = None"
  shows "\<exists>m' b. PropagateFromUsersAndOperands w B prio m i es if_visit depth topo = Inr (m', b) \<and>
    colors_grow m m' \<and> (b \<longrightarrow> Color m' i \<noteq> None) \<and> (\<not> b \<longrightarrow> m' = m \<and> settled_at w g es if_visit m i)"
proof -
  note gc = graph_cong[OF g]
  obtain ops us where ops: "Operands w m es i = Inr ops" and us: "Users w m es i = Inr us"
    using r i unfolding gc by (auto simp: propagation_ready_def)
  obtain as where as: "ForEachAlias w es i = Inr as" using r i by (auto simp: propagation_ready_def)
  let ?f = "add_user_or_operand B prio if_visit depth topo m i"
  have tot: "\<exists>t'. ?f t j = Inr t' \<and> True" for t j
    using add_user_or_operand_total[of if_visit j m B prio depth topo i t] r unfolding propagation_ready_def gc by blast
  obtain t1 where t1: "foldR ?f tally_init ops = Inr t1"
    using foldR_total[of "\<lambda>_. True" tally_init ops ?f] tot by blast
  obtain t2 where t2: "foldR ?f t1 us = Inr t2"
    using foldR_total[of "\<lambda>_. True" t1 us ?f] tot by blast
  show ?thesis
  proof (cases "t_best t2")
    case None
    have all: "foldR ?f tally_init (ops @ us) = Inr t2" using t1 t2 by (simp add: foldR_append)
    have "settled_at w g es if_visit m i"
      unfolding settled_at_def using add_fold_best[OF all None] ops us unfolding gc by auto
    then show ?thesis
      using ops us t1 t2 None
      by (intro exI[of _ m] exI[of _ False]) (simp add: PropagateFromUsersAndOperands_def)
  next
    case (Some c)
    obtain m' where m': "assign_color_and_aliases w es m i c = Inr m'"
      using as by (simp add: assign_color_and_aliases_def)
    then show ?thesis
      using ops us t1 t2 Some assign_color_and_aliases_grow[OF m' u]
      by (intro exI[of _ m'] exI[of _ True]) (simp add: PropagateFromUsersAndOperands_def)
  qed
qed

text \<open>What a nested propagation guarantees on a computation \<open>c\<close>, from any module that \<open>ok\<close> accepts.\<close>

definition propagates ::
  "nat \<Rightarrow> hlo_module \<Rightarrow> entries \<Rightarrow> iid set \<Rightarrow> (iid \<Rightarrow> bool) \<Rightarrow> nat \<Rightarrow> (hlo_module \<Rightarrow> (hlo_module \<times> bool) statusor) \<Rightarrow> cid \<Rightarrow> bool" where
  "propagates w g es U if_visit rounds run c \<longleftrightarrow>
     (\<forall>m. same_graph g m \<longrightarrow> card (uncolored m U) < rounds \<longrightarrow>
        (\<exists>m' b. run m = Inr (m', b) \<and> colors_grow m m' \<and> settled w g es if_visit m' c \<and>
           (b \<longrightarrow> card (uncolored m' U) < card (uncolored m U)) \<and> (\<not> b \<longrightarrow> same_colors m m')))"

definition visit_result ::
  "nat \<Rightarrow> hlo_module \<Rightarrow> entries \<Rightarrow> iid set \<Rightarrow> (iid \<Rightarrow> bool) \<Rightarrow> hlo_module \<times> bool \<Rightarrow> hlo_module \<times> bool \<Rightarrow> iid \<Rightarrow> bool" where
  "visit_result w g es U if_visit st st' i \<longleftrightarrow>
     colors_grow (fst st) (fst st') \<and> (snd st \<longrightarrow> snd st') \<and>
     (snd st' \<longrightarrow> \<not> snd st \<longrightarrow> card (uncolored (fst st') U) < card (uncolored (fst st) U)) \<and>
     (\<not> snd st' \<longrightarrow> same_colors (fst st) (fst st') \<and> settled_at w g es if_visit (fst st') i \<and>
        (opcode g i = kWhile \<longrightarrow> (\<forall>d. calledR g i = Inr d \<longrightarrow> settled w g es if_visit (fst st') d)))"

lemma propagate_visit_total:
  assumes r: "propagation_ready w g es U if_visit" and g: "same_graph g m" and i: "i \<in> U"
    and nested: "\<And>d. opcode g i = kWhile \<Longrightarrow> calledR g i = Inr d \<Longrightarrow> propagates w g es U if_visit rounds (nested d) d"
    and rounds: "card (uncolored m U) < rounds"
  shows "\<exists>st'. propagate_visit nested w B prio es if_visit depth topo (m, p) i = Inr st' \<and>
    visit_result w g es U if_visit (m, p) st' i"
proof (cases "opcode m i = kTuple")
  case True
  have og: "opcode m = opcode g" using g by (rule same_graphD)
  have "\<not> if_visit i" using r True og by (auto simp: propagation_ready_def)
  then have "settled_at w g es if_visit (ColorTuple m i) i" by (simp add: settled_at_def)
  then show ?thesis
    using True og ColorTuple_same[OF True] ColorTuple_grow[OF True]
    by (auto simp: propagate_visit_def visit_result_def)
next
  case False
  have fin: "finite U" using r by (simp add: propagation_ready_def)
  have og: "opcode m = opcode g" using g by (rule same_graphD)
  have first: "\<exists>m1 b1. (if if_visit i \<and> \<not> IsAssignedColor m i
      then bindR (PropagateFromUsersAndOperands w B prio m i es if_visit depth topo) (\<lambda>(m, b). Inr (m, p \<or> b))
      else Inr (m, p)) = Inr (m1, p \<or> b1) \<and> colors_grow m m1 \<and>
      (b1 \<longrightarrow> card (uncolored m1 U) < card (uncolored m U)) \<and> (\<not> b1 \<longrightarrow> m1 = m \<and> settled_at w g es if_visit m i)"
  proof (cases "if_visit i \<and> Color m i = None")
    case True
    obtain m1 b1 where p1: "PropagateFromUsersAndOperands w B prio m i es if_visit depth topo = Inr (m1, b1)"
      and "colors_grow m m1" "b1 \<longrightarrow> Color m1 i \<noteq> None" "\<not> b1 \<longrightarrow> m1 = m \<and> settled_at w g es if_visit m i"
      using propagate_from_total[OF r g i conjunct2[OF True], of B prio depth topo] by (elim exE conjE) (rule that)
    moreover have "b1 \<longrightarrow> card (uncolored m1 U) < card (uncolored m U)"
      using card_uncolored_less[OF fin \<open>colors_grow m m1\<close> i conjunct2[OF True]] \<open>b1 \<longrightarrow> Color m1 i \<noteq> None\<close> by simp
    ultimately show ?thesis using True by (auto simp: IsAssignedColor_iff)
  next
    case False
    then have "settled_at w g es if_visit m i" by (auto simp: settled_at_def)
    then show ?thesis using False by (auto simp: IsAssignedColor_iff)
  qed
  then obtain m1 b1 where s1: "(if if_visit i \<and> \<not> IsAssignedColor m i
      then bindR (PropagateFromUsersAndOperands w B prio m i es if_visit depth topo) (\<lambda>(m, b). Inr (m, p \<or> b))
      else Inr (m, p)) = Inr (m1, p \<or> b1)" and g1: "colors_grow m m1"
    and less: "b1 \<longrightarrow> card (uncolored m1 U) < card (uncolored m U)"
    and none: "\<not> b1 \<longrightarrow> m1 = m \<and> settled_at w g es if_visit m i" by blast
  have og1: "opcode m1 = opcode g" and gm1: "same_graph g m1"
    using g1 g same_graphD(1) same_graph_trans by (auto simp: colors_grow_def)
  show ?thesis
  proof (cases "opcode g i = kWhile")
    case True
    then have "called g i \<noteq> []" using r i by (auto simp: propagation_ready_def)
    then obtain d where d: "calledR g i = Inr d" by (cases "called g i") (simp_all add: calledR_def)
    have "card (uncolored m1 U) < rounds" using card_uncolored_le[OF fin g1] rounds by simp
    then obtain m2 b2 where n: "nested d m1 = Inr (m2, b2)" and g2: "colors_grow m1 m2"
      and st: "settled w g es if_visit m2 d"
      and l2: "b2 \<longrightarrow> card (uncolored m2 U) < card (uncolored m1 U)" and sc: "\<not> b2 \<longrightarrow> same_colors m1 m2"
      using nested[OF True d] gm1 unfolding propagates_def by blast
    have run: "propagate_visit nested w B prio es if_visit depth topo (m, p) i = Inr (m2, (p \<or> b1) \<or> b2)"
      using s1 False True d n og og1 graph_cong(4)[OF gm1] by (simp add: propagate_visit_def)
    have le: "card (uncolored m2 U) \<le> card (uncolored m1 U)" "card (uncolored m1 U) \<le> card (uncolored m U)"
      using card_uncolored_le[OF fin g2] card_uncolored_le[OF fin g1] by simp_all
    have sa: "settled_at w g es if_visit m2 i" if "\<not> b1" "\<not> b2"
      using settled_at_cong[OF r gm1, of m2 i] none sc that by blast
    show ?thesis
      using run colors_grow_trans[OF g1 g2] le less l2 sc none sa st d by (auto simp: visit_result_def)
  next
    case nw: False
    have "propagate_visit nested w B prio es if_visit depth topo (m, p) i = Inr (m1, p \<or> b1)"
      using s1 False nw og og1 by (simp add: propagate_visit_def)
    then show ?thesis using g1 less none nw by (auto simp: visit_result_def)
  qed
qed

section \<open>A round, the rounds, the nesting\<close>

definition bodies_propagate ::
  "nat \<Rightarrow> hlo_module \<Rightarrow> entries \<Rightarrow> iid set \<Rightarrow> (iid \<Rightarrow> bool) \<Rightarrow> nat
     \<Rightarrow> (cid \<Rightarrow> hlo_module \<Rightarrow> (hlo_module \<times> bool) statusor) \<Rightarrow> iid list \<Rightarrow> bool" where
  "bodies_propagate w g es U if_visit rounds nested po \<longleftrightarrow>
     (\<forall>i d. i \<in> set po \<longrightarrow> opcode g i = kWhile \<longrightarrow> calledR g i = Inr d \<longrightarrow>
        propagates w g es U if_visit rounds (nested d) d)"

lemma round_total:
  assumes r: "propagation_ready w g es U if_visit" and "set po \<subseteq> U"
    and nested: "bodies_propagate w g es U if_visit rounds nested po"
    and "same_graph g m" and "card (uncolored m U) < rounds"
  shows "\<exists>m' p'. foldR (propagate_visit nested w B prio es if_visit depth topo) (m, p) po = Inr (m', p') \<and>
    colors_grow m m' \<and> (p \<longrightarrow> p') \<and> (p' \<longrightarrow> \<not> p \<longrightarrow> card (uncolored m' U) < card (uncolored m U)) \<and>
    (\<not> p' \<longrightarrow> same_colors m m' \<and> (\<forall>i \<in> set po. settled_at w g es if_visit m' i \<and>
       (opcode g i = kWhile \<longrightarrow> (\<forall>d. calledR g i = Inr d \<longrightarrow> settled w g es if_visit m' d))))"
  using assms(2-)
proof (induction po arbitrary: m p)
  case (Cons i po)
  let ?f = "propagate_visit nested w B prio es if_visit depth topo"
  have fin: "finite U" using r by (simp add: propagation_ready_def)
  have "i \<in> U" and sub: "set po \<subseteq> U" using Cons.prems(1) by auto
  have here: "opcode g i = kWhile \<Longrightarrow> calledR g i = Inr d \<Longrightarrow> propagates w g es U if_visit rounds (nested d) d" for d
    using Cons.prems(2) by (simp add: bodies_propagate_def)
  obtain m1 p1 where s: "?f (m, p) i = Inr (m1, p1)" and v: "visit_result w g es U if_visit (m, p) (m1, p1) i"
    using propagate_visit_total[OF r Cons.prems(3) \<open>i \<in> U\<close> here Cons.prems(4), where B = B and prio = prio
        and depth = depth and topo = topo and p = p]
    by auto
  have g1: "colors_grow m m1" and mono: "p \<longrightarrow> p1" using v by (simp_all add: visit_result_def)
  have gm1: "same_graph g m1" using g1 Cons.prems(3) same_graph_trans by (auto simp: colors_grow_def)
  have nested: "bodies_propagate w g es U if_visit rounds nested po"
    using Cons.prems(2) by (simp add: bodies_propagate_def)
  have cd: "card (uncolored m1 U) < rounds" using card_uncolored_le[OF fin g1] Cons.prems(4) by simp
  obtain m' p' where f: "foldR ?f (m1, p1) po = Inr (m', p')" and g2: "colors_grow m1 m'" and mono2: "p1 \<longrightarrow> p'"
    and less: "p' \<longrightarrow> \<not> p1 \<longrightarrow> card (uncolored m' U) < card (uncolored m1 U)"
    and still: "\<not> p' \<longrightarrow> same_colors m1 m' \<and> (\<forall>i \<in> set po. settled_at w g es if_visit m' i \<and>
       (opcode g i = kWhile \<longrightarrow> (\<forall>d. calledR g i = Inr d \<longrightarrow> settled w g es if_visit m' d)))"
    using Cons.IH[OF sub nested gm1 cd, of p1] by (elim exE conjE) (rule that)
  have le: "card (uncolored m' U) \<le> card (uncolored m1 U)" "card (uncolored m1 U) \<le> card (uncolored m U)"
    using card_uncolored_le[OF fin g2] card_uncolored_le[OF fin g1] by simp_all
  have keep: "settled_at w g es if_visit m' i \<and>
      (opcode g i = kWhile \<longrightarrow> (\<forall>d. calledR g i = Inr d \<longrightarrow> settled w g es if_visit m' d))" if "\<not> p'"
  proof -
    have p1: "\<not> p1" and sc: "same_colors m1 m'" using that mono2 still by auto
    have "settled_at w g es if_visit m1 i \<and>
      (opcode g i = kWhile \<longrightarrow> (\<forall>d. calledR g i = Inr d \<longrightarrow> settled w g es if_visit m1 d))"
      using v p1 by (simp add: visit_result_def)
    then show ?thesis unfolding settled_at_cong[OF r gm1 sc] settled_cong[OF r gm1 sc] .
  qed
  have sc: "same_colors m m'" if "\<not> p'"
    using that v mono2 still same_colors_trans by (auto simp: visit_result_def)
  have "p' \<longrightarrow> \<not> p \<longrightarrow> card (uncolored m' U) < card (uncolored m U)"
    using le less v by (auto simp: visit_result_def)
  then show ?case using s f colors_grow_trans[OF g1 g2] mono mono2 keep sc still by auto
qed auto

lemma rounds_total:
  assumes r: "propagation_ready w g es U if_visit"
    and nested: "bodies_propagate w g es U if_visit rounds nested (post_order g c)"
    and "same_graph g m" and "card (uncolored m U) < n" and "n \<le> rounds"
  shows "\<exists>m' b. propagate_rounds n (propagate_visit nested w B prio es if_visit depth topo) (post_order g c) m ch = Inr (m', b) \<and>
    colors_grow m m' \<and> settled w g es if_visit m' c \<and>
    (b \<longrightarrow> ch \<or> card (uncolored m' U) < card (uncolored m U)) \<and> (\<not> b \<longrightarrow> same_colors m m') \<and> (ch \<longrightarrow> b)"
  using assms(3-)
proof (induction n arbitrary: m ch)
  case (Suc n)
  let ?f = "propagate_visit nested w B prio es if_visit depth topo"
  have fin: "finite U" and sub: "set (post_order g c) \<subseteq> U" using r by (simp_all add: propagation_ready_def)
  have "card (uncolored m U) < rounds" using Suc.prems by simp
  then obtain m1 p1 where f: "foldR ?f (m, False) (post_order g c) = Inr (m1, p1)" and g1: "colors_grow m m1"
    and less: "p1 \<longrightarrow> card (uncolored m1 U) < card (uncolored m U)"
    and still: "\<not> p1 \<longrightarrow> same_colors m m1 \<and> (\<forall>i \<in> set (post_order g c). settled_at w g es if_visit m1 i \<and>
       (opcode g i = kWhile \<longrightarrow> (\<forall>d. calledR g i = Inr d \<longrightarrow> settled w g es if_visit m1 d)))"
    using round_total[OF r sub nested Suc.prems(1), where B = B and prio = prio and depth = depth and topo = topo and p = False]
    by blast
  show ?case
  proof (cases p1)
    case True
    have gm1: "same_graph g m1" using g1 Suc.prems(1) same_graph_trans by (auto simp: colors_grow_def)
    have n: "card (uncolored m1 U) < n" "n \<le> rounds" using less True Suc.prems(2,3) by simp_all
    obtain m' where "propagate_rounds n ?f (post_order g c) m1 True = Inr (m', True)" "colors_grow m1 m'"
      "settled w g es if_visit m' c"
      using Suc.IH[OF gm1 n, of True] by auto
    moreover have "card (uncolored m' U) < card (uncolored m U)"
      using card_uncolored_le[OF fin \<open>colors_grow m1 m'\<close>] less True by simp
    ultimately show ?thesis using f True colors_grow_trans[OF g1, of m']
      by (intro exI[of _ m'] exI[of _ True]) simp
  next
    case False
    have "settled w g es if_visit m1 c" using still False by - (rule settled_stepI, blast+)
    moreover have "same_colors m m1" using still False by blast
    moreover have "propagate_rounds (Suc n) ?f (post_order g c) m ch = Inr (m1, ch)" using f False by simp
    ultimately show ?thesis using g1 by blast
  qed
qed simp

lemma PropagateIf_propagates:
  assumes r: "propagation_ready w g es U if_visit" and acyc: "acyclic_calls g rk" and "rk c < nesting"
  shows "propagates w g es U if_visit rounds (PropagateIf nesting rounds w B prio es if_visit c) c"
  using assms(3)
proof (induction nesting arbitrary: c)
  case (Suc nesting)
  show ?case
    unfolding propagates_def
  proof (intro allI impI)
    fix m assume g: "same_graph g m" and n: "card (uncolored m U) < rounds"
    have body: "propagates w g es U if_visit rounds (PropagateIf nesting rounds w B prio es if_visit d) d"
      if i: "i \<in> set (post_order g c)" and "opcode g i = kWhile" and d: "calledR g i = Inr d" for i d
    proof (rule Suc.IH)
      have "d \<in> set (called g i)" using d by (auto simp: calledR_def subR_Inr_iff)
      then have "rk d < rk c" using acyc i unfolding acyclic_calls_def by blast
      then show "rk d < nesting" using Suc.prems by simp
    qed
    have nested: "bodies_propagate w g es U if_visit rounds (PropagateIf nesting rounds w B prio es if_visit) (post_order g c)"
      using body by (simp add: bodies_propagate_def)
    show "\<exists>m' b. PropagateIf (Suc nesting) rounds w B prio es if_visit c m = Inr (m', b) \<and> colors_grow m m' \<and>
        settled w g es if_visit m' c \<and> (b \<longrightarrow> card (uncolored m' U) < card (uncolored m U)) \<and>
        (\<not> b \<longrightarrow> same_colors m m')"
      using rounds_total[OF r nested g n order_refl, where B = B and prio = prio and depth = "ComputeDepthMap m c"
          and topo = "CreateTopologicalIndexMap m c" and ch = False]
      by (simp add: Let_def same_graphD(6)[OF g])
  qed
qed simp

text \<open>
  C19. Propagation ends, with fuel for the depth of loop nests and for one round more than there
  are uncolored instructions. It only adds colors; instructions other than tuples keep theirs.
  And when it ends there is nothing left to propagate, neither in the computation nor in any
  while body below it. It reports no change only if no color of a non-tuple changed.
\<close>

theorem propagate_if_settles:
  assumes "propagation_ready w m es U if_visit" and "acyclic_calls m rk"
    and "rk c < nesting" and "card {i \<in> U. Color m i = None} < rounds"
  shows "\<exists>m' changed. PropagateIf nesting rounds w ByteSizeOf prio es if_visit c m = Inr (m', changed) \<and>
    colors_grow m m' \<and> settled w m es if_visit m' c \<and>
    (changed \<longrightarrow> card {i \<in> U. Color m' i = None} < card {i \<in> U. Color m i = None}) \<and> (\<not> changed \<longrightarrow> same_colors m m')"
  using PropagateIf_propagates[OF assms(1-3), of rounds ByteSizeOf prio] assms(4)
  unfolding propagates_def uncolored_def by auto

text \<open>A chain in which the color of \<open>0\<close> reaches \<open>2\<close> in one round, with a loop whose body is empty.\<close>

definition chain_sample :: hlo_module where
  "chain_sample = sample_module
     [(0, blank_instr\<lparr>i_opcode := kParameter, i_users := [1], i_attrs := [''color'' \<mapsto> ''a'']\<rparr>),
      (1, blank_instr\<lparr>i_opcode := kAdd, i_operands := [0, 0], i_users := [2]\<rparr>),
      (2, blank_instr\<lparr>i_opcode := kWhile, i_operands := [1], i_called := [1]\<rparr>)]
     [(0, blank_comp\<lparr>c_root := 2, c_post_order := [0, 1, 2]\<rparr>)]"

abbreviation chain_entries :: entries where
  "chain_entries \<equiv> [0 \<mapsto> entry_default, 1 \<mapsto> entry_default, 2 \<mapsto> entry_default]"

lemma chain_ready: "propagation_ready 1 chain_sample chain_entries {0, 1, 2} (\<lambda>i. i < 3)"
proof -
  have "\<exists>k. weighed chain_sample i = Inr k \<and> opcode chain_sample k \<noteq> kTuple" for i
    by (simp add: weighed_def chain_sample_def sample_simps split: option.splits)
  moreover have "opcode chain_sample i \<noteq> kTuple" for i
    by (simp add: chain_sample_def sample_simps split: option.splits)
  moreover have "set (post_order chain_sample c) \<subseteq> {0, 1, 2}" for c
    by (simp add: chain_sample_def sample_simps split: option.splits)
  ultimately show ?thesis
    by (auto simp: propagation_ready_def ForEachAlias_def ForEachBackwardAlias_def ForEachForwardAlias_def
        Operands_def Users_def BackwardAlias_def ForwardAlias_def Get_def entry_default_def
        chain_sample_def sample_simps)
qed

theorem propagate_if_settles_witness:
  "\<exists>m' changed. PropagateIf 2 4 1 (\<lambda>_. 1) kDepth chain_entries (\<lambda>i. i < 3) 0 chain_sample = Inr (m', changed) \<and>
     Color m' 0 = Some ''a'' \<and> settled 1 chain_sample chain_entries (\<lambda>i. i < 3) m' 0"
proof -
  have ac: "acyclic_calls chain_sample (\<lambda>c. if c = 0 then 1 else 0)"
    by (auto simp: acyclic_calls_def chain_sample_def sample_simps split: if_splits option.splits)
  have "{i \<in> {0, 1, 2}. Color chain_sample i = None} \<subseteq> {0, 1, 2}" by blast
  then have "card {i \<in> {0, 1, 2}. Color chain_sample i = None} \<le> card {0, 1, 2 :: iid}" by (rule card_mono[rotated]) simp
  then have cd: "card {i \<in> {0, 1, 2}. Color chain_sample i = None} < 4" by simp
  obtain m' ch where run: "PropagateIf 2 4 1 (\<lambda>_. 1) kDepth chain_entries (\<lambda>i. i < 3) 0 chain_sample = Inr (m', ch)"
    and "colors_grow chain_sample m'" "settled 1 chain_sample chain_entries (\<lambda>i. i < 3) m' 0"
    using propagate_if_settles[OF chain_ready ac _ cd, of 0 2 "\<lambda>_. 1" kDepth] by auto
  moreover have "Color m' 0 = Color chain_sample 0" "Color chain_sample 0 = Some ''a''"
    using \<open>colors_grow chain_sample m'\<close>
    by (auto simp: colors_grow_def chain_sample_def sample_simps Color_def)
  ultimately show ?thesis by simp
qed

end
