(* ===== verification/Coloring_Roots.thy ===== *)
theory Coloring_Roots
  imports Coloring_Rounds
begin

text \<open>
  Coloring backwards from a root: the worklist ends, and what it colors is exactly what the
  root reaches backwards through uncolored instructions that do not derive from constants.
  Then every root of the module has a color when the pass is done.
\<close>

section \<open>The worklist\<close>





lemma IsTuple_cong: "same_graph g m \<Longrightarrow> IsTuple m = IsTuple g"
proof -
  assume "same_graph g m"
  then have sk: "skeleton (m_instr m i) = skeleton (m_instr g i)" for i by (simp add: same_graph_def)
  show ?thesis by (rule ext) (simp only: IsTuple_def skeleton_eqD(7)[OF sk])
qed


lemma IsCustomCall_AssignColor [simp]: "IsCustomCall (AssignColor m j c) i t = IsCustomCall m i t"
  by (simp add: IsCustomCall_def AssignColor_def set_attrs_def upd_instr_def opcode_def Let_def)



lemma IsAssignedColor_AssignColor [simp]: "IsAssignedColor (AssignColor m x c) y \<longleftrightarrow> y = x \<or> IsAssignedColor m y"
  by (simp add: IsAssignedColor_iff)












section \<open>Roots\<close>

definition roots_of :: "hlo_module \<Rightarrow> iid list" where
  "roots_of m = (let r = root m (m_entry m) in if IsTuple m r then operands m r else [r])"

lemma roots_of_cong: "same_graph g m \<Longrightarrow> roots_of m = roots_of g"
  using same_graphD[of g m] by (simp add: roots_of_def IsTuple_cong Let_def)

definition only_adds :: "hlo_module \<Rightarrow> hlo_module \<Rightarrow> bool" where
  "only_adds m m' \<longleftrightarrow> same_graph m m' \<and> (\<forall>x. Color m x \<noteq> None \<longrightarrow> Color m' x = Color m x)"

lemma only_adds_refl [simp, intro]: "only_adds m m"
  by (simp add: only_adds_def)

lemma only_adds_trans [trans]: "only_adds a b \<Longrightarrow> only_adds b c \<Longrightarrow> only_adds a c"
  unfolding only_adds_def by (metis same_graph_trans)

lemma AssignColor_only_adds: "Color m i = None \<Longrightarrow> only_adds m (AssignColor m i c)"
  by (auto simp: only_adds_def colors.put_frame)

lemma color_backwards_loop_only_adds:
  "color_backwards_loop fuel w c i es m xs = Inr m' \<Longrightarrow> only_adds m m'"
proof (induction fuel w c i es m xs rule: color_backwards_loop.induct)
  case (3 fuel w c i es m x xs)
  show ?case
  proof (cases "IsCustomCall m i kCustomCallSliceOffset")
    case True
    then show ?thesis using 3 by simp
  next
    case False
    then obtain dc where dc: "DerivedConstant es x = Inr dc" using "3.prems" by auto
    show ?thesis
    proof (cases "dc \<or> IsAssignedColor m x")
      case True
      then show ?thesis using 3 False dc by (auto split: if_splits)
    next
      case fresh: False
      then obtain vs where vs: "add_visits w (AssignColor m x c) es x = Inr vs"
        and "color_backwards_loop fuel w c i es (AssignColor m x c) (rev vs @ xs) = Inr m'"
        using "3.prems" False dc by (auto simp: Let_def)
      then have "only_adds (AssignColor m x c) m'" using 3(3) False dc fresh by auto
      then show ?thesis using AssignColor_only_adds[of m x c] fresh only_adds_trans by (auto simp: IsAssignedColor_iff)
    qed
  qed
qed auto

lemma color_root_only_adds:
  assumes "color_root fuel w stop es (m, p) i = Inr (m', p')"
  shows "only_adds m m'" and "Color m' i \<noteq> None"
proof -
  have "only_adds m m' \<and> Color m' i \<noteq> None"
  proof (cases "IsAssignedColor m i")
    case True
    then have "m' = m" using assms by (simp add: color_root_def)
    then show ?thesis using True by (simp add: IsAssignedColor_iff)
  next
    case False
    obtain c vs where "color_backwards_loop fuel w c i es (AssignColor m i c) (rev vs) = Inr m'"
      using assms False by (auto simp: color_root_def ColorBackwards_def Let_def elim!: bindR_InrE split: if_splits)
    then have a: "only_adds (AssignColor m i c) m'" by (rule color_backwards_loop_only_adds)
    moreover have "only_adds m (AssignColor m i c)" using False by (auto simp: IsAssignedColor_iff intro: AssignColor_only_adds)
    moreover have "Color m' i = Some c" using a by (simp add: only_adds_def)
    ultimately show ?thesis using only_adds_trans by auto
  qed
  then show "only_adds m m'" and "Color m' i \<noteq> None" by simp_all
qed

lemma color_root_fold:
  assumes "foldR (color_root fuel w stop es) (m, p) is = Inr (m', p')"
  shows "only_adds m m' \<and> (\<forall>i \<in> set is. Color m' i \<noteq> None)"
  using assms
proof (induction "is" arbitrary: m p)
  case (Cons i "is")
  then obtain m1 p1 where s: "color_root fuel w stop es (m, p) i = Inr (m1, p1)"
    and f: "foldR (color_root fuel w stop es) (m1, p1) is = Inr (m', p')" by auto
  note a = color_root_only_adds[OF s] and b = Cons.IH[OF f]
  have "Color m' i = Color m1 i" using b a(2) unfolding only_adds_def by blast
  then show ?case using a b only_adds_trans by auto
qed simp

text \<open>
  When the coloring of a module succeeds, its roots are colored: the root of the entry
  computation, or every element of a root tuple.
\<close>

theorem roots_colored:
  assumes "color_module fuel rounds w E prio st = Inr (m', p')"
  shows "\<forall>i \<in> set (roots_of m'). Color m' i \<noteq> None"
proof -
  obtain m p properties where r: "color_roots fuel w (ce_stop E) properties (m, p) = Inr (m', p')"
    using assms by (cases st) (auto simp: color_module_def Let_def elim!: bindR_InrE)
  have eq: "foldR (color_root fuel w (ce_stop E) properties) (m, p) (roots_of m) = Inr (m', p')"
  proof (cases "IsTuple m (root m (m_entry m))")
    case True
    then show ?thesis using r by (simp add: color_roots_def roots_of_def)
  next
    case False
    then show ?thesis using r by (simp add: color_roots_def roots_of_def bindR_def)
  qed
  note f = color_root_fold[OF eq]
  then have "roots_of m' = roots_of m" by (intro roots_of_cong) (simp add: only_adds_def)
  then show ?thesis using f by simp
qed

definition plain_env :: coloring_env where
  "plain_env = \<lparr>ce_ByteSizeOf = (\<lambda>_. 4), ce_ElementsIn = (\<lambda>_. 1), ce_IsElementwise = (\<lambda>_ _. False),
     ce_stop = (\<lambda>d. dl_start d + dl_size d), ce_walk = (\<lambda>x. x), ce_inline_explicit_tasks = Inr,
     ce_insert_root_tuple_shardings = Inr, ce_unpack_optimization_barrier = Inr, ce_repack_optimization_barrier = Inr\<rparr>"

definition root_sample :: hlo_module where
  "root_sample = sample_module
     [(0, blank_instr\<lparr>i_opcode := kParameter, i_users := [2]\<rparr>),
      (2, blank_instr\<lparr>i_opcode := kNegate, i_operands := [0]\<rparr>)]
     [(0, blank_comp\<lparr>c_root := 2, c_post_order := [0, 2], c_params := [0]\<rparr>)]"

theorem roots_colored_witness:
  "\<exists>m' p'. color_module 4 4 4 plain_env kWeight (root_sample, Create (dl_create 0 8)) = Inr (m', p') \<and>
     (\<forall>i \<in> set (roots_of m'). Color m' i \<noteq> None)"
proof -
  have "\<not> isl (color_module 4 4 4 plain_env kWeight (root_sample, Create (dl_create 0 8)))" by code_simp
  then obtain m' p' where "color_module 4 4 4 plain_env kWeight (root_sample, Create (dl_create 0 8)) = Inr (m', p')"
    by (metis isl_def prod.exhaust sum.exhaust)
  then show ?thesis using roots_colored by blast
qed

end
