(* ===== verification/Color_Dfs.thy ===== *)
theory Color_Dfs
  imports Mpmd_Instruction
begin

text \<open>
  \<open>color_dfs.cc\<close>: a depth-first postorder of a computation with an explicit stack, in which
  operands of the color seen last are visited last. The back of the vector \<open>to_visit\<close> is the
  head of the list. The loop runs on fuel. \<open>std::stable_sort\<close> by the comparator, which orders
  by a key, is \<open>sort_key\<close>; the entries the comparator adds to \<open>color_priority\<close> hold the
  default value 0 and are left out.
\<close>

record dfs_state =
  d_to_visit :: "iid list"
  d_dfs :: "iid list"
  d_visited :: "iid \<rightharpoonup> bool"
  d_color_priority :: "color \<rightharpoonup> int"
  d_last_color :: "color option"
  d_next_priority :: int

text \<open>The key of the sort: higher priorities first, instructions without a color last.\<close>

definition operand_key :: "hlo_module \<Rightarrow> (color \<rightharpoonup> int) \<Rightarrow> iid \<Rightarrow> int" where
  "operand_key m color_priority i =
     (case Color m i of None \<Rightarrow> 1
      | Some c \<Rightarrow> - (case color_priority c of None \<Rightarrow> 0 | Some k \<Rightarrow> k))"

definition expand :: "hlo_module \<Rightarrow> iid \<Rightarrow> dfs_state \<Rightarrow> dfs_state" where
  "expand m i st =
     (let color = Color m i;
          st = (if color \<noteq> None \<and> color \<noteq> d_last_color st
                then st\<lparr>d_color_priority := (d_color_priority st)(the color \<mapsto> d_next_priority st),
                        d_next_priority := d_next_priority st + 1, d_last_color := color\<rparr>
                else st);
          sorted_operands = sort_key (operand_key m (d_color_priority st)) (operands m i) in
      st\<lparr>d_to_visit := rev sorted_operands @ d_to_visit st, d_visited := (d_visited st)(i \<mapsto> False)\<rparr>)"

definition finish :: "hlo_module \<Rightarrow> iid \<Rightarrow> dfs_state \<Rightarrow> dfs_state statusor" where
  "finish m i st =
     (if opcode m i = kGetTupleElement
      then bindR (if operands m i = [] then Inl (Undefined ''subscript'') else Inr (operands m i ! 0)) (\<lambda>operand.
           if opcode m operand = kCustomCall
           then Inr (foldl (\<lambda>st user. st\<lparr>d_dfs := d_dfs st @ [user], d_visited := (d_visited st)(user \<mapsto> True)\<rparr>)
                      st (users m operand))
           else Inr (st\<lparr>d_visited := (d_visited st)(i \<mapsto> True), d_dfs := d_dfs st @ [i]\<rparr>))
      else Inr (st\<lparr>d_visited := (d_visited st)(i \<mapsto> True), d_dfs := d_dfs st @ [i]\<rparr>))"

fun dfs_loop :: "nat \<Rightarrow> hlo_module \<Rightarrow> dfs_state \<Rightarrow> iid list statusor" where
  "dfs_loop 0 m st = (if d_to_visit st = [] then Inr (d_dfs st) else Inl (Undefined ''no end reached''))"
| "dfs_loop (Suc fuel) m st =
     (case d_to_visit st of
        [] \<Rightarrow> Inr (d_dfs st)
      | i # rest \<Rightarrow>
          (case d_visited st i of
             None \<Rightarrow> dfs_loop fuel m (expand m i st)
           | Some done \<Rightarrow>
               let st = st\<lparr>d_to_visit := rest\<rparr> in
               if done then dfs_loop fuel m st
               else bindR (finish m i st) (\<lambda>st. dfs_loop fuel m st)))"

definition ColorSortedPostorder :: "nat \<Rightarrow> hlo_module \<Rightarrow> cid \<Rightarrow> iid list statusor" where
  "ColorSortedPostorder fuel m c =
     dfs_loop fuel m \<lparr>d_to_visit = [root m c], d_dfs = [], d_visited = Map.empty, d_color_priority = Map.empty,
       d_last_color = None, d_next_priority = 1\<rparr>"

section \<open>The invariant of the search\<close>

text \<open>
  What the pass relies on: the elements of a custom call's result are its only users, each
  listed once. \<open>U\<close> is the set of instructions of the computation.
\<close>

definition elements_grouped :: "hlo_module \<Rightarrow> iid set \<Rightarrow> bool" where
  "elements_grouped m U \<longleftrightarrow>
     (\<forall>i \<in> U. opcode m i = kGetTupleElement \<longrightarrow> operands m i \<noteq> [] \<and>
        (opcode m (operands m i ! 0) = kCustomCall \<longrightarrow>
           distinct (users m (operands m i ! 0)) \<and> i \<in> set (users m (operands m i ! 0)) \<and>
           (\<forall>u \<in> set (users m (operands m i ! 0)). opcode m u = kGetTupleElement \<and>
              operands m u = [operands m i ! 0])))"

definition ranked :: "hlo_module \<Rightarrow> iid set \<Rightarrow> (iid \<Rightarrow> nat) \<Rightarrow> bool" where
  "ranked m U rank \<longleftrightarrow> (\<forall>i \<in> U. \<forall>j \<in> set (operands m i). j \<in> U \<and> rank j < rank i)"

text \<open>
  White instructions are not in \<open>d_visited\<close>, grey ones are expanded, black ones are in the
  result. Operands of a grey instruction are black or nearer to the top of the stack than it
  is, all that is nearer has a smaller rank, the result is topologically sorted, and elements
  of one custom call are black together.
\<close>

fun before :: "'a list \<Rightarrow> 'a \<Rightarrow> 'a set" where
  "before [] i = {}"
| "before (x # xs) i = (if x = i then {} else insert x (before xs i))"

lemma before_append: "before (ys @ xs) i = (if i \<in> set ys then before ys i else set ys \<union> before xs i)"
  by (induction ys) auto

definition dfs_inv :: "hlo_module \<Rightarrow> iid set \<Rightarrow> (iid \<Rightarrow> nat) \<Rightarrow> iid \<Rightarrow> dfs_state \<Rightarrow> bool" where
  "dfs_inv m U rank r st \<longleftrightarrow>
     set (d_to_visit st) \<subseteq> U \<and>
     (\<forall>i. d_visited st i = Some True \<longleftrightarrow> i \<in> set (d_dfs st)) \<and>
     (\<forall>i j. d_visited st i = Some False \<longrightarrow> j \<in> set (operands m i) \<longrightarrow>
        j \<in> set (d_dfs st) \<or> j \<in> before (d_to_visit st) i) \<and>
     (\<forall>i j. d_visited st i = Some False \<longrightarrow> j \<in> before (d_to_visit st) i \<longrightarrow> rank j < rank i) \<and>
     topo_sorted (operands m) [] (d_dfs st) \<and>
     (\<forall>i \<in> set (d_dfs st). opcode m i = kGetTupleElement \<longrightarrow> opcode m (operands m i ! 0) = kCustomCall \<longrightarrow>
        set (users m (operands m i ! 0)) \<subseteq> set (d_dfs st)) \<and>
     (r \<in> set (d_to_visit st) \<or> r \<in> set (d_dfs st))"

lemma topo_snoc_group:
  assumes "topo_sorted ops [] xs" and "distinct us" and "set us \<inter> set xs = {}"
    and "\<And>u. u \<in> set us \<Longrightarrow> set (ops u) \<subseteq> set xs"
  shows "topo_sorted ops [] (xs @ us)"
proof -
  have "topo_sorted ops seen us" if "distinct us" "set us \<inter> set seen = {}"
    "\<And>u. u \<in> set us \<Longrightarrow> set (ops u) \<subseteq> set seen" for seen us
    using that
  proof (induction us arbitrary: seen)
    case (Cons u us)
    have "topo_sorted ops (u # seen) us"
      by (rule Cons.IH) (use Cons.prems in \<open>auto dest: subsetD[rotated]\<close>)
    then show ?case using Cons.prems(2) Cons.prems(3)[of u] by auto
  qed simp
  then show ?thesis using assms by (simp add: topo_sorted_append)
qed

lemma expand_inv:
  assumes inv: "dfs_inv m U rank r st" and rk: "ranked m U rank"
    and st: "d_to_visit st = i # rest" and white: "d_visited st i = None"
  shows "dfs_inv m U rank r (expand m i st)"
proof -
  obtain ops where top: "d_to_visit (expand m i st) = ops @ i # rest" and ops: "set ops = set (operands m i)"
    and vis: "d_visited (expand m i st) = (d_visited st)(i \<mapsto> False)" and dfs: "d_dfs (expand m i st) = d_dfs st"
    using st by (simp add: expand_def Let_def)
  have iU: "i \<in> U" using inv st by (simp add: dfs_inv_def)
  have opsU: "j \<in> U \<and> rank j < rank i" if "j \<in> set ops" for j using rk iU ops that by (auto simp: ranked_def)
  have i_ops: "i \<notin> set ops" using opsU by auto
  have grey: "before (ops @ i # rest) k = set ops \<union> insert i (before rest k) \<and> rank i < rank k"
    if k: "d_visited st k = Some False" for k
  proof -
    have ki: "k \<noteq> i" using k white by auto
    then have "rank i < rank k" using inv k st unfolding dfs_inv_def by auto
    then have "k \<notin> set ops" using opsU by force
    then show ?thesis using ki \<open>rank i < rank k\<close> by (auto simp: before_append)
  qed
  have self: "before (ops @ i # rest) i = set ops" using i_ops by (simp add: before_append)
  have ndfs: "i \<notin> set (d_dfs st)" using inv white unfolding dfs_inv_def by (metis option.distinct(1))
  show ?thesis
    unfolding dfs_inv_def top vis dfs
  proof (intro conjI allI impI)
    show "set (ops @ i # rest) \<subseteq> U" using inv st opsU unfolding dfs_inv_def by auto
    show "((d_visited st)(i \<mapsto> False)) k = Some True \<longleftrightarrow> k \<in> set (d_dfs st)" for k
      using inv ndfs unfolding dfs_inv_def by (auto split: if_splits)
    show "topo_sorted (operands m) [] (d_dfs st)" using inv by (simp add: dfs_inv_def)
    show "\<forall>k \<in> set (d_dfs st). opcode m k = kGetTupleElement \<longrightarrow> opcode m (operands m k ! 0) = kCustomCall \<longrightarrow>
        set (users m (operands m k ! 0)) \<subseteq> set (d_dfs st)"
      using inv by (simp add: dfs_inv_def)
    show "r \<in> set (ops @ i # rest) \<or> r \<in> set (d_dfs st)" using inv st by (auto simp: dfs_inv_def)
  next
    fix k j assume k: "((d_visited st)(i \<mapsto> False)) k = Some False" and j: "j \<in> set (operands m k)"
    show "j \<in> set (d_dfs st) \<or> j \<in> before (ops @ i # rest) k"
    proof (cases "k = i")
      case True
      then show ?thesis using j self ops by simp
    next
      case False
      then have kf: "d_visited st k = Some False" using k by simp
      then have "j \<in> set (d_dfs st) \<or> j \<in> before (i # rest) k" using inv j st unfolding dfs_inv_def by metis
      then show ?thesis using grey[OF kf] False by auto
    qed
  next
    fix k j assume k: "((d_visited st)(i \<mapsto> False)) k = Some False" and j: "j \<in> before (ops @ i # rest) k"
    show "rank j < rank k"
    proof (cases "k = i")
      case True
      then show ?thesis using j self opsU by simp
    next
      case False
      then have kf: "d_visited st k = Some False" using k by simp
      have "\<And>j. j \<in> before (i # rest) k \<Longrightarrow> rank j < rank k" using inv kf st unfolding dfs_inv_def by metis
      then show ?thesis using grey[OF kf] j opsU False by (auto intro: less_trans)
    qed
  qed
qed

lemma pop_inv:
  assumes inv: "dfs_inv m U rank r st" and st: "d_to_visit st = i # rest" and black: "d_visited st i = Some True"
  shows "dfs_inv m U rank r (st\<lparr>d_to_visit := rest\<rparr>)"
proof -
  have i: "i \<in> set (d_dfs st)" using inv black by (simp add: dfs_inv_def)
  have grey: "before (i # rest) k = insert i (before rest k)" if "d_visited st k = Some False" for k
    using that black by auto
  show ?thesis
    unfolding dfs_inv_def
  proof (intro conjI allI impI)
    fix k j assume "d_visited (st\<lparr>d_to_visit := rest\<rparr>) k = Some False" and j: "j \<in> set (operands m k)"
    then have k: "d_visited st k = Some False" by simp
    have "j \<in> set (d_dfs st) \<or> j \<in> before (i # rest) k" using inv k j st unfolding dfs_inv_def by metis
    then show "j \<in> set (d_dfs (st\<lparr>d_to_visit := rest\<rparr>)) \<or> j \<in> before (d_to_visit (st\<lparr>d_to_visit := rest\<rparr>)) k"
      using grey[OF k] i by auto
  next
    fix k j assume "d_visited (st\<lparr>d_to_visit := rest\<rparr>) k = Some False" and j: "j \<in> before (d_to_visit (st\<lparr>d_to_visit := rest\<rparr>)) k"
    then have k: "d_visited st k = Some False" by simp
    have "j \<in> before (i # rest) k" using j grey[OF k] by simp
    then show "rank j < rank k" using inv k st unfolding dfs_inv_def by metis
  qed (use inv i st in \<open>auto simp: dfs_inv_def\<close>)
qed

lemma dfs_inv_group:
  assumes "dfs_inv m U rank r st" and "k \<in> set (d_dfs st)" and "opcode m k = kGetTupleElement"
    and "opcode m (operands m k ! 0) = kCustomCall"
  shows "set (users m (operands m k ! 0)) \<subseteq> set (d_dfs st)"
  using assms unfolding dfs_inv_def by blast

definition blacken :: "iid list \<Rightarrow> dfs_state \<Rightarrow> dfs_state" where
  "blacken us st = st\<lparr>d_dfs := d_dfs st @ us, d_visited := (\<lambda>k. if k \<in> set us then Some True else d_visited st k)\<rparr>"

lemma blacken_fold:
  "foldl (\<lambda>st user. st\<lparr>d_dfs := d_dfs st @ [user], d_visited := (d_visited st)(user \<mapsto> True)\<rparr>) st us = blacken us st"
  by (induction us arbitrary: st) (auto simp: blacken_def fun_eq_iff)

lemma blacken_inv:
  assumes inv: "dfs_inv m U rank r st" and st: "d_to_visit st = i # rest" and grey: "d_visited st i = Some False"
    and us: "i \<in> set us" "distinct us" "set us \<inter> set (d_dfs st) = {}"
    and ops: "\<And>u. u \<in> set us \<Longrightarrow> set (operands m u) \<subseteq> set (d_dfs st)"
    and grp: "\<And>u. u \<in> set us \<Longrightarrow> opcode m u = kGetTupleElement \<Longrightarrow> opcode m (operands m u ! 0) = kCustomCall \<Longrightarrow>
      set (users m (operands m u ! 0)) \<subseteq> set us"
  shows "dfs_inv m U rank r (blacken us (st\<lparr>d_to_visit := rest\<rparr>))"
proof -
  let ?st = "blacken us (st\<lparr>d_to_visit := rest\<rparr>)"
  have f: "d_to_visit ?st = rest" "d_dfs ?st = d_dfs st @ us"
    "\<And>k. d_visited ?st k = (if k \<in> set us then Some True else d_visited st k)"
    by (simp_all add: blacken_def)
  have old: "before (i # rest) k = insert i (before rest k)" if "k \<notin> set us" for k using that us(1) by auto
  show ?thesis
    unfolding dfs_inv_def f
  proof (intro conjI allI impI ballI)
    fix k j assume "(if k \<in> set us then Some True else d_visited st k) = Some False" and j: "j \<in> set (operands m k)"
    then have k: "d_visited st k = Some False" "k \<notin> set us" by (auto split: if_splits)
    have "j \<in> set (d_dfs st) \<or> j \<in> before (i # rest) k" using inv k(1) j st unfolding dfs_inv_def by metis
    then show "j \<in> set (d_dfs st @ us) \<or> j \<in> before rest k" using old[OF k(2)] us(1) by auto
  next
    fix k j assume "(if k \<in> set us then Some True else d_visited st k) = Some False" and j: "j \<in> before rest k"
    then have k: "d_visited st k = Some False" "k \<notin> set us" by (auto split: if_splits)
    have "j \<in> before (i # rest) k" using j old[OF k(2)] by simp
    then show "rank j < rank k" using inv k st unfolding dfs_inv_def by metis
  next
    show "topo_sorted (operands m) [] (d_dfs st @ us)"
      by (rule topo_snoc_group) (use inv us ops in \<open>auto simp: dfs_inv_def\<close>)
  next
    fix k assume k: "k \<in> set (d_dfs st @ us)" "opcode m k = kGetTupleElement" "opcode m (operands m k ! 0) = kCustomCall"
    then show "set (users m (operands m k ! 0)) \<subseteq> set (d_dfs st @ us)"
      using grp[of k] dfs_inv_group[OF inv, of k] by (cases "k \<in> set us") auto
  qed (use inv st us in \<open>auto simp: dfs_inv_def\<close>)
qed

lemma grey_operands_black:
  assumes "dfs_inv m U rank r st" and "d_to_visit st = i # rest" and "d_visited st i = Some False"
  shows "set (operands m i) \<subseteq> set (d_dfs st)" and "i \<notin> set (d_dfs st)"
proof -
  show "set (operands m i) \<subseteq> set (d_dfs st)"
  proof
    fix j assume "j \<in> set (operands m i)"
    then have "j \<in> set (d_dfs st) \<or> j \<in> before (d_to_visit st) i" using assms(1,3) unfolding dfs_inv_def by blast
    then show "j \<in> set (d_dfs st)" using assms(2) by simp
  qed
  have "d_visited st i = Some True \<longleftrightarrow> i \<in> set (d_dfs st)" using assms(1) unfolding dfs_inv_def by blast
  then show "i \<notin> set (d_dfs st)" using assms(3) by simp
qed

lemma finish_inv:
  assumes inv: "dfs_inv m U rank r st" and st: "d_to_visit st = i # rest" and grey: "d_visited st i = Some False"
    and el: "elements_grouped m U"
  shows "\<exists>st'. finish m i (st\<lparr>d_to_visit := rest\<rparr>) = Inr st' \<and> dfs_inv m U rank r st' \<and> d_to_visit st' = rest \<and>
    dom (d_visited st) \<subseteq> dom (d_visited st')"
proof -
  note ops = grey_operands_black[OF inv st grey]
  have iU: "i \<in> U" using inv st by (simp add: dfs_inv_def)
  have dm: "dom (d_visited st) \<subseteq> dom (d_visited (blacken us (st\<lparr>d_to_visit := rest\<rparr>)))" for us
    by (auto simp: blacken_def)
  have top: "d_to_visit (blacken us (st\<lparr>d_to_visit := rest\<rparr>)) = rest" for us by (simp add: blacken_def)
  show ?thesis
  proof (cases "opcode m i = kGetTupleElement \<and> opcode m (operands m i ! 0) = kCustomCall")
    case True
    let ?cc = "operands m i ! 0"
    note e = el[unfolded elements_grouped_def, rule_format, OF iU conjunct1[OF True]]
    note e2 = conjunct2[OF e, rule_format, OF conjunct2[OF True]]
    have g: "operands m i \<noteq> []" "distinct (users m ?cc)" "i \<in> set (users m ?cc)"
      and us: "\<And>u. u \<in> set (users m ?cc) \<Longrightarrow> opcode m u = kGetTupleElement \<and> operands m u = [?cc]"
      using conjunct1[OF e] e2 by blast+
    have cc: "?cc \<in> set (d_dfs st)" using ops(1) g(1) by (cases "operands m i") auto
    have "u \<notin> set (d_dfs st)" if u: "u \<in> set (users m ?cc)" for u
    proof
      assume "u \<in> set (d_dfs st)"
      then have "set (users m ?cc) \<subseteq> set (d_dfs st)" using dfs_inv_group[OF inv, of u] us[OF u] True by simp
      then show False using g(3) ops(2) by blast
    qed
    then have "dfs_inv m U rank r (blacken (users m ?cc) (st\<lparr>d_to_visit := rest\<rparr>))"
      by (intro blacken_inv[OF inv st grey g(3,2)]) (use us cc in auto)
    moreover have "finish m i (st\<lparr>d_to_visit := rest\<rparr>) = Inr (blacken (users m ?cc) (st\<lparr>d_to_visit := rest\<rparr>))"
      using True g(1) by (simp add: finish_def blacken_fold)
    ultimately show ?thesis using dm top by blast
  next
    case False
    have "dfs_inv m U rank r (blacken [i] (st\<lparr>d_to_visit := rest\<rparr>))"
      by (rule blacken_inv[OF inv st grey]) (use ops False in auto)
    moreover have "finish m i (st\<lparr>d_to_visit := rest\<rparr>) = Inr (blacken [i] (st\<lparr>d_to_visit := rest\<rparr>))"
    proof -
      have "opcode m i = kGetTupleElement \<Longrightarrow> operands m i \<noteq> []"
        using el iU unfolding elements_grouped_def by blast
      then show ?thesis using False by (auto simp: finish_def blacken_def fun_eq_iff)
    qed
    ultimately show ?thesis using dm top by blast
  qed
qed

definition dfs_work :: "hlo_module \<Rightarrow> iid set \<Rightarrow> dfs_state \<Rightarrow> nat" where
  "dfs_work m U st = length (d_to_visit st) + (\<Sum>i \<in> U - dom (d_visited st). Suc (length (operands m i)))"

lemma expand_work:
  assumes "finite U" and "d_to_visit st = i # rest" and "i \<in> U" and "d_visited st i = None"
  shows "Suc (dfs_work m U (expand m i st)) = dfs_work m U st"
proof -
  have "U - dom (d_visited (expand m i st)) = (U - dom (d_visited st)) - {i}"
    by (auto simp: expand_def Let_def)
  moreover have "length (d_to_visit (expand m i st)) = length (operands m i) + length (d_to_visit st)"
    by (simp add: expand_def Let_def)
  moreover have "i \<in> U - dom (d_visited st)" using assms by auto
  ultimately show ?thesis using assms(1) sum.remove[of "U - dom (d_visited st)" i "\<lambda>i. Suc (length (operands m i))"]
    by (simp add: dfs_work_def)
qed

lemma pop_work:
  assumes "finite U" and "d_to_visit st = i # rest" and "d_to_visit st' = rest" and "dom (d_visited st) \<subseteq> dom (d_visited st')"
  shows "dfs_work m U st' < dfs_work m U st"
proof -
  have "(\<Sum>i \<in> U - dom (d_visited st'). Suc (length (operands m i))) \<le> (\<Sum>i \<in> U - dom (d_visited st). Suc (length (operands m i)))"
    using assms(1,4) by (intro sum_mono2) auto
  then show ?thesis using assms(2,3) by (simp add: dfs_work_def)
qed

lemma dfs_loop_ends:
  assumes "finite U" and "ranked m U rank" and "elements_grouped m U"
    and "dfs_inv m U rank r st" and "dfs_work m U st \<le> fuel"
  shows "\<exists>dfs. dfs_loop fuel m st = Inr dfs \<and> topo_sorted (operands m) [] dfs \<and> r \<in> set dfs"
  using assms(4,5)
proof (induction fuel arbitrary: st)
  case 0
  then have "d_to_visit st = []" by (simp add: dfs_work_def)
  then show ?case using 0(1) by (auto simp: dfs_inv_def)
next
  case (Suc fuel)
  show ?case
  proof (cases "d_to_visit st")
    case Nil
    then show ?thesis using Suc.prems(1) by (auto simp: dfs_inv_def)
  next
    case (Cons i rest)
    have iU: "i \<in> U" using Suc.prems(1) Cons by (simp add: dfs_inv_def)
    consider (white) "d_visited st i = None" | (grey) "d_visited st i = Some False" | (black) "d_visited st i = Some True"
      by (cases "d_visited st i") auto
    then show ?thesis
    proof cases
      case white
      have "dfs_work m U (expand m i st) \<le> fuel"
        using expand_work[OF assms(1) Cons iU white, of m] Suc.prems(2) by simp
      then show ?thesis
        using Suc.IH[OF expand_inv[OF Suc.prems(1) assms(2) Cons white]] Cons white by simp
    next
      case grey
      obtain st' where st': "finish m i (st\<lparr>d_to_visit := rest\<rparr>) = Inr st'" "dfs_inv m U rank r st'"
        "d_to_visit st' = rest" "dom (d_visited st) \<subseteq> dom (d_visited st')"
        using finish_inv[OF Suc.prems(1) Cons grey assms(3)] by blast
      have "dfs_work m U st' \<le> fuel" using pop_work[OF assms(1) Cons st'(3,4), of m] Suc.prems(2) by simp
      then show ?thesis using Suc.IH[OF st'(2)] st'(1) Cons grey by (simp add: Let_def)
    next
      case black
      have "dfs_work m U (st\<lparr>d_to_visit := rest\<rparr>) \<le> fuel"
        using pop_work[OF assms(1) Cons, of "st\<lparr>d_to_visit := rest\<rparr>" m] Suc.prems(2) by simp
      then show ?thesis
        using Suc.IH[OF pop_inv[OF Suc.prems(1) Cons black]] Cons black by (simp add: Let_def)
    qed
  qed
qed

lemma topo_sorted_ranked:
  assumes "topo_sorted (operands m) [] po"
  shows "\<exists>rank. ranked m (set po) rank \<and> (\<forall>i \<in> set po. rank i < length po)"
proof -
  have dist: "distinct po" using topo_sorted_distinct[OF assms] by simp
  define rank where "rank i = (LEAST k. k < length po \<and> po ! k = i)" for i
  have rank: "rank (po ! k) = k" if "k < length po" for k
    unfolding rank_def using that dist by (intro Least_equality) (auto simp: nth_eq_iff_index_eq)
  have "j \<in> set po \<and> rank j < rank i" if ij: "i \<in> set po" "j \<in> set (operands m i)" for i j
  proof -
    obtain k where k: "k < length po" "po ! k = i" using ij(1) by (auto simp: in_set_conv_nth)
    have "topo_sorted (operands m) [] (take k po @ i # drop (Suc k) po)"
      using assms id_take_nth_drop[OF k(1)] k(2) by simp
    then have "j \<in> set (take k po)" using ij(2) by (auto simp: topo_sorted_append)
    then obtain l where "l < k" "po ! l = j" using k(1) by (auto simp: in_set_conv_nth)
    then show ?thesis using rank[of l] rank[OF k(1)] k nth_mem[of l po] by auto
  qed
  moreover have "\<forall>i \<in> set po. rank i < length po" using rank by (auto simp: in_set_conv_nth)
  ultimately show ?thesis unfolding ranked_def by blast
qed

lemma ColorSortedPostorder_sorted:
  assumes "wf_computation m c" and "elements_grouped m (set (post_order m c))"
    and "Suc (\<Sum>i \<leftarrow> post_order m c. Suc (length (operands m i))) \<le> fuel"
  shows "\<exists>dfs. ColorSortedPostorder fuel m c = Inr dfs \<and> topo_sorted (operands m) [] dfs \<and> distinct dfs \<and>
    root m c \<in> set dfs"
proof -
  let ?U = "set (post_order m c)"
  have topo: "topo_sorted (operands m) [] (post_order m c)" and r: "root m c \<in> ?U"
    using assms(1) by (simp_all add: wf_computation_def)
  obtain rank where rank: "ranked m ?U rank" using topo_sorted_ranked[OF topo] by blast
  let ?st = "\<lparr>d_to_visit = [root m c], d_dfs = [], d_visited = Map.empty, d_color_priority = Map.empty,
       d_last_color = None, d_next_priority = 1\<rparr>"
  have inv: "dfs_inv m ?U rank (root m c) ?st" using r by (simp add: dfs_inv_def)
  have "distinct (post_order m c)" using topo_sorted_distinct[OF topo] by simp
  then have "dfs_work m ?U ?st \<le> fuel"
    using assms(3) by (simp add: dfs_work_def sum_list_distinct_conv_sum_set)
  then obtain dfs where "dfs_loop fuel m ?st = Inr dfs" "topo_sorted (operands m) [] dfs" "root m c \<in> set dfs"
    using dfs_loop_ends[OF _ rank assms(2) inv] by blast
  then show ?thesis using topo_sorted_distinct[of "operands m" "[]" dfs] by (auto simp: ColorSortedPostorder_def)
qed

text \<open>
  C39. The search ends, with fuel for every instruction and every operand once, and its result
  is a postorder: no instruction twice, operands before their users, the root among them. This
  holds for every coloring; what it takes is that elements of a custom call's result are that
  call's only users.
\<close>

theorem color_sorted_postorder_correct:
  assumes "wf_computation m c" and "elements_grouped m (set (post_order m c))"
    and "Suc (\<Sum>i \<leftarrow> post_order m c. Suc (length (operands m i))) \<le> fuel"
  shows "\<exists>dfs. ColorSortedPostorder fuel m c = Inr dfs \<and> topo_sorted (operands m) [] dfs \<and> distinct dfs \<and>
    root m c \<in> set dfs"
  using assms by (rule ColorSortedPostorder_sorted)

text \<open>A custom call with two elements, added to a parameter.\<close>

definition elements_sample :: hlo_module where
  "elements_sample = sample_module
     [(0, blank_instr\<lparr>i_opcode := kParameter\<rparr>),
      (2, blank_instr\<lparr>i_opcode := kCustomCall, i_operands := [0], i_users := [3, 4]\<rparr>),
      (3, blank_instr\<lparr>i_opcode := kGetTupleElement, i_operands := [2]\<rparr>),
      (4, blank_instr\<lparr>i_opcode := kGetTupleElement, i_operands := [2]\<rparr>),
      (5, blank_instr\<lparr>i_opcode := kAdd, i_operands := [3, 0, 4]\<rparr>)]
     [(0, blank_comp\<lparr>c_root := 5, c_post_order := [0, 2, 3, 4, 5]\<rparr>)]"

theorem color_sorted_postorder_correct_witness:
  "\<exists>dfs. ColorSortedPostorder 12 elements_sample 0 = Inr dfs \<and> topo_sorted (operands elements_sample) [] dfs \<and>
     5 \<in> set dfs"
proof -
  have wf: "wf_computation elements_sample 0"
    by (simp add: wf_computation_def elements_sample_def sample_simps)
  have el: "elements_grouped elements_sample (set (post_order elements_sample 0))"
    by (simp add: elements_grouped_def elements_sample_def sample_simps)
  have fuel: "Suc (\<Sum>i \<leftarrow> post_order elements_sample 0. Suc (length (operands elements_sample i))) \<le> 12"
    by (simp add: elements_sample_def sample_simps)
  have "root elements_sample 0 = 5" by (simp add: elements_sample_def sample_simps)
  then show ?thesis using color_sorted_postorder_correct[OF wf el fuel] by auto
qed

end
