(* ===== verification/Critical_Path.thy ===== *)
theory Critical_Path
  imports Mpmd_Utils "HOL-Library.Multiset"
begin

text \<open>
  \<open>critical_path_finder.cc\<close>: which result of a call feeds the next call of smallest depth. The
  search follows users breadth first and keeps no set of visited instructions; it runs on
  fuel. \<open>parent\<close> is the computation the call is in, \<open>computation\<close> the one whose root gives the
  number of results. Depths and indices are unsigned 64-bit numbers.
\<close>

definition uint64_max :: nat where
  "uint64_max = 2 ^ 64 - 1"

fun first_call_loop :: "nat \<Rightarrow> hlo_module \<Rightarrow> cid \<Rightarrow> (iid \<rightharpoonup> nat) \<Rightarrow> iid list \<Rightarrow> nat statusor" where
  "first_call_loop fuel m parent depth_map [] = Inl (InvalidArgument ''No call or root found'')"
| "first_call_loop 0 m parent depth_map (current # queue) = Inl out_of_fuel"
| "first_call_loop (Suc fuel) m parent depth_map (current # queue) =
     (if opcode m current = kCall \<or> current = root m parent
      then (case depth_map current of None \<Rightarrow> Inl (Throws ''out_of_range'') | Some d \<Rightarrow> Inr d)
      else first_call_loop fuel m parent depth_map (queue @ users m current))"

definition FirstCallDepth :: "nat \<Rightarrow> hlo_module \<Rightarrow> cid \<Rightarrow> (iid \<rightharpoonup> nat) \<Rightarrow> iid \<Rightarrow> nat statusor" where
  "FirstCallDepth fuel m parent depth_map i = first_call_loop fuel m parent depth_map [i]"

definition critical_step ::
  "nat \<Rightarrow> hlo_module \<Rightarrow> cid \<Rightarrow> cid \<Rightarrow> (iid \<rightharpoonup> nat) \<Rightarrow> nat \<times> nat \<Rightarrow> iid \<Rightarrow> (nat \<times> nat) statusor" where
  "critical_step fuel m parent computation depth_map st user =
     (let (min_call_depth, min_call_depth_root_id) = st in
      if opcode m user \<noteq> kGetTupleElement
      then Inl (InvalidArgument ''Call has a user that is not a GTE'')
      else let tuple_index = tuple_index m user in
      if tuple_index \<ge> length (operands m (root m computation))
      then Inl (OutOfRange (i_name (m_instr m user) @ '' has tuple index out of bounds''))
      else bindR (FirstCallDepth fuel m parent depth_map user) (\<lambda>call_depth.
        if call_depth \<le> min_call_depth
        then if call_depth = min_call_depth \<and> tuple_index > min_call_depth_root_id
             then Inr (min_call_depth, min_call_depth_root_id)
             else Inr (call_depth, tuple_index)
        else Inr (min_call_depth, min_call_depth_root_id)))"

definition CriticalRootTupleIndex ::
  "nat \<Rightarrow> hlo_module \<Rightarrow> cid \<Rightarrow> iid \<Rightarrow> cid \<Rightarrow> (iid \<rightharpoonup> nat) \<Rightarrow> nat statusor" where
  "CriticalRootTupleIndex fuel m parent call computation depth_map =
     bindR (foldR (critical_step fuel m parent computation depth_map) (uint64_max, 0) (users m call)) (\<lambda>(_, index).
     Inr index)"

section \<open>The search\<close>

definition users_ranked :: "hlo_module \<Rightarrow> iid set \<Rightarrow> (iid \<Rightarrow> nat) \<Rightarrow> bool" where
  "users_ranked m U rank \<longleftrightarrow> (\<forall>i \<in> U. \<forall>u \<in> set (users m i). u \<in> U \<and> rank u < rank i)"

abbreviation stops_at :: "hlo_module \<Rightarrow> cid \<Rightarrow> iid \<Rightarrow> bool" where
  "stops_at m parent i \<equiv> opcode m i = kCall \<or> i = root m parent"

text \<open>Reached through users without passing a call or the root.\<close>

inductive user_reach :: "hlo_module \<Rightarrow> cid \<Rightarrow> iid \<Rightarrow> iid \<Rightarrow> bool" for m parent where
  reach_refl: "user_reach m parent i i"
| reach_user: "\<not> stops_at m parent i \<Longrightarrow> u \<in> set (users m i) \<Longrightarrow> user_reach m parent u j \<Longrightarrow> user_reach m parent i j"

inductive_cases user_reachE: "user_reach m parent i j"

definition stops_reached :: "hlo_module \<Rightarrow> cid \<Rightarrow> iid list \<Rightarrow> iid set" where
  "stops_reached m parent queue = {x. stops_at m parent x \<and> (\<exists>i \<in> set queue. user_reach m parent i x)}"

definition search_result :: "hlo_module \<Rightarrow> cid \<Rightarrow> (iid \<rightharpoonup> nat) \<Rightarrow> iid list \<Rightarrow> nat statusor \<Rightarrow> bool" where
  "search_result m parent depth_map queue r \<longleftrightarrow>
     (case r of
        Inr d \<Rightarrow> \<exists>x \<in> stops_reached m parent queue. depth_map x = Some d
      | Inl e \<Rightarrow>
          (e = InvalidArgument ''No call or root found'' \<and> stops_reached m parent queue = {}) \<or>
          (e = Throws ''out_of_range'' \<and> (\<exists>x \<in> stops_reached m parent queue. depth_map x = None)))"

lemma stops_reached_step:
  assumes "\<not> stops_at m parent c"
  shows "stops_reached m parent (c # q) = stops_reached m parent (q @ users m c)"
proof -
  have "user_reach m parent c x \<longleftrightarrow> (\<exists>u \<in> set (users m c). user_reach m parent u x)" if "stops_at m parent x" for x
    using assms that by (auto elim: user_reachE intro: reach_user)
  then show ?thesis by (auto simp: stops_reached_def)
qed

lemma search_result_step:
  assumes "\<not> stops_at m parent c" and "search_result m parent depth_map (q @ users m c) r"
  shows "search_result m parent depth_map (c # q) r"
  using assms(2) unfolding search_result_def stops_reached_step[OF assms(1)] .

lemma search_result_stop:
  assumes "stops_at m parent c"
  shows "search_result m parent depth_map (c # q)
    (case depth_map c of None \<Rightarrow> Inl (Throws ''out_of_range'') | Some d \<Rightarrow> Inr d)"
proof -
  have "c \<in> stops_reached m parent (c # q)" using assms reach_refl[of m parent c] by (auto simp: stops_reached_def)
  then show ?thesis by (auto simp: search_result_def split: option.splits)
qed

lemma first_call_loop_ends:
  assumes rk: "users_ranked m U rank" and "set queue \<subseteq> U"
  shows "\<exists>n r. search_result m parent depth_map queue r \<and>
    (\<forall>fuel \<ge> n. first_call_loop fuel m parent depth_map queue = r)"
  using assms(2)
proof (induction "mset (map rank queue)" arbitrary: queue rule: wf_induct_rule[OF wf_mult[OF wf_less_than]])
  case (1 queue)
  show ?case
  proof (cases queue)
    case Nil
    then show ?thesis
      by (intro exI[of _ 0] exI[of _ "Inl (InvalidArgument ''No call or root found'')"]) (simp add: search_result_def stops_reached_def)
  next
    case (Cons c q)
    show ?thesis
    proof (cases "stops_at m parent c")
      case True
      have "first_call_loop fuel m parent depth_map queue =
          (case depth_map c of None \<Rightarrow> Inl (Throws ''out_of_range'') | Some d \<Rightarrow> Inr d)" if "1 \<le> fuel" for fuel
        using that True Cons by (cases fuel) auto
      then show ?thesis using search_result_stop[OF True] Cons by blast
    next
      case False
      have cU: "c \<in> U" using 1(2) Cons by simp
      have "\<forall>k \<in># mset (map rank (users m c)). \<exists>j \<in># {#rank c#}. (k, j) \<in> less_than"
        using rk cU by (auto simp: users_ranked_def)
      then have "(mset (map rank (q @ users m c)), mset (map rank queue)) \<in> mult less_than"
        using one_step_implies_mult[of "{#rank c#}" "mset (map rank (users m c))" less_than "mset (map rank q)"] Cons
        by simp
      moreover have "set (q @ users m c) \<subseteq> U" using 1(2) Cons rk cU by (auto simp: users_ranked_def)
      ultimately obtain n r where r: "search_result m parent depth_map (q @ users m c) r"
        and n: "\<And>fuel. n \<le> fuel \<Longrightarrow> first_call_loop fuel m parent depth_map (q @ users m c) = r"
        using 1(1) by blast
      have "first_call_loop fuel m parent depth_map queue = r" if "Suc n \<le> fuel" for fuel
        using that n[of "fuel - 1"] False Cons by (cases fuel) auto
      then show ?thesis using search_result_step[OF False r] Cons by blast
    qed
  qed
qed

section \<open>The choice of a result\<close>

text \<open>Smaller depth first, smaller index among equals.\<close>

definition key_le :: "nat \<times> nat \<Rightarrow> nat \<times> nat \<Rightarrow> bool" where
  "key_le a b \<longleftrightarrow> fst a < fst b \<or> fst a = fst b \<and> snd a \<le> snd b"

lemma key_le_refl: "key_le a a"
  by (simp add: key_le_def)

lemma key_le_trans: "key_le a b \<Longrightarrow> key_le b c \<Longrightarrow> key_le a c"
  by (auto simp: key_le_def)

lemma critical_fold:
  assumes "\<And>u. u \<in> set us \<Longrightarrow> opcode m u = kGetTupleElement \<and> tuple_index m u < length (operands m (root m computation)) \<and>
      FirstCallDepth fuel m parent depth_map u = Inr (d u)"
  shows "\<exists>k. foldR (critical_step fuel m parent computation depth_map) s us = Inr k \<and>
    (k = s \<or> k \<in> (\<lambda>u. (d u, tuple_index m u)) ` set us) \<and> key_le k s \<and>
    (\<forall>u \<in> set us. key_le k (d u, tuple_index m u))"
  using assms
proof (induction us arbitrary: s)
  case Nil
  then show ?case by (simp add: key_le_refl)
next
  case (Cons u us)
  let ?f = "critical_step fuel m parent computation depth_map" and ?ku = "(d u, tuple_index m u)"
  obtain s1 where s1: "?f s u = Inr s1" and either: "s1 = s \<or> s1 = ?ku" and le: "key_le s1 s" "key_le s1 ?ku"
  proof -
    have "?f s u = Inr (if key_le s ?ku then s else ?ku)"
      using Cons.prems[of u] by (cases s) (auto simp: critical_step_def key_le_def Let_def)
    then show ?thesis using that[of s] that[of ?ku] by (cases "key_le s ?ku") (auto simp: key_le_def not_less le_less)
  qed
  obtain k where "foldR ?f s1 us = Inr k" "k = s1 \<or> k \<in> (\<lambda>u. (d u, tuple_index m u)) ` set us" "key_le k s1"
    "\<forall>u \<in> set us. key_le k (d u, tuple_index m u)"
    using Cons.IH[of s1] Cons.prems by auto
  then show ?case using s1 either le key_le_trans by (intro exI[of _ k]) auto
qed

text \<open>
  When all users of a call are elements of its result in bounds, each of which leads to a
  call or the root, the chosen result is one of them, of the smallest depth, and among these
  the one of the smallest index. A depth is that of a call or root reached through users
  without passing another.
\<close>

theorem critical_index_minimal:
  assumes "users m call \<noteq> []"
    and users: "\<And>u. u \<in> set (users m call) \<Longrightarrow> opcode m u = kGetTupleElement \<and>
      tuple_index m u < length (operands m (root m computation)) \<and>
      FirstCallDepth fuel m parent depth_map u = Inr (d u) \<and> d u < uint64_max"
  shows "\<exists>u \<in> set (users m call). CriticalRootTupleIndex fuel m parent call computation depth_map = Inr (tuple_index m u) \<and>
    (\<forall>v \<in> set (users m call). key_le (d u, tuple_index m u) (d v, tuple_index m v))"
proof -
  obtain k where k: "foldR (critical_step fuel m parent computation depth_map) (uint64_max, 0) (users m call) = Inr k"
    "k = (uint64_max, 0) \<or> k \<in> (\<lambda>u. (d u, tuple_index m u)) ` set (users m call)"
    "\<forall>u \<in> set (users m call). key_le k (d u, tuple_index m u)"
    using critical_fold[of "users m call" m computation fuel parent depth_map d "(uint64_max, 0)"] users by auto
  have "k \<noteq> (uint64_max, 0)"
  proof
    assume "k = (uint64_max, 0)"
    moreover have "key_le k (d (hd (users m call)), tuple_index m (hd (users m call)))" using k(3) assms(1) by simp
    ultimately show False using users[of "hd (users m call)"] assms(1) by (auto simp: key_le_def not_less le_less)
  qed
  then show ?thesis using k by (auto simp: CriticalRootTupleIndex_def)
qed

definition two_results :: hlo_module where
  "two_results = sample_module
     [(0, blank_instr\<lparr>i_opcode := kCall, i_users := [2, 3]\<rparr>),
      (2, blank_instr\<lparr>i_opcode := kGetTupleElement, i_tuple_index := 0, i_users := [5]\<rparr>),
      (3, blank_instr\<lparr>i_opcode := kGetTupleElement, i_tuple_index := 1, i_users := [4]\<rparr>),
      (4, blank_instr\<lparr>i_opcode := kCall, i_users := [5]\<rparr>),
      (5, blank_instr\<lparr>i_opcode := kTuple, i_operands := [2, 4]\<rparr>)]
     [(0, blank_comp\<lparr>c_root := 5, c_post_order := [0, 2, 3, 4, 5]\<rparr>)]"

theorem critical_index_minimal_witness:
  "CriticalRootTupleIndex 3 two_results 0 0 0 [4 \<mapsto> 2, 5 \<mapsto> 3] = Inr 1"
proof -
  have "users two_results 0 \<noteq> []" by (simp add: two_results_def sample_simps)
  moreover have "opcode two_results u = kGetTupleElement \<and>
      tuple_index two_results u < length (operands two_results (root two_results 0)) \<and>
      FirstCallDepth 3 two_results 0 [4 \<mapsto> 2, 5 \<mapsto> 3] u = Inr (if u = 2 then 3 else 2) \<and>
      (if u = 2 then 3 else 2) < uint64_max" if "u \<in> set (users two_results 0)" for u
    using that
    by (auto simp: two_results_def sample_simps FirstCallDepth_def numeral_3_eq_3 uint64_max_def)
  ultimately show ?thesis
    using critical_index_minimal[of two_results 0 0 3 0 "[4 \<mapsto> 2, 5 \<mapsto> 3]" "\<lambda>u. if u = 2 then 3 else 2"]
    by (auto simp: two_results_def sample_simps key_le_def)
qed

text \<open>
  The breadth-first search ends on every acyclic graph of users, although it may visit an
  instruction many times: some fuel is enough, and beyond it the result is the depth of a call
  or root that is reached, an error if none is, and an exception if one has no depth.
\<close>

theorem first_call_depth_ends:
  assumes "users_ranked m U rank" and "i \<in> U"
  shows "\<exists>n r. search_result m parent depth_map [i] r \<and> (\<forall>fuel \<ge> n. FirstCallDepth fuel m parent depth_map i = r)"
  using first_call_loop_ends[OF assms(1), of "[i]"] assms(2) by (simp add: FirstCallDepth_def)

theorem first_call_depth_ends_witness:
  "\<exists>n r. search_result two_results 0 [4 \<mapsto> 2, 5 \<mapsto> 3] [3] r \<and> (\<forall>fuel \<ge> n. FirstCallDepth fuel two_results 0 [4 \<mapsto> 2, 5 \<mapsto> 3] 3 = r)"
proof -
  have "users_ranked two_results {2, 3, 4, 5} (\<lambda>i. 5 - i)"
    by (simp add: users_ranked_def two_results_def sample_simps)
  then show ?thesis using first_call_depth_ends[of two_results "{2, 3, 4, 5}" "\<lambda>i. 5 - i" 3] by blast
qed

end
