(* ===== verification/Iota_Sanitizer.thy ===== *)
theory Iota_Sanitizer
  imports Hlo_Partition
begin

text \<open>
  \<open>iota_sharding_sanitizer.cc\<close>: every sharding of the module is replaced by one in iota form
  that starts at device 0. What builds, prints and compares shardings belongs to the XLA library and
  is a record of parameters; \<open>sh_neq\<close> is the operator \<open>!=\<close>, which does not tell iota form from
  an equal list of devices.
\<close>

record iota_lib =
  sh_Replicate :: hlo_sharding
  sh_Manual :: hlo_sharding
  sh_AssignDevice :: "int \<Rightarrow> hlo_sharding"
  sh_IotaTile :: "int list \<Rightarrow> hlo_sharding"
  sh_FromProto :: "op_sharding \<Rightarrow> hlo_sharding statusor"
  sh_ToProto :: "hlo_sharding \<Rightarrow> op_sharding"
  sh_neq :: "hlo_sharding \<Rightarrow> hlo_sharding \<Rightarrow> bool"

text \<open>The loop over an explicit device list: consecutive numbers from the first one on.\<close>

fun consecutive_from :: "int \<Rightarrow> int list \<Rightarrow> bool" where
  "consecutive_from n [] = True"
| "consecutive_from n (dev # devs) = (dev = n \<and> consecutive_from (n + 1) devs)"

definition set_iota_offset :: "int \<Rightarrow> op_sharding \<Rightarrow> op_sharding" where
  "set_iota_offset k op = OpSharding (os_type op) (os_tile_assignment_dimensions op) (os_tile_assignment_devices op)
     (os_iota_reshape_dims op) (os_iota_transpose_perm op) k (os_replicate_on_last_tile_dim op) (os_tuple_shardings op)"

definition tuple_proto :: "op_sharding list \<Rightarrow> op_sharding" where
  "tuple_proto subs = OpSharding OS_TUPLE [] [] [] [] 0 False subs"

lemma tuple_elements_smaller: "t \<in> set (tuple_elements s) \<Longrightarrow> size t < size s"
  by (cases s) (auto dest: size_list_estimation'[of _ _ "size _" size])

function ToIotaSharding :: "iota_lib \<Rightarrow> device_list \<Rightarrow> hlo_sharding \<Rightarrow> hlo_sharding statusor" where
  "ToIotaSharding L devices s =
     (let ta = tile_assignment_of s in
      if IsReplicated s then Inr (sh_Replicate L)
      else if IsManual s then Inr (sh_Manual L)
      else if IsTupleSharding s
      then bindR (mapR (\<lambda>sub. bindR (ToIotaSharding L devices sub) (\<lambda>t. Inr (sh_ToProto L t))) (tuple_elements s)) (\<lambda>subs.
           sh_FromProto L (tuple_proto subs))
      else if ReplicateOnLastTileDim s \<and> ta_dims ta = [] then Inl (Undefined ''back of an empty list'')
      else if ReplicateOnLastTileDim s \<and> last (ta_dims ta) = dl_size devices then Inr (sh_Replicate L)
      else if IsTileMaximal s then Inr (sh_AssignDevice L 0)
      else if ta_iota ta = None
      then (if ta_array ta = [] then Inl (Undefined ''begin of an empty array'')
            else if consecutive_from (hd (ta_array ta)) (ta_array ta) then Inr (sh_IotaTile L (ta_dims ta))
            else Inl (InvalidArgument ''only support iota sharding''))
      else sh_FromProto L (set_iota_offset 0 (sh_ToProto L s)))"
  by pat_completeness auto

termination
  by (relation "measure (\<lambda>(_, _, s). size s)") (auto dest: tuple_elements_smaller)

declare ToIotaSharding.simps [simp del]

definition sanitize_sharding :: "iota_lib \<Rightarrow> device_list \<Rightarrow> hlo_module \<times> bool \<Rightarrow> iid \<Rightarrow> (hlo_module \<times> bool) statusor" where
  "sanitize_sharding L devices st i =
     (let (m, changed) = st in
      case sharding_of m i of
        None \<Rightarrow> Inr (m, changed)
      | Some s \<Rightarrow>
          bindR (ToIotaSharding L devices s) (\<lambda>new_sharding.
          if sh_neq L new_sharding s \<or>
             (ta_iota (tile_assignment_of new_sharding) \<noteq> None \<and> ta_iota (tile_assignment_of s) = None)
          then Inr (set_sharding m i new_sharding, True)
          else Inr (m, changed)))"

fun Visit :: "nat \<Rightarrow> iota_lib \<Rightarrow> hlo_partition \<Rightarrow> cid \<Rightarrow> hlo_module \<Rightarrow> (hlo_module \<times> bool) statusor" where
  "Visit 0 L p c m = Inl (Undefined ''no end reached'')"
| "Visit (Suc fuel) L p c m =
     foldR (\<lambda>(m, changed) i.
       bindR (DevicesForInstruction p (Color m i)) (\<lambda>devices.
       bindR (foldR (\<lambda>(m, changed) sub. bindR (Visit fuel L p sub m) (\<lambda>(m, b). Inr (m, changed \<or> b)))
                (m, changed) (called m i)) (\<lambda>st.
       sanitize_sharding L devices st i))) (m, False) (comp_instructions m c)"

definition IotaShardingSanitizer_Run :: "nat \<Rightarrow> iota_lib \<Rightarrow> hlo_partition \<Rightarrow> hlo_module \<Rightarrow> (hlo_module \<times> bool) statusor" where
  "IotaShardingSanitizer_Run fuel L p m = Visit fuel L p (m_entry m) m"

section \<open>What the pass changes\<close>

lemma consecutive_from_iff: "consecutive_from n xs \<longleftrightarrow> xs = map (\<lambda>k. n + int k) [0..<length xs]"
proof (induction xs arbitrary: n)
  case (Cons x xs)
  have "map (\<lambda>k. n + int k) [0..<length (x # xs)] = n # map (\<lambda>k. n + 1 + int k) [0..<length xs]"
    by (simp add: upt_rec[of 0 "Suc (length xs)"] map_Suc_upt[symmetric] del: upt_Suc map_Suc_upt)
  then show ?case using Cons.IH[of "n + 1"] by auto
qed simp

text \<open>
  An explicit list of consecutive devices becomes a full tiling by the same dimensions: the
  first device and the flag for a replicated last dimension do not reach the new sharding.
\<close>

lemma explicit_sharding_tiled:
  assumes "\<not> IsReplicated s" "\<not> IsManual s" "\<not> IsTupleSharding s" "\<not> IsTileMaximal s"
    and "ta_iota (tile_assignment_of s) = None" and "wf_tile_assignment (tile_assignment_of s)"
    and "last (ta_dims (tile_assignment_of s)) \<noteq> dl_size devices" and "ta_array (tile_assignment_of s) \<noteq> []"
  shows "ToIotaSharding L devices s =
    (if ta_array (tile_assignment_of s) =
         map (\<lambda>k. ta_first (tile_assignment_of s) + int k) [0..<length (ta_array (tile_assignment_of s))]
     then Inr (sh_IotaTile L (ta_dims (tile_assignment_of s)))
     else Inl (InvalidArgument ''only support iota sharding''))"
  using assms by (subst ToIotaSharding.simps) (simp add: Let_def consecutive_from_iff wf_tile_assignment_def)

lemma colors_set_sharding [simp]: "Color (set_sharding m i s) = Color m"
  by (simp add: Color_def fun_eq_iff)

lemma sanitize_frame:
  assumes "sanitize_sharding L d (m, ch) i = Inr (m', ch')"
  shows "same_graph m m'" and "Color m' = Color m" and "j \<noteq> i \<Longrightarrow> sharding_of m' j = sharding_of m j"
    and "ch \<Longrightarrow> ch'"
  using assms by (auto simp: sanitize_sharding_def elim!: bindR_InrE split: option.splits if_splits)

lemma Visit_frame:
  "Visit fuel L p c m = Inr (m', ch) \<Longrightarrow> same_graph m m' \<and> Color m' = Color m"
proof (induction fuel arbitrary: c m m' ch)
  case (Suc fuel)
  let ?P = "\<lambda>st. same_graph m (fst st) \<and> Color (fst st) = Color m"
  have "?P (m', ch)"
  proof (rule foldR_invariant[OF Suc.prems[unfolded Visit.simps]])
    show "?P (m, False)" by simp
    fix st i st'
    assume P: "?P st" and r: "(case st of (m, changed) \<Rightarrow> \<lambda>i.
       bindR (DevicesForInstruction p (Color m i)) (\<lambda>devices.
       bindR (foldR (\<lambda>(m, changed) sub. bindR (Visit fuel L p sub m) (\<lambda>(m, b). Inr (m, changed \<or> b)))
                (m, changed) (called m i)) (\<lambda>st. sanitize_sharding L devices st i))) i = Inr st'"
    obtain m1 c1 d st2 where st: "st = (m1, c1)"
      and f: "foldR (\<lambda>(m, changed) sub. bindR (Visit fuel L p sub m) (\<lambda>(m, b). Inr (m, changed \<or> b)))
                (m1, c1) (called m1 i) = Inr st2"
      and s: "sanitize_sharding L d st2 i = Inr st'"
      using r by (cases st) (auto elim!: bindR_InrE)
    have "?P st2"
    proof (rule foldR_invariant[OF f])
      show "?P (m1, c1)" using P st by simp
      fix s sub s' assume "?P s" "(case s of (m, changed) \<Rightarrow> \<lambda>sub. bindR (Visit fuel L p sub m) (\<lambda>(m, b). Inr (m, changed \<or> b))) sub = Inr s'"
      then show "?P s'" using Suc.IH same_graph_trans by (cases s) (fastforce elim!: bindR_InrE)
    qed
    then show "?P st'" using sanitize_frame(1,2)[of L d "fst st2" "snd st2" i "fst st'" "snd st'"] s same_graph_trans by auto
  qed
  then show ?case by simp
qed simp

end
