(* ===== verification/Uniquify_Colors.thy ===== *)
theory Uniquify_Colors
  imports Coloring_Rounds
begin

text \<open>
  \<open>mpmd_uniquify_colors.cc\<close>: every call gets a color of its own, and the registry is recolored
  to match. The hash map from new to old colors is the list of its entries in the order of
  insertion; \<open>walk\<close> is the order in which it is iterated. The search for an unused name and
  the worklist of computations run on fuel.
\<close>

record uniq_state =
  u_module :: hlo_module
  u_color_map :: "(color \<times> color) list"
  u_to_visit :: "cid list"
  u_changed :: bool

text \<open>The loop that puts a number in front of the color until the name is not in the map.\<close>

fun fresh_color :: "nat \<Rightarrow> color list \<Rightarrow> color \<Rightarrow> color \<Rightarrow> nat \<Rightarrow> color statusor" where
  "fresh_color 0 taken c new_color next_color =
     (if new_color \<in> set taken then Inl out_of_fuel else Inr new_color)"
| "fresh_color (Suc fuel) taken c new_color next_color =
     (if new_color \<in> set taken
      then fresh_color fuel taken c (show_nat next_color @ ''.'' @ c) (Suc next_color)
      else Inr new_color)"

definition assign_all :: "color \<Rightarrow> hlo_module \<Rightarrow> iid list \<Rightarrow> hlo_module" where
  "assign_all c m is = foldl (\<lambda>m i. AssignColor m i c) m is"

definition uniquify_call :: "nat \<Rightarrow> uniq_state \<Rightarrow> iid \<Rightarrow> uniq_state statusor" where
  "uniquify_call fuel st i =
     (let m = u_module st in
      case Color m i of
        None \<Rightarrow> Inl (InvalidArgument (m_name m @ '' has call '' @ i_name (m_instr m i) @ '' without color assigned''))
      | Some c \<Rightarrow>
          bindR (fresh_color fuel (map fst (u_color_map st)) c c 0) (\<lambda>new_color.
          let st = st\<lparr>u_color_map := AList.update new_color c (u_color_map st)\<rparr> in
          bindR (calledR m i) (\<lambda>called_comp.
          if new_color \<noteq> c
          then let m = assign_all new_color m (comp_instructions m called_comp);
                   m = assign_all new_color m (users m i) in
               Inr (st\<lparr>u_changed := True, u_module := AssignColor m i new_color\<rparr>)
          else Inr st)))"

definition uniquify_step :: "nat \<Rightarrow> uniq_state \<Rightarrow> iid \<Rightarrow> uniq_state statusor" where
  "uniquify_step fuel st i =
     (let m = u_module st in
      if opcode m i = kWhile
      then bindR (calledR m i) (\<lambda>body. Inr (st\<lparr>u_to_visit := body # u_to_visit st\<rparr>))
      else if opcode m i = kCall then uniquify_call fuel st i
      else Inr st)"

definition keep_parameter :: "uniq_state \<Rightarrow> iid \<Rightarrow> uniq_state" where
  "keep_parameter st i =
     (let m = u_module st in
      if opcode m i = kParameter
      then (case Color m i of
              None \<Rightarrow> st
            | Some c \<Rightarrow> if c \<in> fst ` set (u_color_map st) then st
                        else st\<lparr>u_color_map := AList.update c c (u_color_map st)\<rparr>)
      else st)"

definition uniquify_computation :: "nat \<Rightarrow> uniq_state \<Rightarrow> cid \<Rightarrow> uniq_state statusor" where
  "uniquify_computation fuel st c =
     (let postorder = post_order (u_module st) c in
      bindR (foldR (uniquify_step fuel) st postorder) (\<lambda>st.
      Inr (foldl keep_parameter st postorder)))"

fun uniquify_loop :: "nat \<Rightarrow> nat \<Rightarrow> uniq_state \<Rightarrow> uniq_state statusor" where
  "uniquify_loop 0 fuel st = (if u_to_visit st = [] then Inr st else Inl out_of_fuel)"
| "uniquify_loop (Suc visits) fuel st =
     (case u_to_visit st of
        [] \<Rightarrow> Inr st
      | c # rest \<Rightarrow> bindR (uniquify_computation fuel (st\<lparr>u_to_visit := rest\<rparr>) c) (\<lambda>st. uniquify_loop visits fuel st))"

definition MpmdUniquifyColors_Run ::
  "nat \<Rightarrow> nat \<Rightarrow> ((color \<times> color) list \<Rightarrow> (color \<times> color) list) \<Rightarrow> color_state \<Rightarrow> (bool \<times> color_state) statusor" where
  "MpmdUniquifyColors_Run visits fuel walk st =
     (let (m, p) = st in
      bindR (uniquify_loop visits fuel \<lparr>u_module = m, u_color_map = [], u_to_visit = [m_entry m], u_changed = False\<rparr>) (\<lambda>u.
      bindR (Recolor p (walk (u_color_map u))) (\<lambda>p.
      Inr (u_changed u, (u_module u, p)))))"

section \<open>Unused names\<close>

lemma fresh_color_unused: "fresh_color fuel taken c n k = Inr new \<Longrightarrow> new \<notin> set taken"
  by (induction fuel arbitrary: n k) (auto split: if_splits)

lemma numbered_inject [simp]: "show_nat k @ ''.'' @ c = show_nat l @ ''.'' @ c \<longleftrightarrow> k = l"
  by simp

lemma fresh_color_candidates:
  "(\<exists>l < fuel. show_nat (k + l) @ ''.'' @ c \<notin> set taken) \<Longrightarrow> \<exists>new. fresh_color fuel taken c n k = Inr new"
proof (induction fuel arbitrary: n k)
  case (Suc fuel)
  then obtain l where l: "l < Suc fuel" "show_nat (k + l) @ ''.'' @ c \<notin> set taken" by blast
  show ?case
  proof (cases l)
    case 0
    then show ?thesis using l by (cases fuel) auto
  next
    case (Suc l')
    then have "\<exists>l < fuel. show_nat (Suc k + l) @ ''.'' @ c \<notin> set taken" using l by (intro exI[of _ l']) auto
    then show ?thesis using Suc.IH by auto
  qed
qed simp

lemma fresh_color_ends:
  assumes "length taken < fuel"
  shows "\<exists>new. fresh_color fuel taken c n k = Inr new"
proof (rule fresh_color_candidates, rule ccontr)
  assume "\<not> (\<exists>l < fuel. show_nat (k + l) @ ''.'' @ c \<notin> set taken)"
  then have "(\<lambda>l. show_nat (k + l) @ ''.'' @ c) ` {..<fuel} \<subseteq> set taken" by auto
  moreover have "inj_on (\<lambda>l. show_nat (k + l) @ ''.'' @ c) {..<fuel}" by (auto simp: inj_on_def)
  ultimately have "fuel \<le> card (set taken)"
    using card_mono[of "set taken"] card_image[of _ "{..<fuel}"] by (metis List.finite_set card_lessThan)
  then show False using assms card_length[of taken] by simp
qed

section \<open>One color per call\<close>

text \<open>The computations in the order in which the pass visits them, and their calls.\<close>

definition while_bodies :: "hlo_module \<Rightarrow> iid list \<Rightarrow> cid list" where
  "while_bodies m is = map (\<lambda>i. hd (called m i)) (filter (\<lambda>i. opcode m i = kWhile) is)"

definition calls_in :: "hlo_module \<Rightarrow> iid list \<Rightarrow> iid list" where
  "calls_in m is = filter (\<lambda>i. opcode m i = kCall) is"

fun visit_order :: "nat \<Rightarrow> hlo_module \<Rightarrow> cid list \<Rightarrow> cid list" where
  "visit_order 0 m cs = []"
| "visit_order (Suc n) m [] = []"
| "visit_order (Suc n) m (c # rest) = c # visit_order n m (rev (while_bodies m (post_order m c)) @ rest)"

definition calls_of :: "nat \<Rightarrow> hlo_module \<Rightarrow> cid list \<Rightarrow> iid list" where
  "calls_of n m cs = concat (map (\<lambda>c. calls_in m (post_order m c)) (visit_order n m cs))"

text \<open>No call is a user of another one's result or lies inside a called computation.\<close>

definition calls_apart :: "hlo_module \<Rightarrow> iid set \<Rightarrow> bool" where
  "calls_apart m A \<longleftrightarrow> (\<forall>i \<in> A. \<forall>j \<in> A. j \<notin> set (users m i) \<and> (\<forall>d \<in> set (called m i). j \<notin> set (comp_instructions m d)))"

definition uniq_inv :: "hlo_module \<Rightarrow> iid set \<Rightarrow> iid set \<Rightarrow> uniq_state \<Rightarrow> bool" where
  "uniq_inv g A D st \<longleftrightarrow>
     same_graph g (u_module st) \<and> distinct (map fst (u_color_map st)) \<and> inj_on (Color (u_module st)) D \<and>
     (\<forall>i \<in> D. \<exists>c n. Color g i = Some c \<and> Color (u_module st) i = Some n \<and> map_of (u_color_map st) n = Some c) \<and>
     (\<forall>i \<in> A - D. Color (u_module st) i = Color g i)"

lemma assign_all_color: "Color (assign_all c m is) j = (if j \<in> set is then Some c else Color m j)"
  by (simp add: assign_all_def)

lemma assign_all_graph: "same_graph m (assign_all c m is)"
  by (simp add: assign_all_def colors.put_all_frame)

lemma update_new: "n \<notin> fst ` set xs \<Longrightarrow> AList.update n c xs = xs @ [(n, c)]"
  by (induction xs) auto

lemma uniquify_call_inv:
  assumes run: "uniquify_call fuel st i = Inr st'" and inv: "uniq_inv g A D st"
    and i: "i \<in> A" "i \<notin> D" "D \<subseteq> A" and apart: "calls_apart g A"
  shows "uniq_inv g A (insert i D) st' \<and> u_to_visit st' = u_to_visit st"
proof -
  let ?m = "u_module st" and ?cm = "u_color_map st"
  have gm: "same_graph g ?m" using inv by (simp add: uniq_inv_def)
  obtain c new d where c: "Color ?m i = Some c" and new: "fresh_color fuel (map fst ?cm) c c 0 = Inr new"
    and d: "calledR ?m i = Inr d"
    and st': "st' = (if new \<noteq> c
       then st\<lparr>u_color_map := AList.update new c ?cm, u_changed := True, u_module :=
         AssignColor (assign_all new (assign_all new ?m (comp_instructions ?m d)) (users (assign_all new ?m (comp_instructions ?m d)) i)) i new\<rparr>
       else st\<lparr>u_color_map := AList.update new c ?cm\<rparr>)"
    using run by (auto simp: uniquify_call_def Let_def split: option.splits if_splits elim!: bindR_InrE)
  have fresh: "new \<notin> fst ` set ?cm" using fresh_color_unused[OF new] by simp
  have cg: "Color g i = Some c" using inv i c by (auto simp: uniq_inv_def)
  have far: "j \<notin> set (users ?m i) \<and> j \<notin> set (comp_instructions ?m d)" if "j \<in> A" for j
    using apart i(1) that calledR_mem[OF d] same_graphD[OF gm] by (simp add: calls_apart_def)
  have us: "users (assign_all new ?m xs) = users ?m" for xs
    using same_graphD(3)[OF assign_all_graph] by simp
  have graph: "same_graph g (u_module st')"
    unfolding st' using gm by (simp, blast intro: same_graph_trans assign_all_graph colors.put_frame)
  have other: "Color (u_module st') j = Color ?m j" if "j \<in> A" "j \<noteq> i" for j
    using far[OF that(1)] that by (simp add: st' assign_all_color us)
  have self: "Color (u_module st') i = Some new" by (simp add: st' c)
  have cm: "u_color_map st' = ?cm @ [(new, c)]" using update_new[OF fresh, of c] by (cases "new = c") (simp_all add: st')
  have old: "\<exists>c n. Color g j = Some c \<and> Color ?m j = Some n \<and> map_of ?cm n = Some c" if "j \<in> D" for j
    using inv that by (simp add: uniq_inv_def del: map_of_eq_Some_iff)
  have keys: "Color ?m j \<noteq> Some new" if "j \<in> D" for j
    using old[OF that] fresh by (metis map_of_eq_None_iff option.distinct(1) option.inject)
  have onD: "Color (u_module st') j = Color ?m j" if "j \<in> D" for j using that i other by blast
  have "inj_on (Color ?m) D" using inv by (simp add: uniq_inv_def)
  then have "inj_on (Color (u_module st')) D" by (simp add: inj_on_def onD)
  moreover have "Color (u_module st') i \<notin> Color (u_module st') ` D" using keys onD self by force
  ultimately have "inj_on (Color (u_module st')) (insert i D)" using i(2) by simp
  moreover have "distinct (map fst (u_color_map st'))" using inv fresh by (auto simp: uniq_inv_def cm)
  moreover have "\<exists>c n. Color g j = Some c \<and> Color (u_module st') j = Some n \<and> map_of (u_color_map st') n = Some c" if j: "j \<in> insert i D" for j
  proof (cases "j = i")
    case True
    have "map_of ?cm new = None" using fresh by (simp add: map_of_eq_None_iff)
    then show ?thesis using True cg self by (simp add: cm map_add_def del: map_of_eq_Some_iff)
  next
    case False
    then obtain c' n where "Color g j = Some c'" "Color ?m j = Some n" "map_of ?cm n = Some c'" using old j by blast
    then show ?thesis using False j onD[of j] by (simp add: cm map_add_def del: map_of_eq_Some_iff)
  qed
  moreover have "Color (u_module st') j = Color g j" if "j \<in> A - insert i D" for j
    using that other inv by (auto simp: uniq_inv_def)
  moreover have "u_to_visit st' = u_to_visit st" by (simp add: st')
  ultimately show ?thesis using graph by (simp add: uniq_inv_def)
qed

lemma uniquify_steps_inv:
  assumes "foldR (uniquify_step fuel) st xs = Inr st'" and "uniq_inv g A D st" and "calls_apart g A"
    and "D \<union> set (calls_in g xs) \<subseteq> A" and "distinct (calls_in g xs)" and "D \<inter> set (calls_in g xs) = {}"
  shows "uniq_inv g A (D \<union> set (calls_in g xs)) st' \<and> u_to_visit st' = rev (while_bodies g xs) @ u_to_visit st"
  using assms
proof (induction xs arbitrary: st D)
  case (Cons i xs)
  obtain st1 where s: "uniquify_step fuel st i = Inr st1" and r: "foldR (uniquify_step fuel) st1 xs = Inr st'"
    using Cons.prems(1) by (auto elim: bindR_InrE)
  have gm: "same_graph g (u_module st)" using Cons.prems(2) by (simp add: uniq_inv_def)
  have op: "opcode (u_module st) i = opcode g i" "called (u_module st) i = called g i" using same_graphD[OF gm] by simp_all
  consider (loop) "opcode g i = kWhile" | (call) "opcode g i = kCall" | (other) "opcode g i \<noteq> kWhile" "opcode g i \<noteq> kCall" by blast
  then show ?case
  proof cases
    case loop
    then obtain d where d: "calledR g i = Inr d" "st1 = st\<lparr>u_to_visit := d # u_to_visit st\<rparr>"
      using s op by (auto simp: uniquify_step_def Let_def calledR_def split: list.splits elim!: bindR_InrE)
    have "uniq_inv g A D st1" using Cons.prems(2) d(2) by (simp add: uniq_inv_def del: map_of_eq_Some_iff)
    moreover have "while_bodies g (i # xs) = d # while_bodies g xs" using loop d
      by (cases "called g i") (auto simp: while_bodies_def calledR_def subR_def)
    ultimately show ?thesis using Cons.IH[OF r, of D] Cons.prems d loop by (simp add: calls_in_def)
  next
    case call
    have "uniquify_call fuel st i = Inr st1" using s call op by (simp add: uniquify_step_def Let_def)
    then have k: "uniq_inv g A (insert i D) st1" "u_to_visit st1 = u_to_visit st"
      using uniquify_call_inv[of fuel st i st1 g A D] Cons.prems call by (auto simp: calls_in_def)
    then show ?thesis using Cons.IH[OF r k(1)] Cons.prems call by (auto simp: calls_in_def while_bodies_def)
  next
    case other
    then have "st1 = st" using s op by (simp add: uniquify_step_def Let_def)
    then show ?thesis using Cons.IH[OF r, of D] Cons.prems other by (simp add: calls_in_def while_bodies_def)
  qed
qed (simp add: calls_in_def while_bodies_def)

lemma keep_parameters_inv:
  assumes "uniq_inv g A D st"
  shows "uniq_inv g A D (foldl keep_parameter st xs) \<and> u_to_visit (foldl keep_parameter st xs) = u_to_visit st"
  using assms
proof (induction xs arbitrary: st)
  case (Cons i xs)
  have "uniq_inv g A D (keep_parameter st i) \<and> u_to_visit (keep_parameter st i) = u_to_visit st"
  proof (cases "keep_parameter st i = st")
    case False
    then obtain c where c: "c \<notin> fst ` set (u_color_map st)" "keep_parameter st i = st\<lparr>u_color_map := AList.update c c (u_color_map st)\<rparr>"
      by (auto simp: keep_parameter_def Let_def split: if_splits option.splits)
    have "map_of (u_color_map st) n \<noteq> None \<Longrightarrow> n \<noteq> c" for n using c(1) by (metis map_of_eq_None_iff)
    then have "map_of (u_color_map st) n = Some x \<Longrightarrow> map_of (u_color_map st @ [(c, c)]) n = Some x" for n x
      by (auto simp: map_add_def)
    then show ?thesis using Cons.prems c unfolding uniq_inv_def by (fastforce simp: update_new[OF c(1)])
  qed (use Cons.prems in simp)
  then show ?case using Cons.IH[of "keep_parameter st i"] by simp
qed simp

lemma uniquify_loop_inv:
  assumes "uniquify_loop visits fuel st = Inr st'" and "uniq_inv g A D st" and "calls_apart g A"
    and "D \<union> set (calls_of visits g (u_to_visit st)) \<subseteq> A" and "distinct (calls_of visits g (u_to_visit st))"
    and "D \<inter> set (calls_of visits g (u_to_visit st)) = {}"
  shows "uniq_inv g A (D \<union> set (calls_of visits g (u_to_visit st))) st'"
  using assms
proof (induction visits arbitrary: st D)
  case 0
  then show ?case by (simp add: calls_of_def split: if_splits)
next
  case (Suc visits)
  show ?case
  proof (cases "u_to_visit st")
    case Nil
    then show ?thesis using Suc.prems by (simp add: calls_of_def)
  next
    case (Cons c rest)
    let ?xs = "post_order g c"
    have gm: "same_graph g (u_module st)" using Suc.prems(2) by (simp add: uniq_inv_def)
    obtain st1 where s: "uniquify_computation fuel (st\<lparr>u_to_visit := rest\<rparr>) c = Inr st1" and r: "uniquify_loop visits fuel st1 = Inr st'"
      using Suc.prems(1) Cons by (auto elim: bindR_InrE)
    obtain st0 where f: "foldR (uniquify_step fuel) (st\<lparr>u_to_visit := rest\<rparr>) ?xs = Inr st0" and st1: "st1 = foldl keep_parameter st0 ?xs"
      using s same_graphD[OF gm] by (auto simp: uniquify_computation_def Let_def elim: bindR_InrE)
    have split: "calls_of (Suc visits) g (u_to_visit st) = calls_in g ?xs @ calls_of visits g (rev (while_bodies g ?xs) @ rest)"
      by (simp add: calls_of_def Cons)
    have "uniq_inv g A D (st\<lparr>u_to_visit := rest\<rparr>)" using Suc.prems(2) by (simp add: uniq_inv_def del: map_of_eq_Some_iff)
    then have k: "uniq_inv g A (D \<union> set (calls_in g ?xs)) st0" "u_to_visit st0 = rev (while_bodies g ?xs) @ rest"
      using uniquify_steps_inv[OF f, of g A D] Suc.prems unfolding split by auto
    have l: "uniq_inv g A (D \<union> set (calls_in g ?xs)) st1" "u_to_visit st1 = rev (while_bodies g ?xs) @ rest"
      using keep_parameters_inv[OF k(1), of ?xs] k(2) by (simp_all add: st1)
    show ?thesis using Suc.IH[OF r l(1)] Suc.prems(3-6) unfolding split l(2) by (simp add: Un_assoc Int_Un_distrib Int_Un_distrib2)
  qed
qed

text \<open>
  C25. When the pass succeeds, no two calls it visits share a color, and the color of each call
  has in the new registry the configuration that the color it had before has in the old one.
  Calls are visited once, are not users of one another, and do not lie in called computations.
\<close>

theorem uniquify_distinct:
  assumes "MpmdUniquifyColors_Run visits fuel walk (m, p) = Inr (changed, (m', p'))"
    and "\<And>xs. mset (walk xs) = mset xs"
    and "distinct (calls_of visits m [m_entry m])" and "calls_apart m (set (calls_of visits m [m_entry m]))"
  shows "same_graph m m' \<and> inj_on (Color m') (set (calls_of visits m [m_entry m])) \<and>
    (\<forall>i \<in> set (calls_of visits m [m_entry m]). \<exists>c n. Color m i = Some c \<and> Color m' i = Some n \<and> HasColor p' n \<and>
       p_colors p' n = p_colors p c)"
proof -
  let ?A = "set (calls_of visits m [m_entry m])"
  let ?st = "\<lparr>u_module = m, u_color_map = [], u_to_visit = [m_entry m], u_changed = False\<rparr>"
  obtain u cs og where u: "uniquify_loop visits fuel ?st = Inr u" "m' = u_module u"
    and r: "recolor_loop (p_colors p) (walk (u_color_map u)) Map.empty (p_original_color p) = Inr (cs, og)"
    and p': "p_colors p' = cs"
    using assms(1) by (auto simp: MpmdUniquifyColors_Run_def Recolor_def elim!: bindR_InrE)
  have "uniq_inv m ?A {} ?st" by (simp add: uniq_inv_def)
  then have inv: "uniq_inv m ?A ?A u" using uniquify_loop_inv[OF u(1), of m ?A "{}"] assms(3,4) by simp
  have ms: "mset (map fst (walk (u_color_map u))) = mset (map fst (u_color_map u))" using assms(2) by simp
  have d: "distinct (map fst (walk (u_color_map u)))"
    using inv mset_eq_imp_distinct_iff[OF ms] by (simp add: uniq_inv_def)
  have cols: "p_colors p' n = p_colors p c \<and> p_colors p c \<noteq> None" if n: "map_of (u_color_map u) n = Some c" for n c
  proof -
    have "(n, c) \<in> set (walk (u_color_map u))" using map_of_SomeD[OF n] assms(2) by (metis mset_eq_setD)
    moreover then have "map_of (walk (u_color_map u)) n = Some c" using d by (simp add: map_of_is_SomeI)
    ultimately show ?thesis using recolor_loop_configs[OF r d, of n] recolor_loop_defined[of "p_colors p" "walk (u_color_map u)" Map.empty "p_original_color p"] r p' by auto
  qed
  show ?thesis using inv cols unfolding uniq_inv_def u(2) HasColor_def by (metis option.distinct(1))
qed

text \<open>Two calls of the same color and a loop over a body with a third.\<close>

definition three_calls :: hlo_module where
  "three_calls = sample_module
     [(2, blank_instr\<lparr>i_opcode := kCall, i_called := [2], i_attrs := [''color'' \<mapsto> ''a'']\<rparr>),
      (3, blank_instr\<lparr>i_opcode := kCall, i_called := [3], i_attrs := [''color'' \<mapsto> ''a'']\<rparr>),
      (4, blank_instr\<lparr>i_opcode := kWhile, i_called := [4]\<rparr>),
      (5, blank_instr\<lparr>i_opcode := kCall, i_called := [2], i_attrs := [''color'' \<mapsto> ''b'']\<rparr>)]
     [(0, blank_comp\<lparr>c_root := 4, c_post_order := [2, 3, 4]\<rparr>), (2, blank_comp\<lparr>c_instructions := [6]\<rparr>),
      (3, blank_comp\<lparr>c_instructions := [7]\<rparr>), (4, blank_comp\<lparr>c_root := 5, c_post_order := [5]\<rparr>)]"

lemma three_calls_of: "calls_of 3 three_calls [m_entry three_calls] = [2, 3, 5]"
  by (simp add: calls_of_def calls_in_def while_bodies_def three_calls_def sample_simps numeral_eq_Suc)

theorem uniquify_distinct_witness:
  "\<exists>changed m' p'. MpmdUniquifyColors_Run 3 5 (\<lambda>xs. xs) (three_calls, two_colors) = Inr (changed, (m', p')) \<and>
     Color m' 2 \<noteq> Color m' 3"
proof -
  have "\<not> isl (MpmdUniquifyColors_Run 3 5 (\<lambda>xs. xs) (three_calls, two_colors))" by code_simp
  then obtain changed m' p' where r: "MpmdUniquifyColors_Run 3 5 (\<lambda>xs. xs) (three_calls, two_colors) = Inr (changed, (m', p'))"
    by (cases "MpmdUniquifyColors_Run 3 5 (\<lambda>xs. xs) (three_calls, two_colors)") auto
  have "calls_apart three_calls {2, 3, 5}"
    by (simp add: calls_apart_def three_calls_def sample_simps)
  then have "inj_on (Color m') {2, 3, 5}" using uniquify_distinct[OF r] by (simp add: three_calls_of)
  then have "Color m' 2 \<noteq> Color m' 3" by (simp add: inj_on_def)
  then show ?thesis using r by blast
qed

end
