(* ===== verification/Buffer_Names.thy ===== *)
theory Buffer_Names
  imports Canonical_Sharding Hlo_Partition Instruction_Properties
begin

text \<open>
  \<open>mpmd_buffer_scheduling_name.cc\<close>: every output of a call or a reshard gets a scheduling name,
  which stands for its buffer; a name is reused when the time model says that its last user is
  done. \<open>mpmd_inplace_collectives.cc\<close>: a collective writes its result over its input.

  The scheduling names in the metadata are a map of their own. The queues of a pool are lists;
  \<open>pq\<close> gives the element a priority queue presents, any one of those that are available first.
  A hash map that is only read through \<open>operator[]\<close> is a function with the default value.
\<close>

section \<open>Pools of buffers\<close>

type_synonym buffer_use = "string \<times> int"

abbreviation available :: "buffer_use \<Rightarrow> int" where
  "available \<equiv> snd"

definition BufferPool_AllocateAtTime ::
  "(buffer_use list \<Rightarrow> buffer_use) \<Rightarrow> int \<Rightarrow> buffer_use list \<Rightarrow> string option \<times> buffer_use list" where
  "BufferPool_AllocateAtTime pq time uses =
     (if uses = [] then (None, uses)
      else if available (pq uses) \<le> time then (Some (fst (pq uses)), remove1 (pq uses) uses)
      else (None, uses))"

definition BufferPool_FreeAtTime :: "int \<Rightarrow> string \<Rightarrow> buffer_use list \<Rightarrow> buffer_use list" where
  "BufferPool_FreeAtTime time name uses = (name, time) # uses"

record buffer_allocator =
  ba_pools :: "sharded_shape \<Rightarrow> buffer_use list"
  ba_shapes :: "string \<Rightarrow> sharded_shape"

definition FreeAtTime :: "int \<Rightarrow> string \<Rightarrow> buffer_allocator \<Rightarrow> buffer_allocator" where
  "FreeAtTime time name a =
     (let shp = ba_shapes a name in
      a\<lparr>ba_pools := (ba_pools a)(shp := BufferPool_FreeAtTime time name (ba_pools a shp))\<rparr>)"

definition AllocateAtTime ::
  "(buffer_use list \<Rightarrow> buffer_use) \<Rightarrow> sharded_shape \<Rightarrow> int \<Rightarrow> string \<Rightarrow> buffer_allocator \<Rightarrow> string \<times> buffer_allocator" where
  "AllocateAtTime pq shp time instruction_name a =
     (let (buffer, pool) = BufferPool_AllocateAtTime pq time (ba_pools a shp);
          name = (case buffer of Some b \<Rightarrow> b | None \<Rightarrow> instruction_name) in
      (name, a\<lparr>ba_pools := (ba_pools a)(shp := pool), ba_shapes := (ba_shapes a)(name := shp)\<rparr>))"

section \<open>The pass\<close>

record naming =
  n_names :: "iid \<Rightarrow> string"
  n_allocator :: buffer_allocator
  n_time_on_mesh :: "device_list \<Rightarrow> int"
  n_times_visited :: "iid \<Rightarrow> nat"
  n_times_available :: "iid \<Rightarrow> int"

definition free_operand :: "hlo_module \<Rightarrow> int \<Rightarrow> naming \<Rightarrow> iid \<Rightarrow> naming statusor" where
  "free_operand m time_done st operand =
     (if IsCustomCall m operand kCustomCallSliceOffset then Inr st
      else if opcode m operand \<noteq> kParameter
      then if n_names st operand = ''''
           then Inl (InvalidArgument (i_name (m_instr m operand) @
                  '' was not assigned a scheduling name in MpmdAssignBufferSchedulingName''))
           else let num_visits = Suc (n_times_visited st operand);
                    st = st\<lparr>n_times_visited := (n_times_visited st)(operand := num_visits)\<rparr> in
                Inr (if num_visits = length (users m operand)
                     then st\<lparr>n_allocator := FreeAtTime time_done (n_names st operand) (n_allocator st)\<rparr> else st)
      else Inr st)"

definition visit_output ::
  "sharding_lib \<Rightarrow> (buffer_use list \<Rightarrow> buffer_use) \<Rightarrow> hlo_module \<Rightarrow> int \<Rightarrow> device_list \<Rightarrow> naming \<Rightarrow> iid \<Rightarrow> naming statusor" where
  "visit_output L pq m time_started devices st output =
     (if n_names st output \<noteq> '''' then Inr st
      else if root m (m_entry m) \<in> set (users m output)
      then Inr (st\<lparr>n_names := (n_names st)(output := i_name (m_instr m output))\<rparr>)
      else bindR (XlaShapeToZukuShape L (i_shape (m_instr m output)) devices
                    (case sharding_of m output of Some s \<Rightarrow> s | None \<Rightarrow> L_Replicate L) True) (\<lambda>user_shape.
           let (name, a) = AllocateAtTime pq user_shape time_started (i_name (m_instr m output)) (n_allocator st) in
           Inr (st\<lparr>n_allocator := a, n_names := (n_names st)(output := name)\<rparr>)))"

definition color_devices_of :: "hlo_module \<Rightarrow> hlo_partition \<Rightarrow> iid \<Rightarrow> device_list statusor" where
  "color_devices_of m p i =
     (case Color m i of
        None \<Rightarrow> Inl (InvalidArgument (''instruction '' @ i_name (m_instr m i) @
                  '' was not assigned a color prior to buffer assignment''))
      | Some c \<Rightarrow> DevicesForColor p c)"

text \<open>One user of a call; the names of the outputs are collected.\<close>

definition visit_user ::
  "sharding_lib \<Rightarrow> (buffer_use list \<Rightarrow> buffer_use) \<Rightarrow> hlo_module \<Rightarrow> int \<Rightarrow> int \<Rightarrow> device_list
     \<Rightarrow> naming \<times> string list \<Rightarrow> iid \<Rightarrow> (naming \<times> string list) statusor" where
  "visit_user L pq m max_operand_time time_done devices acc user =
     (let (st, output_names) = acc;
          st = st\<lparr>n_times_available := (n_times_available st)(user := time_done)\<rparr> in
      bindR (visit_output L pq m max_operand_time devices st user) (\<lambda>st.
      Inr (st, n_names st user # output_names)))"

definition free_unless_output :: "hlo_module \<Rightarrow> int \<Rightarrow> string list \<Rightarrow> naming \<Rightarrow> iid \<Rightarrow> naming statusor" where
  "free_unless_output m time_done output_names st operand =
     (if n_names st operand \<notin> set output_names then free_operand m time_done st operand else Inr st)"

definition name_call ::
  "sharding_lib \<Rightarrow> (buffer_use list \<Rightarrow> buffer_use) \<Rightarrow> hlo_module \<Rightarrow> hlo_partition \<Rightarrow> naming \<Rightarrow> iid \<Rightarrow> naming statusor" where
  "name_call L pq m p st i =
     bindR (color_devices_of m p i) (\<lambda>devices.
     let max_operand_time = foldl (\<lambda>t operand. max (n_times_available st operand) t) (n_time_on_mesh st devices) (operands m i);
         time_done = max_operand_time + 1 in
     bindR (foldR (visit_user L pq m max_operand_time time_done devices) (st, []) (users m i)) (\<lambda>(st, output_names).
     bindR (foldR (free_unless_output m time_done output_names) st (operands m i)) (\<lambda>st.
     Inr (st\<lparr>n_time_on_mesh := (n_time_on_mesh st)(devices := time_done)\<rparr>))))"

definition name_reshard ::
  "sharding_lib \<Rightarrow> (buffer_use list \<Rightarrow> buffer_use) \<Rightarrow> hlo_module \<Rightarrow> hlo_partition \<Rightarrow> naming \<Rightarrow> iid \<Rightarrow> naming statusor" where
  "name_reshard L pq m p st i =
     bindR (color_devices_of m p i) (\<lambda>devices.
     bindR (operandR m i 0) (\<lambda>operand.
     let time_started = n_times_available st operand;
         time_done = time_started + 2 in
     bindR (visit_output L pq m time_started devices st i) (\<lambda>st.
     bindR (if opcode m operand \<noteq> kParameter
            then (case Color m operand of
                    None \<Rightarrow> Inl (InvalidArgument (''instruction '' @ i_name (m_instr m operand) @
                              '' was not assigned a color prior to buffer assignment''))
                  | Some _ \<Rightarrow> free_operand m time_done st operand)
            else Inr st) (\<lambda>st.
     Inr (st\<lparr>n_times_available := (n_times_available st)(i := time_done)\<rparr>)))))"

definition name_step ::
  "sharding_lib \<Rightarrow> (buffer_use list \<Rightarrow> buffer_use) \<Rightarrow> hlo_module \<Rightarrow> hlo_partition \<Rightarrow> naming \<Rightarrow> iid \<Rightarrow> naming statusor" where
  "name_step L pq m p st i =
     (if opcode m i = kCall then name_call L pq m p st i
      else if IsCustomCall m i kCustomCallReshard then name_reshard L pq m p st i
      else Inr st)"

definition name_parameters :: "hlo_module \<Rightarrow> (iid \<Rightarrow> string) \<Rightarrow> iid \<Rightarrow> (iid \<Rightarrow> string)" where
  "name_parameters m names i = names(i := i_name (m_instr m i))"

text \<open>\<open>names\<close> are the scheduling names before the pass; the result holds those after it.\<close>

definition MpmdAssignBufferSchedulingName_Run ::
  "sharding_lib \<Rightarrow> sharded_shape \<Rightarrow> (buffer_use list \<Rightarrow> buffer_use) \<Rightarrow> hlo_partition \<Rightarrow> hlo_module \<Rightarrow> (iid \<Rightarrow> string)
     \<Rightarrow> (bool \<times> (iid \<Rightarrow> string)) statusor" where
  "MpmdAssignBufferSchedulingName_Run L no_shape pq p m names =
     (let c = m_entry m in
      bindR (foldR (name_step L pq m p)
        \<lparr>n_names = foldl (name_parameters m) names (params m c),
         n_allocator = \<lparr>ba_pools = (\<lambda>_. []), ba_shapes = (\<lambda>_. no_shape)\<rparr>,
         n_time_on_mesh = (\<lambda>_. 0), n_times_visited = (\<lambda>_. 0), n_times_available = (\<lambda>_. 0)\<rparr>
        (post_order m c)) (\<lambda>st.
      Inr (True, n_names st)))"

end
