(* ===== verification/Buffer_Safety.thy ===== *)
theory Buffer_Safety
  imports Buffer_Names
begin

text \<open>
  A scheduling name is given to a second instruction only after every user of the first one
  has been visited. This rests on counting each user once: with a call that takes the same
  operand twice the count is wrong, and a buffer is reused too early.
\<close>

section \<open>The allocator\<close>

definition pq_ok :: "(buffer_use list \<Rightarrow> buffer_use) \<Rightarrow> bool" where
  "pq_ok pq \<longleftrightarrow> (\<forall>xs. xs \<noteq> [] \<longrightarrow> pq xs \<in> set xs)"

definition held :: "buffer_allocator \<Rightarrow> string set" where
  "held a = (\<Union>shp. fst ` set (ba_pools a shp))"

text \<open>No name is in the pools twice.\<close>

definition pools_ok :: "buffer_allocator \<Rightarrow> bool" where
  "pools_ok a \<longleftrightarrow> (\<forall>shp. distinct (map fst (ba_pools a shp))) \<and>
     (\<forall>shp shp'. shp \<noteq> shp' \<longrightarrow> fst ` set (ba_pools a shp) \<inter> fst ` set (ba_pools a shp') = {})"

lemma union_at: "(\<Union>s. f s) = f x \<union> (\<Union>s \<in> - {x}. f s)"
  by auto

lemma held_update:
  assumes "pools_ok a"
  shows "held (a\<lparr>ba_pools := (ba_pools a)(shp := xs), ba_shapes := f\<rparr>) =
    (held a - fst ` set (ba_pools a shp)) \<union> fst ` set xs"
proof -
  define rest where "rest = (\<Union>s \<in> - {shp}. fst ` set (ba_pools a s))"
  have "fst ` set (ba_pools a s) \<inter> fst ` set (ba_pools a shp) = {}" if "s \<noteq> shp" for s
    using assms that unfolding pools_ok_def by blast
  then have apart: "rest \<inter> fst ` set (ba_pools a shp) = {}" unfolding rest_def by blast
  have old: "held a = fst ` set (ba_pools a shp) \<union> rest" unfolding held_def rest_def by (rule union_at)
  have "held (a\<lparr>ba_pools := (ba_pools a)(shp := xs), ba_shapes := f\<rparr>) = fst ` set xs \<union> rest"
    unfolding held_def rest_def using union_at[of "\<lambda>s. fst ` set (((ba_pools a)(shp := xs)) s)" shp] by simp
  then show ?thesis using apart unfolding old by blast
qed

lemma pools_ok_update:
  assumes "pools_ok a" and "distinct (map fst xs)" and "fst ` set xs \<inter> (held a - fst ` set (ba_pools a shp)) = {}"
  shows "pools_ok (a\<lparr>ba_pools := (ba_pools a)(shp := xs), ba_shapes := f\<rparr>)"
proof -
  have "fst ` set xs \<inter> fst ` set (ba_pools a shp') = {}" if "shp' \<noteq> shp" for shp'
  proof -
    have "fst ` set (ba_pools a shp') \<subseteq> held a - fst ` set (ba_pools a shp)"
      using assms(1) that unfolding pools_ok_def held_def by blast
    then show ?thesis using assms(3) by blast
  qed
  then show ?thesis using assms(1,2) unfolding pools_ok_def by (auto simp: Int_commute)
qed

lemma FreeAtTime_held:
  assumes "pools_ok a" and "n \<notin> held a"
  shows "pools_ok (FreeAtTime t n a) \<and> held (FreeAtTime t n a) = insert n (held a)"
proof -
  let ?xs = "(n, t) # ba_pools a (ba_shapes a n)"
  have eq: "FreeAtTime t n a = a\<lparr>ba_pools := (ba_pools a)(ba_shapes a n := ?xs), ba_shapes := ba_shapes a\<rparr>"
    by (simp add: FreeAtTime_def BufferPool_FreeAtTime_def Let_def)
  have "n \<notin> fst ` set (ba_pools a (ba_shapes a n))" "fst ` set (ba_pools a (ba_shapes a n)) \<subseteq> held a"
    using assms(2) by (auto simp: held_def)
  then show ?thesis
    using held_update[OF assms(1), where shp = "ba_shapes a n" and xs = ?xs and f = "ba_shapes a"]
      pools_ok_update[OF assms(1), where shp = "ba_shapes a n" and xs = ?xs and f = "ba_shapes a"] assms unfolding eq
    by (auto simp: pools_ok_def)
qed

lemma AllocateAtTime_held:
  assumes "pools_ok a" and "pq_ok pq" and "AllocateAtTime pq shp t own a = (n, a')"
  shows "pools_ok a' \<and> (n = own \<and> held a' = held a \<or> n \<in> held a \<and> held a' = held a - {n})"
proof -
  let ?xs = "ba_pools a shp"
  have sub: "fst ` set ?xs \<subseteq> held a" and dist: "distinct (map fst ?xs)"
    using assms(1) by (auto simp: held_def pools_ok_def)
  show ?thesis
  proof (cases "?xs \<noteq> [] \<and> available (pq ?xs) \<le> t")
    case True
    let ?u = "pq ?xs"
    have u: "?u \<in> set ?xs" using True assms(2) by (simp add: pq_ok_def)
    have n: "n = fst ?u" and a': "a' = a\<lparr>ba_pools := (ba_pools a)(shp := remove1 ?u ?xs), ba_shapes := (ba_shapes a)(n := shp)\<rparr>"
      using assms(3) True by (auto simp: AllocateAtTime_def BufferPool_AllocateAtTime_def Let_def)
    have "distinct ?xs" using dist by (simp add: distinct_map)
    then have s: "set (remove1 ?u ?xs) = set ?xs - {?u}" by simp
    have "inj_on fst (set ?xs)" using dist by (simp add: distinct_map)
    then have img: "fst ` set (remove1 ?u ?xs) = fst ` set ?xs - {n}"
      using u unfolding s n by (simp add: inj_on_image_set_diff)
    have "distinct (map fst (remove1 ?u ?xs))" using dist s \<open>inj_on fst (set ?xs)\<close> \<open>distinct ?xs\<close>
      by (auto simp: distinct_map intro: inj_on_subset)
    then have "pools_ok a'" unfolding a' using img by (intro pools_ok_update[OF assms(1)]) auto
    moreover have "n \<in> fst ` set ?xs" using u n by simp
    moreover have "held a' = (held a - fst ` set ?xs) \<union> (fst ` set ?xs - {n})"
      unfolding a' held_update[OF assms(1)] img ..
    ultimately show ?thesis using sub by blast
  next
    case False
    then have "BufferPool_AllocateAtTime pq t ?xs = (None, ?xs)" by (auto simp: BufferPool_AllocateAtTime_def)
    then have "n = own" and a': "a' = a\<lparr>ba_pools := (ba_pools a)(shp := ?xs), ba_shapes := (ba_shapes a)(n := shp)\<rparr>"
      using assms(3) unfolding AllocateAtTime_def Let_def by (auto simp del: fun_upd_triv)
    moreover have "held a' = held a" unfolding a' held_update[OF assms(1)] using sub by blast
    moreover have "pools_ok a'" unfolding a' using dist by (intro pools_ok_update[OF assms(1)]) auto
    ultimately show ?thesis by blast
  qed
qed

section \<open>Names in use\<close>

definition outs :: "hlo_module \<Rightarrow> iid \<Rightarrow> iid list" where
  "outs m q = (if opcode m q = kCall then users m q else if IsCustomCall m q kCustomCallReshard then [q] else [])"

definition ins :: "hlo_module \<Rightarrow> iid \<Rightarrow> iid list" where
  "ins m q = (if opcode m q = kCall then operands m q
     else if IsCustomCall m q kCustomCallReshard then take 1 (operands m q) else [])"

definition name_of :: "hlo_module \<Rightarrow> iid \<Rightarrow> string" where
  "name_of m i = i_name (m_instr m i)"

text \<open>
  What the naming relies on: outputs and parameters are among \<open>A\<close>, where names are unique and
  not empty; a call has no operand twice, and is listed among the users of its operands.
\<close>

definition step_graph :: "hlo_module \<Rightarrow> iid set \<Rightarrow> iid \<Rightarrow> bool" where
  "step_graph m A q \<longleftrightarrow> set (outs m q) \<subseteq> A \<and> distinct (ins m q) \<and>
     (\<forall>i \<in> set (ins m q). q \<in> set (users m i) \<and> distinct (users m i))"

definition buffer_graph :: "hlo_module \<Rightarrow> iid set \<Rightarrow> bool" where
  "buffer_graph m A \<longleftrightarrow> distinct (post_order m (m_entry m)) \<and> set (params m (m_entry m)) \<subseteq> A \<and>
     inj_on (name_of m) A \<and> (\<forall>i \<in> A. name_of m i \<noteq> '''') \<and> (\<forall>q \<in> set (post_order m (m_entry m)). step_graph m A q)"

text \<open>\<open>X\<close> holds the instructions that have been visited.\<close>

definition names_known :: "hlo_module \<Rightarrow> iid set \<Rightarrow> (iid \<Rightarrow> string) \<Rightarrow> bool" where
  "names_known m A names \<longleftrightarrow> (\<forall>i. names i \<noteq> '''' \<longrightarrow> (\<exists>z \<in> A. names z \<noteq> '''' \<and> name_of m z = names i))"

definition one_live :: "hlo_module \<Rightarrow> iid set \<Rightarrow> (iid \<Rightarrow> string) \<Rightarrow> bool" where
  "one_live m X names \<longleftrightarrow> (\<forall>i j. i \<noteq> j \<longrightarrow> names i = names j \<longrightarrow> names i \<noteq> '''' \<longrightarrow>
     set (users m i) \<subseteq> X \<or> set (users m j) \<subseteq> X)"

definition dead_names :: "hlo_module \<Rightarrow> iid set \<Rightarrow> (iid \<Rightarrow> string) \<Rightarrow> string set \<Rightarrow> bool" where
  "dead_names m X names H \<longleftrightarrow> (\<forall>n \<in> H. n \<noteq> '''' \<and> n \<in> range names \<and> (\<forall>i. names i = n \<longrightarrow> set (users m i) \<subseteq> X))"

definition naming_ok :: "hlo_module \<Rightarrow> iid set \<Rightarrow> iid set \<Rightarrow> naming \<Rightarrow> bool" where
  "naming_ok m A X st \<longleftrightarrow> pools_ok (n_allocator st) \<and> dead_names m X (n_names st) (held (n_allocator st)) \<and>
     names_known m A (n_names st) \<and> one_live m X (n_names st) \<and>
     (\<forall>i. n_times_visited st i \<le> card (set (users m i) \<inter> X))"

definition keeps_names :: "naming \<Rightarrow> naming \<Rightarrow> bool" where
  "keeps_names st st' \<longleftrightarrow> (\<forall>i. n_names st i \<noteq> '''' \<longrightarrow> n_names st' i = n_names st i)"

lemma keeps_names_refl [simp, intro]: "keeps_names st st"
  by (simp add: keeps_names_def)

lemma keeps_names_trans [trans]: "keeps_names a b \<Longrightarrow> keeps_names b c \<Longrightarrow> keeps_names a c"
  by (simp add: keeps_names_def)

lemma naming_ok_fields:
  "naming_ok m A X (st\<lparr>n_times_available := f\<rparr>) = naming_ok m A X st"
  "naming_ok m A X (st\<lparr>n_time_on_mesh := g\<rparr>) = naming_ok m A X st"
  by (simp_all add: naming_ok_def)

text \<open>A name that no instruction has, or one whose holders are all done, can be given away.\<close>

lemma give_name:
  assumes "one_live m X names" and "names_known m A names" and "z \<in> A" and "names z = ''''" and "n \<noteq> ''''"
    and "\<And>i. names i = n \<Longrightarrow> set (users m i) \<subseteq> X" and "n = name_of m z \<or> n \<in> range names"
  shows "one_live m X (names(z := n)) \<and> names_known m A (names(z := n))"
proof
  show "one_live m X (names(z := n))"
    using assms(1,6) unfolding one_live_def by (auto split: if_splits)
  have "\<exists>y \<in> A. (names(z := n)) y \<noteq> '''' \<and> name_of m y = k" if k: "k \<in> range names" "k \<noteq> ''''" for k
  proof -
    obtain y where "y \<in> A" "names y \<noteq> ''''" "name_of m y = k" using assms(2) k unfolding names_known_def by auto
    then show ?thesis using assms(4) by (intro bexI[of _ y]) auto
  qed
  moreover have "\<exists>y \<in> A. (names(z := n)) y \<noteq> '''' \<and> name_of m y = n"
    using assms(3,5,7) calculation[of n] by (metis fun_upd_same)
  ultimately show "names_known m A (names(z := n))"
    unfolding names_known_def by (metis fun_upd_apply rangeI)
qed

definition fresh_for :: "hlo_module \<Rightarrow> iid set \<Rightarrow> naming \<Rightarrow> naming \<Rightarrow> iid \<Rightarrow> bool" where
  "fresh_for m X st st' u \<longleftrightarrow> n_names st u = '''' \<longrightarrow>
     (\<forall>i. i \<noteq> u \<longrightarrow> n_names st' i = n_names st' u \<longrightarrow> 
        n_names st i \<noteq> '''' \<and> set (users m i) \<subseteq> X \<and> n_names st' u \<in> held (n_allocator st))"

lemma visit_output_names:
  assumes run: "visit_output L pq m t devices st u = Inr st'" and ok: "naming_ok m A X st" and u: "u \<in> A"
    and pq: "pq_ok pq" and inj: "inj_on (name_of m) A" and ne: "\<forall>i \<in> A. name_of m i \<noteq> ''''"
  shows "naming_ok m A X st' \<and> keeps_names st st' \<and> n_names st' u \<noteq> '''' \<and> (\<forall>i. i \<noteq> u \<longrightarrow> n_names st' i = n_names st i) \<and>
    held (n_allocator st') \<subseteq> held (n_allocator st) \<and> (n_names st u = '''' \<longrightarrow> n_names st' u \<notin> held (n_allocator st')) \<and>
    (n_names st u = '''' \<longrightarrow> (\<forall>i. n_names st i = n_names st' u \<longrightarrow> n_names st' u \<in> held (n_allocator st) \<and> set (users m i) \<subseteq> X))"
proof (cases "n_names st u = ''''")
  case False
  then show ?thesis using run ok by (simp add: visit_output_def)
next
  case True
  let ?names = "n_names st" and ?a = "n_allocator st" and ?own = "name_of m u"
  have own: "?own \<noteq> ''''" using ne u by simp
  have unused: "?names i \<noteq> ?own" for i
    using ok inj u True own unfolding naming_ok_def names_known_def by (metis inj_onD)
  have dead: "dead_names m X ?names (held ?a)" and pools: "pools_ok ?a" using ok by (simp_all add: naming_ok_def)
  obtain n a' where st': "n_names st' = ?names(u := n)" "n_allocator st' = a'" "n_times_visited st' = n_times_visited st"
    and a: "pools_ok a' \<and> (n = ?own \<and> held a' = held ?a \<or> n \<in> held ?a \<and> held a' = held ?a - {n})"
  proof (cases "root m (m_entry m) \<in> set (users m u)")
    case True
    then show ?thesis using that[of ?own ?a] run pools \<open>?names u = ''''\<close>
      by (auto simp: visit_output_def name_of_def)
  next
    case False
    then obtain shp n a' where al: "AllocateAtTime pq shp t ?own ?a = (n, a')"
      and st': "st' = st\<lparr>n_allocator := a', n_names := ?names(u := n)\<rparr>"
      using run \<open>?names u = ''''\<close> by (auto simp: visit_output_def name_of_def elim!: bindR_InrE split: prod.splits)
    then show ?thesis using that[of n a'] AllocateAtTime_held[OF pools pq al] by simp
  qed
  have n: "n \<noteq> ''''" "\<And>i. ?names i = n \<Longrightarrow> n \<in> held ?a \<and> set (users m i) \<subseteq> X" "n = ?own \<or> n \<in> range ?names"
    using a dead own unused unfolding dead_names_def by auto
  have "?own \<notin> held ?a" using dead unused unfolding dead_names_def by (metis rangeE)
  then have "n \<notin> held a'" using a by blast
  moreover have "one_live m X (?names(u := n)) \<and> names_known m A (?names(u := n))"
    using ok n True u by (intro give_name) (auto simp: naming_ok_def)
  moreover have "dead_names m X (?names(u := n)) (held a')"
    using dead a \<open>n \<notin> held a'\<close> True unfolding dead_names_def
    by (auto split: if_splits)
  ultimately show ?thesis
    using a ok n True by (auto simp: st' naming_ok_def keeps_names_def)
qed

definition outputs_named :: "hlo_module \<Rightarrow> iid set \<Rightarrow> iid set \<Rightarrow> naming \<Rightarrow> naming \<Rightarrow> iid list \<Rightarrow> bool" where
  "outputs_named m A X st st' us \<longleftrightarrow> naming_ok m A X st' \<and> keeps_names st st' \<and>
    held (n_allocator st') \<subseteq> held (n_allocator st) \<and> (\<forall>i. i \<notin> set us \<longrightarrow> n_names st' i = n_names st i) \<and>
    (\<forall>u \<in> set us. n_names st' u \<noteq> '''' \<and> fresh_for m X st st' u \<and>
       (n_names st u = '''' \<longrightarrow> n_names st' u \<notin> held (n_allocator st')))"

lemma outputs_names:
  assumes "foldR (visit_user L pq m t t' devices) (st, ns) us = Inr (st', ns')"
    and "naming_ok m A X st" and "set us \<subseteq> A"
    and "pq_ok pq" and "inj_on (name_of m) A" and "\<forall>i \<in> A. name_of m i \<noteq> ''''"
  shows "outputs_named m A X st st' us"
  using assms(1-3)
proof (induction us arbitrary: st ns)
  case Nil
  then show ?case by (simp add: outputs_named_def)
next
  case (Cons u us)
  let ?st = "st\<lparr>n_times_available := (n_times_available st)(u := t')\<rparr>"
  obtain acc where a: "visit_user L pq m t t' devices (st, ns) u = Inr acc"
    and f: "foldR (visit_user L pq m t t' devices) acc us = Inr (st', ns')"
    using Cons.prems(1) by (auto elim!: bindR_InrE)
  obtain st1 where v: "visit_output L pq m t devices ?st u = Inr st1" and acc: "acc = (st1, n_names st1 u # ns)"
    using a by (auto simp: visit_user_def Let_def elim!: bindR_InrE)
  note r = f[unfolded acc]
  have ok: "naming_ok m A X ?st" using Cons.prems(2) by (simp add: naming_ok_fields)
  have "u \<in> A" using Cons.prems(3) by simp
  note s = visit_output_names[OF v ok this assms(4-6), simplified]
  have i: "outputs_named m A X st1 st' us" using Cons.IH[OF r] s Cons.prems(3) by simp
  have k1: "keeps_names st st1" "keeps_names st1 st'" using s i by (simp_all add: keeps_names_def outputs_named_def)
  have nu: "n_names st' u = n_names st1 u" "n_names st1 u \<noteq> ''''" using s k1(2) by (auto simp: keeps_names_def)
  have h: "held (n_allocator st') \<subseteq> held (n_allocator st1)" "held (n_allocator st1) \<subseteq> held (n_allocator st)"
    using s i by (simp_all add: outputs_named_def)
  have unheld: "n_names st1 u \<notin> held (n_allocator st1)" if "n_names st u = ''''" using s that by simp
  have rest: "fresh_for m X st1 st' v" if "v \<in> set us" for v using i that by (simp add: outputs_named_def)
  have "fresh_for m X st st' u"
    unfolding fresh_for_def
  proof (intro impI allI)
    fix j assume e: "n_names st u = ''''" and j: "j \<noteq> u" "n_names st' j = n_names st' u"
    have "n_names st1 j \<noteq> ''''"
    proof
      assume e1: "n_names st1 j = ''''"
      then have "j \<in> set us" using i j nu unfolding outputs_named_def by metis
      then have "n_names st' j \<in> held (n_allocator st1)" using rest e1 j unfolding fresh_for_def by metis
      then show False using unheld[OF e] j nu by simp
    qed
    then have "n_names st j = n_names st' u" using j s k1(2) unfolding keeps_names_def by metis
    then show "n_names st j \<noteq> '''' \<and> set (users m j) \<subseteq> X \<and> n_names st' u \<in> held (n_allocator st)"
      using s e nu by auto
  qed
  moreover have "fresh_for m X st st' v" if v: "v \<in> set us" "v \<noteq> u" for v
    unfolding fresh_for_def
  proof (intro impI allI)
    fix j assume e: "n_names st v = ''''" and j: "j \<noteq> v" "n_names st' j = n_names st' v"
    have "n_names st1 v = ''''" using s v e by simp
    then have f: "n_names st1 j \<noteq> ''''" "set (users m j) \<subseteq> X" "n_names st' v \<in> held (n_allocator st1)"
      using rest[OF v(1)] j unfolding fresh_for_def by blast+
    have "j = u \<Longrightarrow> n_names st u \<noteq> ''''" using unheld f(3) j(2) nu by auto
    then show "n_names st j \<noteq> '''' \<and> set (users m j) \<subseteq> X \<and> n_names st' v \<in> held (n_allocator st)"
      using f h s by (cases "j = u") auto
  qed
  moreover have "n_names st' v \<notin> held (n_allocator st')" if "v \<in> set us" "v \<noteq> u" "n_names st v = ''''" for v
    using i s that by (auto simp: outputs_named_def)
  moreover have "n_names st u = '''' \<Longrightarrow> n_names st' u \<notin> held (n_allocator st')" using unheld h nu by auto
  moreover have "n_names st' v \<noteq> ''''" if "v \<in> set us" for v using i that by (simp add: outputs_named_def)
  ultimately have "\<forall>v \<in> set (u # us). n_names st' v \<noteq> '''' \<and> fresh_for m X st st' v \<and>
       (n_names st v = '''' \<longrightarrow> n_names st' v \<notin> held (n_allocator st'))"
    using nu by (metis set_ConsD)
  moreover have "n_names st' j = n_names st j" if "j \<notin> set (u # us)" for j using i s that by (simp add: outputs_named_def)
  moreover have "naming_ok m A X st'" using i by (simp add: outputs_named_def)
  ultimately show ?case
    using h keeps_names_trans[OF k1] unfolding outputs_named_def by blast
qed

text \<open>Freeing the operands of \<open>q\<close>, of which those in \<open>os\<close> are still to come.\<close>

definition freeing :: "hlo_module \<Rightarrow> iid set \<Rightarrow> iid set \<Rightarrow> iid \<Rightarrow> iid list \<Rightarrow> naming \<Rightarrow> bool" where
  "freeing m A X q os st \<longleftrightarrow> pools_ok (n_allocator st) \<and> dead_names m (insert q X) (n_names st) (held (n_allocator st)) \<and>
     names_known m A (n_names st) \<and> one_live m X (n_names st) \<and>
     (\<forall>i. n_times_visited st i \<le> card (set (users m i) \<inter> (if i \<in> set os then X else insert q X))) \<and>
     (\<forall>i \<in> set os. n_names st i \<notin> held (n_allocator st))"

lemma users_mono: "card (set us \<inter> X) \<le> card (set us \<inter> insert q X)"
  by (rule card_mono) auto

lemma dead_names_mono: "dead_names m X names H \<Longrightarrow> dead_names m (insert q X) names H"
  unfolding dead_names_def by blast

lemma one_live_mono: "one_live m X names \<Longrightarrow> one_live m (insert q X) names"
  unfolding one_live_def by (meson subset_insertI2)

lemma free_operand_names:
  assumes run: "free_operand m t st i = Inr st'" and ok: "freeing m A X q (i # is) st"
    and i: "q \<notin> X" "q \<in> set (users m i)" "distinct (users m i)" and "i \<notin> set is" "\<forall>j \<in> set is. q \<in> set (users m j)"
  shows "freeing m A X q is st' \<and> n_names st' = n_names st"
proof -
  let ?X = "insert q X" and ?n = "n_names st i" and ?k = "Suc (n_times_visited st i)"
  have le: "card (set (users m j) \<inter> X) \<le> card (set (users m j) \<inter> ?X)" for j by (rule users_mono)
  have "set (users m i) \<inter> ?X = insert q (set (users m i) \<inter> X)" using i(2) by blast
  then have up: "card (set (users m i) \<inter> ?X) = Suc (card (set (users m i) \<inter> X))" using i(1) by simp
  have vis: "n_times_visited st j \<le> card (set (users m j) \<inter> (if j \<in> set (i # is) then X else ?X))" for j
    using ok by (simp add: freeing_def)
  have vi: "?k \<le> card (set (users m i) \<inter> ?X)" using vis[of i] up by simp
  have vis': "((n_times_visited st)(i := ?k)) j \<le> card (set (users m j) \<inter> (if j \<in> set is then X else ?X))"
    "n_times_visited st j \<le> card (set (users m j) \<inter> (if j \<in> set is then X else ?X))" for j
    using vis[of j] vi le[of j] assms(6) by (auto split: if_splits)
  let ?counted = "st\<lparr>n_times_visited := (n_times_visited st)(i := ?k)\<rparr>"
  consider (skip) "st' = st" | (count) "?n \<noteq> ''''" "?k \<noteq> length (users m i)" "st' = ?counted"
    | (free) "?n \<noteq> ''''" "?k = length (users m i)" "st' = ?counted\<lparr>n_allocator := FreeAtTime t ?n (n_allocator st)\<rparr>"
  proof (cases "IsCustomCall m i kCustomCallSliceOffset \<or> opcode m i = kParameter")
    case True
    then have "st' = st" using run by (auto simp: free_operand_def split: if_split_asm)
    then show ?thesis by (rule that(1))
  next
    case False
    then have n: "?n \<noteq> ''''" using run by (auto simp: free_operand_def)
    show ?thesis
    proof (cases "?k = length (users m i)")
      case True
      then have "st' = ?counted\<lparr>n_allocator := FreeAtTime t ?n (n_allocator st)\<rparr>"
        using run False n by (simp add: free_operand_def Let_def)
      then show ?thesis by (rule that(3)[OF n True])
    next
      case neq: False
      then have "st' = ?counted" using run False n by (simp add: free_operand_def Let_def)
      then show ?thesis by (rule that(2)[OF n neq])
    qed
  qed
  then show ?thesis
  proof cases
    case skip
    then show ?thesis using ok vis'(2) by (simp add: freeing_def)
  next
    case count
    then show ?thesis using ok vis'(1) by (simp add: freeing_def)
  next
    case free
    have "?n \<notin> held (n_allocator st)" "pools_ok (n_allocator st)" using ok by (simp_all add: freeing_def)
    note h = FreeAtTime_held[OF this(2,1), of t]
    have "card (set (users m i)) \<le> card (set (users m i) \<inter> ?X)" using vi free(2) distinct_card[OF i(3)] by linarith
    from card_seteq[OF List.finite_set Int_lower1 this] have "set (users m i) \<inter> ?X = set (users m i)" .
    then have done_i: "set (users m i) \<subseteq> ?X" by blast
    have live: "set (users m j) \<subseteq> X" if "j \<noteq> i" "n_names st j = ?n" for j
      using ok that free(1) i(1,2) unfolding freeing_def one_live_def by (metis subsetD)
    have "dead_names m ?X (n_names st) (insert ?n (held (n_allocator st)))"
      unfolding dead_names_def
    proof (intro ballI conjI allI impI)
      fix n j assume n: "n \<in> insert ?n (held (n_allocator st))"
      have dead: "dead_names m ?X (n_names st) (held (n_allocator st))" using ok by (simp add: freeing_def)
      show "n \<noteq> ''''" "n \<in> range (n_names st)" using n free(1) dead by (auto simp: dead_names_def)
      assume j: "n_names st j = n"
      show "set (users m j) \<subseteq> ?X"
      proof (cases "n = ?n")
        case True
        then show ?thesis using done_i live[of j] j by (cases "j = i") auto
      next
        case False
        then show ?thesis using n j dead unfolding dead_names_def by blast
      qed
    qed
    moreover have "n_names st j \<noteq> ?n" if "j \<in> set is" for j
    proof
      assume "n_names st j = ?n"
      moreover have "j \<noteq> i" using that assms(6) by blast
      ultimately have "set (users m j) \<subseteq> X" using live by blast
      then show False using assms(7) that i(1) by blast
    qed
    ultimately show ?thesis using ok h free vis'(1) by (auto simp: freeing_def)
  qed
qed

lemma free_operands_names:
  assumes "foldR (free_unless_output m t ns) st is = Inr st'" and "freeing m A X q is st"
    and "q \<notin> X" and "distinct is" and "\<forall>i \<in> set is. q \<in> set (users m i) \<and> distinct (users m i)"
  shows "freeing m A X q [] st' \<and> n_names st' = n_names st"
  using assms
proof (induction "is" arbitrary: st)
  case (Cons i "is")
  obtain st1 where s: "free_unless_output m t ns st i = Inr st1" and r: "foldR (free_unless_output m t ns) st1 is = Inr st'"
    using Cons.prems(1) by (auto elim: bindR_InrE)
  have "freeing m A X q is st1 \<and> n_names st1 = n_names st"
  proof (cases "n_names st i \<in> set ns")
    case True
    then have "st1 = st" using s by (simp add: free_unless_output_def)
    then show ?thesis using users_mono[of "users m i" X q] Cons.prems(2) Cons.prems(4) unfolding freeing_def
      by (auto split: if_splits intro: order_trans)
  next
    case False
    then have "free_operand m t st i = Inr st1" using s by (simp add: free_unless_output_def)
    then show ?thesis using free_operand_names Cons.prems by simp
  qed
  then show ?case using Cons.IH[OF r] Cons.prems by simp
qed simp

lemma start_freeing:
  assumes "naming_ok m A X st" and "q \<notin> X" and "\<forall>i \<in> set is. q \<in> set (users m i)"
  shows "freeing m A X q is st"
proof -
  have "n_names st i \<notin> held (n_allocator st)" if "i \<in> set is" for i
    using assms that unfolding naming_ok_def dead_names_def by blast
  then show ?thesis using assms(1)
    by (auto simp: naming_ok_def freeing_def intro: dead_names_mono order_trans[OF _ users_mono])
qed

lemma end_freeing: "freeing m A X q [] st \<Longrightarrow> naming_ok m A (insert q X) st"
  unfolding freeing_def naming_ok_def using one_live_mono by auto

lemma skip_names: "naming_ok m A X st \<Longrightarrow> naming_ok m A (insert q X) st"
  by (auto simp: naming_ok_def intro: one_live_mono dead_names_mono order_trans[OF _ users_mono])

definition step_named :: "hlo_module \<Rightarrow> iid set \<Rightarrow> iid set \<Rightarrow> iid \<Rightarrow> naming \<Rightarrow> naming \<Rightarrow> bool" where
  "step_named m A X q st st' \<longleftrightarrow> naming_ok m A (insert q X) st' \<and> keeps_names st st' \<and>
     (\<forall>u \<in> set (outs m q). n_names st' u \<noteq> '''' \<and> fresh_for m X st st' u) \<and>
     (\<forall>i. i \<notin> set (outs m q) \<longrightarrow> n_names st' i = n_names st i)"

lemma name_call_names:
  assumes run: "name_call L pq m p st q = Inr st'" and ok: "naming_ok m A X st" and q: "q \<notin> X"
    and g: "step_graph m A q" "opcode m q = kCall"
    and lib: "pq_ok pq" "inj_on (name_of m) A" "\<forall>i \<in> A. name_of m i \<noteq> ''''"
  shows "step_named m A X q st st'"
proof -
  obtain devices t t' st1 ns st2
    where v: "foldR (visit_user L pq m t t' devices) (st, []) (users m q) = Inr (st1, ns)"
      and f: "foldR (free_unless_output m t' ns) st1 (operands m q) = Inr st2"
      and st': "st' = st2\<lparr>n_time_on_mesh := (n_time_on_mesh st2)(devices := t')\<rparr>"
    using run by (auto simp: name_call_def Let_def elim!: bindR_InrE)
  have o: "outputs_named m A X st st1 (users m q)"
    using outputs_names[OF v ok _ lib] g by (simp add: step_graph_def outs_def)
  have ops: "distinct (operands m q)" "\<forall>i \<in> set (operands m q). q \<in> set (users m i) \<and> distinct (users m i)"
    using g by (simp_all add: step_graph_def ins_def)
  have "freeing m A X q (operands m q) st1" using o ops q by (intro start_freeing) (auto simp: outputs_named_def)
  from free_operands_names[OF f this q ops] have e: "freeing m A X q [] st2" "n_names st2 = n_names st1" by simp_all
  have "naming_ok m A (insert q X) st'" using end_freeing[OF e(1)] by (simp add: st' naming_ok_fields)
  then show ?thesis using o e(2) g(2)
    by (auto simp: step_named_def outputs_named_def keeps_names_def fresh_for_def outs_def st')
qed

lemma name_reshard_names:
  assumes run: "name_reshard L pq m p st q = Inr st'" and ok: "naming_ok m A X st" and q: "q \<notin> X"
    and g: "step_graph m A q" "opcode m q \<noteq> kCall" "IsCustomCall m q kCustomCallReshard"
    and lib: "pq_ok pq" "inj_on (name_of m) A" "\<forall>i \<in> A. name_of m i \<noteq> ''''"
  shows "step_named m A X q st st'"
proof -
  obtain devices i t st1 st2
    where i: "operandR m q 0 = Inr i" and v: "visit_output L pq m t devices st q = Inr st1"
      and f: "st2 = st1 \<or> free_operand m (t + 2) st1 i = Inr st2"
      and st': "st' = st2\<lparr>n_times_available := (n_times_available st2)(q := t + 2)\<rparr>"
    using run by (fastforce simp: name_reshard_def Let_def elim!: bindR_InrE split: if_splits option.splits)
  have "q \<in> A" using g by (simp add: step_graph_def outs_def)
  note o = visit_output_names[OF v ok this lib]
  have "ins m q = [i]" using i g by (cases "operands m q") (auto simp: ins_def operandR_def)
  then have ops: "q \<in> set (users m i)" "distinct (users m i)" using g by (simp_all add: step_graph_def)
  have "freeing m A X q [i] st1" using o ops q by (intro start_freeing) auto
  then have "naming_ok m A (insert q X) st2 \<and> n_names st2 = n_names st1"
    using f free_operand_names[of m "t + 2" st1 i st2 A X q "[]"] end_freeing q ops o skip_names by fastforce
  then show ?thesis using o g(2,3)
    by (auto simp: step_named_def keeps_names_def fresh_for_def outs_def st' naming_ok_fields)
qed

lemma name_step_names:
  assumes "name_step L pq m p st q = Inr st'" and "naming_ok m A X st" and "q \<notin> X" and "step_graph m A q"
    and "pq_ok pq" and "inj_on (name_of m) A" and "\<forall>i \<in> A. name_of m i \<noteq> ''''"
  shows "step_named m A X q st st'"
proof -
  consider "opcode m q = kCall" | "opcode m q \<noteq> kCall" "IsCustomCall m q kCustomCallReshard"
    | "opcode m q \<noteq> kCall" "\<not> IsCustomCall m q kCustomCallReshard" by blast
  then show ?thesis
    using assms name_call_names name_reshard_names skip_names
    by cases (auto simp: name_step_def step_named_def outs_def)
qed

section \<open>No reuse before the last user\<close>

definition named_before :: "hlo_module \<Rightarrow> iid list \<Rightarrow> iid set" where
  "named_before m xs = set (params m (m_entry m)) \<union> (\<Union>q \<in> set xs. set (outs m q))"

lemma names_fold:
  assumes "foldR (name_step L pq m p) st xs = Inr st'" and "naming_ok m A X st"
    and "distinct xs" and "set xs \<inter> X = {}" and "\<forall>q \<in> set xs. step_graph m A q"
    and "pq_ok pq" and "inj_on (name_of m) A" and "\<forall>i \<in> A. name_of m i \<noteq> ''''"
  shows "naming_ok m A (X \<union> set xs) st' \<and> keeps_names st st' \<and>
    (\<forall>q \<in> set xs. \<forall>u \<in> set (outs m q). n_names st' u \<noteq> '''') \<and>
    (\<forall>i. i \<notin> (\<Union>q \<in> set xs. set (outs m q)) \<longrightarrow> n_names st' i = n_names st i)"
  using assms(1-5)
proof (induction xs arbitrary: st X)
  case (Cons q xs)
  obtain st1 where s: "name_step L pq m p st q = Inr st1" and r: "foldR (name_step L pq m p) st1 xs = Inr st'"
    using Cons.prems(1) by (auto elim: bindR_InrE)
  have one: "step_named m A X q st st1"
    using name_step_names[OF s Cons.prems(2) _ _ assms(6-8)] Cons.prems(4,5) by simp
  then have "naming_ok m A (insert q X) st1" by (simp add: step_named_def)
  from Cons.IH[OF r this] Cons.prems(3-5)
  have ih: "naming_ok m A (insert q X \<union> set xs) st' \<and> keeps_names st1 st' \<and>
    (\<forall>q \<in> set xs. \<forall>u \<in> set (outs m q). n_names st' u \<noteq> '''') \<and>
    (\<forall>i. i \<notin> (\<Union>q \<in> set xs. set (outs m q)) \<longrightarrow> n_names st' i = n_names st1 i)" by auto
  have k: "keeps_names st st1" using one by (simp add: step_named_def)
  have "keeps_names st st'" using k ih keeps_names_trans by blast
  moreover have "\<forall>u \<in> set (outs m q). n_names st' u \<noteq> ''''"
    using one ih unfolding step_named_def keeps_names_def by metis
  ultimately show ?case using ih one by (auto simp: step_named_def)
qed simp

lemma parameter_names:
  "foldl (name_parameters m) names is i = (if i \<in> set is then name_of m i else names i)"
  by (induction "is" arbitrary: names) (auto simp: name_parameters_def name_of_def)

text \<open>
  C15. An output gets the scheduling name that an earlier parameter or output already has only
  when all users of that one come before the instruction that produces it. So no buffer is
  overwritten while it is still read. Every call takes an operand once, and the pass starts
  without scheduling names.
\<close>

theorem buffers_reused_after_last_user:
  assumes "MpmdAssignBufferSchedulingName_Run L no_shape pq p m (\<lambda>_. '''') = Inr (changed, names)"
    and "buffer_graph m A" and "pq_ok pq" and "post_order m (m_entry m) = xs @ q # ys"
    and "u \<in> set (outs m q)" and "u \<notin> named_before m xs"
    and "i \<in> named_before m (xs @ [q])" and "i \<noteq> u" and "names i = names u"
  shows "i \<in> named_before m xs \<and> set (users m i) \<subseteq> set xs"
proof -
  let ?ps = "params m (m_entry m)"
  define st0 where "st0 = \<lparr>n_names = foldl (name_parameters m) (\<lambda>_. '''') ?ps,
         n_allocator = \<lparr>ba_pools = (\<lambda>_. []), ba_shapes = (\<lambda>_. no_shape)\<rparr>,
         n_time_on_mesh = (\<lambda>_. 0), n_times_visited = (\<lambda>_. 0), n_times_available = (\<lambda>_. 0)\<rparr>"
  obtain st1 st2 st3 where f1: "foldR (name_step L pq m p) st0 xs = Inr st1"
    and s: "name_step L pq m p st1 q = Inr st2" and f2: "foldR (name_step L pq m p) st2 ys = Inr st3"
    and names: "names = n_names st3"
    using assms(1,4) by (auto simp: MpmdAssignBufferSchedulingName_Run_def st0_def[symmetric] statusor elim!: bindR_InrE)
  have g: "distinct (xs @ q # ys)" "set ?ps \<subseteq> A" "inj_on (name_of m) A" "\<forall>i \<in> A. name_of m i \<noteq> ''''"
    "\<forall>q \<in> set (xs @ q # ys). step_graph m A q" using assms(2,4) unfolding buffer_graph_def by auto
  have n0: "n_names st0 j = (if j \<in> set ?ps then name_of m j else '''')" for j
    by (simp add: st0_def parameter_names)
  have "naming_ok m A {} st0"
    using g(2-4) n0 unfolding naming_ok_def names_known_def one_live_def dead_names_def
    by (auto simp: st0_def[THEN arg_cong[where f = n_allocator]] st0_def[THEN arg_cong[where f = n_times_visited]]
        pools_ok_def held_def dest: inj_onD)
  note a = names_fold[OF f1 this _ _ _ assms(3) g(3,4)]
  have ok1: "naming_ok m A (set xs) st1" and k1: "keeps_names st0 st1"
    and old: "\<And>j. j \<notin> (\<Union>q \<in> set xs. set (outs m q)) \<Longrightarrow> n_names st1 j = n_names st0 j"
    using a g by auto
  have one: "step_named m A (set xs) q st1 st2"
    using name_step_names[OF s ok1 _ _ assms(3) g(3,4)] g(1,5) by simp
  have k2: "keeps_names st2 st3"
    using names_fold[OF f2, of A "insert q (set xs)"] one g assms(3)
    by (auto simp: step_named_def Int_commute)
  have "n_names st1 u = ''''" using old[of u] n0[of u] assms(6) by (auto simp: named_before_def)
  moreover have "fresh_for m (set xs) st1 st2 u" "n_names st2 u \<noteq> ''''" using one assms(5) by (simp_all add: step_named_def)
  moreover have "n_names st2 i \<noteq> ''''"
  proof (cases "i \<in> set (outs m q)")
    case True
    then show ?thesis using one by (simp add: step_named_def)
  next
    case False
    then have "n_names st1 i \<noteq> ''''" using assms(7) a g n0 k1 unfolding named_before_def keeps_names_def by auto
    then show ?thesis using one False by (simp add: step_named_def)
  qed
  ultimately have "n_names st1 i \<noteq> ''''" "set (users m i) \<subseteq> set xs"
    using k2 assms(8,9) unfolding fresh_for_def keeps_names_def names by metis+
  then show ?thesis using old[of i] n0[of i] by (auto simp: named_before_def split: if_splits)
qed

text \<open>
  Four calls in a row, each taking the output of the one before; \<open>twice\<close> is how often the
  second one takes its operand, and \<open>late\<close> are further operands of the last one.
\<close>

definition call_chain :: "iid list \<Rightarrow> iid list \<Rightarrow> iid list \<Rightarrow> hlo_module" where
  "call_chain twice late first_users =
     (let call = (\<lambda>ops us. blank_instr\<lparr>i_opcode := kCall, i_operands := ops, i_users := us, i_attrs := [''color'' \<mapsto> ''a'']\<rparr>);
          gte = (\<lambda>n c us. blank_instr\<lparr>i_name := n, i_opcode := kGetTupleElement, i_operands := [c], i_users := us\<rparr>) in
      sample_module
        [(0, blank_instr\<lparr>i_name := ''p'', i_opcode := kParameter, i_users := [2]\<rparr>),
         (2, call [0] [3]), (3, gte ''x'' 2 first_users), (4, call twice [5]), (5, gte ''y'' 4 [6]),
         (6, call [5] [7]), (7, gte ''z'' 6 [8]), (8, call (7 # late) [9]), (9, gte ''w'' 8 [10]),
         (10, blank_instr\<lparr>i_opcode := kTuple, i_operands := [9]\<rparr>)]
        [(0, blank_comp\<lparr>c_root := 10, c_post_order := [0, 2, 3, 4, 5, 6, 7, 8, 9, 10], c_params := [0]\<rparr>)])"

definition replicating_lib :: sharding_lib where
  "replicating_lib = \<lparr>L_FromProto = (\<lambda>_. Inl (Fatal [])),
     L_Replicate = HloSharding True True False False False \<lparr>ta_dims = [], ta_iota = None, ta_array = [], ta_first = 0, ta_num_elements = 0\<rparr> [],
     L_ToString = (\<lambda>_. ''''), L_MakePartitionedShape = (\<lambda>s _. s),
     L_IotaCreate = (\<lambda>_ _ _ _. \<lparr>iota_reshape_dims = [], iota_transpose_perm = [], iota_offset = 0, iota_num_elements = 0\<rparr>),
     L_device_at = (\<lambda>d k. dl_start d + k), L_device_ids = (\<lambda>_. []), L_device_stop = (\<lambda>d. dl_start d + dl_size d),
     L_ShardingDim = \<lparr>sd_size = 0, sd_sharding = 0, sd_permutation = 0\<rparr>\<rparr>"

definition no_shape :: sharded_shape where
  "no_shape = \<lparr>ss_type = ST_F32, ss_dims = [], ss_devices = dl_create 0 0\<rparr>"

definition earliest :: "buffer_use list \<Rightarrow> buffer_use" where
  "earliest uses = hd (sort_key available uses)"

lemma earliest_ok: "pq_ok earliest"
  unfolding pq_ok_def earliest_def by (metis list.set_sel(1) set_sort sort_key_simps(1) length_0_conv length_sort)

abbreviation name_chain :: "iid list \<Rightarrow> iid list \<Rightarrow> iid list \<Rightarrow> (bool \<times> (iid \<Rightarrow> string)) statusor" where
  "name_chain twice late us \<equiv>
     MpmdAssignBufferSchedulingName_Run replicating_lib no_shape earliest two_colors (call_chain twice late us) (\<lambda>_. '''')"

definition chain_names :: "iid list \<Rightarrow> iid list \<Rightarrow> iid list \<Rightarrow> string list" where
  "chain_names twice late us = (case name_chain twice late us of Inr (_, names) \<Rightarrow> map names [3, 5, 7, 9] | Inl _ \<Rightarrow> [])"

lemma chain_graph_facts:
  "opcode (call_chain t l u) 0 = kParameter" "opcode (call_chain t l u) 2 = kCall" "opcode (call_chain t l u) 3 = kGetTupleElement"
  "opcode (call_chain t l u) 4 = kCall" "opcode (call_chain t l u) 5 = kGetTupleElement" "opcode (call_chain t l u) 6 = kCall"
  "opcode (call_chain t l u) 7 = kGetTupleElement" "opcode (call_chain t l u) 8 = kCall" "opcode (call_chain t l u) 9 = kGetTupleElement"
  "opcode (call_chain t l u) 10 = kTuple" "operands (call_chain t l u) 2 = [0]" "operands (call_chain t l u) 4 = t"
  "operands (call_chain t l u) 6 = [5]" "operands (call_chain t l u) 8 = 7 # l" "users (call_chain t l u) 2 = [3]"
  "users (call_chain t l u) 3 = u" "users (call_chain t l u) 4 = [5]" "users (call_chain t l u) 5 = [6]"
  "users (call_chain t l u) 6 = [7]" "users (call_chain t l u) 7 = [8]" "users (call_chain t l u) 8 = [9]"
  "users (call_chain t l u) 9 = [10]" "m_entry (call_chain t l u) = 0" "root (call_chain t l u) 0 = 10"
  "post_order (call_chain t l u) 0 = [0, 2, 3, 4, 5, 6, 7, 8, 9, 10]" "params (call_chain t l u) 0 = [0]"
  by (simp_all add: call_chain_def sample_simps Let_def)

lemma chain_instr_facts:
  "i \<in> {2, 4, 6, 8} \<Longrightarrow> color_devices_of (call_chain t l u) two_colors i = Inr (dl_create 0 4)"
  "i \<in> {3, 5, 7, 9} \<Longrightarrow> sharding_of (call_chain t l u) i = None \<and> i_shape (m_instr (call_chain t l u) i) = Shape F32 [] []"
  "i_name (m_instr (call_chain t l u) 0) = ''p''" "i_name (m_instr (call_chain t l u) 3) = ''x''" "i_name (m_instr (call_chain t l u) 5) = ''y''"
  "i_name (m_instr (call_chain t l u) 7) = ''z''" "i_name (m_instr (call_chain t l u) 9) = ''w''"
  by (auto simp: call_chain_def sample_simps Let_def color_devices_of_def Color_def two_colors_def DevicesForColor_def
      ConfigForColor_def AllocateColor_def AllocateColor_config_def Create_def)

lemma scalar_shape:
  "XlaShapeToZukuShape replicating_lib (Shape F32 [] []) d (L_Replicate replicating_lib) True =
     Inr \<lparr>ss_type = ST_F32, ss_dims = (if dl_size d > 1 then [\<lparr>sd_size = 1, sd_sharding = dl_size d, sd_permutation = 0\<rparr>] else []), ss_devices = d\<rparr>"
  by (simp add: XlaShapeToZukuShape_def replicating_lib_def zuku_type_of_def)

lemmas chain_run = chain_names_def MpmdAssignBufferSchedulingName_Run_def name_parameters_def name_step_def name_call_def
  visit_user_def visit_output_def free_unless_output_def free_operand_def IsCustomCall_def AllocateAtTime_def
  BufferPool_AllocateAtTime_def FreeAtTime_def BufferPool_FreeAtTime_def earliest_def scalar_shape chain_instr_facts chain_graph_facts Let_def

lemma chain_names_once: "chain_names [3] [] [4] = [''x'', ''y'', ''x'', ''w'']"
  by (simp add: chain_run)

lemma chain_graph: "buffer_graph (call_chain [3] [] [4]) {0, 3, 5, 7, 9}"
proof -
  have "post_order (call_chain [3] [] [4]) (m_entry (call_chain [3] [] [4])) = [0, 2, 3, 4, 5, 6, 7, 8, 9, 10]"
    by (simp add: call_chain_def sample_simps)
  then show ?thesis
    unfolding buffer_graph_def
    by (simp add: call_chain_def sample_simps step_graph_def outs_def ins_def name_of_def IsCustomCall_def Let_def)
qed

theorem buffers_reused_after_last_user_witness:
  "\<exists>names. name_chain [3] [] [4] = Inr (True, names) \<and> names 7 = names 3 \<and> set (users (call_chain [3] [] [4]) 3) \<subseteq> {0, 2, 3, 4, 5}"
proof -
  obtain ch names where r: "name_chain [3] [] [4] = Inr (ch, names)" and n: "map names [3, 5, 7, 9] = [''x'', ''y'', ''x'', ''w'']"
    using chain_names_once unfolding chain_names_def by (auto split: sum.splits)
  have po: "post_order (call_chain [3] [] [4]) (m_entry (call_chain [3] [] [4])) = [0, 2, 3, 4, 5] @ 6 # [7, 8, 9, 10]"
    by (simp add: call_chain_def sample_simps)
  have "set (users (call_chain [3] [] [4]) 3) \<subseteq> set [0, 2, 3, 4, 5]"
    using buffers_reused_after_last_user[OF r chain_graph earliest_ok po, of 7 3] n
    by (simp add: call_chain_def sample_simps outs_def named_before_def IsCustomCall_def Let_def)
  moreover have "ch = True" using r by (auto simp: MpmdAssignBufferSchedulingName_Run_def Let_def elim!: bindR_InrE)
  ultimately show ?thesis using r n by auto
qed

text \<open>
  When a call takes the same operand twice, both occurrences count as users: the third
  call writes its result over the output of the first, although the last call still reads that.
\<close>

theorem double_operand_frees_early:
  "chain_names [3, 3] [3] [4, 8] = [''x'', ''y'', ''x'', ''w''] \<and> 8 \<in> set (users (call_chain [3, 3] [3] [4, 8]) 3)"
  by (simp add: chain_run)

end
