(* ===== verification/Buffer_Alias.thy ===== *)
theory Buffer_Alias
  imports Mm_Sharding Mpmd_Utils Instruction_Properties "HOL-Library.Multiset"
begin

text \<open>
  \<open>mpmd_input_output_buffer_alias.cc\<close>: outputs of the entry computation take over the buffers
  of donated parameters. First each output looks among its ancestors for a donor of its shape,
  then what is left is matched by size, temporaries with temporaries only.
  \<open>mpmd_inplace_collectives.cc\<close>: an output that is a collective of an input is written over it.

  The alias and donor configurations belong to XLA: \<open>A\<close> is the record of their methods, and a
  configuration of either kind is the state \<open>'c\<close> they act on. The index of a parameter shape is
  always empty and left out; an output index is the empty list or one number.
\<close>

record 'c alias_lib =
  al_OutputHasAlias :: "'c \<Rightarrow> nat list \<Rightarrow> bool"
  al_ParameterHasAlias :: "'c \<Rightarrow> nat \<Rightarrow> bool"
  al_ParameterIsBufferDonor :: "'c \<Rightarrow> nat \<Rightarrow> bool"
  al_SetUpAlias :: "'c \<Rightarrow> nat list \<Rightarrow> nat \<Rightarrow> 'c statusor"
  al_RemoveBufferDonor :: "'c \<Rightarrow> nat \<Rightarrow> 'c statusor"
  al_Verify :: "'c \<Rightarrow> unit statusor"
  al_ByteSizeOf :: "shape \<Rightarrow> int"

text \<open>The number of a parameter instruction is its position among the parameters.\<close>

definition parameter_number_in :: "hlo_module \<Rightarrow> cid \<Rightarrow> iid \<Rightarrow> nat" where
  "parameter_number_in m c i = length (takeWhile (\<lambda>j. j \<noteq> i) (params m c))"

record temporaries =
  temporary_param_indices :: "nat list"
  temporary_root_indices :: "nat list"

section \<open>Matching by size\<close>

definition donor_step ::
  "sharding_lib \<Rightarrow> 'c alias_lib \<Rightarrow> temporaries \<Rightarrow> bool \<Rightarrow> hlo_module \<Rightarrow> 'c \<Rightarrow> (nat \<times> int) list \<Rightarrow> iid \<Rightarrow> (nat \<times> int) list statusor" where
  "donor_step L A tmp match_temps m cfg donor_vectors i =
     (if opcode m i = kParameter
      then let param_number = parameter_number_in m (m_entry m) i in
        if IsTuple m i then Inl (InvalidArgument ''cannot perform MPMD input/output aliasing with arg tuples'')
        else if al_ParameterHasAlias A cfg param_number then Inr donor_vectors
        else if \<not> al_ParameterIsBufferDonor A cfg param_number then Inr donor_vectors
        else bindR (GetSpmdShape L (i_shape (m_instr m i)) (sharding_of m i)) (\<lambda>subshape.
          Inr (if match_temps = (param_number \<in> set (temporary_param_indices tmp))
               then donor_vectors @ [(param_number, al_ByteSizeOf A subshape)] else donor_vectors))
      else Inr donor_vectors)"

definition donee_vectors_of ::
  "'c alias_lib \<Rightarrow> temporaries \<Rightarrow> bool \<Rightarrow> 'c \<Rightarrow> shape \<Rightarrow> (nat list \<times> int) list" where
  "donee_vectors_of A tmp match_temps cfg spmd_shape =
     (if IsTupleShape spmd_shape
      then map (\<lambda>index. ([index], al_ByteSizeOf A (tuple_shapes spmd_shape ! index)))
             (filter (\<lambda>index. match_temps = (index \<in> set (temporary_root_indices tmp)) \<and> \<not> al_OutputHasAlias A cfg [index])
               [0..<length (tuple_shapes spmd_shape)])
      else if match_temps = (0 \<in> set (temporary_root_indices tmp)) \<and> \<not> al_OutputHasAlias A cfg []
      then [([], al_ByteSizeOf A spmd_shape)] else [])"

text \<open>The walk with two pointers, as the pairs it matches.\<close>

fun match_sorted :: "(nat \<times> int) list \<Rightarrow> (nat list \<times> int) list \<Rightarrow> (nat \<times> nat list) list" where
  "match_sorted (donor # donors) (donee # donees) =
     (if snd donor > snd donee then match_sorted donors (donee # donees)
      else if snd donor < snd donee then match_sorted (donor # donors) donees
      else (fst donor, fst donee) # match_sorted donors donees)"
| "match_sorted donors donees = []"

definition set_up_pair :: "'c alias_lib \<Rightarrow> 'c \<Rightarrow> nat \<times> nat list \<Rightarrow> 'c statusor" where
  "set_up_pair A cfg pair =
     bindR (al_SetUpAlias A cfg (snd pair) (fst pair)) (\<lambda>cfg. al_RemoveBufferDonor A cfg (fst pair))"

definition Build ::
  "sharding_lib \<Rightarrow> 'c alias_lib \<Rightarrow> temporaries \<Rightarrow> bool \<Rightarrow> bool \<Rightarrow> hlo_module \<Rightarrow> 'c \<Rightarrow> (bool \<times> 'c) statusor" where
  "Build L A tmp output_is_dynamic match_temps m cfg =
     (if output_is_dynamic then Inr (False, cfg)
      else let c = m_entry m in
      bindR (foldR (donor_step L A tmp match_temps m cfg) [] (comp_instructions m c)) (\<lambda>donor_vectors.
      bindR (GetSpmdShape L (i_shape (m_instr m (root m c))) (sharding_of m (root m c))) (\<lambda>spmd_shape.
      let donors = sort_key (\<lambda>d. - snd d) donor_vectors;
          donees = sort_key (\<lambda>d. - snd d) (donee_vectors_of A tmp match_temps cfg spmd_shape);
          pairs = match_sorted donors donees in
      bindR (foldR (set_up_pair A) cfg pairs) (\<lambda>cfg. Inr (pairs \<noteq> [], cfg)))))"

section \<open>Matching by ancestry\<close>

definition kMaxVisits :: nat where
  "kMaxVisits = 1000"

definition is_donor_parameter :: "'c alias_lib \<Rightarrow> temporaries \<Rightarrow> hlo_module \<Rightarrow> 'c \<Rightarrow> iid \<Rightarrow> bool" where
  "is_donor_parameter A tmp m cfg operand =
     (opcode m operand = kParameter \<and>
      (let k = parameter_number_in m (m_entry m) operand in
       k \<notin> set (temporary_param_indices tmp) \<and> \<not> al_ParameterHasAlias A cfg k \<and> al_ParameterIsBufferDonor A cfg k))"

text \<open>The search stops after \<open>visits\<close> instructions; its result is the donor it found.\<close>

fun find_donor :: "nat \<Rightarrow> 'c alias_lib \<Rightarrow> temporaries \<Rightarrow> hlo_module \<Rightarrow> 'c \<Rightarrow> iid \<Rightarrow> iid list \<Rightarrow> iid option" where
  "find_donor 0 A tmp m cfg r to_visit = None"
| "find_donor (Suc visits) A tmp m cfg r [] = None"
| "find_donor (Suc visits) A tmp m cfg r (operand # to_visit) =
     (if is_donor_parameter A tmp m cfg operand \<and> i_shape (m_instr m operand) = i_shape (m_instr m r)
      then Some operand
      else find_donor visits A tmp m cfg r (to_visit @ operands m operand))"

definition FindBestMatch ::
  "'c alias_lib \<Rightarrow> temporaries \<Rightarrow> hlo_module \<Rightarrow> nat list \<Rightarrow> iid \<Rightarrow> 'c \<Rightarrow> 'c statusor" where
  "FindBestMatch A tmp m output_index r cfg =
     (let c = m_entry m in
      if al_OutputHasAlias A cfg output_index then Inr cfg
      else if length output_index = 1 \<and> hd output_index \<in> set (temporary_root_indices tmp) then Inr cfg
      else if length (params m c) = 1 \<and> IsTuple m (params m c ! 0)
      then Inl (InvalidArgument ''MultiMesh buffer donation does not suppoort tupled args'')
      else if is_donor_parameter A tmp m cfg r then al_SetUpAlias A cfg output_index (parameter_number_in m c r)
      else case find_donor kMaxVisits A tmp m cfg r (operands m r) of
             Some operand \<Rightarrow> al_SetUpAlias A cfg output_index (parameter_number_in m c operand)
           | None \<Rightarrow> Inr cfg)"

definition MpmdInputOutputBufferAlias_Run ::
  "sharding_lib \<Rightarrow> 'c alias_lib \<Rightarrow> temporaries \<Rightarrow> bool \<Rightarrow> hlo_module \<Rightarrow> 'c \<Rightarrow> (bool \<times> 'c) statusor" where
  "MpmdInputOutputBufferAlias_Run L A tmp output_is_dynamic m cfg =
     (let r = root m (m_entry m) in
      bindR (if IsTuple m r
             then foldR (\<lambda>cfg (k, operand). FindBestMatch A tmp m [k] operand cfg) cfg
                    (enumerate 0 (operands m r))
             else FindBestMatch A tmp m [] r cfg) (\<lambda>cfg.
      bindR (Build L A tmp output_is_dynamic True m cfg) (\<lambda>(matched_params, cfg).
      bindR (Build L A tmp output_is_dynamic False m cfg) (\<lambda>(matched_temps, cfg).
      bindR (al_Verify A cfg) (\<lambda>_.
      Inr (matched_params \<or> matched_temps, cfg))))))"

section \<open>Collectives in place\<close>

text \<open>Cases of the switch fall through: a shard-map custom call counts as a collective.\<close>

fun matching_loop :: "nat \<Rightarrow> hlo_module \<Rightarrow> cid \<Rightarrow> bool \<Rightarrow> iid \<Rightarrow> nat option statusor" where
  "matching_loop 0 m c found_collective i = Inl out_of_fuel"
| "matching_loop (Suc fuel) m c found_collective i =
     (if opcode m i = kParameter
      then Inr (if found_collective then Some (parameter_number_in m c i) else None)
      else if opcode m i = kCustomCall \<and> \<not> IsCustomCall m i ''SPMDShardToFullShape''
              \<and> \<not> IsCustomCall m i ''SPMDFullToShardShape''
      then Inr None
      else if opcode m i = kCustomCall \<or> opcode m i = kAllReduce
      then bindR (operandR m i 0) (\<lambda>j. matching_loop fuel m c True j)
      else if opcode m i = kConvert
      then bindR (operandR m i 0) (\<lambda>j. matching_loop fuel m c found_collective j)
      else Inr None)"

definition GetMatchingCollectiveInput :: "nat \<Rightarrow> hlo_module \<Rightarrow> cid \<Rightarrow> nat \<Rightarrow> nat option statusor" where
  "GetMatchingCollectiveInput fuel m c output_number =
     bindR (operandR m (root m c) output_number) (\<lambda>root_input. matching_loop fuel m c False root_input)"

definition inplace_user ::
  "nat \<Rightarrow> hlo_module \<Rightarrow> iid \<Rightarrow> (iid \<Rightarrow> string) \<times> bool \<Rightarrow> iid \<Rightarrow> ((iid \<Rightarrow> string) \<times> bool) statusor" where
  "inplace_user fuel m call st user =
     (let (names, changed) = st in
      bindR (calledR m call) (\<lambda>c.
      bindR (tuple_indexR m user) (\<lambda>k.
      bindR (GetMatchingCollectiveInput fuel m c k) (\<lambda>collective_operand_index.
      case collective_operand_index of
        None \<Rightarrow> Inr (names, changed)
      | Some n \<Rightarrow> bindR (operandR m call n) (\<lambda>input.
          Inr (if names input \<noteq> '''' then (names(user := names input), True) else (names, changed)))))))"

definition MpmdInPlaceCollectives_Run ::
  "nat \<Rightarrow> hlo_module \<Rightarrow> (iid \<Rightarrow> string) \<Rightarrow> ((iid \<Rightarrow> string) \<times> bool) statusor" where
  "MpmdInPlaceCollectives_Run fuel m names =
     foldR (\<lambda>st i. if opcode m i = kCall then foldR (inplace_user fuel m i) st (users m i) else Inr st)
       (names, False) (post_order m (m_entry m))"

end
