(* ===== verification/Alias_Facts.thy ===== *)
theory Alias_Facts
  imports Buffer_Alias Color_Dfs
begin

text \<open>
  The matching by size is as large as it can be: of every size, as many donors are paired as
  there are donors and outputs of that size. The search for a collective is exact and ends.
\<close>

section \<open>Maximal matching\<close>

fun match_entries :: "(nat \<times> int) list \<Rightarrow> (nat list \<times> int) list \<Rightarrow> ((nat \<times> int) \<times> (nat list \<times> int)) list" where
  "match_entries (donor # donors) (donee # donees) =
     (if snd donor > snd donee then match_entries donors (donee # donees)
      else if snd donor < snd donee then match_entries (donor # donors) donees
      else (donor, donee) # match_entries donors donees)"
| "match_entries donors donees = []"

definition unsized :: "(nat \<times> int) \<times> (nat list \<times> int) \<Rightarrow> nat \<times> nat list" where
  "unsized p = (fst (fst p), fst (snd p))"

definition of_size :: "int \<Rightarrow> ('a \<times> int) list \<Rightarrow> nat" where
  "of_size s xs = length (filter (\<lambda>x. snd x = s) xs)"

lemma match_sorted_entries: "match_sorted ds es = map unsized (match_entries ds es)"
  by (induction ds es rule: match_sorted.induct) (auto simp: unsized_def)

lemma match_entries_sound:
  "mset (map fst (match_entries ds es)) \<subseteq># mset ds \<and> mset (map snd (match_entries ds es)) \<subseteq># mset es \<and>
   (\<forall>(d, e) \<in> set (match_entries ds es). snd d = snd e)"
  by (induction ds es rule: match_entries.induct)
    (auto intro: subset_mset.order_trans simp: insert_subset_eq_iff subset_mset.add_increasing)

definition descending :: "('a \<times> int) list \<Rightarrow> bool" where
  "descending xs \<longleftrightarrow> sorted_wrt (\<lambda>x y. snd y \<le> snd x) xs"

lemma descending_Cons [simp]: "descending (x # xs) \<longleftrightarrow> (\<forall>y \<in> set xs. snd y \<le> snd x) \<and> descending xs"
  by (auto simp: descending_def)

lemma of_size_beyond: "\<forall>y \<in> set xs. snd y < s \<Longrightarrow> of_size s xs = 0"
  by (auto simp: of_size_def filter_empty_conv)

lemma of_size_simps [simp]: "of_size s [] = 0" "of_size s (x # xs) = (if snd x = s then Suc (of_size s xs) else of_size s xs)"
  by (simp_all add: of_size_def)

lemma match_entries_maximal:
  "descending ds \<Longrightarrow> descending es \<Longrightarrow>
   length (filter (\<lambda>(d, e). snd d = s) (match_entries ds es)) = min (of_size s ds) (of_size s es)"
proof (induction ds es rule: match_entries.induct)
  case (1 d ds e es)
  consider "snd d > snd e" | "snd d < snd e" | "snd d = snd e" by linarith
  then show ?case
  proof cases
    case 1
    then have "of_size (snd d) (e # es) = 0" using "1.prems"(2) by (intro of_size_beyond) auto
    then show ?thesis using 1 "1.IH"(1) "1.prems" by auto
  next
    case 2
    then have "of_size (snd e) (d # ds) = 0" using "1.prems"(1) by (intro of_size_beyond) auto
    then show ?thesis using 2 "1.IH"(2) "1.prems" by auto
  next
    case 3
    then show ?thesis using "1.IH"(3) "1.prems" by auto
  qed
qed auto

lemma descending_sort: "descending (sort_key (\<lambda>d. - snd d) xs)"
proof -
  have "sorted (map (\<lambda>d. - snd d) (sort_key (\<lambda>d. - snd d) xs))" by (rule sorted_sort_key)
  then show ?thesis by (simp add: descending_def sorted_map)
qed

lemma of_size_sort: "of_size s (sort_key f xs) = of_size s xs"
  unfolding of_size_def by (metis mset_filter mset_sort size_mset)

text \<open>
  C36. What one round of matching by size does: it pairs donors with outputs of the same size,
  none of them twice, and of every size as many as there are on the smaller side; each pair is
  set up as an alias and its donor withdrawn.
\<close>

theorem alias_matching_maximal:
  assumes "Build L A tmp False match_temps m cfg = Inr (changed, cfg')"
  shows "\<exists>donors spmd_shape pairs.
    foldR (donor_step L A tmp match_temps m cfg) [] (comp_instructions m (m_entry m)) = Inr donors \<and>
    (let donees = donee_vectors_of A tmp match_temps cfg spmd_shape in
     GetSpmdShape L (i_shape (m_instr m (root m (m_entry m)))) (sharding_of m (root m (m_entry m))) = Inr spmd_shape \<and>
     mset (map fst pairs) \<subseteq># mset donors \<and> mset (map snd pairs) \<subseteq># mset donees \<and>
     (\<forall>(d, e) \<in> set pairs. snd d = snd e) \<and>
     (\<forall>s. length (filter (\<lambda>(d, e). snd d = s) pairs) = min (of_size s donors) (of_size s donees)) \<and>
     foldR (set_up_pair A) cfg (map unsized pairs) = Inr cfg' \<and> (changed \<longleftrightarrow> pairs \<noteq> []))"
proof -
  obtain donors spmd_shape where d: "foldR (donor_step L A tmp match_temps m cfg) [] (comp_instructions m (m_entry m)) = Inr donors"
    and s: "GetSpmdShape L (i_shape (m_instr m (root m (m_entry m)))) (sharding_of m (root m (m_entry m))) = Inr spmd_shape"
    and r: "foldR (set_up_pair A) cfg (match_sorted (sort_key (\<lambda>d. - snd d) donors)
        (sort_key (\<lambda>d. - snd d) (donee_vectors_of A tmp match_temps cfg spmd_shape))) = Inr cfg'"
    and ch: "changed \<longleftrightarrow> match_sorted (sort_key (\<lambda>d. - snd d) donors)
        (sort_key (\<lambda>d. - snd d) (donee_vectors_of A tmp match_temps cfg spmd_shape)) \<noteq> []"
    using assms unfolding Build_def Let_def if_False by (elim bindR_InrE) blast
  let ?ds = "sort_key (\<lambda>d. - snd d) donors" and ?es = "sort_key (\<lambda>d. - snd d) (donee_vectors_of A tmp match_temps cfg spmd_shape)"
  have "foldR (set_up_pair A) cfg (map unsized (match_entries ?ds ?es)) = Inr cfg'" "changed \<longleftrightarrow> match_entries ?ds ?es \<noteq> []"
    using r ch by (simp_all add: match_sorted_entries)
  moreover have "length (filter (\<lambda>(d, e). snd d = s) (match_entries ?ds ?es)) = min (of_size s donors) (of_size s (donee_vectors_of A tmp match_temps cfg spmd_shape))" for s
    using match_entries_maximal[OF descending_sort descending_sort] by (simp add: of_size_sort)
  moreover note match_entries_sound[of ?ds ?es]
  ultimately show ?thesis using d s
    by (intro exI[of _ donors] exI[of _ spmd_shape] exI[of _ "match_entries ?ds ?es"]) (simp add: Let_def)
qed


text \<open>Donors 0 and 2 of 8 bytes, 1 of 4; outputs of 8, 4 and 8 bytes. Aliases and donors are kept in lists.\<close>

definition list_alias_lib :: "((nat list \<times> nat) list \<times> nat list) alias_lib" where
  "list_alias_lib = \<lparr>al_OutputHasAlias = (\<lambda>cfg out. out \<in> fst ` set (fst cfg)),
     al_ParameterHasAlias = (\<lambda>cfg k. k \<in> snd ` set (fst cfg)),
     al_ParameterIsBufferDonor = (\<lambda>cfg k. k \<in> set (snd cfg)),
     al_SetUpAlias = (\<lambda>cfg out k. Inr ((out, k) # fst cfg, snd cfg)),
     al_RemoveBufferDonor = (\<lambda>cfg k. Inr (fst cfg, remove1 k (snd cfg))),
     al_Verify = (\<lambda>_. Inr ()), al_ByteSizeOf = (\<lambda>s. prod_list (dimensions s))\<rparr>"

definition donor_sample :: hlo_module where
  "donor_sample = sample_module
     [(2, blank_instr\<lparr>i_opcode := kParameter, i_shape := Shape F32 [8] []\<rparr>),
      (3, blank_instr\<lparr>i_opcode := kParameter, i_shape := Shape F32 [4] []\<rparr>),
      (4, blank_instr\<lparr>i_opcode := kParameter, i_shape := Shape F32 [8] []\<rparr>),
      (5, blank_instr\<lparr>i_opcode := kTuple, i_shape := Shape TUPLE [] [Shape F32 [8] [], Shape F32 [4] [], Shape F32 [2] []]\<rparr>)]
     [(0, blank_comp\<lparr>c_root := 5, c_instructions := [2, 3, 4, 5], c_params := [2, 3, 4]\<rparr>)]"

definition no_temporaries :: temporaries where
  "no_temporaries = \<lparr>temporary_param_indices = [], temporary_root_indices = []\<rparr>"

lemma donor_sample_run:
  "Build undefined list_alias_lib no_temporaries False False donor_sample ([], [0, 1, 2]) =
     Inr (True, ([([1], 1), ([0], 0)], [2]))"
  by (simp add: Build_def Let_def donor_step_def donor_sample_def sample_simps list_alias_lib_def no_temporaries_def
      GetSpmdShape_def parameter_number_in_def IsTuple_def IsTupleShape_def donee_vectors_of_def set_up_pair_def
      upt_rec numeral_eq_Suc)

theorem alias_matching_maximal_witness:
  "\<exists>cfg' pairs. Build undefined list_alias_lib no_temporaries False False donor_sample ([], [0, 1, 2]) = Inr (True, cfg') \<and>
     pairs \<noteq> [] \<and> foldR (set_up_pair list_alias_lib) ([], [0, 1, 2]) (map unsized pairs) = Inr cfg'"
  using alias_matching_maximal[OF donor_sample_run] donor_sample_run by (auto simp: Let_def)

section \<open>Collectives\<close>

text \<open>The walk from an instruction to \<open>p\<close>; the flag says that it passes a collective.\<close>

definition is_collective :: "hlo_module \<Rightarrow> iid \<Rightarrow> bool" where
  "is_collective m i \<longleftrightarrow> opcode m i = kAllReduce \<or> IsCustomCall m i ''SPMDShardToFullShape'' \<or> IsCustomCall m i ''SPMDFullToShardShape''"

inductive collective_walk :: "hlo_module \<Rightarrow> iid \<Rightarrow> bool \<Rightarrow> iid \<Rightarrow> bool" for m where
  walk_end: "collective_walk m i False i"
| walk_convert: "opcode m i = kConvert \<Longrightarrow> collective_walk m (operands m i ! 0) b p \<Longrightarrow> collective_walk m i b p"
| walk_collective: "is_collective m i \<Longrightarrow> collective_walk m (operands m i ! 0) b p \<Longrightarrow> collective_walk m i True p"

inductive_cases collective_walkE: "collective_walk m i b p"

definition collective_of :: "hlo_module \<Rightarrow> cid \<Rightarrow> bool \<Rightarrow> iid \<Rightarrow> nat \<Rightarrow> bool" where
  "collective_of m c found i n \<longleftrightarrow>
     (\<exists>b p. collective_walk m i b p \<and> (found \<or> b) \<and> opcode m p = kParameter \<and> parameter_number_in m c p = n)"

lemma IsCustomCall_opcode: "IsCustomCall m i t \<Longrightarrow> opcode m i = kCustomCall"
  by (simp add: IsCustomCall_def)

lemma collective_opcode: "is_collective m i \<Longrightarrow> opcode m i \<noteq> kConvert \<and> opcode m i \<noteq> kParameter"
  by (auto simp: is_collective_def IsCustomCall_def)

lemma walk_from_convert:
  assumes "opcode m i = kConvert"
  shows "collective_walk m i b p \<longleftrightarrow> (\<not> b \<and> p = i) \<or> collective_walk m (operands m i ! 0) b p"
proof
  assume "collective_walk m i b p"
  then show "(\<not> b \<and> p = i) \<or> collective_walk m (operands m i ! 0) b p"
    using assms collective_opcode by (cases rule: collective_walk.cases) auto
qed (auto intro: walk_end walk_convert[OF assms])

lemma walk_from_collective:
  assumes "is_collective m i"
  shows "collective_walk m i b p \<longleftrightarrow> (\<not> b \<and> p = i) \<or> (b \<and> (\<exists>b'. collective_walk m (operands m i ! 0) b' p))"
proof
  assume "collective_walk m i b p"
  then show "(\<not> b \<and> p = i) \<or> (b \<and> (\<exists>b'. collective_walk m (operands m i ! 0) b' p))"
    using assms collective_opcode by (cases rule: collective_walk.cases) auto
next
  assume "(\<not> b \<and> p = i) \<or> (b \<and> (\<exists>b'. collective_walk m (operands m i ! 0) b' p))"
  then show "collective_walk m i b p" using walk_collective[OF assms] walk_end by (cases b) auto
qed

lemma collective_of_step:
  "opcode m i = kConvert \<Longrightarrow> collective_of m c found i n = collective_of m c found (operands m i ! 0) n"
  "is_collective m i \<Longrightarrow> collective_of m c found i n = collective_of m c True (operands m i ! 0) n"
  unfolding collective_of_def using collective_opcode
  by (auto simp: walk_from_convert walk_from_collective)

lemma collective_of_stop:
  "opcode m i \<noteq> kConvert \<Longrightarrow> \<not> is_collective m i \<Longrightarrow>
     collective_of m c found i n \<longleftrightarrow> found \<and> opcode m i = kParameter \<and> parameter_number_in m c i = n"
  unfolding collective_of_def by (auto elim!: collective_walkE intro: walk_end)

definition walkable :: "hlo_module \<Rightarrow> iid set \<Rightarrow> bool" where
  "walkable m U \<longleftrightarrow> (\<forall>i \<in> U. opcode m i = kConvert \<or> is_collective m i \<longrightarrow> operands m i \<noteq> [])"

lemma matching_loop_exact:
  assumes "ranked m U rank" and "walkable m U" and "i \<in> U" and "rank i < fuel"
  shows "\<exists>r. matching_loop fuel m c found i = Inr r \<and> (\<forall>n. r = Some n \<longleftrightarrow> collective_of m c found i n)"
  using assms(3,4)
proof (induction fuel arbitrary: i found)
  case (Suc fuel)
  let ?j = "operands m i ! 0"
  have next_op: "operandR m i 0 = Inr ?j \<and> ?j \<in> U \<and> rank ?j < fuel" if "opcode m i = kConvert \<or> is_collective m i"
  proof -
    have "operands m i \<noteq> []" using assms(2) that Suc.prems(1) by (auto simp: walkable_def)
    then have "?j \<in> set (operands m i)" "operandR m i 0 = Inr ?j" by (simp_all add: operandR_def)
    then show ?thesis using assms(1) Suc.prems unfolding ranked_def by fastforce
  qed
  consider (convert) "opcode m i = kConvert" | (collective) "is_collective m i"
    | (stop) "opcode m i \<noteq> kConvert" "\<not> is_collective m i" by blast
  then show ?case
  proof cases
    case convert
    then show ?thesis using next_op Suc.IH[of ?j found] by (simp add: collective_of_step)
  next
    case collective
    then have "matching_loop (Suc fuel) m c found i = matching_loop fuel m c True ?j"
      using next_op by (auto simp: is_collective_def dest: IsCustomCall_opcode)
    then show ?thesis using collective next_op Suc.IH[of ?j True] by (simp add: collective_of_step)
  next
    case stop
    then show ?thesis using collective_of_stop[OF stop, of c found] by (auto simp: is_collective_def)
  qed
qed simp

text \<open>
  The search for the input of a collective ends within as many steps as the computation has
  instructions, and finds a parameter exactly when the output reaches it through conversions
  and at least one collective, and nothing else.
\<close>

theorem collective_input_exact:
  assumes "wf_computation m c" and "walkable m (set (post_order m c))"
    and "operandR m (root m c) k = Inr r" and "length (post_order m c) \<le> fuel"
  shows "\<exists>res. GetMatchingCollectiveInput fuel m c k = Inr res \<and> (\<forall>n. res = Some n \<longleftrightarrow> collective_of m c False r n)"
proof -
  let ?po = "post_order m c"
  have topo: "topo_sorted (operands m) [] ?po" and r: "root m c \<in> set ?po"
    using assms(1) by (simp_all add: wf_computation_def)
  obtain rank where rank: "ranked m (set ?po) rank" and lim: "\<forall>i \<in> set ?po. rank i < length ?po"
    using topo_sorted_ranked[OF topo] by blast
  have "r \<in> set (operands m (root m c))" using assms(3) by (auto simp: operandR_def subR_def split: if_splits)
  then have "r \<in> set ?po" using rank r unfolding ranked_def by blast
  then show ?thesis using matching_loop_exact[OF rank assms(2)] lim assms(3,4)
    by (fastforce simp: GetMatchingCollectiveInput_def)
qed


definition reduced_sample :: hlo_module where
  "reduced_sample = sample_module
     [(2, blank_instr\<lparr>i_opcode := kParameter\<rparr>), (3, blank_instr\<lparr>i_opcode := kAllReduce, i_operands := [2]\<rparr>),
      (4, blank_instr\<lparr>i_opcode := kConvert, i_operands := [3]\<rparr>), (5, blank_instr\<lparr>i_opcode := kTuple, i_operands := [4]\<rparr>)]
     [(0, blank_comp\<lparr>c_root := 5, c_post_order := [2, 3, 4, 5], c_params := [2]\<rparr>)]"

theorem collective_input_exact_witness:
  "GetMatchingCollectiveInput 4 reduced_sample 0 0 = Inr (Some 0)"
proof -
  have "wf_computation reduced_sample 0" "walkable reduced_sample (set (post_order reduced_sample 0))"
    "operandR reduced_sample (root reduced_sample 0) 0 = Inr 4" "length (post_order reduced_sample 0) \<le> 4"
    by (simp_all add: wf_computation_def walkable_def is_collective_def IsCustomCall_def operandR_def reduced_sample_def sample_simps)
  from collective_input_exact[OF this] obtain res
    where "GetMatchingCollectiveInput 4 reduced_sample 0 0 = Inr res" "res = Some 0 \<longleftrightarrow> collective_of reduced_sample 0 False 4 0" by blast
  moreover have "opcode reduced_sample 4 = kConvert" "is_collective reduced_sample 3" "opcode reduced_sample 2 = kParameter"
    "operands reduced_sample 4 = [3]" "operands reduced_sample 3 = [2]" "params reduced_sample 0 = [2]"
    by (simp_all add: is_collective_def reduced_sample_def sample_simps)
  then have "collective_of reduced_sample 0 False 4 0"
    using collective_of_stop[of reduced_sample 2 0 True 0] collective_opcode[of reduced_sample 2]
    by (auto simp: collective_of_step parameter_number_in_def)
  ultimately show ?thesis by simp
qed

end
