(* ===== verification/Graph_Cleanup.thy ===== *)
theory Graph_Cleanup
  imports Mpmd_Utils
begin

text \<open>
  The parts of \<open>mpmd_utils.cc\<close> that remove instructions: the class \<open>HloPassCleanup\<close>,
  \<open>RemoveUnusedInstructions\<close> and \<open>RemoveInstructionBackToParameters\<close>. The operations of XLA
  that change the graph are a record of functions on modules; what is relied on is that
  removing an instruction takes it out of its computation and of the users of its operands.
\<close>

record graph_lib =
  gl_RemoveInstruction :: "hlo_module \<Rightarrow> iid \<Rightarrow> hlo_module statusor"
  gl_RemoveEmbeddedComputation :: "hlo_module \<Rightarrow> cid \<Rightarrow> hlo_module statusor"
  gl_ReplaceAllUsesWith :: "hlo_module \<Rightarrow> iid \<Rightarrow> iid \<Rightarrow> hlo_module statusor"
  gl_ReplaceOperandWith :: "hlo_module \<Rightarrow> iid \<Rightarrow> nat \<Rightarrow> iid \<Rightarrow> hlo_module statusor"
  gl_AddInstruction :: "hlo_module \<Rightarrow> cid \<Rightarrow> hlo_instr \<Rightarrow> iid \<times> hlo_module"
  gl_set_root_instruction :: "hlo_module \<Rightarrow> cid \<Rightarrow> iid \<Rightarrow> hlo_module"

section \<open>Unused instructions\<close>

definition unused :: "hlo_module \<Rightarrow> cid \<Rightarrow> iid \<Rightarrow> bool" where
  "unused m c i \<longleftrightarrow> i \<noteq> root m c \<and> users m i = [] \<and> opcode m i \<noteq> kParameter"

definition remove_unused :: "graph_lib \<Rightarrow> cid \<Rightarrow> hlo_module \<Rightarrow> iid \<Rightarrow> hlo_module statusor" where
  "remove_unused G c m i = (if unused m c i then gl_RemoveInstruction G m i else Inr m)"

definition RemoveUnusedInstructions :: "graph_lib \<Rightarrow> hlo_module \<Rightarrow> cid \<Rightarrow> hlo_module statusor" where
  "RemoveUnusedInstructions G m c = foldR (remove_unused G c) m (rev (post_order m c))"

text \<open>The back of the vector \<open>delete_tree\<close> is the head of the list.\<close>

fun delete_loop :: "nat \<Rightarrow> graph_lib \<Rightarrow> hlo_module \<Rightarrow> iid list \<Rightarrow> iid list \<Rightarrow> hlo_module statusor" where
  "delete_loop fuel G m deleted [] = Inr m"
| "delete_loop 0 G m deleted (i # delete_tree) = Inl out_of_fuel"
| "delete_loop (Suc fuel) G m deleted (i # delete_tree) =
     (if i \<in> set deleted then delete_loop fuel G m deleted delete_tree
      else if users m i = [] \<and> opcode m i \<noteq> kParameter
      then bindR (gl_RemoveInstruction G m i) (\<lambda>m'.
           delete_loop fuel G m' (i # deleted) (rev (operands m i) @ delete_tree))
      else delete_loop fuel G m deleted delete_tree)"

definition RemoveInstructionBackToParameters :: "nat \<Rightarrow> graph_lib \<Rightarrow> hlo_module \<Rightarrow> iid \<Rightarrow> hlo_module statusor" where
  "RemoveInstructionBackToParameters fuel G m i = delete_loop fuel G m [] [i]"

section \<open>Deferred removal\<close>

record pass_cleanup =
  pc_computations_to_remove :: "cid list"
  pc_computations_to_prune :: "cid list"
  pc_instructions_to_remove :: "iid list"

definition no_cleanup :: pass_cleanup where
  "no_cleanup = \<lparr>pc_computations_to_remove = [], pc_computations_to_prune = [], pc_instructions_to_remove = []\<rparr>"

definition PruneComputation :: "pass_cleanup \<Rightarrow> cid \<Rightarrow> pass_cleanup" where
  "PruneComputation p c = p\<lparr>pc_computations_to_prune := pc_computations_to_prune p @ [c]\<rparr>"

definition RemoveInstruction :: "pass_cleanup \<Rightarrow> iid \<Rightarrow> pass_cleanup" where
  "RemoveInstruction p i = p\<lparr>pc_instructions_to_remove := pc_instructions_to_remove p @ [i]\<rparr>"

definition RemoveComputation :: "pass_cleanup \<Rightarrow> cid \<Rightarrow> pass_cleanup" where
  "RemoveComputation p c = p\<lparr>pc_computations_to_remove := pc_computations_to_remove p @ [c]\<rparr>"

definition CleanUp :: "graph_lib \<Rightarrow> pass_cleanup \<Rightarrow> hlo_module \<Rightarrow> hlo_module statusor" where
  "CleanUp G p m =
     bindR (foldR (gl_RemoveInstruction G) m (pc_instructions_to_remove p)) (\<lambda>m.
     bindR (foldR (RemoveUnusedInstructions G) m (pc_computations_to_prune p)) (\<lambda>m.
     foldR (gl_RemoveEmbeddedComputation G) m (pc_computations_to_remove p)))"

section \<open>One backward pass leaves nothing unused\<close>

definition removed :: "hlo_module \<Rightarrow> cid \<Rightarrow> iid \<Rightarrow> hlo_module \<Rightarrow> bool" where
  "removed m c i m' \<longleftrightarrow> post_order m' c = removeAll i (post_order m c) \<and> root m' c = root m c \<and>
     opcode m' = opcode m \<and> operands m' = operands m \<and> (\<forall>j. users m' j = removeAll i (users m j))"

definition removes :: "graph_lib \<Rightarrow> cid \<Rightarrow> bool" where
  "removes G c \<longleftrightarrow> (\<forall>m i. unused m c i \<longrightarrow> i \<in> set (post_order m c) \<longrightarrow>
     (\<exists>m'. gl_RemoveInstruction G m i = Inr m' \<and> removed m c i m'))"

text \<open>Users are the inverse of operands, within the computation.\<close>

definition users_match :: "hlo_module \<Rightarrow> cid \<Rightarrow> bool" where
  "users_match m c \<longleftrightarrow> (\<forall>i \<in> set (post_order m c). \<forall>u. u \<in> set (users m i) \<longleftrightarrow> u \<in> set (post_order m c) \<and> i \<in> set (operands m u))"

lemma removed_users_match: "users_match m c \<Longrightarrow> removed m c i m' \<Longrightarrow> users_match m' c"
  unfolding users_match_def removed_def by auto

text \<open>\<open>D\<close> is the part of the walk that is behind: what is left of it is not unused.\<close>

definition pruned :: "hlo_module \<Rightarrow> cid \<Rightarrow> iid set \<Rightarrow> hlo_module \<Rightarrow> bool" where
  "pruned g c D m \<longleftrightarrow> users_match m c \<and> root m c = root g c \<and> opcode m = opcode g \<and> operands m = operands g \<and>
     set (post_order m c) \<subseteq> set (post_order g c) \<and> set (post_order g c) - D \<subseteq> set (post_order m c) \<and>
     (\<forall>i \<in> set (post_order m c). i \<in> D \<longrightarrow> \<not> unused m c i)"

lemma remove_unused_pruned:
  assumes "removes G c" and inv: "pruned g c (set ys) m" and topo: "topo_sorted (operands g) [] (xs @ i # ys)"
    and po: "post_order g c = xs @ i # ys"
  shows "\<exists>m'. remove_unused G c m i = Inr m' \<and> pruned g c (set (i # ys)) m'"
proof (cases "unused m c i")
  case False
  then show ?thesis using inv unfolding pruned_def remove_unused_def by auto
next
  case True
  have dist: "distinct (xs @ i # ys)" using topo_sorted_distinct[OF topo] by simp
  have i: "i \<in> set (post_order m c)" using inv po dist by (auto simp: pruned_def)
  then obtain m' where m': "gl_RemoveInstruction G m i = Inr m'" "removed m c i m'"
    using assms(1) True unfolding removes_def by blast
  have "\<not> unused m' c j" if j: "j \<in> set (post_order m' c)" "j \<in> set (i # ys)" for j
  proof -
    have jm: "j \<in> set (post_order m c)" "j \<noteq> i" "j \<in> set ys" using j m'(2) by (auto simp: removed_def)
    then have nu: "\<not> unused m c j" using inv by (simp add: pruned_def)
    have "j \<notin> set (operands g i)" using topo jm(2,3) dist by (auto simp: topo_sorted_append)
    then have "i \<notin> set (users m j)" using inv jm(1) by (auto simp: pruned_def users_match_def)
    then have "users m' j = users m j" using m'(2) by (simp add: removed_def)
    then show ?thesis using nu m'(2) by (simp add: unused_def removed_def)
  qed
  then have "pruned g c (set (i # ys)) m'"
    using inv m'(2) removed_users_match[of m c i m'] unfolding pruned_def by (auto simp: removed_def)
  then show ?thesis using True m'(1) by (auto simp: remove_unused_def)
qed

lemma remove_unused_fold:
  assumes "removes G c" and "pruned g c (set ys) m" and "topo_sorted (operands g) [] (xs @ ys)"
    and "post_order g c = xs @ ys"
  shows "\<exists>m'. foldR (remove_unused G c) m (rev xs) = Inr m' \<and> pruned g c (set (xs @ ys)) m'"
  using assms(2-4)
proof (induction xs arbitrary: m ys rule: rev_induct)
  case (snoc i xs)
  obtain m1 where "remove_unused G c m i = Inr m1" "pruned g c (set (i # ys)) m1"
    using remove_unused_pruned[OF assms(1) snoc.prems(1), of xs i] snoc.prems(2,3) by auto
  then show ?case using snoc.IH[of "i # ys" m1] snoc.prems by (auto simp: insert_commute)
qed auto

text \<open>
  One walk from users to operands is enough: it succeeds, and of the instructions that are
  left every one is the root, a parameter, or used by another that is left.
\<close>

theorem nothing_unused_left:
  assumes "removes G c" and "wf_computation m c" and "users_match m c"
  shows "\<exists>m'. RemoveUnusedInstructions G m c = Inr m' \<and> set (post_order m' c) \<subseteq> set (post_order m c) \<and>
    (\<forall>i \<in> set (post_order m' c). \<not> unused m' c i) \<and> users_match m' c"
proof -
  have "pruned m c (set []) m" using assms(3) by (simp add: pruned_def)
  then show ?thesis
    using remove_unused_fold[OF assms(1), of m "[]" m "post_order m c"] assms(2)
    by (auto simp: RemoveUnusedInstructions_def wf_computation_def pruned_def)
qed

text \<open>Removal on the module records themselves, and two dead instructions on top of each other.\<close>

definition take_out :: "hlo_module \<Rightarrow> iid \<Rightarrow> hlo_module" where
  "take_out m i = m\<lparr>m_instr := (\<lambda>j. (m_instr m j)\<lparr>i_users := removeAll i (i_users (m_instr m j))\<rparr>),
     m_comp := (\<lambda>c. (m_comp m c)\<lparr>c_post_order := removeAll i (c_post_order (m_comp m c))\<rparr>)\<rparr>"

definition plain_add :: "hlo_module \<Rightarrow> cid \<Rightarrow> hlo_instr \<Rightarrow> iid \<times> hlo_module" where
  "plain_add m c r = (let i = Suc (Max (set (0 # comp_instructions m c))) in
     (i, m\<lparr>m_instr := (\<lambda>j. if j = i then r
                         else if j \<in> set (i_operands r) then (m_instr m j)\<lparr>i_users := i_users (m_instr m j) @ [i]\<rparr> else m_instr m j),
           m_comp := (m_comp m)(c := (m_comp m c)\<lparr>c_instructions := c_instructions (m_comp m c) @ [i],
                                                c_post_order := c_post_order (m_comp m c) @ [i]\<rparr>)\<rparr>))"

definition plain_graph_lib :: graph_lib where
  "plain_graph_lib = \<lparr>gl_RemoveInstruction = (\<lambda>m i. Inr (take_out m i)),
     gl_RemoveEmbeddedComputation = (\<lambda>m c. Inr m), gl_ReplaceAllUsesWith = (\<lambda>m i j. Inr m),
     gl_ReplaceOperandWith = (\<lambda>m i k j. Inr (upd_instr m i (\<lambda>r. r\<lparr>i_operands := (i_operands r)[k := j]\<rparr>))),
     gl_AddInstruction = plain_add, gl_set_root_instruction = (\<lambda>m c i. m\<lparr>m_comp := (m_comp m)(c := (m_comp m c)\<lparr>c_root := i\<rparr>)\<rparr>)\<rparr>"

lemma plain_removes: "removes plain_graph_lib c"
  by (simp add: removes_def plain_graph_lib_def removed_def take_out_def post_order_def root_def users_def
      opcode_def operands_def fun_eq_iff)

definition dead_pair :: hlo_module where
  "dead_pair = sample_module
     [(2, blank_instr\<lparr>i_users := [3]\<rparr>), (3, blank_instr\<lparr>i_opcode := kNegate, i_operands := [2]\<rparr>),
      (4, blank_instr\<lparr>i_opcode := kTuple\<rparr>)]
     [(0, blank_comp\<lparr>c_root := 4, c_post_order := [2, 3, 4]\<rparr>)]"

theorem nothing_unused_left_witness:
  "\<exists>m'. RemoveUnusedInstructions plain_graph_lib dead_pair 0 = Inr m' \<and> post_order m' 0 = [4] \<and>
     (\<forall>i \<in> set (post_order m' 0). \<not> unused m' 0 i)"
proof -
  have "wf_computation dead_pair 0" "users_match dead_pair 0"
    by (auto simp: wf_computation_def users_match_def dead_pair_def sample_simps)
  then obtain m' where m': "RemoveUnusedInstructions plain_graph_lib dead_pair 0 = Inr m'"
    "\<forall>i \<in> set (post_order m' 0). \<not> unused m' 0 i"
    using nothing_unused_left[OF plain_removes] by blast
  moreover have "post_order m' 0 = [4]"
    using m'(1) by (auto simp: RemoveUnusedInstructions_def remove_unused_def plain_graph_lib_def take_out_def
        unused_def dead_pair_def sample_simps)
  ultimately show ?thesis by blast
qed

end
