(* ===== verification/Logical_Sharding.thy ===== *)
theory Logical_Sharding
  imports Mpmd_Instruction Hlo_Partition Instruction_Properties Mm_Sharding Graph_Cleanup
begin

text \<open>
  \<open>mpmd_logical_sharding_propagation.cc\<close>: named axes are taken from the user's annotations and
  passed on to aliases, call and loop parameters, dot products and aliased outputs.
  \<open>mpmd_logical_to_gspmd_sharding.cc\<close>: named axes become a sharding over the devices of a task.

  Dimension numbers of a dot product and the aliases of the module come from XLA and are
  arguments. A subscript out of range is \<open>Undefined\<close>.
\<close>

section \<open>Axes of a dot product\<close>

record dot_numbers =
  lhs_contracting_dimensions :: "nat list"
  rhs_contracting_dimensions :: "nat list"
  lhs_batch_dimensions :: "nat list"
  rhs_batch_dimensions :: "nat list"

text \<open>The state is \<open>dot_axes\<close> and the list of \<open>axes_already_assigned\<close>.\<close>

definition add_axis_name :: "nat \<Rightarrow> logical_axes \<times> string list \<Rightarrow> string \<Rightarrow> logical_axes \<times> string list" where
  "add_axis_name dot_dim st axis_name =
     (let (dot_axes, assigned) = st in
      if axis_name \<notin> set assigned
      then (dot_axes[dot_dim := dot_axes ! dot_dim @ [axis_name]], axis_name # assigned)
      else (dot_axes, assigned))"

definition maybe_add_axes_at_dim ::
  "nat \<Rightarrow> nat \<Rightarrow> logical_axes \<Rightarrow> logical_axes \<times> string list \<Rightarrow> (logical_axes \<times> string list) statusor" where
  "maybe_add_axes_at_dim dot_dim operand_dim axes st =
     bindR (subR (fst st) dot_dim) (\<lambda>present.
     if present = []
     then bindR (subR axes operand_dim) (\<lambda>names. Inr (foldl (add_axis_name dot_dim) st names))
     else Inr st)"

fun add_dims :: "logical_axes \<Rightarrow> nat \<Rightarrow> nat list \<Rightarrow> logical_axes \<times> string list \<Rightarrow> (logical_axes \<times> string list) statusor" where
  "add_dims axes dot_dim [] st = Inr st"
| "add_dims axes dot_dim (dim # dims) st =
     bindR (maybe_add_axes_at_dim dot_dim dim axes st) (add_dims axes (Suc dot_dim) dims)"

definition free_dims :: "nat \<Rightarrow> nat list \<Rightarrow> nat list" where
  "free_dims r cxn_and_batch = filter (\<lambda>dim. dim \<notin> set cxn_and_batch) [0..<r]"

text \<open>The ranks are those of the left operand, the right operand and the result.\<close>

definition compute_dot_axes ::
  "nat \<Rightarrow> nat \<Rightarrow> nat \<Rightarrow> dot_numbers \<Rightarrow> logical_axes \<Rightarrow> logical_axes \<Rightarrow> logical_axes statusor" where
  "compute_dot_axes lhs_rank rhs_rank r dn lhs_axes rhs_axes =
     bindR (add_dims rhs_axes 0 (rhs_batch_dimensions dn) (replicate r [], [])) (\<lambda>st.
     if lhs_rank < length (lhs_contracting_dimensions dn) then Inl (Undefined ''subscript'')
     else bindR (add_dims rhs_axes (lhs_rank - length (lhs_contracting_dimensions dn))
            (free_dims rhs_rank (rhs_contracting_dimensions dn @ rhs_batch_dimensions dn)) st) (\<lambda>st.
     bindR (add_dims lhs_axes 0 (lhs_batch_dimensions dn
            @ free_dims lhs_rank (lhs_contracting_dimensions dn @ lhs_batch_dimensions dn)) st) (\<lambda>st.
     Inr (fst st))))"

section \<open>Propagation\<close>

record 'j axes_env =
  ae_json :: "'j json_api"
  ae_add_frontend_attributes :: "attrs \<Rightarrow> attrs \<Rightarrow> attrs"
  ae_graph :: graph_lib
  ae_dot_numbers :: "iid \<Rightarrow> dot_numbers"
  ae_aliases :: "(nat list \<times> nat) list"

abbreviation put_axes :: "'j axes_env \<Rightarrow> string \<Rightarrow> hlo_module \<Rightarrow> iid \<Rightarrow> hlo_module" where
  "put_axes E axes m i \<equiv> AssignAxes_string (ae_add_frontend_attributes E) m i axes"

definition auto_sharding ::
  "nat \<Rightarrow> 'j axes_env \<Rightarrow> entries \<Rightarrow> hlo_module \<times> pass_cleanup \<Rightarrow> iid \<Rightarrow> (hlo_module \<times> pass_cleanup) statusor" where
  "auto_sharding w E properties st i =
     (let (m, cleanup) = st in
      bindR (operandR m i 0) (\<lambda>operand.
      let axis_json = (case i_backend_config (m_instr m i) of None \<Rightarrow> '''' | Some s \<Rightarrow> s) in
      bindR (gl_ReplaceAllUsesWith (ae_graph E) m i operand) (\<lambda>m.
      let cleanup = RemoveInstruction cleanup i in
      bindR (ForEachAlias w properties operand) (\<lambda>as.
      let m = foldl (put_axes E axis_json) m as in
      bindR (Get properties i) (\<lambda>instruction_props.
      let m = (case elementwise_connected instruction_props of None \<Rightarrow> m | Some out \<Rightarrow> put_axes E axis_json m out) in
      Inr (put_axes E axis_json m operand, cleanup))))))"

text \<open>
  The loop over call operands counts up the pointer to the instruction instead of the index: the
  first round handles operand 0, the next test reads past the instruction.
\<close>

definition call_axes :: "'j axes_env \<Rightarrow> hlo_module \<Rightarrow> iid \<Rightarrow> hlo_module statusor" where
  "call_axes E m i =
     bindR (calledR m i) (\<lambda>called_computation.
     if operands m i = [] then Inr m
     else bindR (operandR m i 0) (\<lambda>operand.
          bindR (case GetAxesString m operand of
                   None \<Rightarrow> Inr m
                 | Some axes \<Rightarrow> bindR (paramR m called_computation 0) (\<lambda>param. Inr (put_axes E axes m param))) (\<lambda>m.
          Inl (Undefined ''pointer past the instruction''))))"

definition user_tuple_of :: "hlo_module \<Rightarrow> iid \<Rightarrow> iid option statusor" where
  "user_tuple_of m i =
     (let u = hd (users m i) in
      if opcode m u = kWhile then bindR (calledR m u) (\<lambda>c. bindR (paramR m c 0) (\<lambda>p. Inr (Some p)))
      else if opcode m u = kOptimizationBarrier then Inr (Some u)
      else Inr None)"

definition tuple_axes :: "'j axes_env \<Rightarrow> hlo_module \<Rightarrow> iid \<Rightarrow> hlo_module statusor" where
  "tuple_axes E m i =
     bindR (user_tuple_of m i) (\<lambda>user_tuple.
     case user_tuple of
       None \<Rightarrow> Inr m
     | Some t \<Rightarrow> foldR (\<lambda>m user.
         bindR (tuple_indexR m user) (\<lambda>k.
         bindR (operandR m i k) (\<lambda>matching_operand.
         Inr (case GetAxesString m matching_operand of None \<Rightarrow> m | Some axes \<Rightarrow> put_axes E axes m user)))) m (users m t))"

definition rank_of :: "hlo_module \<Rightarrow> iid \<Rightarrow> nat" where
  "rank_of m i = length (dimensions (i_shape (m_instr m i)))"

definition dot_axes_step :: "'j axes_env \<Rightarrow> hlo_module \<Rightarrow> iid \<Rightarrow> hlo_module statusor" where
  "dot_axes_step E m i =
     bindR (operandR m i 0) (\<lambda>lhs. bindR (operandR m i (Suc 0)) (\<lambda>rhs.
     bindR (GetAxes (ae_json E) m lhs) (\<lambda>lhs_axes. bindR (GetAxes (ae_json E) m rhs) (\<lambda>rhs_axes.
     case (lhs_axes, rhs_axes) of
       (Some la, Some ra) \<Rightarrow>
         bindR (compute_dot_axes (rank_of m lhs) (rank_of m rhs) (rank_of m i) (ae_dot_numbers E i) la ra) (\<lambda>dot_axes.
         Inr (AssignAxes (ae_json E) (ae_add_frontend_attributes E) m i dot_axes))
     | _ \<Rightarrow> Inr m))))"

record axes_state =
  as_module :: hlo_module
  as_cleanup :: pass_cleanup
  as_to_visit :: "cid list"
  as_changed :: bool

definition axes_step :: "nat \<Rightarrow> 'j axes_env \<Rightarrow> entries \<Rightarrow> axes_state \<Rightarrow> iid \<Rightarrow> axes_state statusor" where
  "axes_step w E properties st i =
     (let m = as_module st in
      bindR (if IsCustomCall m i ''AutoSharding''
             then bindR (auto_sharding w E properties (m, as_cleanup st) i) (\<lambda>(m, cleanup).
                  Inr (st\<lparr>as_module := m, as_cleanup := cleanup, as_changed := True\<rparr>))
             else if opcode m i = kCall
             then bindR (call_axes E m i) (\<lambda>m. bindR (calledR m i) (\<lambda>c.
                  Inr (st\<lparr>as_module := m, as_to_visit := c # as_to_visit st\<rparr>)))
             else if opcode m i = kTuple \<and> length (users m i) = 1
             then bindR (tuple_axes E m i) (\<lambda>m. Inr (st\<lparr>as_module := m\<rparr>))
             else if opcode m i = kDot \<and> \<not> HasAssignedAxes m i
             then bindR (dot_axes_step E m i) (\<lambda>m. Inr (st\<lparr>as_module := m\<rparr>))
             else Inr st) (\<lambda>st.
      Inr (st\<lparr>as_to_visit := rev (called (as_module st) i) @ as_to_visit st\<rparr>)))"

fun axes_loop :: "nat \<Rightarrow> nat \<Rightarrow> 'j axes_env \<Rightarrow> entries \<Rightarrow> axes_state \<Rightarrow> axes_state statusor" where
  "axes_loop 0 w E properties st = (if as_to_visit st = [] then Inr st else Inl out_of_fuel)"
| "axes_loop (Suc fuel) w E properties st =
     (case as_to_visit st of
        [] \<Rightarrow> Inr st
      | c # rest \<Rightarrow>
          bindR (foldR (axes_step w E properties) (st\<lparr>as_to_visit := rest\<rparr>) (post_order (as_module st) c)) (\<lambda>st.
          axes_loop fuel w E properties st))"

definition alias_axes :: "nat \<Rightarrow> 'j axes_env \<Rightarrow> entries \<Rightarrow> hlo_module \<Rightarrow> nat list \<times> nat \<Rightarrow> hlo_module statusor" where
  "alias_axes w E properties m alias =
     (let r = root m (m_entry m) in
      bindR (paramR m (m_entry m) (snd alias)) (\<lambda>parameter.
      bindR (if opcode m r = kTuple then bindR (subR (fst alias) 0) (operandR m r) else Inr r) (\<lambda>out.
      case GetAxesString m parameter of
        Some axes \<Rightarrow>
          if \<not> HasAssignedAxes m out
          then bindR (ForEachBackwardAliasAndSelf w properties out) (\<lambda>as. Inr (foldl (put_axes E axes) m as))
          else (case GetAxesString m out of
                  None \<Rightarrow> Inr m
                | Some axes \<Rightarrow> bindR (ForEachForwardAliasAndSelf w properties parameter) (\<lambda>as. Inr (foldl (put_axes E axes) m as)))
      | None \<Rightarrow>
          (case GetAxesString m out of
             None \<Rightarrow> Inr m
           | Some axes \<Rightarrow> bindR (ForEachForwardAliasAndSelf w properties parameter) (\<lambda>as. Inr (foldl (put_axes E axes) m as))))))"

definition MpmdLogicalShardingPropagation_Run ::
  "nat \<Rightarrow> nat \<Rightarrow> 'j axes_env \<Rightarrow> hlo_module \<Rightarrow> (bool \<times> hlo_module) statusor" where
  "MpmdLogicalShardingPropagation_Run fuel w E m =
     bindR (Create_module fuel w m) (\<lambda>properties.
     bindR (axes_loop fuel w E properties
              \<lparr>as_module = m, as_cleanup = no_cleanup, as_to_visit = [m_entry m], as_changed = False\<rparr>) (\<lambda>st.
     bindR (foldR (alias_axes w E properties) (as_module st) (ae_aliases E)) (\<lambda>m.
     bindR (CleanUp (ae_graph E) (as_cleanup st) m) (\<lambda>m.
     Inr (as_changed st, m)))))"

section \<open>Translation to a sharding\<close>

text \<open>The state: device axes per dimension, device axes used, and the sharding of each dimension.\<close>

type_synonym axis_map = "nat list list \<times> nat list \<times> int list"

fun axis_position :: "string list \<Rightarrow> string \<Rightarrow> nat option" where
  "axis_position [] x = None"
| "axis_position (ax # axs) x = (if ax = x then Some 0 else map_option Suc (axis_position axs x))"

definition map_axis ::
  "hlo_module \<Rightarrow> iid \<Rightarrow> task_options \<Rightarrow> string \<Rightarrow> axis_map \<Rightarrow> nat \<Rightarrow> axis_map statusor" where
  "map_axis m i context device_ax st logical_axis_index =
     (let (logical_to_device_axes, device_axes_used, sharding_on_axis) = st in
      case axis_position (to_axes context) device_ax of
        None \<Rightarrow> Inl (InvalidArgument (''unknown device axis '' @ device_ax @ '' in autosharding''))
      | Some device_axis_index \<Rightarrow>
          bindR (subR sharding_on_axis logical_axis_index) (\<lambda>sharding.
          bindR (subR (to_dims context) device_axis_index) (\<lambda>dim.
          bindR (subR (dimensions (i_shape (m_instr m i))) logical_axis_index) (\<lambda>extent.
          let total_sharding_on_axis = narrow32 (sharding * dim) in
          Inr (if total_sharding_on_axis \<le> extent \<and> device_axis_index \<notin> set device_axes_used
               then (logical_to_device_axes[logical_axis_index := logical_to_device_axes ! logical_axis_index @ [device_axis_index]],
                     device_axis_index # device_axes_used,
                     sharding_on_axis[logical_axis_index := total_sharding_on_axis])
               else st)))))"

definition map_logical_axis ::
  "hlo_module \<Rightarrow> iid \<Rightarrow> task_options \<Rightarrow> logical_axes \<Rightarrow> axis_map \<Rightarrow> string \<times> string \<Rightarrow> axis_map statusor" where
  "map_logical_axis m i context names st axes =
     foldR (\<lambda>st (k, axis). if fst axes \<in> set axis then map_axis m i context (snd axes) st k else Inr st)
       st (enumerate 0 names)"

definition check_even :: "sharding_lib \<Rightarrow> shape \<Rightarrow> op_sharding \<Rightarrow> nat \<Rightarrow> op_sharding statusor" where
  "check_even L shp op_sharding dim =
     bindR (subR (os_tile_assignment_dimensions op_sharding) dim) (\<lambda>tiles.
     if tiles = 0 then Inl (Undefined ''division by zero'')
     else if dimensions shp ! dim smod tiles \<noteq> 0
     then bindR (L_FromProto L op_sharding) (\<lambda>bad_sharding.
          Inl (InvalidArgument (L_ToString L bad_sharding @ '' does not evenly divide shape'')))
     else Inr op_sharding)"

definition LogicalShardingToOpSharding ::
  "sharding_lib \<Rightarrow> hlo_partition \<Rightarrow> hlo_module \<Rightarrow> iid \<Rightarrow> device_list \<Rightarrow> task_options \<Rightarrow> logical_axes \<Rightarrow> op_sharding statusor" where
  "LogicalShardingToOpSharding L p m i sharding_devices context logical_axis_names =
     (let dims = to_dims context; n = length logical_axis_names in
      bindR (foldR (map_logical_axis m i context logical_axis_names) (replicate n [], [], replicate n 1)
               (to_logical_axes context)) (\<lambda>(logical_to_device_axes, _, _).
      let list_all_devices = int (length (to_devices context)) < dl_size (p_devices p) in
      bindR (LogicalToPhysicalSharding L logical_to_device_axes sharding_devices dims list_all_devices) (\<lambda>op_sharding.
      if os_tile_assignment_devices op_sharding \<noteq> [] \<and> int (length (os_tile_assignment_devices op_sharding)) \<noteq> prod_list dims
      then Inl (InvalidArgument (i_name (m_instr m i) @ '' has a wrong number of devices in sharding''))
      else if os_type op_sharding = OS_OTHER
      then foldR (check_even L (i_shape (m_instr m i))) op_sharding [0..<length (dimensions (i_shape (m_instr m i)))]
      else Inr op_sharding)))"

definition share_sharding :: "hlo_partition \<Rightarrow> iid \<Rightarrow> hlo_module \<Rightarrow> iid \<Rightarrow> hlo_module statusor" where
  "share_sharding p i m j =
     (case (sharding_of m j, sharding_of m i) of
        (None, Some s) \<Rightarrow>
          bindR (NumDevicesForInstruction p (Color m j)) (\<lambda>num_devices.
          Inr (if num_devices = ta_num_elements (tile_assignment_of s) then set_sharding m j s else m))
      | _ \<Rightarrow> Inr m)"

definition ApplySharding ::
  "nat \<Rightarrow> 'j json_api \<Rightarrow> sharding_lib \<Rightarrow> hlo_partition \<Rightarrow> entries \<Rightarrow> hlo_module \<Rightarrow> iid \<Rightarrow> (bool \<times> hlo_module) statusor" where
  "ApplySharding w J L p properties m i =
     (if sharding_of m i \<noteq> None then Inr (False, m)
      else bindR (GetAxes J m i) (\<lambda>axes.
      case (axes, Color m i) of
        (Some axes, Some color) \<Rightarrow>
          bindR (GetTaskOptions p color) (\<lambda>context.
          if to_logical_axes context = [] then Inr (False, m)
          else bindR (DevicesForColor p color) (\<lambda>devices.
            bindR (LogicalShardingToOpSharding L p m i devices context axes) (\<lambda>op_sharding.
            bindR (L_FromProto L op_sharding) (\<lambda>hlo_sharding.
            let m = set_sharding m i hlo_sharding in
            bindR (ForEachBackwardAlias w properties i) (\<lambda>as.
            bindR (foldR (share_sharding p i) m as) (\<lambda>m.
            Inr (True, m)))))))
      | _ \<Rightarrow> Inr (False, m)))"

definition apply_step ::
  "nat \<Rightarrow> 'j json_api \<Rightarrow> sharding_lib \<Rightarrow> hlo_partition \<Rightarrow> entries \<Rightarrow> cid \<Rightarrow> hlo_module \<times> bool \<times> cid list \<Rightarrow> iid
     \<Rightarrow> (hlo_module \<times> bool \<times> cid list) statusor" where
  "apply_step w J L p properties c st i =
     (let (m, changed, to_visit) = st in
      if opcode m i = kGetTupleElement \<or> opcode m i = kTuple \<or> opcode m i = kConstant then Inr st
      else if opcode m i = kWhile \<or> opcode m i = kCall then bindR (calledR m i) (\<lambda>d. Inr (m, changed, d # to_visit))
      else if opcode m i = kParameter \<and> c = m_entry m then Inr st
      else bindR (ApplySharding w J L p properties m i) (\<lambda>(instruction_changed, m).
           Inr (m, changed \<or> instruction_changed, to_visit)))"

fun apply_loop ::
  "nat \<Rightarrow> nat \<Rightarrow> 'j json_api \<Rightarrow> sharding_lib \<Rightarrow> hlo_partition \<Rightarrow> entries \<Rightarrow> hlo_module \<times> bool \<times> cid list
     \<Rightarrow> (bool \<times> hlo_module) statusor" where
  "apply_loop fuel w J L p properties (m, changed, []) = Inr (changed, m)"
| "apply_loop 0 w J L p properties (m, changed, c # to_visit) = Inl out_of_fuel"
| "apply_loop (Suc fuel) w J L p properties (m, changed, c # to_visit) =
     bindR (foldR (apply_step w J L p properties c) (m, changed, to_visit) (post_order m c))
       (apply_loop fuel w J L p properties)"

definition MpmdLogicalToGSPMDSharding_Run ::
  "nat \<Rightarrow> nat \<Rightarrow> 'j json_api \<Rightarrow> sharding_lib \<Rightarrow> hlo_partition \<Rightarrow> hlo_module \<Rightarrow> (bool \<times> hlo_module) statusor" where
  "MpmdLogicalToGSPMDSharding_Run fuel w J L p m =
     bindR (Create_module fuel w m) (\<lambda>properties.
     apply_loop fuel w J L p properties (m, False, [m_entry m]))"

end
