(* ===== verification/Axes_Facts.thy ===== *)
theory Axes_Facts
  imports Logical_Sharding Sharding_Dims
begin

text \<open>
  A dot product gets every axis name at most once, and all names of the right operand that
  survive. A translated sharding uses every device axis at most once, no dimension is split
  into more parts than it has elements, and the parts are equal.
\<close>

section \<open>Axes of a dot product\<close>

definition axes_inv :: "nat \<Rightarrow> string set \<Rightarrow> logical_axes \<times> string list \<Rightarrow> bool" where
  "axes_inv r N st \<longleftrightarrow> length (fst st) = r \<and> set (snd st) = (\<Union>xs \<in> set (fst st). set xs) \<and>
     distinct (concat (fst st)) \<and> set (snd st) \<subseteq> N"

lemma concat_update_snoc:
  "k < length xss \<Longrightarrow> mset (concat (xss[k := xss ! k @ [x]])) = add_mset x (mset (concat xss))"
  by (induction xss arbitrary: k) (auto split: nat.splits)

lemma add_axis_name_inv:
  assumes "axes_inv r N st" and "k < r" and "x \<in> N"
  shows "axes_inv r N (add_axis_name k st x) \<and> insert x (set (snd st)) = set (snd (add_axis_name k st x)) \<and>
    (\<forall>l. l \<noteq> k \<longrightarrow> fst (add_axis_name k st x) ! l = fst st ! l)"
proof (cases "x \<in> set (snd st)")
  case True
  then show ?thesis using assms by (auto simp: add_axis_name_def Let_def split: prod.splits)
next
  case False
  obtain da as where st: "st = (da, as)" by (cases st)
  have ms: "mset (concat (da[k := da ! k @ [x]])) = add_mset x (mset (concat da))"
    using concat_update_snoc[of k da x] assms(1,2) by (simp add: axes_inv_def st)
  have "x \<notin> set (concat da)" using False assms(1) by (auto simp: axes_inv_def st)
  then have "distinct (x # concat da)" using assms(1) by (simp add: axes_inv_def st)
  then have "distinct (concat (da[k := da ! k @ [x]]))" using ms by (metis mset.simps(2) mset_eq_imp_distinct_iff)
  moreover have "set (concat (da[k := da ! k @ [x]])) = insert x (set (concat da))"
    using arg_cong[OF ms, of set_mset] by simp
  ultimately show ?thesis using False assms by (auto simp: st add_axis_name_def axes_inv_def Let_def)
qed

lemma add_names_inv:
  assumes "axes_inv r N st" and "k < r" and "set xs \<subseteq> N"
  shows "axes_inv r N (foldl (add_axis_name k) st xs) \<and>
    set xs \<union> set (snd st) = set (snd (foldl (add_axis_name k) st xs)) \<and>
    (\<forall>l. l \<noteq> k \<longrightarrow> fst (foldl (add_axis_name k) st xs) ! l = fst st ! l)"
  using assms
proof (induction xs arbitrary: st)
  case (Cons x xs)
  have a: "axes_inv r N (add_axis_name k st x)" "set (snd (add_axis_name k st x)) = insert x (set (snd st))"
    "\<forall>l. l \<noteq> k \<longrightarrow> fst (add_axis_name k st x) ! l = fst st ! l"
    using add_axis_name_inv[OF Cons.prems(1,2), of x] Cons.prems(3) by simp_all
  then show ?case using Cons.IH[OF a(1) Cons.prems(2)] Cons.prems(3) by (simp add: Un_insert_right)
qed simp

lemma add_dims_inv:
  assumes "add_dims axes d dims st = Inr st'" and "axes_inv r N st" and "\<And>xs. xs \<in> set axes \<Longrightarrow> set xs \<subseteq> N"
  shows "axes_inv r N st' \<and> set (snd st) \<subseteq> set (snd st') \<and> (\<forall>l < d. fst st' ! l = fst st ! l) \<and>
    (\<forall>l \<ge> d + length dims. fst st' ! l = fst st ! l) \<and>
    ((\<forall>l. d \<le> l \<longrightarrow> l < d + length dims \<longrightarrow> l < r \<longrightarrow> fst st ! l = []) \<longrightarrow> (\<forall>dim \<in> set dims. set (axes ! dim) \<subseteq> set (snd st')))"
  using assms(1,2)
proof (induction dims arbitrary: d st)
  case (Cons dim dims)
  obtain st1 where one: "maybe_add_axes_at_dim d dim axes st = Inr st1" and rest: "add_dims axes (Suc d) dims st1 = Inr st'"
    using Cons.prems(1) by (auto elim: bindR_InrE)
  have d: "d < r" using one Cons.prems(2)
    by (auto simp: maybe_add_axes_at_dim_def subR_Inr_iff axes_inv_def elim!: bindR_InrE)
  have s: "axes_inv r N st1 \<and> set (snd st) \<subseteq> set (snd st1) \<and> (\<forall>l. l \<noteq> d \<longrightarrow> fst st1 ! l = fst st ! l) \<and>
    (fst st ! d = [] \<longrightarrow> set (axes ! dim) \<subseteq> set (snd st1))"
  proof (cases "fst st ! d = []")
    case True
    then have dim: "dim < length axes" and st1: "st1 = foldl (add_axis_name d) st (axes ! dim)"
      using one by (auto simp: maybe_add_axes_at_dim_def subR_Inr_iff elim!: bindR_InrE)
    then show ?thesis using add_names_inv[OF Cons.prems(2) d, of "axes ! dim"] assms(3)[of "axes ! dim"] by auto
  next
    case False
    then have "st1 = st" using one by (auto simp: maybe_add_axes_at_dim_def subR_Inr_iff elim!: bindR_InrE)
    then show ?thesis using Cons.prems(2) False by simp
  qed
  then have "axes_inv r N st1" by blast
  note ih = Cons.IH[OF rest this]
  show ?case
  proof (intro conjI impI ballI allI)
    show "axes_inv r N st'" "set (snd st) \<subseteq> set (snd st')" using ih s by blast+
    show "fst st' ! l = fst st ! l" if "l < d" for l using ih s that by simp
    show "fst st' ! l = fst st ! l" if "d + length (dim # dims) \<le> l" for l using ih s that by simp
  next
    fix k assume e: "\<forall>l. d \<le> l \<longrightarrow> l < d + length (dim # dims) \<longrightarrow> l < r \<longrightarrow> fst st ! l = []" and k: "k \<in> set (dim # dims)"
    have "\<forall>l. Suc d \<le> l \<longrightarrow> l < Suc d + length dims \<longrightarrow> l < r \<longrightarrow> fst st1 ! l = []" using e s by simp
    then have "\<forall>dim \<in> set dims. set (axes ! dim) \<subseteq> set (snd st')" using ih by blast
    moreover have "set (axes ! dim) \<subseteq> set (snd st')" using e s d ih by auto
    ultimately show "set (axes ! k) \<subseteq> set (snd st')" using k by auto
  qed
qed simp

text \<open>
  The axes of a dot product: as many as it has dimensions, no name twice, only names of
  the operands, and every name of a batch or free dimension of the right operand.
\<close>

theorem dot_axes_once:
  assumes "compute_dot_axes lhs_rank rhs_rank r dn la ra = Inr axes"
    and "length (rhs_batch_dimensions dn) + length (lhs_contracting_dimensions dn) \<le> lhs_rank"
  shows "length axes = r \<and> distinct (concat axes) \<and> set (concat axes) \<subseteq> set (concat la) \<union> set (concat ra) \<and>
    (\<forall>dim < rhs_rank. dim \<notin> set (rhs_contracting_dimensions dn) \<or> dim \<in> set (rhs_batch_dimensions dn) \<longrightarrow>
       set (ra ! dim) \<subseteq> set (concat axes))"
proof -
  let ?N = "set (concat la) \<union> set (concat ra)" and ?b = "rhs_batch_dimensions dn"
  let ?free = "free_dims rhs_rank (rhs_contracting_dimensions dn @ ?b)"
  let ?d = "lhs_rank - length (lhs_contracting_dimensions dn)"
  obtain st1 st2 st3 where 1: "add_dims ra 0 ?b (replicate r [], []) = Inr st1" and 2: "add_dims ra ?d ?free st1 = Inr st2"
    and 3: "add_dims la 0 (lhs_batch_dimensions dn @ free_dims lhs_rank (lhs_contracting_dimensions dn @ lhs_batch_dimensions dn)) st2 = Inr st3"
    and axes: "axes = fst st3"
    using assms by (auto simp: compute_dot_axes_def elim!: bindR_InrE split: if_splits)
  have N: "\<And>xs. xs \<in> set la \<Longrightarrow> set xs \<subseteq> ?N" "\<And>xs. xs \<in> set ra \<Longrightarrow> set xs \<subseteq> ?N" by auto
  have i0: "axes_inv r ?N (replicate r [], [])" by (auto simp: axes_inv_def)
  have a1: "axes_inv r ?N st1" "\<And>l. length ?b \<le> l \<Longrightarrow> fst st1 ! l = replicate r [] ! l"
    "\<forall>dim \<in> set ?b. set (ra ! dim) \<subseteq> set (snd st1)"
    using add_dims_inv[OF 1 i0 N(2)] by simp_all
  have a2: "axes_inv r ?N st2" "set (snd st1) \<subseteq> set (snd st2)" "\<forall>dim \<in> set ?free. set (ra ! dim) \<subseteq> set (snd st2)"
    using add_dims_inv[OF 2 a1(1) N(2)] a1(2) assms(2) by simp_all
  have a3: "axes_inv r ?N st3" "set (snd st2) \<subseteq> set (snd st3)"
    using add_dims_inv[OF 3 a2(1) N(1)] by simp_all
  have names: "set (concat axes) = set (snd st3)" using a3(1) by (auto simp: axes_inv_def axes)
  show ?thesis
  proof (intro conjI allI impI)
    show "length axes = r" "distinct (concat axes)" using a3(1) by (simp_all add: axes_inv_def axes)
    show "set (concat axes) \<subseteq> ?N" unfolding names using a3(1) unfolding axes_inv_def by blast
    fix dim assume "dim < rhs_rank" "dim \<notin> set (rhs_contracting_dimensions dn) \<or> dim \<in> set ?b"
    then have "dim \<in> set ?b \<or> dim \<in> set ?free" by (auto simp: free_dims_def)
    then show "set (ra ! dim) \<subseteq> set (concat axes)" unfolding names using a1(3) a2(2,3) a3(2) by blast
  qed
qed

section \<open>Translation\<close>

definition split_of :: "int list \<Rightarrow> nat list \<Rightarrow> int" where
  "split_of dims axes = prod_list (map ((!) dims) axes)"

lemma split_of_bounds:
  assumes "distinct axes" and "\<forall>ax \<in> set axes. ax < length dims" and "\<forall>d \<in> set dims. 1 \<le> d"
  shows "1 \<le> split_of dims axes \<and> split_of dims axes \<le> prod_list dims"
proof
  have one: "1 \<le> dims ! k" if "k < length dims" for k using assms(3) that by simp
  have "split_of dims axes = (\<Prod>k \<in> set axes. dims ! k)"
    unfolding split_of_def using assms(1) by (simp add: prod.distinct_set_conv_list)
  also have "\<dots> \<le> (\<Prod>k \<in> {0..<length dims}. dims ! k)"
    by (rule prod_mono2) (use assms(2) one in \<open>force intro: order_trans[OF zero_le_one]\<close>)+
  also have "\<dots> = prod_list dims" by (simp add: prod.list_conv_set_nth)
  finally show "split_of dims axes \<le> prod_list dims" .
  show "1 \<le> split_of dims axes"
    using assms(2) one prod_list_pos[of "map ((!) dims) axes"] unfolding split_of_def by (force simp: int_one_le_iff_zero_less)
qed

definition mapped_axis :: "task_options \<Rightarrow> logical_axes \<Rightarrow> nat \<Rightarrow> nat \<Rightarrow> bool" where
  "mapped_axis context names k ax \<longleftrightarrow> ax < length (to_dims context) \<and>
     (\<exists>(la, da) \<in> set (to_logical_axes context). la \<in> set (names ! k) \<and> axis_position (to_axes context) da = Some ax)"

definition fit_inv :: "int list \<Rightarrow> task_options \<Rightarrow> logical_axes \<Rightarrow> axis_map \<Rightarrow> bool" where
  "fit_inv extents context names st \<longleftrightarrow> (case st of (groups, used, sharding) \<Rightarrow>
     length groups = length names \<and> length sharding = length names \<and> distinct (concat groups) \<and>
     set (concat groups) = set used \<and>
     (\<forall>k < length names. (\<forall>ax \<in> set (groups ! k). mapped_axis context names k ax) \<and>
        sharding ! k = split_of (to_dims context) (groups ! k) \<and>
        (groups ! k \<noteq> [] \<longrightarrow> split_of (to_dims context) (groups ! k) \<le> extents ! k)))"

definition small_mesh :: "task_options \<Rightarrow> bool" where
  "small_mesh context \<longleftrightarrow> (\<forall>d \<in> set (to_dims context). 1 \<le> d) \<and> prod_list (to_dims context) < 2 ^ 31"

lemma map_axis_fit:
  assumes run: "map_axis m i context da st k = Inr st'" and inv: "fit_inv (dimensions (i_shape (m_instr m i))) context names st"
    and small: "small_mesh context" and mem: "(la, da) \<in> set (to_logical_axes context)" "la \<in> set (names ! k)" "k < length names"
  shows "fit_inv (dimensions (i_shape (m_instr m i))) context names st'"
proof -
  obtain groups used sharding where st: "st = (groups, used, sharding)" by (cases st)
  let ?dims = "to_dims context"
  obtain ax where ax: "axis_position (to_axes context) da = Some ax" "ax < length ?dims"
    and st': "st' = st \<or> (ax \<notin> set used \<and> narrow32 (sharding ! k * ?dims ! ax) \<le> dimensions (i_shape (m_instr m i)) ! k \<and>
       st' = (groups[k := groups ! k @ [ax]], ax # used, sharding[k := narrow32 (sharding ! k * ?dims ! ax)]))"
    using run by (auto simp: map_axis_def st Let_def subR_Inr_iff split: option.splits if_splits elim!: bindR_InrE)
  show ?thesis
  proof (cases "st' = st")
    case False
    then have new: "ax \<notin> set used" and le: "narrow32 (sharding ! k * ?dims ! ax) \<le> dimensions (i_shape (m_instr m i)) ! k"
      and eq: "st' = (groups[k := groups ! k @ [ax]], ax # used, sharding[k := narrow32 (sharding ! k * ?dims ! ax)])"
      using st' by auto
    have g: "length groups = length names" "length sharding = length names" "distinct (concat groups)" "set (concat groups) = set used"
      "\<And>j. j < length names \<Longrightarrow> (\<forall>ax \<in> set (groups ! j). mapped_axis context names j ax) \<and> sharding ! j = split_of ?dims (groups ! j)"
      using inv by (simp_all add: fit_inv_def st)
    have ms: "mset (concat (groups[k := groups ! k @ [ax]])) = add_mset ax (mset (concat groups))"
      using concat_update_snoc[of k groups ax] g(1) mem(3) by simp
    have dist: "distinct (concat (groups[k := groups ! k @ [ax]]))"
      using g(3,4) new ms by (metis mset_eq_imp_distinct_iff mset.simps(2) distinct.simps(2))
    have sets: "set (concat (groups[k := groups ! k @ [ax]])) = insert ax (set used)"
      using arg_cong[OF ms, of set_mset] g(4) by simp
    have kg: "groups ! k \<in> set groups" using g(1) mem(3) by simp
    then have "set (groups ! k) \<subseteq> set used" "distinct (groups ! k)" using g(3,4) by (auto simp: distinct_concat_iff)
    then have "distinct (groups ! k @ [ax])" using new by auto
    moreover have "\<forall>a \<in> set (groups ! k @ [ax]). a < length ?dims"
      using g(5)[OF mem(3)] ax(2) by (auto simp: mapped_axis_def)
    ultimately have "1 \<le> split_of ?dims (groups ! k @ [ax]) \<and> split_of ?dims (groups ! k @ [ax]) \<le> prod_list ?dims"
      using split_of_bounds small by (simp add: small_mesh_def)
    moreover have sp: "split_of ?dims (groups ! k @ [ax]) = sharding ! k * ?dims ! ax"
      using g(5)[OF mem(3)] by (simp add: split_of_def)
    ultimately have "narrow32 (sharding ! k * ?dims ! ax) = split_of ?dims (groups ! k @ [ax])"
      using small narrow32_id by (simp add: small_mesh_def)
    moreover have "mapped_axis context names k ax" using ax mem by (auto simp: mapped_axis_def)
    ultimately show ?thesis
      using inv le dist sets mem(3) unfolding fit_inv_def eq st by (auto simp: nth_list_update)
  qed (use inv in simp)
qed

lemma map_logical_axis_fit:
  assumes "map_logical_axis m i context names st axes = Inr st'" and "fit_inv (dimensions (i_shape (m_instr m i))) context names st"
    and "small_mesh context" and "axes \<in> set (to_logical_axes context)"
  shows "fit_inv (dimensions (i_shape (m_instr m i))) context names st'"
  using assms(1) unfolding map_logical_axis_def
proof (rule foldR_invariant[where P = "fit_inv (dimensions (i_shape (m_instr m i))) context names"])
  show "fit_inv (dimensions (i_shape (m_instr m i))) context names st" by (rule assms(2))
  fix s ka s' assume ka: "ka \<in> set (enumerate 0 names)" and s: "fit_inv (dimensions (i_shape (m_instr m i))) context names s"
    and step: "(case ka of (k, axis) \<Rightarrow> if fst axes \<in> set axis then map_axis m i context (snd axes) s k else Inr s) = Inr s'"
  obtain k where k: "ka = (k, names ! k)" "k < length names"
    using that[of "fst ka"] ka by (cases ka) (simp add: in_set_enumerate_eq)
  then show "fit_inv (dimensions (i_shape (m_instr m i))) context names s'"
    using step s map_axis_fit[OF _ s assms(3), of "snd axes" k s' "fst axes"] assms(4) by (auto split: if_splits)
qed

definition even_tiles :: "shape \<Rightarrow> op_sharding \<Rightarrow> bool" where
  "even_tiles shp s \<longleftrightarrow> (\<forall>d < length (dimensions shp). d < length (os_tile_assignment_dimensions s) \<and>
     os_tile_assignment_dimensions s ! d \<noteq> 0 \<and> dimensions shp ! d smod os_tile_assignment_dimensions s ! d = 0)"

lemma check_even_fold:
  assumes "foldR (check_even L shp) s0 ds = Inr s"
  shows "s = s0 \<and> (\<forall>d \<in> set ds. d < length (os_tile_assignment_dimensions s0) \<and> os_tile_assignment_dimensions s0 ! d \<noteq> 0 \<and>
    dimensions shp ! d smod os_tile_assignment_dimensions s0 ! d = 0)"
  using assms
proof (induction ds arbitrary: s0)
  case (Cons d ds)
  obtain s1 where "check_even L shp s0 d = Inr s1" and r: "foldR (check_even L shp) s1 ds = Inr s"
    using Cons.prems by (auto elim: bindR_InrE)
  then have "s1 = s0 \<and> d < length (os_tile_assignment_dimensions s0) \<and> os_tile_assignment_dimensions s0 ! d \<noteq> 0 \<and>
    dimensions shp ! d smod os_tile_assignment_dimensions s0 ! d = 0"
    by (auto simp: check_even_def subR_Inr_iff split: if_splits elim!: bindR_InrE)
  then show ?case using Cons.IH[OF r] by simp
qed simp

text \<open>
  C21. When named axes are translated, every device axis is used at most once, each one comes
  from a name at its dimension, no dimension is split into more parts than it has elements,
  and a tiled result divides every dimension evenly.
\<close>

theorem logical_axes_fit:
  assumes "LogicalShardingToOpSharding L p m i devices context names = Inr s" and "small_mesh context"
  shows "\<exists>groups. LogicalToPhysicalSharding L groups devices (to_dims context) (int (length (to_devices context)) < dl_size (p_devices p)) = Inr s \<and>
    length groups = length names \<and> distinct (concat groups) \<and>
    (\<forall>k < length names. (\<forall>ax \<in> set (groups ! k). mapped_axis context names k ax) \<and>
       (groups ! k \<noteq> [] \<longrightarrow> split_of (to_dims context) (groups ! k) \<le> dimensions (i_shape (m_instr m i)) ! k)) \<and>
    (os_type s = OS_OTHER \<longrightarrow> even_tiles (i_shape (m_instr m i)) s)"
proof -
  let ?shp = "i_shape (m_instr m i)" and ?n = "length names"
  obtain groups used sharding s0
    where f: "foldR (map_logical_axis m i context names) (replicate ?n [], [], replicate ?n 1) (to_logical_axes context) = Inr (groups, used, sharding)"
      and l: "LogicalToPhysicalSharding L groups devices (to_dims context) (int (length (to_devices context)) < dl_size (p_devices p)) = Inr s0"
      and c: "(if os_type s0 = OS_OTHER then foldR (check_even L ?shp) s0 [0..<length (dimensions ?shp)] else Inr s0) = Inr s"
    using assms(1) unfolding LogicalShardingToOpSharding_def Let_def
    by (elim bindR_InrE) (auto split: if_splits elim!: bindR_InrE)
  have "fit_inv (dimensions ?shp) context names (replicate ?n [], [], replicate ?n 1)"
    by (simp add: fit_inv_def split_of_def)
  then have inv: "fit_inv (dimensions ?shp) context names (groups, used, sharding)"
    using map_logical_axis_fit[OF _ _ assms(2)] by (rule foldR_invariant[OF f])
  have e: "s = s0 \<and> (os_type s0 = OS_OTHER \<longrightarrow> even_tiles ?shp s0)"
    using c check_even_fold[of L ?shp s0 "[0..<length (dimensions ?shp)]" s] by (auto simp: even_tiles_def split: if_splits)
  show ?thesis using l inv e by (intro exI[of _ groups]) (auto simp: fit_inv_def)
qed

section \<open>Examples\<close>

definition matmul_numbers :: dot_numbers where
  "matmul_numbers = \<lparr>lhs_contracting_dimensions = [1], rhs_contracting_dimensions = [0],
     lhs_batch_dimensions = [], rhs_batch_dimensions = []\<rparr>"

theorem dot_axes_once_witness:
  "compute_dot_axes 2 2 2 matmul_numbers [[''data''], [''model'']] [[''model''], [''heads'']] = Inr [[''data''], [''heads'']] \<and>
   distinct (concat [[''data''], [''heads'']])"
proof -
  have "compute_dot_axes 2 2 2 matmul_numbers [[''data''], [''model'']] [[''model''], [''heads'']] = Inr [[''data''], [''heads'']]"
    by (simp add: compute_dot_axes_def matmul_numbers_def maybe_add_axes_at_dim_def add_axis_name_def free_dims_def upt_rec numeral_2_eq_2)
  then show ?thesis using dot_axes_once[of 2 2 2 matmul_numbers] by (simp add: matmul_numbers_def)
qed

definition grid_task :: task_options where
  "grid_task = task_options_default\<lparr>to_dims := [2, 3], to_axes := [''a'', ''b''],
     to_logical_axes := [(''x'', ''a''), (''y'', ''b'')]\<rparr>"

definition grid_module :: hlo_module where
  "grid_module = sample_module [(0, blank_instr\<lparr>i_shape := Shape F32 [4, 6] []\<rparr>)] []"

definition grid_sharding :: op_sharding where
  "grid_sharding = OpSharding OS_OTHER [2, 3] [] [6] [0] 0 False []"

lemma grid_run:
  "LogicalShardingToOpSharding (echo_lib (\<lambda>_. Inl (Fatal []))) two_colors grid_module 0 (dl_create 0 6) grid_task [[''x''], [''y'']] = Inr grid_sharding"
  by (simp add: LogicalShardingToOpSharding_def grid_task_def task_options_default_def grid_module_def sample_simps
      map_logical_axis_def map_axis_def LogicalToPhysicalSharding_def echo_lib_def grid_sharding_def check_even_def
      prod_list_int_def two_colors_def narrow32_id smod_nonneg upt_rec Let_def)

theorem logical_axes_fit_witness:
  "LogicalShardingToOpSharding (echo_lib (\<lambda>_. Inl (Fatal []))) two_colors grid_module 0 (dl_create 0 6) grid_task [[''x''], [''y'']] = Inr grid_sharding \<and>
   even_tiles (Shape F32 [4, 6] []) grid_sharding"
proof -
  have "small_mesh grid_task" by (simp add: small_mesh_def grid_task_def)
  then show ?thesis using logical_axes_fit[OF grid_run] grid_run
    by (auto simp: grid_sharding_def grid_module_def sample_simps)
qed

section \<open>Calls with operands\<close>











end
