(* ===== verification/Sharding_Propagation.thy ===== *)
theory Sharding_Propagation
  imports Instruction_Properties Mpmd_Instruction Hlo_Partition Mm_Sharding Graph_Cleanup
begin

text \<open>
  \<open>mpmd_sharding_propagation.cc\<close>: shardings flow along calls and loops, each called
  computation being propagated by XLA on its own, over the devices of its color.

  XLA's own propagation, the cloning of a computation into a module of its own and back, and
  the tile over one dimension are arguments (\<open>propagation_lib\<close>). A source of a propagation is
  only read for its sharding, so it appears as that. The users of a replaced call are those it
  has before the first operand is replaced. The member \<open>min_shard_override_size_\<close> is never read.
\<close>

datatype propagation_mode = ForwardInputOutput | BackwardInputOutput | ForwardFull

record propagation_config =
  pg_partition :: hlo_partition
  pg_mode :: propagation_mode
  pg_shard_iota :: bool

record propagation_lib =
  pl_sharding :: sharding_lib
  pl_graph :: graph_lib
  pl_module_of :: "hlo_module \<Rightarrow> cid \<Rightarrow> int \<Rightarrow> hlo_module"
  pl_ShardingPropagation :: "bool \<Rightarrow> bool list \<Rightarrow> hlo_module \<Rightarrow> hlo_module statusor"
  pl_computations :: "hlo_module \<Rightarrow> cid list"
  pl_AddComputation :: "hlo_module \<Rightarrow> hlo_module \<Rightarrow> cid \<times> hlo_module"
  pl_IotaTile :: "int \<Rightarrow> hlo_sharding"

definition put_sharding :: "hlo_module \<Rightarrow> iid \<Rightarrow> hlo_sharding option \<Rightarrow> hlo_module" where
  "put_sharding m i s = upd_instr m i (\<lambda>r. r\<lparr>i_sharding := s\<rparr>)"

abbreviation clear_sharding :: "hlo_module \<Rightarrow> iid \<Rightarrow> hlo_module" where
  "clear_sharding m i \<equiv> put_sharding m i None"

section \<open>One propagation\<close>

fun fits_dims :: "int list \<Rightarrow> int list \<Rightarrow> bool statusor" where
  "fits_dims [] tiles = Inr True"
| "fits_dims (d # ds) [] = Inl (Undefined ''subscript'')"
| "fits_dims (d # ds) (t # ts) = (if d < t then Inr False else fits_dims ds ts)"

definition ShardingFits :: "hlo_sharding \<Rightarrow> shape \<Rightarrow> bool statusor" where
  "ShardingFits sharding shp =
     (if IsReplicated sharding then Inr True
      else fits_dims (dimensions shp) (ta_dims (tile_assignment_of sharding)))"

definition ShardingCanBeReassigned :: "hlo_module \<Rightarrow> iid \<Rightarrow> bool" where
  "ShardingCanBeReassigned m i \<longleftrightarrow> sharding_of m i = None \<or> \<not> HasAssignedAxes m i"

definition back_dim :: "hlo_sharding \<Rightarrow> int statusor" where
  "back_dim s = (let dims = ta_dims (tile_assignment_of s) in
     if dims = [] then Inl (Undefined ''back of an empty vector'') else Inr (last dims))"

definition SourceHasImprovedSharding :: "hlo_sharding \<Rightarrow> hlo_sharding option \<Rightarrow> bool \<Rightarrow> bool statusor" where
  "SourceHasImprovedSharding source target replicated_is_better_than_nothing =
     (if IsReplicated source then Inr (target = None \<and> replicated_is_better_than_nothing)
      else case target of
        None \<Rightarrow> Inr True
      | Some t \<Rightarrow>
          if IsReplicated t then Inr True
          else if ReplicateOnLastTileDim t
          then if ReplicateOnLastTileDim source
               then bindR (back_dim t) (\<lambda>target_back. bindR (back_dim source) (\<lambda>source_back.
                    Inr (target_back < source_back)))
               else Inr True
          else Inr False)"

definition PropagateSharding ::
  "entries \<Rightarrow> bool \<Rightarrow> hlo_sharding option \<Rightarrow> hlo_module \<Rightarrow> iid \<Rightarrow> hlo_module statusor" where
  "PropagateSharding properties propagate_replicated source m target =
     (case source of
        None \<Rightarrow> Inr m
      | Some s \<Rightarrow>
          if ShardingCanBeReassigned m target
          then bindR (SourceHasImprovedSharding s (sharding_of m target) propagate_replicated) (\<lambda>improved.
               bindR (if improved then Inr True else ParameterAlias properties target) (\<lambda>assign.
               Inr (if assign then put_sharding m target source else m)))
          else Inr m)"

definition PropagateSharding_devices ::
  "sharding_lib \<Rightarrow> entries \<Rightarrow> bool \<Rightarrow> int \<Rightarrow> hlo_sharding option \<Rightarrow> hlo_module \<Rightarrow> iid \<Rightarrow> hlo_module statusor" where
  "PropagateSharding_devices L properties propagate_replicated num_devices source m target =
     bindR (PropagateSharding properties propagate_replicated source m target) (\<lambda>m.
     case sharding_of m target of
       None \<Rightarrow> Inr m
     | Some s \<Rightarrow>
         if \<not> IsReplicated s \<and> ta_num_elements (tile_assignment_of s) \<noteq> num_devices
         then bindR (ResizeSharding L (i_shape (m_instr m target)) s num_devices None) (\<lambda>resized_sharding.
              Inr (set_sharding m target (case resized_sharding of Some r \<Rightarrow> r | None \<Rightarrow> L_Replicate L)))
         else Inr m)"

definition PropagateShardingToUsers :: "entries \<Rightarrow> bool \<Rightarrow> hlo_module \<Rightarrow> iid \<Rightarrow> hlo_module statusor" where
  "PropagateShardingToUsers properties propagate_replicated m i =
     foldR (\<lambda>m user.
       if opcode m user = kCall
       then bindR (operand_index m user i) (\<lambda>parameter_number.
            bindR (calledR m user) (\<lambda>c. bindR (paramR m c parameter_number) (\<lambda>alias.
            PropagateSharding properties propagate_replicated (sharding_of m i) m alias)))
       else Inr m) m (users m i)"

text \<open>A callback that propagates to an instruction and everything it is an alias of.\<close>

definition propagate_to_aliases ::
  "nat \<Rightarrow> entries \<Rightarrow> bool \<Rightarrow> iid \<Rightarrow> hlo_module \<Rightarrow> iid \<Rightarrow> hlo_module statusor" where
  "propagate_to_aliases w properties propagate_replicated source m i =
     bindR (ForEachBackwardAliasAndSelf w properties i) (\<lambda>aliases.
     foldR (\<lambda>m a. PropagateSharding properties propagate_replicated (sharding_of m source) m a) m aliases)"

section \<open>A called computation on its own\<close>

definition allow_param ::
  "hlo_module \<Rightarrow> entries \<Rightarrow> bool \<Rightarrow> iid \<Rightarrow> bool statusor" where
  "allow_param m properties propagate_to_parameters operand =
     (if HasAssignedAxes m operand then Inr False
      else bindR (ParameterNumber properties operand) (\<lambda>param_number.
           case param_number of
             None \<Rightarrow> Inr propagate_to_parameters
           | Some n \<Rightarrow>
               let allow = m_allow_propagation_to_parameters m in
               Inr (if length allow > n then allow ! n
                    else if allow = [] then False
                    else allow ! 0)))"

definition PropagateComputation ::
  "propagation_lib \<Rightarrow> hlo_partition \<Rightarrow> entries \<Rightarrow> hlo_module \<Rightarrow> cid \<Rightarrow> iid \<Rightarrow> bool \<Rightarrow> hlo_module statusor" where
  "PropagateComputation X p properties m computation call propagate_to_parameters =
     bindR (NumDevicesForInstruction p (Color m call)) (\<lambda>num_devices.
     bindR (mapR (allow_param m properties propagate_to_parameters) (operands m call)) (\<lambda>allow.
     pl_ShardingPropagation X (num_devices > 1) allow (pl_module_of X m computation num_devices)))"

section \<open>Reshapes\<close>

definition no_op_reshape_with_sharding :: "hlo_module \<Rightarrow> iid \<Rightarrow> bool statusor" where
  "no_op_reshape_with_sharding m i =
     (if opcode m i = kReshape
      then bindR (operandR m i 0) (\<lambda>operand.
           Inr (ShardingHasTileAssignment m operand \<and> IsReplicatedOrNotSharded m i \<and>
                dimensions (i_shape (m_instr m operand)) = dimensions (i_shape (m_instr m i))))
      else Inr False)"

definition fix_reshape :: "cid \<Rightarrow> cid \<Rightarrow> bool \<Rightarrow> iid \<Rightarrow> hlo_module \<Rightarrow> iid \<Rightarrow> hlo_module statusor" where
  "fix_reshape body parent root_has_explicit_sharding call m i =
     bindR (no_op_reshape_with_sharding m i) (\<lambda>matches.
     if \<not> matches then Inr m
     else bindR (operandR m i 0) (\<lambda>operand.
       let m = put_sharding m i (sharding_of m operand) in
       if users m i = [root m body]
       then let m = clear_sharding m (root m body) in
            bindR (operand_index m (root m body) i) (\<lambda>k.
            bindR (find_user m k (users m call)) (\<lambda>user.
            case user of
              None \<Rightarrow> Inr m
            | Some user \<Rightarrow>
                let m = put_sharding m user (sharding_of m i) in
                Inr (if users m user = [root m parent] \<and> \<not> root_has_explicit_sharding
                     then clear_sharding m (root m parent) else m)))
       else Inr m))"

definition FixReshapeSharding :: "hlo_module \<Rightarrow> cid \<Rightarrow> iid \<Rightarrow> hlo_module statusor" where
  "FixReshapeSharding m parent call =
     bindR (calledR m call) (\<lambda>body.
     foldR (fix_reshape body parent (sharding_of m (root m parent) \<noteq> None) call) m (post_order m body))"

section \<open>Forward\<close>

record propagation_state =
  ps_module :: hlo_module
  ps_properties :: entries
  ps_cleanup :: pass_cleanup

text \<open>\<open>HloInstruction::CreateCall\<close>; XLA completes the name and the users when it is added.\<close>

definition CreateCall :: "shape \<Rightarrow> iid list \<Rightarrow> cid \<Rightarrow> hlo_instr" where
  "CreateCall shp ops c = \<lparr>i_name = ''call'', i_opcode = kCall, i_operands = ops, i_users = [],
     i_called = [c], i_tuple_index = 0, i_shape = shp, i_custom_call_target = '''',
     i_backend_config = None, i_op_name = '''', i_attrs = Map.empty, i_sharding = None\<rparr>"

definition move_user ::
  "graph_lib \<Rightarrow> iid \<Rightarrow> iid \<Rightarrow> hlo_module \<times> entries \<Rightarrow> iid \<Rightarrow> (hlo_module \<times> entries) statusor" where
  "move_user G new_call new_call_root st user =
     (let (m, properties) = st in
      bindR (gl_ReplaceOperandWith G m user 0 new_call) (\<lambda>m.
      bindR (tuple_indexR m user) (\<lambda>k.
      bindR (operandR m new_call_root k) (\<lambda>new_root_alias.
      Inr (put_sharding m user (sharding_of m new_root_alias), AddBackwardAlias properties user new_root_alias)))))"

definition ReplaceCallWithShardedTwin ::
  "nat \<Rightarrow> nat \<Rightarrow> propagation_lib \<Rightarrow> cid \<Rightarrow> iid \<Rightarrow> hlo_module \<Rightarrow> propagation_state \<Rightarrow> propagation_state statusor" where
  "ReplaceCallWithShardedTwin fuel w X parent call twin st =
     (let (new_comp, m) = pl_AddComputation X (ps_module st) twin in
      bindR (Create_computation fuel w m new_comp) (\<lambda>new_properties.
      let properties = Add (ps_properties st) new_properties;
          (new_call, m) = gl_AddInstruction (pl_graph X) m parent
             (CreateCall (i_shape (m_instr m call)) (operands m call) new_comp) in
      bindR (foldR (move_user (pl_graph X) new_call (root m new_comp)) (m, properties) (users m call)) (\<lambda>(m, properties).
      let m = snd (PropagateColor m call new_call) in
      bindR (FixReshapeSharding m parent new_call) (\<lambda>m.
      bindR (calledR m call) (\<lambda>unsharded_computation.
      Inr \<lparr>ps_module = m, ps_properties = properties,
           ps_cleanup = RemoveComputation (RemoveInstruction (ps_cleanup st) call) unsharded_computation\<rparr>)))))"

definition pass_operand ::
  "propagation_lib \<Rightarrow> entries \<Rightarrow> bool \<Rightarrow> cid \<Rightarrow> color \<Rightarrow> device_list \<Rightarrow> iid \<Rightarrow> hlo_module \<Rightarrow> nat \<Rightarrow> hlo_module statusor" where
  "pass_operand X properties propagate_replicated computation task_color devices i m index =
     bindR (operandR m i index) (\<lambda>input.
     bindR (paramR m computation index) (\<lambda>param.
     if Color m param \<noteq> Some task_color
     then Inl (InvalidArgument (''parameter '' @ i_name (m_instr m param) @ '' has color '' @
            (case Color m param of None \<Rightarrow> ''unassigned'' | Some c \<Rightarrow> c) @ '', but expected '' @ task_color))
     else PropagateSharding_devices (pl_sharding X) properties propagate_replicated (dl_size devices)
            (sharding_of m input) m param))"

definition pass_slices :: "entries \<Rightarrow> bool \<Rightarrow> hlo_module \<Rightarrow> iid \<Rightarrow> hlo_module statusor" where
  "pass_slices properties propagate_replicated m param =
     foldR (\<lambda>m user.
       if opcode m user = kDynamicSlice
       then (case sharding_of m param of
               None \<Rightarrow> Inr m
             | Some s \<Rightarrow> bindR (ShardingFits s (i_shape (m_instr m user))) (\<lambda>fits.
                 if fits then PropagateSharding properties propagate_replicated (Some s) m user else Inr m))
       else Inr m) m (users m param)"

definition shard_iota_step :: "propagation_lib \<Rightarrow> int \<Rightarrow> hlo_module \<Rightarrow> iid \<Rightarrow> hlo_module statusor" where
  "shard_iota_step X num_devices m i =
     (if opcode m i = kIota \<and> sharding_of m i = None
      then bindR (subR (dimensions (i_shape (m_instr m i))) 0) (\<lambda>size.
           if size < num_devices then Inr m
           else if num_devices = 0 then Inl (Undefined ''division by zero'')
           else Inr (if size smod num_devices = 0 then set_sharding m i (pl_IotaTile X num_devices) else m))
      else Inr m)"

definition misfit :: "int \<Rightarrow> hlo_module \<Rightarrow> iid \<Rightarrow> bool" where
  "misfit num_devices m i \<longleftrightarrow> (case sharding_of m i of None \<Rightarrow> False
     | Some s \<Rightarrow> \<not> IsTupleSharding s \<and> \<not> IsReplicated s \<and> \<not> IsManual s \<and>
         ta_num_elements (tile_assignment_of s) \<noteq> num_devices)"

definition clear_barrier :: "hlo_module \<Rightarrow> iid \<Rightarrow> hlo_module" where
  "clear_barrier m i =
     (if opcode m i = kOptimizationBarrier \<and> sharding_of m i \<noteq> None then clear_sharding m i else m)"

text \<open>What is done to the module of the propagated computation.\<close>

definition finish_twin :: "propagation_lib \<Rightarrow> bool \<Rightarrow> int \<Rightarrow> hlo_module \<Rightarrow> hlo_module statusor" where
  "finish_twin X shard_iota num_devices twin =
     bindR (if shard_iota then foldR (shard_iota_step X num_devices) twin (comp_instructions twin (m_entry twin))
            else Inr twin) (\<lambda>twin.
     if list_ex (\<lambda>c. list_ex (misfit num_devices twin) (comp_instructions twin c)) (pl_computations X twin)
     then Inl (Fatal ''sharding does not fit the devices'')
     else Inr (foldl clear_barrier twin (comp_instructions twin (m_entry twin))))"

section \<open>Backward\<close>

definition pass_backward ::
  "propagation_lib \<Rightarrow> hlo_partition \<Rightarrow> entries \<Rightarrow> hlo_sharding option \<Rightarrow> hlo_module \<Rightarrow> iid \<Rightarrow> hlo_module statusor" where
  "pass_backward X p properties source m i =
     (if sharding_of m i = None
      then bindR (NumDevicesForInstruction p (Color m i)) (\<lambda>num_devices.
           PropagateSharding_devices (pl_sharding X) properties False num_devices source m i)
      else Inr m)"

definition PropagateParamShardingsBackward ::
  "nat \<Rightarrow> propagation_lib \<Rightarrow> hlo_partition \<Rightarrow> entries \<Rightarrow> hlo_module \<Rightarrow> iid \<Rightarrow> hlo_module \<Rightarrow> hlo_module statusor" where
  "PropagateParamShardingsBackward w X p properties twin call m =
     foldR (\<lambda>m (index, operand).
       bindR (paramR twin (m_entry twin) index) (\<lambda>param.
       if ShardingHasTileAssignment twin param
       then bindR (ForEachBackwardAliasAndSelf w properties operand) (\<lambda>aliases.
            foldR (pass_backward X p properties (sharding_of twin param)) m aliases)
       else Inr m)) m (enumerate 0 (operands m call))"

definition PropagateOutputShardingsForward :: "hlo_module \<Rightarrow> iid \<Rightarrow> hlo_module \<Rightarrow> hlo_module statusor" where
  "PropagateOutputShardingsForward twin call m =
     foldR (\<lambda>m user.
       bindR (tuple_indexR m user) (\<lambda>k.
       bindR (operandR twin (root twin (m_entry twin)) k) (\<lambda>alias.
       Inr (if sharding_of m user = None \<and> ShardingHasTileAssignment twin alias
            then put_sharding m user (sharding_of twin alias) else m)))) m (users m call)"

definition shard_backward_step ::
  "(cid \<Rightarrow> hlo_module \<Rightarrow> hlo_module statusor) \<Rightarrow> nat \<Rightarrow> propagation_lib \<Rightarrow> hlo_partition \<Rightarrow> entries
     \<Rightarrow> hlo_module \<Rightarrow> iid \<Rightarrow> hlo_module statusor" where
  "shard_backward_step rec w X p properties m i =
     (if opcode m i = kWhile then bindR (calledR m i) (\<lambda>c. rec c m)
      else if opcode m i = kCall
      then bindR (calledR m i) (\<lambda>c.
           bindR (PropagateComputation X p properties m c i True) (\<lambda>twin.
           bindR (PropagateParamShardingsBackward w X p properties twin i m) (\<lambda>m.
           PropagateOutputShardingsForward twin i m)))
      else Inr m)"

fun ShardBackward ::
  "nat \<Rightarrow> nat \<Rightarrow> propagation_lib \<Rightarrow> hlo_partition \<Rightarrow> entries \<Rightarrow> cid \<Rightarrow> hlo_module \<Rightarrow> hlo_module statusor" where
  "ShardBackward 0 w X p properties c m = Inl out_of_fuel"
| "ShardBackward (Suc fuel) w X p properties c m =
     foldR (shard_backward_step (ShardBackward fuel w X p properties) w X p properties) m (rev (post_order m c))"

section \<open>The forward walk and the pass\<close>

definition ShardForwardCallInstruction ::
  "nat \<Rightarrow> nat \<Rightarrow> propagation_lib \<Rightarrow> propagation_config \<Rightarrow> cid \<Rightarrow> propagation_state \<Rightarrow> iid \<Rightarrow> propagation_state statusor" where
  "ShardForwardCallInstruction fuel w X cfg parent st i =
     (let m = ps_module st; properties = ps_properties st;
          propagate_replicated = (pg_mode cfg = ForwardFull);
          propagate_to_parameters = (pg_mode cfg = ForwardInputOutput) in
      bindR (calledR m i) (\<lambda>computation.
      case Color m i of
        None \<Rightarrow> Inl (InvalidArgument (i_name (m_instr m i) @ '' was not assigned a color''))
      | Some task_color \<Rightarrow>
      bindR (DefaultPerTaskMesh (pg_partition cfg) task_color) (\<lambda>devices.
      bindR (foldR (pass_operand X properties propagate_replicated computation task_color devices i) m
               [0..<length (operands m i)]) (\<lambda>m.
      bindR (foldR (pass_slices properties propagate_replicated) m (params m computation)) (\<lambda>m.
      bindR (FixReshapeSharding m parent i) (\<lambda>m.
      bindR (PropagateComputation X (pg_partition cfg) properties m computation i propagate_to_parameters) (\<lambda>twin.
      bindR (finish_twin X (pg_shard_iota cfg) (dl_size devices) twin) (\<lambda>twin.
      if length (comp_instructions twin (m_entry twin)) \<noteq> length (comp_instructions m computation)
      then Inl (InvalidArgument ''computation has different no. of instructions after sharding propagation'')
      else if pg_mode cfg = ForwardFull
      then ReplaceCallWithShardedTwin fuel w X parent i twin (st\<lparr>ps_module := m\<rparr>)
      else bindR (PropagateOutputShardingsForward twin i m) (\<lambda>m.
           bindR (PropagateParamShardingsBackward w X (pg_partition cfg) properties twin i m) (\<lambda>m.
           Inr (st\<lparr>ps_module := m\<rparr>)))))))))))"

definition pass_input :: "entries \<Rightarrow> bool \<Rightarrow> iid \<Rightarrow> hlo_module \<Rightarrow> iid \<Rightarrow> hlo_module statusor" where
  "pass_input properties propagate_replicated input_tuple m arg =
     bindR (tuple_indexR m arg) (\<lambda>k. bindR (operandR m input_tuple k) (\<lambda>input.
     PropagateSharding properties propagate_replicated (sharding_of m input) m arg))"

definition user_to_root :: "entries \<Rightarrow> bool \<Rightarrow> iid \<Rightarrow> hlo_module \<Rightarrow> iid \<Rightarrow> hlo_module statusor" where
  "user_to_root properties propagate_replicated r m user =
     bindR (tuple_indexR m user) (\<lambda>k. bindR (operandR m r k) (\<lambda>root_alias.
     PropagateSharding properties propagate_replicated (sharding_of m user) m root_alias))"

definition root_to_user :: "entries \<Rightarrow> bool \<Rightarrow> iid \<Rightarrow> hlo_module \<Rightarrow> iid \<Rightarrow> hlo_module statusor" where
  "root_to_user properties propagate_replicated r m user =
     bindR (tuple_indexR m user) (\<lambda>k. bindR (operandR m r k) (\<lambda>root_alias.
     PropagateSharding properties propagate_replicated (sharding_of m root_alias) m user))"

text \<open>A value carried by the loop takes the sharding it has at the end of the body.\<close>

definition match_carried ::
  "nat \<Rightarrow> entries \<Rightarrow> bool \<Rightarrow> iid \<Rightarrow> iid \<Rightarrow> hlo_module \<Rightarrow> iid \<Rightarrow> hlo_module statusor" where
  "match_carried w properties propagate_replicated input_tuple r m arg =
     bindR (tuple_indexR m arg) (\<lambda>k.
     bindR (operandR m input_tuple k) (\<lambda>input.
     bindR (Get properties arg) (\<lambda>arg_properties.
     if loop_carried_index arg_properties = None then Inr m
     else bindR (operandR m r k) (\<lambda>matching_root.
       bindR (propagate_to_aliases w properties propagate_replicated matching_root m arg) (\<lambda>m.
       bindR (PropagateShardingToUsers properties propagate_replicated m arg) (\<lambda>m.
       bindR (propagate_to_aliases w properties propagate_replicated matching_root m input) (\<lambda>m.
       case loop_carried_initializer arg_properties of
         None \<Rightarrow> Inl (InvalidArgument (''loop-carried initializer for '' @ i_name (m_instr m matching_root) @
                   '' and '' @ i_name (m_instr m arg) @ '' is null''))
       | Some initializer \<Rightarrow>
           propagate_to_aliases w properties propagate_replicated matching_root m initializer)))))))"

definition ShardForwardWhileInstruction ::
  "(cid \<Rightarrow> propagation_state \<Rightarrow> propagation_state statusor) \<Rightarrow> nat \<Rightarrow> propagation_config
     \<Rightarrow> propagation_state \<Rightarrow> iid \<Rightarrow> propagation_state statusor" where
  "ShardForwardWhileInstruction rec w cfg st i =
     (let m = ps_module st; properties = ps_properties st;
          propagate_replicated = (pg_mode cfg = ForwardFull) in
      bindR (operandR m i 0) (\<lambda>input_tuple.
      bindR (calledR m i) (\<lambda>body.
      let r = root m body in
      bindR (paramR m body 0) (\<lambda>arg_tuple.
      bindR (foldR (pass_input properties propagate_replicated input_tuple) m (users m arg_tuple)) (\<lambda>m.
      bindR (foldR (user_to_root properties propagate_replicated r) m (users m i)) (\<lambda>m.
      bindR (rec body (st\<lparr>ps_module := m\<rparr>)) (\<lambda>st.
      let m = ps_module st; properties = ps_properties st in
      bindR (foldR (match_carried w properties propagate_replicated input_tuple r) m (users m arg_tuple)) (\<lambda>m.
      bindR (foldR (root_to_user properties propagate_replicated r) m (users m i)) (\<lambda>m.
      Inr (st\<lparr>ps_module := m\<rparr>))))))))))"

definition shard_forward_step ::
  "(cid \<Rightarrow> propagation_state \<Rightarrow> propagation_state statusor) \<Rightarrow> nat \<Rightarrow> nat \<Rightarrow> propagation_lib \<Rightarrow> propagation_config
     \<Rightarrow> cid \<Rightarrow> propagation_state \<Rightarrow> iid \<Rightarrow> propagation_state statusor" where
  "shard_forward_step rec fuel w X cfg c st i =
     (let opc = opcode (ps_module st) i in
      if opc = kCall then ShardForwardCallInstruction fuel w X cfg c st i
      else if opc = kWhile then ShardForwardWhileInstruction rec w cfg st i
      else if opc \<in> {kParameter, kConstant, kTuple, kGetTupleElement} then Inr st
      else if opc \<noteq> kCustomCall
      then Inl (InvalidArgument (m_name (ps_module st) @ '' is not in canonical MPMD form, must '' @
             ''consist only of parameters, calls, and custom-calls: found '' @ i_name (m_instr (ps_module st) i)))
      else Inr st)"

fun ShardForward ::
  "nat \<Rightarrow> nat \<Rightarrow> propagation_lib \<Rightarrow> propagation_config \<Rightarrow> cid \<Rightarrow> propagation_state \<Rightarrow> propagation_state statusor" where
  "ShardForward 0 w X cfg c st = Inl out_of_fuel"
| "ShardForward (Suc fuel) w X cfg c st =
     foldR (shard_forward_step (ShardForward fuel w X cfg) fuel w X cfg c) st (post_order (ps_module st) c)"

definition MpmdShardingPropagation_Run ::
  "nat \<Rightarrow> nat \<Rightarrow> propagation_lib \<Rightarrow> propagation_config \<Rightarrow> hlo_module \<Rightarrow> (bool \<times> hlo_module) statusor" where
  "MpmdShardingPropagation_Run fuel w X cfg m =
     bindR (ApplyRootTupleShardingsToOperands m (root m (m_entry m))) (\<lambda>m.
     bindR (Create_module fuel w m) (\<lambda>properties.
     bindR (case pg_mode cfg of
              BackwardInputOutput \<Rightarrow>
                bindR (ShardBackward fuel w X (pg_partition cfg) properties (m_entry m) m) (\<lambda>m. Inr (m, no_cleanup))
            | _ \<Rightarrow>
                bindR (ShardForward fuel w X cfg (m_entry m)
                  \<lparr>ps_module = m, ps_properties = properties, ps_cleanup = no_cleanup\<rparr>) (\<lambda>st.
                Inr (ps_module st, ps_cleanup st))) (\<lambda>(m, cleanup).
     bindR (CleanUp (pl_graph X) cleanup m) (\<lambda>m.
     Inr (True, m)))))"

end
