(* ===== verification/Propagation_Facts.thy ===== *)
theory Propagation_Facts
  imports Sharding_Propagation Sharding_Dims
begin

text \<open>
  What the passes over shardings change: nothing but shardings, backward only missing ones, and
  a propagation only climbs in the order the code compares shardings by. A forward walk that
  succeeds has found a module in the form it expects.
\<close>

section \<open>Modules that differ in some shardings\<close>

lemma put_sharding_simps [simp]:
  "sharding_of (put_sharding m i s) j = (if j = i then s else sharding_of m j)"
  "attrs_of (put_sharding m i s) = attrs_of m" "same_graph m (put_sharding m i s)"
  by (auto simp: put_sharding_def sharding_of_def attrs_of_def upd_instr_def same_graph_def skeleton_def)

definition reshards :: "iid set \<Rightarrow> hlo_module \<Rightarrow> hlo_module \<Rightarrow> bool" where
  "reshards T m m' \<longleftrightarrow> same_graph m m' \<and> attrs_of m' = attrs_of m \<and>
     (\<forall>i. i \<notin> T \<longrightarrow> sharding_of m' i = sharding_of m i)"

lemma reshards_refl [simp, intro]: "reshards T m m"
  by (simp add: reshards_def)

lemma reshards_trans [trans]: "reshards T m m' \<Longrightarrow> reshards T m' m'' \<Longrightarrow> reshards T m m''"
  unfolding reshards_def using same_graph_trans by auto

lemma reshards_mono: "reshards T m m' \<Longrightarrow> T \<subseteq> U \<Longrightarrow> reshards U m m'"
  unfolding reshards_def by blast

lemma reshards_put [simp]: "i \<in> T \<Longrightarrow> reshards T m (put_sharding m i s)" "i \<in> T \<Longrightarrow> reshards T m (set_sharding m i s')"
  by (auto simp: reshards_def fun_eq_iff)

lemma reshards_foldR:
  assumes "foldR f m xs = Inr m'" and "\<And>m x m'. x \<in> set xs \<Longrightarrow> f m x = Inr m' \<Longrightarrow> reshards T m m'"
  shows "reshards T m m'"
  by (rule foldR_invariant[OF assms(1), where P = "reshards T m"]) (use assms(2) reshards_trans in blast)+

lemma reshardsD:
  assumes "reshards T m m'"
  shows "opcode m' = opcode m" "operands m' = operands m" "users m' = users m" "called m' = called m"
    "tuple_index m' = tuple_index m" "post_order m' = post_order m" "root m' = root m" "params m' = params m"
    "comp_instructions m' = comp_instructions m" "m_entry m' = m_entry m" "Color m' = Color m" "attrs_of m' = attrs_of m"
  using assms same_graphD[of m m'] by (simp_all add: reshards_def Color_def fun_eq_iff)

section \<open>One propagation\<close>

text \<open>The order of the code: nothing, replicated, partial replication by its last dimension, full.\<close>

definition sharding_rank :: "hlo_sharding option \<Rightarrow> nat \<times> int" where
  "sharding_rank s = (case s of None \<Rightarrow> (0, 0)
     | Some s \<Rightarrow> if IsReplicated s then (1, 0)
         else if ReplicateOnLastTileDim s then (2, last (ta_dims (tile_assignment_of s))) else (3, 0))"

definition climbs :: "hlo_sharding option \<Rightarrow> hlo_sharding option \<Rightarrow> bool" where
  "climbs s t \<longleftrightarrow> (sharding_rank s, sharding_rank t) \<in> {(a, b). a < b} <*lex*> {(a, b). a < b}"

lemma improved_climbs:
  "SourceHasImprovedSharding s t repl = Inr True \<Longrightarrow> climbs t (Some s)"
  by (auto simp: SourceHasImprovedSharding_def climbs_def sharding_rank_def back_dim_def Let_def
      split: if_splits option.splits)

lemma PropagateSharding_cases:
  assumes "PropagateSharding es repl src m t = Inr m'"
  shows "m' = m \<or> m' = put_sharding m t src \<and> src \<noteq> None \<and> ShardingCanBeReassigned m t \<and>
    (climbs (sharding_of m t) src \<or> ParameterAlias es t = Inr True)"
proof (cases src)
  case (Some s)
  show ?thesis
  proof (cases "ShardingCanBeReassigned m t")
    case True
    then obtain imp as where "SourceHasImprovedSharding s (sharding_of m t) repl = Inr imp"
      and "(if imp then Inr True else ParameterAlias es t) = Inr as" and "m' = (if as then put_sharding m t src else m)"
      using assms Some by (auto simp: PropagateSharding_def elim!: bindR_InrE)
    then show ?thesis using improved_climbs[of s "sharding_of m t" repl] Some True by (cases imp; cases as) auto
  qed (use assms Some in \<open>simp add: PropagateSharding_def\<close>)
qed (use assms in \<open>simp add: PropagateSharding_def\<close>)

lemma PropagateSharding_reshards: "PropagateSharding es repl src m t = Inr m' \<Longrightarrow> reshards {t} m m'"
  using PropagateSharding_cases[of es repl src m t m'] by auto

lemma PropagateSharding_devices_reshards:
  assumes "PropagateSharding_devices L es repl n src m t = Inr m'"
  shows "reshards {t} m m'"
proof -
  obtain m1 where m1: "PropagateSharding es repl src m t = Inr m1" and r: "(case sharding_of m1 t of None \<Rightarrow> Inr m1
     | Some s \<Rightarrow> if \<not> IsReplicated s \<and> ta_num_elements (tile_assignment_of s) \<noteq> n
         then bindR (ResizeSharding L (i_shape (m_instr m1 t)) s n None) (\<lambda>resized_sharding.
              Inr (set_sharding m1 t (case resized_sharding of Some r \<Rightarrow> r | None \<Rightarrow> L_Replicate L))) else Inr m1) = Inr m'"
    using assms by (auto simp: PropagateSharding_devices_def elim: bindR_InrE)
  have "reshards {t} m1 m'" using r by (auto split: option.splits if_splits elim!: bindR_InrE)
  then show ?thesis using PropagateSharding_reshards[OF m1] reshards_trans by blast
qed

lemma PropagateSharding_UNIV:
  "PropagateSharding es repl src m t = Inr m' \<Longrightarrow> reshards UNIV m m'"
  "PropagateSharding_devices L es repl n src m t = Inr m' \<Longrightarrow> reshards UNIV m m'"
  using PropagateSharding_reshards PropagateSharding_devices_reshards reshards_mono by blast+

lemma propagate_to_aliases_reshards: "propagate_to_aliases w es repl src m i = Inr m' \<Longrightarrow> reshards UNIV m m'"
  unfolding propagate_to_aliases_def
  by (elim bindR_InrE) (erule reshards_foldR, blast intro: reshards_mono PropagateSharding_reshards)

lemma PropagateShardingToUsers_reshards: "PropagateShardingToUsers es repl m i = Inr m' \<Longrightarrow> reshards UNIV m m'"
  unfolding PropagateShardingToUsers_def
  by (erule reshards_foldR) (auto split: if_splits elim!: bindR_InrE intro: reshards_mono PropagateSharding_reshards)

lemma reshards_put_step: "reshards UNIV m m' \<Longrightarrow> reshards UNIV m (put_sharding m' i s)"
  using reshards_trans[of UNIV m m' "put_sharding m' i s"] by simp

lemma fix_reshape_reshards: "fix_reshape body parent e call m i = Inr m' \<Longrightarrow> reshards UNIV m m'"
  by (auto simp: fix_reshape_def Let_def split: if_splits option.splits elim!: bindR_InrE intro!: reshards_put_step)

lemma FixReshapeSharding_reshards: "FixReshapeSharding m parent call = Inr m' \<Longrightarrow> reshards UNIV m m'"
  unfolding FixReshapeSharding_def by (elim bindR_InrE) (erule reshards_foldR, rule fix_reshape_reshards)

section \<open>Backward only adds\<close>

definition adds_shardings :: "hlo_module \<Rightarrow> hlo_module \<Rightarrow> bool" where
  "adds_shardings m m' \<longleftrightarrow> reshards {i. sharding_of m i = None} m m'"

lemma adds_shardings_refl [simp, intro]: "adds_shardings m m"
  by (simp add: adds_shardings_def)

lemma adds_shardings_trans [trans]:
  "adds_shardings m m' \<Longrightarrow> adds_shardings m' m'' \<Longrightarrow> adds_shardings m m''"
  unfolding adds_shardings_def reshards_def using same_graph_trans by auto

lemma adds_shardings_foldR:
  assumes "foldR f m xs = Inr m'" and "\<And>m x m'. x \<in> set xs \<Longrightarrow> f m x = Inr m' \<Longrightarrow> adds_shardings m m'"
  shows "adds_shardings m m'"
  by (rule foldR_invariant[OF assms(1), where P = "adds_shardings m"]) (use assms(2) adds_shardings_trans in blast)+

lemma adds_shardings_put: "sharding_of m i = None \<Longrightarrow> reshards {i} m m' \<Longrightarrow> adds_shardings m m'"
  unfolding adds_shardings_def by (erule reshards_mono) simp

lemma pass_backward_adds: "pass_backward X p es src m i = Inr m' \<Longrightarrow> adds_shardings m m'"
  by (auto simp: pass_backward_def split: if_splits elim!: bindR_InrE
      intro: adds_shardings_put PropagateSharding_devices_reshards)

lemma adds_shardings_put_one [simp]: "sharding_of m i = None \<Longrightarrow> adds_shardings m (put_sharding m i s)"
  by (auto intro: adds_shardings_put)

lemma pass_backward_fold: "foldR (pass_backward X p es src) m is = Inr m' \<Longrightarrow> adds_shardings m m'"
  by (erule adds_shardings_foldR) (rule pass_backward_adds)

lemma params_backward_adds: "PropagateParamShardingsBackward w X p es twin call m = Inr m' \<Longrightarrow> adds_shardings m m'"
  unfolding PropagateParamShardingsBackward_def
  by (erule adds_shardings_foldR)
    (auto split: prod.splits if_splits elim!: bindR_InrE intro: pass_backward_fold)

lemma outputs_forward_adds: "PropagateOutputShardingsForward twin call m = Inr m' \<Longrightarrow> adds_shardings m m'"
  unfolding PropagateOutputShardingsForward_def
  by (erule adds_shardings_foldR) (auto split: if_splits elim!: bindR_InrE)

lemma ShardBackward_adds: "ShardBackward fuel w X p es c m = Inr m' \<Longrightarrow> adds_shardings m m'"
proof (induction fuel arbitrary: c m m')
  case (Suc fuel)
  have "adds_shardings n n'" if "shard_backward_step (ShardBackward fuel w X p es) w X p es n i = Inr n'" for n i n'
    using that unfolding shard_backward_step_def
    by (auto split: if_splits elim!: bindR_InrE intro: Suc.IH adds_shardings_trans[OF params_backward_adds outputs_forward_adds])
  then show ?case using Suc.prems adds_shardings_foldR unfolding ShardBackward.simps by blast
qed simp

lemma root_tuple_adds:
  assumes "ApplyRootTupleShardingsToOperands m r = Inr m'"
  shows "adds_shardings m m'"
proof -
  have "adds_shardings n n'" if "bindR (if b then subR xs k else Inr rs) (\<lambda>s.
      if q s \<and> sharding_of n j = None then Inr (set_sharding n j s) else Inr n) = Inr n'" for n n' b xs k rs q j
    using that by (elim bindR_InrE) (auto split: if_splits intro!: adds_shardings_put)
  then show ?thesis using assms unfolding ApplyRootTupleShardingsToOperands_def Let_def
    by (auto split: option.splits if_splits intro: adds_shardings_foldR)
qed

lemma CleanUp_none [simp]: "CleanUp G no_cleanup m = Inr m"
  by (simp add: CleanUp_def no_cleanup_def)

text \<open>
  C18. Propagation backward to inputs changes nothing but shardings, and no sharding that an
  instruction has: it only adds missing ones.
\<close>

theorem backward_only_adds:
  assumes "MpmdShardingPropagation_Run fuel w X cfg m = Inr (changed, m')" and "pg_mode cfg = BackwardInputOutput"
  shows "same_graph m m' \<and> attrs_of m' = attrs_of m \<and>
    (\<forall>i. sharding_of m i \<noteq> None \<longrightarrow> sharding_of m' i = sharding_of m i)"
proof -
  obtain m1 es where "ApplyRootTupleShardingsToOperands m (root m (m_entry m)) = Inr m1"
    and "ShardBackward fuel w X (pg_partition cfg) es (m_entry m1) m1 = Inr m'"
    using assms unfolding MpmdShardingPropagation_Run_def by (auto elim!: bindR_InrE)
  then have "adds_shardings m m'" using root_tuple_adds ShardBackward_adds adds_shardings_trans by blast
  then show ?thesis by (simp add: adds_shardings_def reshards_def)
qed

section \<open>Forward finds the canonical form\<close>

text \<open>
  The form a computation has to have: parameters, constants, tuples, calls, loops and custom
  calls only; the parameters of a called computation in the color of the call; the bodies of
  loops in the same form.
\<close>

inductive canonical_form :: "hlo_module \<Rightarrow> cid \<Rightarrow> bool" for m where
  canonical: "(\<And>i. i \<in> set (post_order m c) \<Longrightarrow>
       opcode m i \<in> {kParameter, kConstant, kTuple, kGetTupleElement, kCustomCall} \<or>
       (\<exists>d. calledR m i = Inr d \<and>
          (opcode m i = kCall \<and> Color m i \<noteq> None \<and>
             (\<forall>k < length (operands m i). k < length (params m d) \<and> Color m (params m d ! k) = Color m i) \<or>
           opcode m i = kWhile \<and> canonical_form m d))) \<Longrightarrow> canonical_form m c"

lemma canonical_form_cong:
  assumes "canonical_form m c" and "reshards T m m'"
  shows "canonical_form m' c"
  using assms(1)
proof (induction rule: canonical_form.induct)
  case (canonical c)
  have eqs: "calledR m' = calledR m" "opcode m' = opcode m" "operands m' = operands m" "params m' = params m" "Color m' = Color m"
    using reshardsD[OF assms(2)] by (simp_all add: calledR_def fun_eq_iff)
  show ?case
  proof (rule canonical_form.canonical)
    fix i assume "i \<in> set (post_order m' c)"
    then have "i \<in> set (post_order m c)" using reshardsD(6)[OF assms(2)] by simp
    from canonical(1)[OF this] show "opcode m' i \<in> {kParameter, kConstant, kTuple, kGetTupleElement, kCustomCall} \<or>
       (\<exists>d. calledR m' i = Inr d \<and>
          (opcode m' i = kCall \<and> Color m' i \<noteq> None \<and>
             (\<forall>k < length (operands m' i). k < length (params m' d) \<and> Color m' (params m' d ! k) = Color m' i) \<or>
           opcode m' i = kWhile \<and> canonical_form m' d))" unfolding eqs by blast
  qed
qed

lemma reshards_sym: "reshards T m m' \<Longrightarrow> reshards T m' m"
  by (cases m; cases m') (auto simp: reshards_def same_graph_def)

lemma reshards_canonical: "reshards T m m' \<Longrightarrow> canonical_form m' c \<longleftrightarrow> canonical_form m c"
  using canonical_form_cong reshards_sym by blast

lemma foldR_collect:
  assumes "foldR f s xs = Inr t" and "I s" and "\<And>s x s'. x \<in> set xs \<Longrightarrow> I s \<Longrightarrow> f s x = Inr s' \<Longrightarrow> I s' \<and> Q x"
  shows "I t \<and> (\<forall>x \<in> set xs. Q x)"
  using assms
proof (induction xs arbitrary: s)
  case (Cons x xs)
  obtain s' where s': "f s x = Inr s'" and rest: "foldR f s' xs = Inr t" using Cons.prems(1) by (auto elim: bindR_InrE)
  have "I s' \<and> Q x" using Cons.prems(3)[OF _ Cons.prems(2) s'] by simp
  moreover have "I t \<and> (\<forall>x \<in> set xs. Q x)" by (rule Cons.IH[OF rest]) (use calculation Cons.prems(3) in auto)
  ultimately show ?case by simp
qed simp

lemma pass_operand_checks:
  assumes "pass_operand X es repl d tc devs i m k = Inr m'"
  shows "reshards UNIV m m' \<and> k < length (params m d) \<and> Color m (params m d ! k) = Some tc"
  using assms unfolding pass_operand_def paramR_def
  by (auto simp: subR_Inr_iff split: if_splits elim!: bindR_InrE
      intro: PropagateSharding_UNIV)

lemma pass_operands_check:
  assumes "foldR (pass_operand X es repl d tc devs i) m ks = Inr m'"
  shows "reshards UNIV m m' \<and> (\<forall>k \<in> set ks. k < length (params m d) \<and> Color m (params m d ! k) = Some tc)"
proof (rule foldR_collect[OF assms])
  fix n k n' assume "reshards UNIV m n" and "pass_operand X es repl d tc devs i n k = Inr n'"
  then show "reshards UNIV m n' \<and> k < length (params m d) \<and> Color m (params m d ! k) = Some tc"
    using pass_operand_checks[of X es repl d tc devs i n k n'] reshards_trans reshardsD[of UNIV m n] by metis
qed simp

lemma pass_slices_reshards: "pass_slices es repl m param = Inr m' \<Longrightarrow> reshards UNIV m m'"
  unfolding pass_slices_def
  by (erule reshards_foldR) (auto split: if_splits option.splits elim!: bindR_InrE intro: PropagateSharding_UNIV)

lemma adds_reshards: "adds_shardings m m' \<Longrightarrow> reshards UNIV m m'"
  unfolding adds_shardings_def by (erule reshards_mono) simp

definition forwards :: "propagation_state \<Rightarrow> propagation_state \<Rightarrow> bool" where
  "forwards st st' \<longleftrightarrow> reshards UNIV (ps_module st) (ps_module st') \<and> ps_properties st' = ps_properties st \<and>
     ps_cleanup st' = ps_cleanup st"

lemma forwards_refl [simp]: "forwards st st"
  by (simp add: forwards_def)

lemma forwards_trans [trans]: "forwards a b \<Longrightarrow> forwards b c \<Longrightarrow> forwards a c"
  unfolding forwards_def using reshards_trans by metis

lemma forwards_module: "reshards UNIV (ps_module st) m \<Longrightarrow> forwards st (st\<lparr>ps_module := m\<rparr>)"
  by (simp add: forwards_def)

lemma ShardForwardCall_checks:
  assumes "ShardForwardCallInstruction fuel w X cfg c st i = Inr st'" and "pg_mode cfg \<noteq> ForwardFull"
  shows "forwards st st' \<and> (\<exists>d. calledR (ps_module st) i = Inr d \<and> Color (ps_module st) i \<noteq> None \<and>
    (\<forall>k < length (operands (ps_module st) i). k < length (params (ps_module st) d) \<and>
       Color (ps_module st) (params (ps_module st) d ! k) = Color (ps_module st) i))"
proof -
  let ?m = "ps_module st" and ?es = "ps_properties st" and ?repl = "pg_mode cfg = ForwardFull"
  obtain d where d: "calledR ?m i = Inr d" using assms(1) unfolding ShardForwardCallInstruction_def Let_def by (auto elim: bindR_InrE)
  obtain tc where tc: "Color ?m i = Some tc" using assms(1) d
    unfolding ShardForwardCallInstruction_def Let_def by (auto split: option.splits)
  obtain devs m1 m2 m3 twin m4 m5 where
    1: "foldR (pass_operand X ?es ?repl d tc devs i) ?m [0..<length (operands ?m i)] = Inr m1" and
    2: "foldR (pass_slices ?es ?repl) m1 (params m1 d) = Inr m2" and 3: "FixReshapeSharding m2 c i = Inr m3" and
    4: "PropagateOutputShardingsForward twin i m3 = Inr m4" and
    5: "PropagateParamShardingsBackward w X (pg_partition cfg) ?es twin i m4 = Inr m5" and st': "st' = st\<lparr>ps_module := m5\<rparr>"
    using assms d tc unfolding ShardForwardCallInstruction_def Let_def
    by (auto split: if_splits elim!: bindR_InrE)
  have "reshards UNIV m1 m2" using 2 by (rule reshards_foldR) (rule pass_slices_reshards)
  moreover have "reshards UNIV m2 m3" using 3 by (rule FixReshapeSharding_reshards)
  moreover have "reshards UNIV m3 m4" "reshards UNIV m4 m5"
    using outputs_forward_adds[OF 4] params_backward_adds[OF 5] adds_reshards by blast+
  moreover note pass_operands_check[OF 1]
  ultimately have "reshards UNIV ?m m5" using reshards_trans by blast
  then show ?thesis using pass_operands_check[OF 1] d tc unfolding st' by (simp add: forwards_module)
qed

lemma match_carried_reshards: "match_carried w es repl t r m arg = Inr m' \<Longrightarrow> reshards UNIV m m'"
  unfolding match_carried_def
  by (auto split: if_splits option.splits elim!: bindR_InrE dest!: propagate_to_aliases_reshards PropagateShardingToUsers_reshards)
    (meson reshards_trans)

lemma loop_edges_reshard:
  "pass_input es repl t m arg = Inr m' \<Longrightarrow> reshards UNIV m m'"
  "user_to_root es repl r m user = Inr m' \<Longrightarrow> reshards UNIV m m'"
  "root_to_user es repl r m user = Inr m' \<Longrightarrow> reshards UNIV m m'"
  by (auto simp: pass_input_def user_to_root_def root_to_user_def elim!: bindR_InrE dest!: PropagateSharding_UNIV)

lemma ShardForwardWhile_checks:
  assumes "ShardForwardWhileInstruction rec w cfg st i = Inr st'"
    and rec: "\<And>c s s'. rec c s = Inr s' \<Longrightarrow> forwards s s' \<and> canonical_form (ps_module s) c"
  shows "forwards st st' \<and> (\<exists>d. calledR (ps_module st) i = Inr d \<and> canonical_form (ps_module st) d)"
proof -
  let ?m = "ps_module st" and ?es = "ps_properties st" and ?repl = "pg_mode cfg = ForwardFull"
  obtain t d a m1 m2 st2 m3 m4 where d: "calledR ?m i = Inr d" and
    1: "foldR (pass_input ?es ?repl t) ?m (users ?m a) = Inr m1" and
    2: "foldR (user_to_root ?es ?repl (root ?m d)) m1 (users m1 i) = Inr m2" and
    r: "rec d (st\<lparr>ps_module := m2\<rparr>) = Inr st2" and
    3: "foldR (match_carried w (ps_properties st2) ?repl t (root ?m d)) (ps_module st2) (users (ps_module st2) a) = Inr m3" and
    4: "foldR (root_to_user (ps_properties st2) ?repl (root ?m d)) m3 (users m3 i) = Inr m4" and
    st': "st' = st2\<lparr>ps_module := m4\<rparr>"
    using assms(1) unfolding ShardForwardWhileInstruction_def Let_def by (elim bindR_InrE) blast
  have "reshards UNIV ?m m1" "reshards UNIV m1 m2"
    by (rule reshards_foldR[OF 1], erule loop_edges_reshard) (rule reshards_foldR[OF 2], erule loop_edges_reshard)
  then have a: "reshards UNIV ?m m2" by (rule reshards_trans)
  have "reshards UNIV (ps_module st2) m3" "reshards UNIV m3 m4"
    by (rule reshards_foldR[OF 3], erule match_carried_reshards) (rule reshards_foldR[OF 4], erule loop_edges_reshard)
  then have b: "reshards UNIV (ps_module st2) m4" by (rule reshards_trans)
  have "forwards st st2" using rec[OF r] forwards_module[OF a] forwards_trans by blast
  then have "forwards st st'" using forwards_module[OF b] forwards_trans unfolding st' by blast
  moreover have "canonical_form ?m d" using rec[OF r] reshards_canonical[OF a] by simp
  ultimately show ?thesis using d by blast
qed

lemma ShardForward_checks:
  assumes "ShardForward fuel w X cfg c st = Inr st'" and "pg_mode cfg \<noteq> ForwardFull"
  shows "forwards st st' \<and> canonical_form (ps_module st) c"
  using assms(1)
proof (induction fuel arbitrary: c st st')
  case (Suc fuel)
  let ?m = "ps_module st"
  let ?ok = "\<lambda>i. opcode ?m i \<in> {kParameter, kConstant, kTuple, kGetTupleElement, kCustomCall} \<or>
     (\<exists>d. calledR ?m i = Inr d \<and>
        (opcode ?m i = kCall \<and> Color ?m i \<noteq> None \<and>
           (\<forall>k < length (operands ?m i). k < length (params ?m d) \<and> Color ?m (params ?m d ! k) = Color ?m i) \<or>
         opcode ?m i = kWhile \<and> canonical_form ?m d))"
  have "forwards st st' \<and> (\<forall>i \<in> set (post_order ?m c). ?ok i)"
  proof (rule foldR_collect[where I = "forwards st" and Q = ?ok])
    show "foldR (shard_forward_step (ShardForward fuel w X cfg) fuel w X cfg c) st (post_order ?m c) = Inr st'"
      using Suc.prems by simp
    fix s i s' assume s: "forwards st s" and step: "shard_forward_step (ShardForward fuel w X cfg) fuel w X cfg c s i = Inr s'"
    have r: "reshards UNIV ?m (ps_module s)" using s by (simp add: forwards_def)
    have eqs: "calledR (ps_module s) = calledR ?m" "opcode (ps_module s) = opcode ?m" "operands (ps_module s) = operands ?m"
      "params (ps_module s) = params ?m" "Color (ps_module s) = Color ?m"
      using reshardsD[OF r] by (simp_all add: calledR_def fun_eq_iff)
    show "forwards st s' \<and> ?ok i"
    proof (cases "opcode ?m i = kCall")
      case True
      then have "ShardForwardCallInstruction fuel w X cfg c s i = Inr s'" using step by (simp add: shard_forward_step_def eqs Let_def)
      from ShardForwardCall_checks[OF this assms(2)] show ?thesis unfolding eqs using True s forwards_trans by blast
    next
      case nc: False
      show ?thesis
      proof (cases "opcode ?m i = kWhile")
        case True
        then have "ShardForwardWhileInstruction (ShardForward fuel w X cfg) w cfg s i = Inr s'"
          using step by (simp add: shard_forward_step_def eqs Let_def)
        from ShardForwardWhile_checks[OF this Suc.IH] obtain d where d: "forwards s s'" "calledR ?m i = Inr d" "canonical_form (ps_module s) d"
          unfolding eqs by blast
        have "canonical_form ?m d" using d(3) reshards_canonical[OF r] by simp
        then show ?thesis using True d(1,2) s forwards_trans by blast
      next
        case False
        then show ?thesis using step nc s by (auto simp: shard_forward_step_def eqs Let_def split: if_splits)
      qed
    qed
  qed simp
  then have fw: "forwards st st'" and ok: "\<And>i. i \<in> set (post_order ?m c) \<Longrightarrow> ?ok i" by blast+
  have "canonical_form ?m c" by (rule canonical_form.canonical, erule ok)
  with fw show ?case ..
qed simp

text \<open>
  C17. Propagation forward to inputs and outputs only succeeds on a module in canonical form, with
  the parameters of every called computation in the color of the call, and it changes nothing
  but shardings.
\<close>

theorem forward_finds_canonical_form:
  assumes "MpmdShardingPropagation_Run fuel w X cfg m = Inr (changed, m')" and "pg_mode cfg = ForwardInputOutput"
  shows "canonical_form m (m_entry m) \<and> same_graph m m' \<and> attrs_of m' = attrs_of m"
proof -
  obtain m1 es st where a: "ApplyRootTupleShardingsToOperands m (root m (m_entry m)) = Inr m1"
    and f: "ShardForward fuel w X cfg (m_entry m1) \<lparr>ps_module = m1, ps_properties = es, ps_cleanup = no_cleanup\<rparr> = Inr st"
    and c: "CleanUp (pl_graph X) (ps_cleanup st) (ps_module st) = Inr m'"
    using assms unfolding MpmdShardingPropagation_Run_def by (auto elim!: bindR_InrE)
  have r: "reshards UNIV m m1" using root_tuple_adds[OF a] by (rule adds_reshards)
  from ShardForward_checks[OF f] assms(2) have s: "reshards UNIV m1 (ps_module st)" "ps_cleanup st = no_cleanup"
    "canonical_form m1 (m_entry m1)" by (simp_all add: forwards_def)
  have "reshards UNIV m m'" using c s(1,2) reshards_trans[OF r] by simp
  moreover have "canonical_form m (m_entry m)" using s(3) reshards_canonical[OF r] reshardsD(10)[OF r] by simp
  ultimately show ?thesis by (simp add: reshards_def)
qed

text \<open>
  A propagation to an instruction that is no alias of a parameter touches no other sharding,
  leaves one alone that goes with assigned axes, and otherwise only climbs: from nothing over
  replication and partial replication to full sharding. Of two partial replications it takes
  the one with more replicas.
\<close>

theorem propagation_climbs:
  assumes "PropagateSharding es repl src m t = Inr m'" and "ParameterAlias es t = Inr False"
  shows "(\<forall>i. i \<noteq> t \<longrightarrow> sharding_of m' i = sharding_of m i) \<and>
    (sharding_of m t \<noteq> None \<and> HasAssignedAxes m t \<longrightarrow> m' = m) \<and>
    (sharding_of m' t = sharding_of m t \<or> sharding_of m' t = src \<and> climbs (sharding_of m t) src) \<and>
    (\<forall>s s'. sharding_of m t = Some s \<and> src = Some s' \<and> \<not> IsReplicated s \<and> \<not> IsReplicated s' \<and>
       ReplicateOnLastTileDim s \<and> ReplicateOnLastTileDim s' \<and> \<not> HasAssignedAxes m t \<longrightarrow>
       sharding_of m' t = (if last (ta_dims (tile_assignment_of s)) < last (ta_dims (tile_assignment_of s'))
         then Some s' else Some s))"
proof -
  have c: "m' = m \<or> m' = put_sharding m t src \<and> src \<noteq> None \<and> ShardingCanBeReassigned m t \<and> climbs (sharding_of m t) src"
    using PropagateSharding_cases[OF assms(1)] assms(2) by simp
  have p: "sharding_of m' t = (if last (ta_dims (tile_assignment_of s)) < last (ta_dims (tile_assignment_of s')) then Some s' else Some s)"
    if "sharding_of m t = Some s \<and> src = Some s' \<and> \<not> IsReplicated s \<and> \<not> IsReplicated s' \<and>
       ReplicateOnLastTileDim s \<and> ReplicateOnLastTileDim s' \<and> \<not> HasAssignedAxes m t" for s s'
    using assms that by (auto simp: PropagateSharding_def ShardingCanBeReassigned_def SourceHasImprovedSharding_def
        back_dim_def Let_def split: if_splits elim!: bindR_InrE)
  show ?thesis
  proof (intro conjI allI impI)
    show "sharding_of m' i = sharding_of m i" if "i \<noteq> t" for i using c that by auto
    show "m' = m" if "sharding_of m t \<noteq> None \<and> HasAssignedAxes m t" using c that by (auto simp: ShardingCanBeReassigned_def)
    show "sharding_of m' t = sharding_of m t \<or> sharding_of m' t = src \<and> climbs (sharding_of m t) src" using c by auto
    fix s s' assume "sharding_of m t = Some s \<and> src = Some s' \<and> \<not> IsReplicated s \<and> \<not> IsReplicated s' \<and>
      ReplicateOnLastTileDim s \<and> ReplicateOnLastTileDim s' \<and> \<not> HasAssignedAxes m t"
    then show "sharding_of m' t = (if last (ta_dims (tile_assignment_of s)) < last (ta_dims (tile_assignment_of s'))
      then Some s' else Some s)" by (rule p)
  qed
qed

section \<open>Examples\<close>

definition echo_propagation :: propagation_lib where
  "echo_propagation = \<lparr>pl_sharding = echo_lib (\<lambda>_. Inl (Fatal [])), pl_graph = plain_graph_lib,
     pl_module_of = (\<lambda>m c n. m\<lparr>m_entry := c\<rparr>), pl_ShardingPropagation = (\<lambda>_ _ t. Inr t),
     pl_computations = (\<lambda>t. [m_entry t]), pl_AddComputation = (\<lambda>m t. (m_entry t, m)),
     pl_IotaTile = (\<lambda>n. cyclic_sharding)\<rparr>"

definition called_module :: hlo_module where
  "called_module = sample_module
     [(11, blank_instr\<lparr>i_opcode := kParameter, i_users := [12], i_attrs := [''color'' \<mapsto> ''a'']\<rparr>),
      (12, blank_instr\<lparr>i_opcode := kCall, i_operands := [11], i_called := [7], i_users := [13], i_shape := Shape TUPLE [] [],
          i_attrs := [''color'' \<mapsto> ''a'']\<rparr>),
      (13, blank_instr\<lparr>i_opcode := kGetTupleElement, i_operands := [12], i_users := [14]\<rparr>),
      (14, blank_instr\<lparr>i_opcode := kTuple, i_operands := [13]\<rparr>),
      (15, blank_instr\<lparr>i_opcode := kParameter, i_users := [16], i_attrs := [''color'' \<mapsto> ''a'']\<rparr>),
      (16, blank_instr\<lparr>i_opcode := kTuple, i_operands := [15]\<rparr>)]
     [(0, blank_comp\<lparr>c_root := 14, c_post_order := [11, 12, 13, 14], c_params := [11]\<rparr>),
      (7, blank_comp\<lparr>c_root := 16, c_post_order := [15, 16], c_params := [15], c_instructions := [15, 16]\<rparr>)]"

definition mesh_partition :: hlo_partition where
  "mesh_partition = snd (AllocateColor_config (Create (dl_create 0 4))
     \<lparr>cc_name = ''a'', cc_devices = dl_create 0 2, cc_backprop = False, cc_noncritical = False, cc_task_options = task_options_default\<rparr>)"

abbreviation walk_config :: "propagation_mode \<Rightarrow> propagation_config" where
  "walk_config mode \<equiv> \<lparr>pg_partition = mesh_partition, pg_mode = mode, pg_shard_iota = True\<rparr>"

lemma called_facts:
  "opcode called_module 11 = kParameter" "opcode called_module 12 = kCall" "opcode called_module 13 = kGetTupleElement"
  "opcode called_module 14 = kTuple" "opcode called_module 15 = kParameter" "opcode called_module 16 = kTuple"
  "operands called_module 12 = [11]" "operands called_module 13 = [12]" "operands called_module 14 = [13]" "operands called_module 16 = [15]"
  "operands called_module 11 = []" "operands called_module 15 = []"
  "users called_module 11 = [12]" "users called_module 12 = [13]" "users called_module 13 = [14]" "users called_module 15 = [16]"
  "called called_module 12 = [7]" "tuple_index called_module 13 = 0" "m_entry called_module = 0"
  "root called_module 0 = 14" "root called_module 7 = 16" "post_order called_module 0 = [11, 12, 13, 14]" "post_order called_module 7 = [15, 16]"
  "params called_module 0 = [11]" "params called_module 7 = [15]" "comp_instructions called_module 7 = [15, 16]"
  "Color called_module 12 = Some ''a''" "Color called_module 15 = Some ''a''" "sharding_of called_module = (\<lambda>i. None)"
  "IsTuple called_module 12" "HasAssignedAxes called_module = (\<lambda>i. False)" "Color called_module 11 = Some ''a''"
  by (auto simp: called_module_def sample_simps Color_def IsTuple_def IsTupleShape_def HasAssignedAxes_def fun_eq_iff)

lemmas property_run = Create_module_def Create_computation_def AddEntryProperties_def forward_step_def forward_call_def
  call_param_step_def call_user_step_def operandR_def calledR_def paramR_def tuple_indexR_def backward_step_def backward_call_def
  user_root_flow_def upd_def ent_def entry_default_def CopyFromAlias_def flow_def Let_def

lemma called_properties: "\<exists>es. Create_module (Suc (Suc 0)) (Suc (Suc 0)) called_module = Inr es \<and> es 11 \<noteq> None \<and> es 15 \<noteq> None"
  by (simp add: property_run called_facts)

lemmas walk_run = MpmdShardingPropagation_Run_def ApplyRootTupleShardingsToOperands_def shard_forward_step_def
  ShardForwardCallInstruction_def DefaultPerTaskMesh_def pass_operand_def pass_slices_def PropagateSharding_devices_def
  PropagateSharding_def FixReshapeSharding_def fix_reshape_def no_op_reshape_with_sharding_def PropagateComputation_def
  allow_param_def ParameterNumber_def Get_def finish_twin_def shard_iota_step_def misfit_def clear_barrier_def
  PropagateOutputShardingsForward_def PropagateParamShardingsBackward_def ShardingHasTileAssignment_def shard_backward_step_def
  operandR_def calledR_def paramR_def tuple_indexR_def Let_def

lemma mesh_facts:
  "ConfigForColor mesh_partition ''a'' = Inr \<lparr>cc_name = ''a'', cc_devices = dl_create 0 2, cc_backprop = False,
     cc_noncritical = False, cc_task_options = task_options_default\<rparr>"
  "NumDevicesForInstruction mesh_partition (Some ''a'') = Inr 2"
  by (simp_all add: mesh_partition_def AllocateColor_config_def Create_def ConfigForColor_def NumDevicesForInstruction_def Let_def)

lemma entry_moved:
  "opcode (m\<lparr>m_entry := c\<rparr>) = opcode m" "operands (m\<lparr>m_entry := c\<rparr>) = operands m"
  "sharding_of (m\<lparr>m_entry := c\<rparr>) = sharding_of m" "comp_instructions (m\<lparr>m_entry := c\<rparr>) = comp_instructions m"
  "root (m\<lparr>m_entry := c\<rparr>) = root m" "params (m\<lparr>m_entry := c\<rparr>) = params m"
  by (simp_all add: fun_eq_iff opcode_def operands_def sharding_of_def comp_instructions_def root_def params_def)

lemma called_walk:
  "mode \<noteq> ForwardFull \<Longrightarrow>
     MpmdShardingPropagation_Run (Suc (Suc 0)) (Suc (Suc 0)) echo_propagation (walk_config mode) called_module = Inr (True, called_module)"
proof -
  assume m: "mode \<noteq> ForwardFull"
  obtain es e1 where es: "Create_module (Suc (Suc 0)) (Suc (Suc 0)) called_module = Inr es" "es 11 = Some e1"
    using called_properties by auto
  show ?thesis using m es(2)
    by (cases mode) (simp_all add: walk_run called_facts es(1) mesh_facts echo_propagation_def entry_moved split: option.split)
qed

theorem backward_only_adds_witness:
  "MpmdShardingPropagation_Run (Suc (Suc 0)) (Suc (Suc 0)) echo_propagation (walk_config BackwardInputOutput) called_module
     = Inr (True, called_module) \<and> same_graph called_module called_module"
  using called_walk[of BackwardInputOutput] backward_only_adds[of "Suc (Suc 0)" "Suc (Suc 0)" echo_propagation
    "walk_config BackwardInputOutput" called_module True called_module] by simp

theorem forward_finds_canonical_form_witness:
  "opcode called_module 12 = kCall \<and> canonical_form called_module 0"
  using called_walk[of ForwardInputOutput] forward_finds_canonical_form[of "Suc (Suc 0)" "Suc (Suc 0)" echo_propagation
    "walk_config ForwardInputOutput" called_module True called_module] by (simp add: called_facts)

definition partly_replicated :: "int \<Rightarrow> hlo_sharding" where
  "partly_replicated n = HloSharding False False False False True
     \<lparr>ta_dims = [2, n], ta_iota = None, ta_array = [], ta_first = 0, ta_num_elements = 2 * n\<rparr> []"

theorem propagation_climbs_witness:
  "\<exists>m'. PropagateSharding [0 \<mapsto> entry_default] True (Some (partly_replicated 8)) (put_sharding called_module 0 (Some (partly_replicated 2))) 0 = Inr m' \<and>
     sharding_of m' 0 = Some (partly_replicated 8)"
proof -
  let ?m = "put_sharding called_module 0 (Some (partly_replicated 2))" and ?es = "[0 \<mapsto> entry_default]"
  have axes: "\<not> HasAssignedAxes ?m 0" by (simp add: HasAssignedAxes_def called_module_def sample_simps)
  then obtain m' where "PropagateSharding ?es True (Some (partly_replicated 8)) ?m 0 = Inr m'"
    by (simp add: PropagateSharding_def ShardingCanBeReassigned_def SourceHasImprovedSharding_def partly_replicated_def back_dim_def)
  with propagation_climbs[OF this] axes show ?thesis
    by (simp add: ParameterAlias_def Get_def entry_default_def partly_replicated_def)
qed

end
