(* ===== verification/Color_Passes.thy ===== *)
theory Color_Passes
  imports Mpmd_Instruction Hlo_Partition Mm_Sharding Instruction_Properties Sharding_Dims
begin

text \<open>
  Two small passes that only color instructions. \<open>mpmd_cut_size_minimizer.cc\<close> moves an
  instruction that is larger than what it is computed from to the color of its users;
  \<open>mpmd_simple_loop_increment_coloring.cc\<close> gives the small trees that advance loop counters a
  color of their own. \<open>ShapeUtil::ElementsIn\<close> and the instruction count of the module are
  arguments. A subscript out of range is \<open>Undefined\<close>.
\<close>

section \<open>Cut size\<close>

definition Weight :: "sharding_lib \<Rightarrow> (shape \<Rightarrow> int) \<Rightarrow> hlo_module \<Rightarrow> iid \<Rightarrow> int statusor" where
  "Weight L elements_in m i =
     bindR (GetSpmdShape L (i_shape (m_instr m i)) (sharding_of m i)) (\<lambda>shp. Inr (elements_in shp))"

definition user_colors :: "hlo_module \<Rightarrow> iid \<Rightarrow> color list" where
  "user_colors m i = remdups (List.map_filter (Color m) (users m i))"

definition SingleUserDifferentColor :: "hlo_module \<Rightarrow> cid \<Rightarrow> iid \<Rightarrow> color option" where
  "SingleUserDifferentColor m computation i =
     (if opcode m i = kParameter \<or> i = root m computation then None
      else case Color m i of
        None \<Rightarrow> None
      | Some c \<Rightarrow> (case user_colors m i of [u] \<Rightarrow> if u \<noteq> c then Some u else None | _ \<Rightarrow> None))"

definition kUnaryOpcodes :: "hlo_opcode list" where
  "kUnaryOpcodes = [kTranspose, kConvert, kReshape, kBitcast, kNegate, kSqrt, kCos, kExp, kSin, kNot]"

fun GetSingleUserUnaryTree :: "nat \<Rightarrow> hlo_module \<Rightarrow> iid \<Rightarrow> iid list statusor" where
  "GetSingleUserUnaryTree 0 m i = Inl out_of_fuel"
| "GetSingleUserUnaryTree (Suc fuel) m next =
     (if length (users m next) > 1 then Inr [next]
      else if opcode m next \<in> set kUnaryOpcodes
      then bindR (operandR m next 0) (\<lambda>operand.
           bindR (GetSingleUserUnaryTree fuel m operand) (\<lambda>tree. Inr (next # tree)))
      else Inr [next])"

definition IsLargerThanOperands :: "sharding_lib \<Rightarrow> (shape \<Rightarrow> int) \<Rightarrow> hlo_module \<Rightarrow> iid \<Rightarrow> bool statusor" where
  "IsLargerThanOperands L elements_in m i =
     bindR (foldR (\<lambda>operand_weight operand. bindR (Weight L elements_in m operand) (\<lambda>w. Inr (operand_weight + w)))
              0 (operands m i)) (\<lambda>operand_weight.
     bindR (Weight L elements_in m i) (\<lambda>w. Inr (w > operand_weight)))"

text \<open>The inner loop assigns the color to the instruction itself, once per element of the tree.\<close>

definition move_to_users ::
  "nat \<Rightarrow> sharding_lib \<Rightarrow> (shape \<Rightarrow> int) \<Rightarrow> hlo_partition \<Rightarrow> hlo_module \<times> bool \<Rightarrow> iid \<Rightarrow> color \<Rightarrow> color
     \<Rightarrow> (hlo_module \<times> bool) statusor" where
  "move_to_users fuel L elements_in p st i single_user_color instruction_color =
     (let (m, changed) = st in
      bindR (EquivalentMesh p single_user_color instruction_color) (\<lambda>equivalent.
      if \<not> equivalent then Inr st
      else bindR (GetSingleUserUnaryTree fuel m i) (\<lambda>unary_tree.
           bindR (IsLargerThanOperands L elements_in m (last unary_tree)) (\<lambda>larger.
           Inr (if larger then (foldl (\<lambda>m element. AssignColor m i single_user_color) m unary_tree, True) else st)))))"

definition cut_step ::
  "nat \<Rightarrow> sharding_lib \<Rightarrow> (shape \<Rightarrow> int) \<Rightarrow> hlo_partition \<Rightarrow> cid \<Rightarrow> (hlo_module \<times> bool) \<times> cid list \<Rightarrow> iid
     \<Rightarrow> ((hlo_module \<times> bool) \<times> cid list) statusor" where
  "cut_step fuel L elements_in p computation st i =
     (let ((m, changed), to_visit) = st in
      if opcode m i = kWhile then bindR (calledR m i) (\<lambda>c. Inr ((m, changed), c # to_visit))
      else if opcode m i \<in> {kCustomCall, kGetTupleElement, kCopy} then Inr st
      else case (Color m i, SingleUserDifferentColor m computation i) of
        (Some instruction_color, Some single_user_color) \<Rightarrow>
          bindR (move_to_users fuel L elements_in p (m, changed) i single_user_color instruction_color) (\<lambda>moved.
          Inr (moved, to_visit))
      | _ \<Rightarrow> Inr st)"

fun cut_loop ::
  "nat \<Rightarrow> nat \<Rightarrow> sharding_lib \<Rightarrow> (shape \<Rightarrow> int) \<Rightarrow> hlo_partition \<Rightarrow> (hlo_module \<times> bool) \<times> cid list
     \<Rightarrow> (hlo_module \<times> bool) statusor" where
  "cut_loop w fuel L elements_in p (st, []) = Inr st"
| "cut_loop w 0 L elements_in p (st, c # to_visit) = Inl out_of_fuel"
| "cut_loop w (Suc fuel) L elements_in p (st, c # to_visit) =
     bindR (foldR (cut_step w L elements_in p c) (st, to_visit) (rev (post_order (fst st) c)))
       (cut_loop w fuel L elements_in p)"

definition MpmdCutSizeMinimizer_Run ::
  "nat \<Rightarrow> nat \<Rightarrow> sharding_lib \<Rightarrow> (shape \<Rightarrow> int) \<Rightarrow> hlo_partition \<Rightarrow> hlo_module \<Rightarrow> (hlo_module \<times> bool) statusor" where
  "MpmdCutSizeMinimizer_Run w fuel L elements_in p m =
     cut_loop w fuel L elements_in p ((m, False), [m_entry m])"

section \<open>Loop increments\<close>

definition kMaxInstructionsInTree :: nat where
  "kMaxInstructionsInTree = 10"

definition kMinInstructionsToVisit :: nat where
  "kMinInstructionsToVisit = 256"

definition inner_operand :: "hlo_module \<Rightarrow> iid \<Rightarrow> iid \<Rightarrow> bool" where
  "inner_operand m arg_tuple operand \<longleftrightarrow> operand \<noteq> arg_tuple \<and> opcode m operand \<noteq> kConstant"

text \<open>The back of \<open>to_visit\<close> is the head of the list. The set \<open>visited\<close> of the source is never filled.\<close>

fun increment_loop :: "nat \<Rightarrow> hlo_module \<Rightarrow> iid \<Rightarrow> iid list \<Rightarrow> iid list \<Rightarrow> iid list statusor" where
  "increment_loop fuel m arg_tuple [] tree = Inr tree"
| "increment_loop 0 m arg_tuple (next # to_visit) tree = Inl out_of_fuel"
| "increment_loop (Suc fuel) m arg_tuple (next # to_visit) tree =
     (if \<exists>operand \<in> set (operands m next). inner_operand m arg_tuple operand \<and> called m operand \<noteq> [] then Inr []
      else if length tree = kMaxInstructionsInTree then Inr []
      else increment_loop fuel m arg_tuple
             (rev (filter (inner_operand m arg_tuple) (operands m next)) @ to_visit) (tree @ [next]))"

definition GetIncrementTree :: "nat \<Rightarrow> hlo_module \<Rightarrow> iid \<Rightarrow> iid \<Rightarrow> iid list statusor" where
  "GetIncrementTree fuel m i arg_tuple = increment_loop fuel m arg_tuple [i] []"

record increment_state =
  is_module :: hlo_module
  is_partition :: hlo_partition
  is_color :: "color option"
  is_changed :: bool

definition color_increment :: "nat \<Rightarrow> iid \<Rightarrow> increment_state \<Rightarrow> iid \<Rightarrow> increment_state statusor" where
  "color_increment fuel arg_tuple st r =
     (let m = is_module st in
      if opcode m r = kGetTupleElement \<and> operands m r \<noteq> [] \<and> hd (operands m r) = arg_tuple then Inr st
      else bindR (GetIncrementTree fuel m r arg_tuple) (\<lambda>tree.
        if tree = [] then Inr st
        else let (increment_color, p) =
                   (case is_color st of Some c \<Rightarrow> (c, is_partition st) | None \<Rightarrow> AllocateLoopIncrementColor (is_partition st)) in
          Inr \<lparr>is_module = foldl (\<lambda>m i. AssignColor m i increment_color) m tree, is_partition = p,
               is_color = Some increment_color, is_changed = True\<rparr>))"

definition VisitLoop :: "nat \<Rightarrow> hlo_module \<times> hlo_partition \<Rightarrow> iid \<Rightarrow> (bool \<times> hlo_module \<times> hlo_partition) statusor" where
  "VisitLoop fuel mp i =
     (let (m, p) = mp in
      bindR (calledR m i) (\<lambda>computation.
      bindR (paramR m computation 0) (\<lambda>arg_tuple.
      bindR (foldR (color_increment fuel arg_tuple) \<lparr>is_module = m, is_partition = p, is_color = None, is_changed = False\<rparr>
               (operands m (root m computation))) (\<lambda>st.
      Inr (is_changed st, is_module st, is_partition st)))))"

definition increment_step ::
  "nat \<Rightarrow> bool \<times> (hlo_module \<times> hlo_partition) \<times> cid list \<Rightarrow> iid \<Rightarrow> (bool \<times> (hlo_module \<times> hlo_partition) \<times> cid list) statusor" where
  "increment_step fuel st i =
     (let (changed, mp, to_visit) = st; to_visit = rev (called (fst mp) i) @ to_visit in
      if opcode (fst mp) i = kWhile
      then bindR (VisitLoop fuel mp i) (\<lambda>(loop_changed, mp). Inr (changed \<or> loop_changed, mp, to_visit))
      else Inr (changed, mp, to_visit))"

fun increment_walk ::
  "nat \<Rightarrow> nat \<Rightarrow> bool \<times> (hlo_module \<times> hlo_partition) \<times> cid list \<Rightarrow> (bool \<times> hlo_module \<times> hlo_partition) statusor" where
  "increment_walk w fuel (changed, mp, []) = Inr (changed, mp)"
| "increment_walk w 0 (changed, mp, c # to_visit) = Inl out_of_fuel"
| "increment_walk w (Suc fuel) (changed, mp, c # to_visit) =
     bindR (foldR (increment_step w) (changed, mp, to_visit) (post_order (fst mp) c)) (increment_walk w fuel)"

definition MpmdSimpleLoopIncrementColoring_Run ::
  "nat \<Rightarrow> nat \<Rightarrow> nat \<Rightarrow> hlo_partition \<Rightarrow> hlo_module \<Rightarrow> (bool \<times> hlo_module \<times> hlo_partition) statusor" where
  "MpmdSimpleLoopIncrementColoring_Run w fuel instruction_count p m =
     (if instruction_count < kMinInstructionsToVisit then Inr (False, m, p)
      else bindR (Create_module fuel w m) (\<lambda>_. increment_walk w fuel (False, (m, p), [m_entry m])))"

section \<open>The tree of a loop increment\<close>

definition inner_edges :: "hlo_module \<Rightarrow> iid \<Rightarrow> (iid \<times> iid) set" where
  "inner_edges m arg_tuple = {(i, j). j \<in> set (operands m i) \<and> inner_operand m arg_tuple j}"

lemma increment_loop_ends:
  assumes "length tree \<le> 10" and "11 \<le> fuel + length tree"
  shows "\<exists>tree'. increment_loop fuel m arg_tuple to_visit tree = Inr tree' \<and> (tree' = [] \<or> length tree' \<le> 10)"
  using assms
proof (induction fuel m arg_tuple to_visit tree rule: increment_loop.induct)
  case (3 fuel m arg_tuple x to_visit tree)
  show ?case
  proof (cases "(\<exists>operand \<in> set (operands m x). inner_operand m arg_tuple operand \<and> called m operand \<noteq> []) \<or> length tree = 10")
    case False
    then show ?thesis using "3.IH" "3.prems" by (simp add: kMaxInstructionsInTree_def)
  qed (auto simp: kMaxInstructionsInTree_def)
qed auto

definition tree_inv :: "hlo_module \<Rightarrow> iid \<Rightarrow> iid \<Rightarrow> iid list \<Rightarrow> iid list \<Rightarrow> bool" where
  "tree_inv m arg_tuple i to_visit tree \<longleftrightarrow>
     (\<forall>j \<in> set tree \<union> set to_visit. (i, j) \<in> (inner_edges m arg_tuple)\<^sup>*) \<and>
     (\<forall>j \<in> set tree. \<forall>k. (j, k) \<in> inner_edges m arg_tuple \<longrightarrow> k \<in> set tree \<union> set to_visit \<and> called m k = []) \<and>
     i \<in> set tree \<union> set to_visit"

lemma increment_loop_inv:
  assumes "increment_loop fuel m arg_tuple to_visit tree = Inr tree'" and "tree_inv m arg_tuple i to_visit tree"
  shows "tree' = [] \<or> tree_inv m arg_tuple i [] tree'"
  using assms
proof (induction fuel m arg_tuple to_visit tree rule: increment_loop.induct)
  case (3 fuel m arg_tuple x to_visit tree)
  show ?case
  proof (cases "(\<exists>operand \<in> set (operands m x). inner_operand m arg_tuple operand \<and> called m operand \<noteq> []) \<or> length tree = kMaxInstructionsInTree")
    case False
    let ?new = "filter (inner_operand m arg_tuple) (operands m x)"
    have "(i, x) \<in> (inner_edges m arg_tuple)\<^sup>*" using "3.prems"(2) by (simp add: tree_inv_def)
    then have "(i, k) \<in> (inner_edges m arg_tuple)\<^sup>*" if "k \<in> set ?new" for k
      using that by (auto simp: inner_edges_def intro: rtrancl_into_rtrancl)
    then have "tree_inv m arg_tuple i (rev ?new @ to_visit) (tree @ [x])"
      using "3.prems"(2) False unfolding tree_inv_def by (auto simp: inner_edges_def)
    moreover have "increment_loop fuel m arg_tuple (rev ?new @ to_visit) (tree @ [x]) = Inr tree'"
      using "3.prems"(1) False by (auto split: if_splits)
    ultimately show ?thesis using "3.IH" False by blast
  qed (use "3.prems"(1) in \<open>auto split: if_splits\<close>)
qed auto

text \<open>
  C29. Collecting the tree of a loop increment ends after at most eleven steps, whatever the graph.
  It is either given up, or the tree is exactly what the root is computed from short of the
  loop argument and constants: at most ten instructions, none of whose operands calls.
\<close>

theorem increment_tree_exact:
  shows "\<exists>tree. GetIncrementTree 11 m i arg_tuple = Inr tree \<and>
    (tree = [] \<or> length tree \<le> 10 \<and> set tree = (inner_edges m arg_tuple)\<^sup>* `` {i} \<and>
       (\<forall>k \<in> (inner_edges m arg_tuple)\<^sup>+ `` {i}. called m k = []))"
proof -
  obtain tree where run: "increment_loop 11 m arg_tuple [i] [] = Inr tree" and len: "tree = [] \<or> length tree \<le> 10"
    using increment_loop_ends[of "[]" 11 m arg_tuple "[i]"] by auto
  have "tree_inv m arg_tuple i [i] []" by (simp add: tree_inv_def)
  from increment_loop_inv[OF run this] have inv: "tree = [] \<or> tree_inv m arg_tuple i [] tree" .
  have "set tree = (inner_edges m arg_tuple)\<^sup>* `` {i} \<and> (\<forall>k \<in> (inner_edges m arg_tuple)\<^sup>+ `` {i}. called m k = [])"
    if t: "tree_inv m arg_tuple i [] tree"
  proof -
    have t1: "i \<in> set tree" and t2: "\<And>j k. j \<in> set tree \<Longrightarrow> (j, k) \<in> inner_edges m arg_tuple \<Longrightarrow> k \<in> set tree \<and> called m k = []"
      and t3: "\<And>j. j \<in> set tree \<Longrightarrow> (i, j) \<in> (inner_edges m arg_tuple)\<^sup>*"
      using t unfolding tree_inv_def by auto
    have closed: "k \<in> set tree" if "(i, k) \<in> (inner_edges m arg_tuple)\<^sup>*" for k
      using that by induction (use t1 t2 in blast)+
    have "called m k = []" if "(i, k) \<in> (inner_edges m arg_tuple)\<^sup>+" for k
      using tranclD2[OF that] closed t2 by blast
    then show ?thesis using closed t3 by blast
  qed
  then show ?thesis using run len inv by (auto simp: GetIncrementTree_def)
qed

section \<open>Moving to the users\<close>









section \<open>Examples\<close>

definition counter_loop :: hlo_module where
  "counter_loop = sample_module
     [(13, blank_instr\<lparr>i_opcode := kParameter\<rparr>), (14, blank_instr\<lparr>i_opcode := kGetTupleElement, i_operands := [13]\<rparr>),
      (15, blank_instr\<lparr>i_opcode := kAdd, i_operands := [14, 16]\<rparr>), (16, blank_instr)] []"

theorem increment_tree_exact_witness:
  "GetIncrementTree 11 counter_loop 15 13 = Inr [15, 14] \<and>
   {15, 14} = (inner_edges counter_loop 13)\<^sup>* `` {15} \<and> (\<Union>k \<in> (inner_edges counter_loop 13)\<^sup>+ `` {15}. set (called counter_loop k)) = {}"
proof -
  have "GetIncrementTree (Suc (Suc (Suc n))) counter_loop 15 13 = Inr [15, 14]" for n
    by (simp add: GetIncrementTree_def counter_loop_def sample_simps inner_operand_def kMaxInstructionsInTree_def)
  from this[of 8] have "GetIncrementTree 11 counter_loop 15 13 = Inr [15, 14]" by simp
  then show ?thesis using increment_tree_exact[of counter_loop 15 13] by simp
qed




end
