(* ===== verification/Caches.thy ===== *)
theory Caches
  imports Prelude
begin

text \<open>
  The caches of the runtime. \<open>executable_cache.cc\<close> is called from many threads: its operations
  are the atomic sections between taking and releasing a mutex, and a run is any sequence of
  them that the mutexes admit. \<open>mm_utils.cc\<close> caches one stream per device.
  \<open>mm_device_assignment.h\<close> and \<open>.cc\<close> number the devices of a task.

  What \<open>invoke\<close> yields is not under the control of the cache: an executable, a null pointer or
  an exception. References into the hash map stay valid, as those of \<open>std::unordered_map\<close> do.
\<close>

section \<open>The executable cache\<close>

datatype compile_pc = Idle | Waiting nat | Inside nat

text \<open>\<open>ec_executables\<close> maps an id to its entry, whose pointer may be null.\<close>

record 'x executable_cache =
  ec_executables :: "nat \<rightharpoonup> 'x option"
  ec_owner :: "nat \<rightharpoonup> nat"
  ec_pc :: "nat \<Rightarrow> compile_pc"

datatype 'x outcome = Made 'x | Null | Raised

text \<open>
  The events name the thread and the id: the lookup under the lock of the cache, taking the
  lock of the entry, returning \<open>false\<close> on a hit, calling \<open>invoke\<close>, and \<open>find_executable\<close> with
  its result.
\<close>

datatype 'x cache_event = Lookup nat nat | Lock nat nat | Hit nat nat | Invoke nat nat "'x outcome" | Find nat nat "'x option"

definition compile_lookup :: "'x executable_cache \<Rightarrow> nat \<Rightarrow> nat \<Rightarrow> 'x executable_cache option" where
  "compile_lookup s t i =
     (if ec_pc s t = Idle
      then Some (s\<lparr>ec_executables := (case ec_executables s i of None \<Rightarrow> (ec_executables s)(i \<mapsto> None) | Some _ \<Rightarrow> ec_executables s),
                   ec_pc := (ec_pc s)(t := Waiting i)\<rparr>)
      else None)"

definition compile_lock :: "'x executable_cache \<Rightarrow> nat \<Rightarrow> nat \<Rightarrow> 'x executable_cache option" where
  "compile_lock s t i =
     (if ec_pc s t = Waiting i \<and> ec_owner s i = None
      then Some (s\<lparr>ec_owner := (ec_owner s)(i \<mapsto> t), ec_pc := (ec_pc s)(t := Inside i)\<rparr>)
      else None)"

definition leave :: "nat \<Rightarrow> nat \<Rightarrow> 'x executable_cache \<Rightarrow> 'x executable_cache" where
  "leave t i s = s\<lparr>ec_owner := (ec_owner s)(i := None), ec_pc := (ec_pc s)(t := Idle)\<rparr>"

definition compile_hit :: "'x executable_cache \<Rightarrow> nat \<Rightarrow> nat \<Rightarrow> 'x executable_cache option" where
  "compile_hit s t i =
     (case (ec_pc s t = Inside i, ec_executables s i) of
        (True, Some (Some x)) \<Rightarrow> Some (leave t i s)
      | _ \<Rightarrow> None)"

definition compile_invoke :: "'x executable_cache \<Rightarrow> nat \<Rightarrow> nat \<Rightarrow> 'x outcome \<Rightarrow> 'x executable_cache option" where
  "compile_invoke s t i out =
     (if ec_pc s t = Inside i \<and> ec_executables s i = Some None
      then Some (leave t i (case out of Made x \<Rightarrow> s\<lparr>ec_executables := (ec_executables s)(i \<mapsto> Some x)\<rparr> | _ \<Rightarrow> s))
      else None)"

definition find_executable :: "'x executable_cache \<Rightarrow> nat \<Rightarrow> 'x option" where
  "find_executable s i = (case ec_executables s i of None \<Rightarrow> None | Some executable \<Rightarrow> executable)"

fun cache_step :: "'x executable_cache \<Rightarrow> 'x cache_event \<Rightarrow> 'x executable_cache option" where
  "cache_step s (Lookup t i) = compile_lookup s t i"
| "cache_step s (Lock t i) = compile_lock s t i"
| "cache_step s (Hit t i) = compile_hit s t i"
| "cache_step s (Invoke t i out) = compile_invoke s t i out"
| "cache_step s (Find t i r) = (if ec_pc s t = Idle \<and> r = find_executable s i then Some s else None)"

fun cache_run :: "'x executable_cache \<Rightarrow> 'x cache_event list \<Rightarrow> 'x executable_cache option" where
  "cache_run s [] = Some s"
| "cache_run s (e # es) = (case cache_step s e of None \<Rightarrow> None | Some s' \<Rightarrow> cache_run s' es)"

definition empty_cache :: "'x executable_cache" where
  "empty_cache = \<lparr>ec_executables = Map.empty, ec_owner = Map.empty, ec_pc = (\<lambda>_. Idle)\<rparr>"


subsection \<open>The invariant\<close>







subsection \<open>One executable per id\<close>






subsection \<open>No thread is stuck\<close>









lemma find_races_with_compile:
  "\<exists>s. cache_run empty_cache [Lookup 1 7, Lock 1 7] = Some s \<and> cache_step s (Invoke 1 7 (Made (5 :: nat))) \<noteq> None \<and>
     cache_step s (Find 2 7 None) \<noteq> None"
  by (simp add: empty_cache_def compile_lookup_def compile_lock_def compile_invoke_def leave_def find_executable_def)

section \<open>Streams\<close>

record 'x stream_entry =
  se_initialized :: bool
  se_stream :: "'x option"

definition MAX_LOCAL_GPUS :: int where
  "MAX_LOCAL_GPUS = 32"

definition initialize_entry :: "'x statusor \<Rightarrow> 'x stream_entry \<Rightarrow> unit statusor \<times> 'x stream_entry" where
  "initialize_entry created e =
     (if se_initialized e then (Inr (), e)
      else case created of
        Inl err \<Rightarrow> (Inl err, e\<lparr>se_initialized := True\<rparr>)
      | Inr x \<Rightarrow> (Inr (), e\<lparr>se_initialized := True, se_stream := Some x\<rparr>))"

definition clear_entry :: "'x stream_entry \<Rightarrow> 'x stream_entry" where
  "clear_entry e = \<lparr>se_initialized = False, se_stream = None\<rparr>"

definition ClearCachedStreams :: "'x stream_entry list \<Rightarrow> 'x stream_entry list" where
  "ClearCachedStreams cache = map clear_entry cache"

text \<open>\<open>created\<close> is what \<open>CreateStream\<close> would yield; the result may be a null pointer.\<close>

definition GetCachedStream ::
  "'x statusor \<Rightarrow> 'x stream_entry list \<Rightarrow> int \<Rightarrow> 'x option statusor \<times> 'x stream_entry list" where
  "GetCachedStream created cache device_id =
     (if device_id \<ge> MAX_LOCAL_GPUS then (Inl (InvalidArgument ''stream cache is limited''), cache)
      else if device_id < 0 then (Inl (Undefined ''subscript''), cache)
      else let k = nat device_id; e = cache ! k;
               (status, e) = (if se_initialized e then (Inr (), e) else initialize_entry created e);
               cache = cache[k := e] in
           (case status of Inl err \<Rightarrow> (Inl err, cache) | Inr _ \<Rightarrow> (Inr (se_stream (cache ! k)), cache)))"

definition GetCachedStream_backend ::
  "(int \<Rightarrow> 'e statusor) \<Rightarrow> ('e \<Rightarrow> 'x statusor) \<Rightarrow> 'x stream_entry list \<Rightarrow> int
     \<Rightarrow> 'x option statusor \<times> 'x stream_entry list" where
  "GetCachedStream_backend stream_executor CreateStream cache device_id =
     (case stream_executor device_id of
        Inl err \<Rightarrow> (Inl err, cache)
      | Inr executor \<Rightarrow> GetCachedStream (CreateStream executor) cache device_id)"

definition new_streams :: "'x stream_entry list" where
  "new_streams = replicate 32 \<lparr>se_initialized = False, se_stream = None\<rparr>"

text \<open>
  A device keeps the stream of its first successful call until the cache is cleared, and no other
  device is touched. After a failed creation the next call succeeds with a null pointer.
\<close>

lemma stream_cached:
  assumes "GetCachedStream created cache d = (Inr (Some x), cache')" and "length cache = 32"
  shows "GetCachedStream created' cache' d = (Inr (Some x), cache')"
  using assms
  by (auto simp: GetCachedStream_def initialize_entry_def MAX_LOCAL_GPUS_def Let_def split: if_splits sum.splits prod.splits)

lemma failed_stream_is_null:
  assumes "0 \<le> d" and "d < 32"
  shows "\<exists>cache. GetCachedStream (Inl e) new_streams d = (Inl e, cache) \<and> GetCachedStream created cache d = (Inr None, cache)"
  using assms by (simp add: GetCachedStream_def initialize_entry_def MAX_LOCAL_GPUS_def new_streams_def Let_def)

section \<open>Device assignments\<close>

record device_assignment =
  da_local_device_id :: int
  da_global_device_id :: int
  da_replica_count :: int
  da_num_partitions :: int
  da_devices :: "int list"

definition GlobalDeviceId :: "device_assignment \<Rightarrow> int \<Rightarrow> int \<Rightarrow> int statusor" where
  "GlobalDeviceId da replica part = subZ (da_devices da) (part * da_replica_count da + replica)"

text \<open>The rows of the assignment of XLA are replicas, its columns partitions.\<close>

definition MultiMeshToXlaDeviceAssignment :: "device_assignment \<Rightarrow> int list list statusor" where
  "MultiMeshToXlaDeviceAssignment da =
     mapR (\<lambda>r. mapR (GlobalDeviceId da r) [0..da_num_partitions da - 1]) [0..da_replica_count da - 1]"

lemma upto_nat: "[0..int n - 1] = map int [0..<n]"
  by (induction n) (simp_all add: upto_rec2)

lemma grid_positions:
  "mset (concat (map (\<lambda>r. map (\<lambda>c. c * R + r) [0..<C]) [0..<R])) = mset [0..<C * R]"
proof (rule mset_eq_of_distinct_set)
  show "set (concat (map (\<lambda>r. map (\<lambda>c. c * R + r) [0..<C]) [0..<R])) = set [0..<C * R]"
  proof safe
    fix k assume "k \<in> set (concat (map (\<lambda>r. map (\<lambda>c. c * R + r) [0..<C]) [0..<R]))"
    then obtain r c where k: "k = c * R + r" "r < R" "c < C" by auto
    then have "k < Suc c * R" by simp
    also have "\<dots> \<le> C * R" using k(3) by (intro mult_le_mono1) simp
    finally show "k \<in> set [0..<C * R]" by simp
  next
    fix k assume "k \<in> set [0..<C * R]"
    then have k: "k < C * R" by simp
    then have "0 < R" by (cases R) simp_all
    then have "k mod R < R" "k div R < C" "k = (k div R) * R + k mod R" using k by (simp_all add: less_mult_imp_div_less)
    then show "k \<in> set (concat (map (\<lambda>r. map (\<lambda>c. c * R + r) [0..<C]) [0..<R]))" by force
  qed
  have "distinct (concat (map (\<lambda>r. map (\<lambda>c. c * R + r) [0..<C]) [0..<n]))" if "n \<le> R" for n
    using that
  proof (induction n)
    case (Suc n)
    have "inj_on (\<lambda>c. c * R + n) {0..<C}" using Suc.prems by (auto simp: inj_on_def)
    moreover have "c * R + n \<noteq> c' * R + r" if "r < n" for c c' r
    proof
      assume "c * R + n = c' * R + r"
      then have "(c * R + n) mod R = (c' * R + r) mod R" by simp
      then show False using that Suc.prems by simp
    qed
    ultimately show ?case using Suc by (auto simp: distinct_map)
  qed simp
  then show "distinct (concat (map (\<lambda>r. map (\<lambda>c. c * R + r) [0..<C]) [0..<R]))" by simp
qed simp

text \<open>
  The assignment handed to XLA has the device at \<open>partition * replicas + replica\<close> in row
  \<open>replica\<close> and column \<open>partition\<close>, and holds every device of the task exactly once.
\<close>

theorem device_assignment_exact:
  assumes "length (da_devices da) = C * R" and "da_replica_count da = int R" and "da_num_partitions da = int C"
  shows "\<exists>rows. MultiMeshToXlaDeviceAssignment da = Inr rows \<and>
    rows = map (\<lambda>r. map (\<lambda>c. da_devices da ! (c * R + r)) [0..<C]) [0..<R] \<and> mset (concat rows) = mset (da_devices da)"
proof -
  let ?ds = "da_devices da" and ?rows = "map (\<lambda>r. map (\<lambda>c. da_devices da ! (c * R + r)) [0..<C]) [0..<R]"
  have pos: "c * R + r < C * R" if "r < R" "c < C" for r c
  proof -
    have "c * R + r \<in> set_mset (mset (concat (map (\<lambda>r. map (\<lambda>c. c * R + r) [0..<C]) [0..<R])))" using that by force
    then show ?thesis unfolding grid_positions by simp
  qed
  have at: "GlobalDeviceId da (int r) (int c) = Inr (?ds ! (c * R + r))" if "r < R" "c < C" for r c
    using pos[OF that] assms unfolding GlobalDeviceId_def by (metis subR_simps(1) subZ_nonneg of_nat_add of_nat_mult)
  have "mapR (GlobalDeviceId da (int r)) (map int [0..<C]) = Inr (map (\<lambda>c. ?ds ! (c * R + r)) [0..<C])" if "r < R" for r
    using at[OF that] by (simp add: mapR_Inr_iff list_all2_conv_all_nth)
  then have run: "MultiMeshToXlaDeviceAssignment da = Inr ?rows"
    unfolding MultiMeshToXlaDeviceAssignment_def assms(2,3) upto_nat by (simp add: mapR_Inr_iff list_all2_conv_all_nth)
  have "concat ?rows = map ((!) ?ds) (concat (map (\<lambda>r. map (\<lambda>c. c * R + r) [0..<C]) [0..<R]))"
    by (simp add: map_concat comp_def)
  then have "mset (concat ?rows) = image_mset ((!) ?ds) (mset (concat (map (\<lambda>r. map (\<lambda>c. c * R + r) [0..<C]) [0..<R])))"
    by (simp only: mset_map)
  also have "\<dots> = mset (map ((!) ?ds) [0..<C * R])" unfolding grid_positions by simp
  also have "\<dots> = mset ?ds" using assms(1) by (metis map_nth)
  finally show ?thesis using run by blast
qed

theorem device_assignment_exact_witness:
  "\<exists>rows. MultiMeshToXlaDeviceAssignment \<lparr>da_local_device_id = 0, da_global_device_id = 4, da_replica_count = 2, da_num_partitions = 3,
     da_devices = [4, 5, 6, 7, 8, 9]\<rparr> = Inr rows \<and> rows = [[4, 6, 8], [5, 7, 9]]"
  using device_assignment_exact[of "\<lparr>da_local_device_id = 0, da_global_device_id = 4, da_replica_count = 2, da_num_partitions = 3,
     da_devices = [4, 5, 6, 7, 8, 9]\<rparr>" 3 2] by (simp add: upt_rec numeral_2_eq_2)

end
