(* ===== verification/Output_Passes.thy ===== *)
theory Output_Passes
  imports Mpmd_Instruction Hlo_Partition Instruction_Properties Graph_Cleanup
begin

text \<open>
  Five small passes that add instructions at the inputs and outputs of the entry computation:
  \<open>mpmd_repeated_output_copy.cc\<close>, \<open>mpmd_constant_output_copy.cc\<close>, \<open>mpmd_parameter_replication.cc\<close>,
  \<open>mpmd_insert_root_tuple_shardings.cc\<close> and \<open>mpmd_concatenate_grouper.cc\<close>. The operations of
  XLA on the graph are the record \<open>graph_lib\<close>; the number of elements of a shape, the cleaning of
  names and the dimensions of a concatenation are arguments.
\<close>

section \<open>New instructions\<close>

text \<open>The \<open>Create\<close> functions of XLA; the name and the users are completed when they are added.\<close>

definition CreateUnary :: "shape \<Rightarrow> hlo_opcode \<Rightarrow> iid \<Rightarrow> hlo_instr" where
  "CreateUnary shp opc operand = blank_instr\<lparr>i_opcode := opc, i_shape := shp, i_operands := [operand]\<rparr>"

definition CreateCustomCall :: "shape \<Rightarrow> iid list \<Rightarrow> string \<Rightarrow> hlo_instr" where
  "CreateCustomCall shp ops target =
     blank_instr\<lparr>i_opcode := kCustomCall, i_shape := shp, i_operands := ops, i_custom_call_target := target\<rparr>"

definition CreateConcatenate :: "shape \<Rightarrow> iid list \<Rightarrow> hlo_instr" where
  "CreateConcatenate shp ops = blank_instr\<lparr>i_opcode := kConcatenate, i_shape := shp, i_operands := ops\<rparr>"

section \<open>Copies of outputs\<close>

text \<open>The map from the instructions behind the outputs to their positions.\<close>

definition root_inputs :: "hlo_module \<Rightarrow> iid \<Rightarrow> iid \<Rightarrow> nat list" where
  "root_inputs m r i =
     (if IsTuple m r then filter (\<lambda>k. operands m r ! k = i) [0..<length (operands m r)]
      else if i = r then [0] else [])"

definition copy_output :: "graph_lib \<Rightarrow> cid \<Rightarrow> iid \<Rightarrow> iid \<Rightarrow> hlo_module \<Rightarrow> nat \<Rightarrow> hlo_module statusor" where
  "copy_output G c r i m output =
     (let (copy, m) = gl_AddInstruction G m c (CreateUnary (i_shape (m_instr m i)) kCopy i) in
      gl_ReplaceOperandWith G m r output copy)"

definition MpmdRepeatedOutputCopy_Run :: "graph_lib \<Rightarrow> hlo_module \<Rightarrow> (bool \<times> hlo_module) statusor" where
  "MpmdRepeatedOutputCopy_Run G m =
     (let c = m_entry m; r = root m c; inputs = root_inputs m r in
      foldR (\<lambda>(changed, m) i.
        if length (inputs i) > 1
        then bindR (foldR (copy_output G c r i) m (tl (inputs i))) (\<lambda>m. Inr (True, m))
        else Inr (changed, m)) (False, m) (post_order m c))"

definition copy_input ::
  "graph_lib \<Rightarrow> cid \<Rightarrow> iid \<Rightarrow> (iid \<Rightarrow> nat list) \<Rightarrow> hlo_module \<Rightarrow> iid \<Rightarrow> hlo_module statusor" where
  "copy_input G c r inputs m i =
     (let (copy, m) = gl_AddInstruction G m c (CreateUnary (i_shape (m_instr m i)) kCopy i);
          m = (case Color m i of Some color \<Rightarrow> AssignColor m copy color | None \<Rightarrow> m) in
      bindR (if i = r then Inr (gl_set_root_instruction G m c copy)
             else foldR (\<lambda>m index. gl_ReplaceOperandWith G m r index copy) m (inputs i)) (\<lambda>m.
      Inr (case sharding_of m i of
             Some s \<Rightarrow> if opcode m i = kParameter then set_sharding m copy s else m
           | None \<Rightarrow> m)))"

definition MpmdConstantOutputCopy_Run :: "nat \<Rightarrow> nat \<Rightarrow> graph_lib \<Rightarrow> hlo_module \<Rightarrow> (bool \<times> hlo_module) statusor" where
  "MpmdConstantOutputCopy_Run fuel w G m =
     (let c = m_entry m; r = root m c; inputs = root_inputs m r in
      bindR (Create_module fuel w m) (\<lambda>properties.
      foldR (\<lambda>(changed, m) i.
        bindR (DerivedInput properties i) (\<lambda>derived.
        if derived \<and> inputs i \<noteq> []
        then bindR (copy_input G c r inputs m i) (\<lambda>m. Inr (True, m))
        else Inr (changed, m))) (False, m) (post_order m c)))"

section \<open>Replicated parameters\<close>

record replication_state =
  rs_module :: hlo_module
  rs_partition :: hlo_partition
  rs_replicated :: "iid set"
  rs_changed :: bool

definition replicate_parameter ::
  "graph_lib \<Rightarrow> (string \<Rightarrow> string) \<Rightarrow> hlo_sharding \<Rightarrow> (device_list \<Rightarrow> int) \<Rightarrow> replication_state \<Rightarrow> iid \<Rightarrow> replication_state statusor" where
  "replicate_parameter G sanitize Replicate stop st i =
     (let m = rs_module st; c = m_entry m;
          (copy, m) = gl_AddInstruction G m c (CreateUnary (i_shape (m_instr m i)) kCopy i);
          m = upd_instr m copy (\<lambda>r. r\<lparr>i_name := sanitize (''replicated-'' @ i_name (m_instr m i))\<rparr>);
          m = set_sharding m copy Replicate in
      bindR (gl_ReplaceAllUsesWith G m i copy) (\<lambda>m.
      bindR (FindOrAllocateGlobalColor stop (rs_partition st)) (\<lambda>(color, p).
      Inr \<lparr>rs_module = AssignColor m copy color, rs_partition = p,
           rs_replicated = insert copy (rs_replicated st), rs_changed = True\<rparr>)))"

definition replicate_argument :: "hlo_sharding \<Rightarrow> iid \<Rightarrow> replication_state \<Rightarrow> iid \<Rightarrow> replication_state statusor" where
  "replicate_argument Replicate i st user =
     bindR (tuple_indexR (rs_module st) user) (\<lambda>k.
     bindR (operandR (rs_module st) i k) (\<lambda>matching_operand.
     Inr (st\<lparr>rs_module := (if matching_operand \<in> rs_replicated st then set_sharding (rs_module st) user Replicate else rs_module st),
             rs_replicated := insert user (rs_replicated st)\<rparr>)))"

definition replication_step ::
  "graph_lib \<Rightarrow> (string \<Rightarrow> string) \<Rightarrow> (shape \<Rightarrow> int) \<Rightarrow> int \<Rightarrow> hlo_sharding \<Rightarrow> (device_list \<Rightarrow> int)
     \<Rightarrow> replication_state \<Rightarrow> iid \<Rightarrow> replication_state statusor" where
  "replication_step G sanitize elements_in num_elements_cutoff Replicate stop st i =
     (let m = rs_module st in
      if opcode m i = kParameter \<and> (case sharding_of m i of Some s \<Rightarrow> \<not> IsReplicated s | None \<Rightarrow> False)
      then (if elements_in (i_shape (m_instr m i)) \<le> num_elements_cutoff \<and> users m i \<noteq> []
            then replicate_parameter G sanitize Replicate stop st i else Inr st)
      else if opcode m i = kTuple \<and> length (users m i) = 1 \<and> opcode m (hd (users m i)) = kWhile
      then bindR (calledR m (hd (users m i))) (\<lambda>body.
           bindR (paramR m body 0) (\<lambda>arg_tuple.
           foldR (replicate_argument Replicate i) st (users m arg_tuple)))
      else Inr st)"

definition MpmdParameterReplication_Run ::
  "graph_lib \<Rightarrow> (string \<Rightarrow> string) \<Rightarrow> (shape \<Rightarrow> int) \<Rightarrow> int \<Rightarrow> hlo_sharding \<Rightarrow> (device_list \<Rightarrow> int)
     \<Rightarrow> hlo_partition \<Rightarrow> hlo_module \<Rightarrow> (bool \<times> hlo_module \<times> hlo_partition) statusor" where
  "MpmdParameterReplication_Run G sanitize elements_in num_elements_cutoff Replicate stop p m =
     bindR (foldR (replication_step G sanitize elements_in num_elements_cutoff Replicate stop)
              \<lparr>rs_module = m, rs_partition = p, rs_replicated = {}, rs_changed = False\<rparr> (post_order m (m_entry m))) (\<lambda>st.
     Inr (rs_changed st, rs_module st, rs_partition st))"

section \<open>Shardings of the root tuple\<close>

definition fix_output ::
  "graph_lib \<Rightarrow> (device_list \<Rightarrow> int) \<Rightarrow> hlo_sharding \<Rightarrow> bool \<times> hlo_module \<times> hlo_partition \<Rightarrow> nat
     \<Rightarrow> (bool \<times> hlo_module \<times> hlo_partition) statusor" where
  "fix_output G stop root_sharding st index =
     (let (changed, m, p) = st; c = m_entry m; r = root m c in
      bindR (subR (tuple_elements root_sharding) index) (\<lambda>sharding.
      bindR (operandR m r index) (\<lambda>operand.
      let allow_sharding_overwrite = AllowOverride index (m_allow_propagation_to_output m);
          missing = (\<not> IsReplicated sharding \<and> sharding_of m operand = None);
          m = (if missing then set_sharding m operand sharding else m) in
      if allow_sharding_overwrite then Inr (changed \<or> missing, m, p)
      else let (recolor, m) = gl_AddInstruction G m c
                 (CreateCustomCall (i_shape (m_instr m operand)) [operand] kCustomCallRootTupleRecolor) in
           bindR (gl_ReplaceOperandWith G m r index recolor) (\<lambda>m.
           case (if IsReplicated sharding then FindOrAllocateGlobalColor stop p
                 else bindR (CreateDeviceList_tile (tile_assignment_of sharding)) (FindOrAllocateDefaultColor stop p)) of
             Inl e \<Rightarrow> Inl (Fatal ''value of a bad status'')
           | Inr (color, p) \<Rightarrow> Inr (True, AssignColor (set_sharding m recolor sharding) recolor color, p)))))"

definition HandleRootTupleShardings ::
  "graph_lib \<Rightarrow> (device_list \<Rightarrow> int) \<Rightarrow> hlo_partition \<Rightarrow> hlo_module \<Rightarrow> (bool \<times> hlo_module \<times> hlo_partition) statusor" where
  "HandleRootTupleShardings G stop p m =
     (let r = root m (m_entry m) in
      case sharding_of m r of
        None \<Rightarrow> Inr (False, m, p)
      | Some s \<Rightarrow>
          if \<not> IsTuple m r then Inr (False, m, p)
          else foldR (fix_output G stop s) (False, m, p) [0..<length (operands m r)])"

definition MpmdInsertRootTupleShardings_Run ::
  "graph_lib \<Rightarrow> (device_list \<Rightarrow> int) \<Rightarrow> hlo_partition \<Rightarrow> hlo_module \<Rightarrow> (bool \<times> hlo_module \<times> hlo_partition) statusor" where
  "MpmdInsertRootTupleShardings_Run G stop p m = HandleRootTupleShardings G stop p m"

section \<open>Concatenations\<close>

text \<open>The colors in the order of their first operands, and the operands of each.\<close>

definition add_input :: "hlo_module \<Rightarrow> color list \<times> (color \<Rightarrow> iid list) \<Rightarrow> iid \<Rightarrow> color list \<times> (color \<Rightarrow> iid list)" where
  "add_input m st operand =
     (let (colors, inputs) = st; operand_color = ColorOrDefault m operand in
      (if inputs operand_color = [] then colors @ [operand_color] else colors,
       inputs(operand_color := inputs operand_color @ [operand])))"

definition group_inputs :: "hlo_module \<Rightarrow> iid list \<Rightarrow> color list \<times> (color \<Rightarrow> iid list)" where
  "group_inputs m ops = foldl (add_input m) ([], \<lambda>_. []) ops"

definition set_dimension :: "shape \<Rightarrow> nat \<Rightarrow> int \<Rightarrow> shape" where
  "set_dimension shp dim d = Shape (element_type shp) ((dimensions shp)[dim := d]) (tuple_shapes shp)"

definition add_sub_concatenate ::
  "graph_lib \<Rightarrow> cid \<Rightarrow> nat \<Rightarrow> (color \<Rightarrow> iid list) \<Rightarrow> hlo_module \<times> iid list \<Rightarrow> color \<Rightarrow> (hlo_module \<times> iid list) statusor" where
  "add_sub_concatenate G c concatenate_dim inputs st color =
     (let (m, subs) = st; shp = i_shape (m_instr m (hd (inputs color))) in
      bindR (subR (dimensions shp) concatenate_dim) (\<lambda>d.
      let (sub, m) = gl_AddInstruction G m c
            (CreateConcatenate (set_dimension shp concatenate_dim (int (length (inputs color)) * d)) (inputs color)) in
      Inr (AssignColor m sub color, subs @ [sub])))"

definition group_concatenate ::
  "graph_lib \<Rightarrow> (attrs \<Rightarrow> attrs \<Rightarrow> attrs) \<Rightarrow> nat \<Rightarrow> hlo_module \<Rightarrow> iid \<Rightarrow> hlo_module statusor" where
  "group_concatenate G add_fa concatenate_dim m i =
     (let c = m_entry m; (colors, inputs) = group_inputs m (operands m i) in
      bindR (foldR (add_sub_concatenate G c concatenate_dim inputs) (m, []) colors) (\<lambda>(m, sub_concatenates).
      let (aggregate, m) = gl_AddInstruction G m c (CreateConcatenate (i_shape (m_instr m i)) sub_concatenates);
          m = PropagateProperties add_fa m i aggregate in
      bindR (gl_ReplaceAllUsesWith G m i aggregate) (\<lambda>m.
      gl_RemoveInstruction G m i)))"

definition MpmdConcatenateGrouper_Run ::
  "graph_lib \<Rightarrow> (attrs \<Rightarrow> attrs \<Rightarrow> attrs) \<Rightarrow> (shape \<Rightarrow> int) \<Rightarrow> (iid \<Rightarrow> nat list) \<Rightarrow> hlo_module \<Rightarrow> (bool \<times> hlo_module) statusor" where
  "MpmdConcatenateGrouper_Run G add_fa elements_in dims_of m =
     foldR (\<lambda>(changed, m) i.
       if opcode m i = kConcatenate \<and> length (users m i) = 1 \<and> opcode m (hd (users m i)) = kReduce \<and>
          elements_in (i_shape (m_instr m (hd (users m i)))) = 1 \<and> length (dims_of i) = 1
       then bindR (group_concatenate G add_fa (hd (dims_of i)) m i) (\<lambda>m. Inr (True, m))
       else Inr (changed, m)) (False, m) (post_order m (m_entry m))"

section \<open>Outputs are distinct afterwards\<close>

text \<open>What is relied on: a new instruction is new, and an operand is replaced.\<close>

definition grows :: "graph_lib \<Rightarrow> cid \<Rightarrow> bool" where
  "grows G c \<longleftrightarrow>
     (\<forall>m r. let (i, m') = gl_AddInstruction G m c r in
        i \<notin> set (comp_instructions m c) \<and> set (comp_instructions m' c) = insert i (set (comp_instructions m c)) \<and>
        operands m' = (operands m)(i := i_operands r) \<and> opcode m' = (opcode m)(i := i_opcode r)) \<and>
     (\<forall>m i k j. k < length (operands m i) \<longrightarrow> (\<exists>m'. gl_ReplaceOperandWith G m i k j = Inr m' \<and>
        set (comp_instructions m' c) = set (comp_instructions m c) \<and>
        operands m' = (operands m)(i := (operands m i)[k := j]) \<and> opcode m' = opcode m))"

text \<open>
  The outputs after some positions \<open>P\<close> were given copies: the others are as before, the copies
  are new, and no two of them are the same.
\<close>

definition copied :: "hlo_module \<Rightarrow> cid \<Rightarrow> iid \<Rightarrow> nat set \<Rightarrow> hlo_module \<Rightarrow> bool" where
  "copied m0 c r P m \<longleftrightarrow> length (operands m r) = length (operands m0 r) \<and>
     set (comp_instructions m0 c) \<subseteq> set (comp_instructions m c) \<and> set (operands m r) \<subseteq> set (comp_instructions m c) \<and>
     (\<forall>k < length (operands m0 r). k \<notin> P \<longrightarrow> operands m r ! k = operands m0 r ! k) \<and>
     (\<forall>k < length (operands m0 r). k \<in> P \<longrightarrow> operands m r ! k \<notin> set (comp_instructions m0 c) \<and>
        opcode m (operands m r ! k) = kCopy \<and> operands m (operands m r ! k) = [operands m0 r ! k] \<and>
        (\<forall>l < length (operands m0 r). l \<in> P \<longrightarrow> operands m r ! k = operands m r ! l \<longrightarrow> k = l))"

lemma CreateUnary_simps [simp]:
  "i_operands (CreateUnary shp opc j) = [j]" "i_opcode (CreateUnary shp opc j) = opc"
  by (simp_all add: CreateUnary_def)

lemma grows_add:
  assumes "grows G c" and "gl_AddInstruction G m c r = (i, m')"
  shows "i \<notin> set (comp_instructions m c)" "set (comp_instructions m' c) = insert i (set (comp_instructions m c))"
    "operands m' = (operands m)(i := i_operands r)" "opcode m' = (opcode m)(i := i_opcode r)"
proof -
  have "let (i, m') = gl_AddInstruction G m c r in
        i \<notin> set (comp_instructions m c) \<and> set (comp_instructions m' c) = insert i (set (comp_instructions m c)) \<and>
        operands m' = (operands m)(i := i_operands r) \<and> opcode m' = (opcode m)(i := i_opcode r)"
    using assms(1) unfolding grows_def by (elim conjE) (erule allE, erule allE)
  then show "i \<notin> set (comp_instructions m c)" "set (comp_instructions m' c) = insert i (set (comp_instructions m c))"
    "operands m' = (operands m)(i := i_operands r)" "opcode m' = (opcode m)(i := i_opcode r)"
    unfolding assms(2) Let_def prod.case by blast+
qed

lemma grows_replace:
  assumes "grows G c" and "k < length (operands m i)"
  shows "\<exists>m'. gl_ReplaceOperandWith G m i k j = Inr m' \<and> set (comp_instructions m' c) = set (comp_instructions m c) \<and>
    operands m' = (operands m)(i := (operands m i)[k := j]) \<and> opcode m' = opcode m"
proof -
  have "\<forall>m i k j. k < length (operands m i) \<longrightarrow> (\<exists>m'. gl_ReplaceOperandWith G m i k j = Inr m' \<and>
      set (comp_instructions m' c) = set (comp_instructions m c) \<and>
      operands m' = (operands m)(i := (operands m i)[k := j]) \<and> opcode m' = opcode m)"
    using assms(1) unfolding grows_def by (rule conjunct2)
  from this[rule_format, OF assms(2)] show ?thesis .
qed

lemma copy_output_copied:
  assumes "grows G c" and "copied m0 c r P m" and "k < length (operands m0 r)" and "k \<notin> P" and "i = operands m0 r ! k"
    and "r \<in> set (comp_instructions m0 c)"
  shows "\<exists>m'. copy_output G c r i m k = Inr m' \<and> copied m0 c r (insert k P) m'"
proof -
  obtain j m1 where add: "gl_AddInstruction G m c (CreateUnary (i_shape (m_instr m i)) kCopy i) = (j, m1)" by fastforce
  have j: "j \<notin> set (comp_instructions m c)" "set (comp_instructions m1 c) = insert j (set (comp_instructions m c))"
    "operands m1 = (operands m)(j := [i])" "opcode m1 = (opcode m)(j := kCopy)"
    by (rule grows_add[OF assms(1) add, unfolded CreateUnary_simps])+
  have m: "length (operands m r) = length (operands m0 r)" "set (comp_instructions m0 c) \<subseteq> set (comp_instructions m c)"
    "set (operands m r) \<subseteq> set (comp_instructions m c)" using assms(2) unfolding copied_def by auto
  have rj: "r \<noteq> j" using assms(6) m(2) j(1) by auto
  then have "k < length (operands m1 r)" using j(3) m(1) assms(3) by simp
  then obtain m2 where m2: "gl_ReplaceOperandWith G m1 r k j = Inr m2" "set (comp_instructions m2 c) = set (comp_instructions m1 c)"
    "operands m2 = (operands m1)(r := (operands m1 r)[k := j])" "opcode m2 = opcode m1"
    using grows_replace[OF assms(1)] by blast
  have ops: "operands m2 r = (operands m r)[k := j]" using m2(3) j(3) rj by simp
  have at: "operands m2 r ! l = (if l = k then j else operands m r ! l)" if "l < length (operands m0 r)" for l
    using ops that m(1) by (simp add: nth_list_update)
  have old: "operands m r ! l \<in> set (comp_instructions m c)" if "l < length (operands m0 r)" for l
    using that m(1,3) by (metis nth_mem subsetD)
  have "copied m0 c r (insert k P) m2"
    unfolding copied_def
  proof (intro conjI allI impI)
    show "length (operands m2 r) = length (operands m0 r)" using ops m(1) by simp
    show "set (comp_instructions m0 c) \<subseteq> set (comp_instructions m2 c)" using m2(2) j(2) m(2) by auto
    show "set (operands m2 r) \<subseteq> set (comp_instructions m2 c)"
      using ops m(3) m2(2) j(2) set_update_subset_insert[of "operands m r" k j] by auto
  next
    fix l assume l: "l < length (operands m0 r)"
    show "operands m2 r ! l = operands m0 r ! l" if "l \<notin> insert k P" using at[OF l] that l assms(2) by (auto simp: copied_def)
    assume P: "l \<in> insert k P"
    have ne: "operands m r ! l \<noteq> j" "operands m r ! l \<noteq> r" if "l \<in> P"
      using old[OF l] j(1) assms(2,6) l that unfolding copied_def by auto
    show "operands m2 r ! l \<notin> set (comp_instructions m0 c)" using at[OF l] P l assms(2) j(1) m(2) by (auto simp: copied_def)
    show "opcode m2 (operands m2 r ! l) = kCopy"
      using at[OF l] P l assms(2) ne m2(4) j(4) by (auto simp: copied_def)
    show "operands m2 (operands m2 r ! l) = [operands m0 r ! l]"
      using at[OF l] P l assms(2,5) ne m2(3) j(3) rj by (auto simp: copied_def)
    fix l' assume l': "l' < length (operands m0 r)" "l' \<in> insert k P" "operands m2 r ! l = operands m2 r ! l'"
    show "l = l'" using at[OF l] at[OF l'(1)] l' P l assms(2) old[OF l] old[OF l'(1)] j(1)
      by (auto simp: copied_def split: if_splits)
  qed
  then show ?thesis using m2(1) add by (simp add: copy_output_def)
qed

lemma copy_outputs_copied:
  assumes "grows G c" and "r \<in> set (comp_instructions m0 c)" and "copied m0 c r P m" and "distinct ks" and "set ks \<inter> P = {}"
    and "\<forall>k \<in> set ks. k < length (operands m0 r) \<and> operands m0 r ! k = i"
  shows "\<exists>m'. foldR (copy_output G c r i) m ks = Inr m' \<and> copied m0 c r (set ks \<union> P) m'"
  using assms(3-6)
proof (induction ks arbitrary: P m)
  case (Cons k ks)
  then obtain m1 where m1: "copy_output G c r i m k = Inr m1" "copied m0 c r (insert k P) m1"
    using copy_output_copied[OF assms(1), of m0 r P m k i] assms(2) by auto
  have "set ks \<inter> insert k P = {}" using Cons.prems(2,3) by auto
  then obtain m' where "foldR (copy_output G c r i) m1 ks = Inr m'" "copied m0 c r (set ks \<union> insert k P) m'"
    using Cons.IH[OF m1(2)] Cons.prems(2,4) by auto
  then show ?case using m1(1) by auto
qed auto

abbreviation repeat_step :: "graph_lib \<Rightarrow> cid \<Rightarrow> iid \<Rightarrow> (iid \<Rightarrow> nat list) \<Rightarrow> bool \<times> hlo_module \<Rightarrow> iid \<Rightarrow> (bool \<times> hlo_module) statusor" where
  "repeat_step G c r inputs \<equiv> \<lambda>(changed, m) i.
     if length (inputs i) > 1
     then bindR (foldR (copy_output G c r i) m (tl (inputs i))) (\<lambda>m. Inr (True, m))
     else Inr (changed, m)"

lemma repeat_fold:
  assumes "grows G c" and "r \<in> set (comp_instructions m0 c)" and "IsTuple m0 r" and "copied m0 c r P m"
    and "distinct xs" and "\<forall>k \<in> P. operands m0 r ! k \<notin> set xs"
  shows "\<exists>ch' m'. foldR (repeat_step G c r (root_inputs m0 r)) (ch, m) xs = Inr (ch', m') \<and>
    copied m0 c r ((\<Union>i \<in> set xs. set (tl (root_inputs m0 r i))) \<union> P) m' \<and>
    (ch' \<longleftrightarrow> ch \<or> (\<exists>i \<in> set xs. length (root_inputs m0 r i) > 1))"
  using assms(4-6)
proof (induction xs arbitrary: P m ch)
  case (Cons i xs)
  let ?in = "root_inputs m0 r i"
  have ks: "distinct (tl ?in)" "\<forall>k \<in> set (tl ?in). k < length (operands m0 r) \<and> operands m0 r ! k = i"
  proof -
    have "set (tl ?in) \<subseteq> set ?in" by (cases ?in) auto
    then show "distinct (tl ?in)" "\<forall>k \<in> set (tl ?in). k < length (operands m0 r) \<and> operands m0 r ! k = i"
      using assms(3) by (auto simp: root_inputs_def distinct_tl)
  qed
  have "set (tl ?in) \<inter> P = {}" using ks(2) Cons.prems(3) by auto
  from copy_outputs_copied[OF assms(1,2) Cons.prems(1) ks(1) this ks(2)]
  obtain m1 where m1: "foldR (copy_output G c r i) m (tl ?in) = Inr m1" "copied m0 c r (set (tl ?in) \<union> P) m1" by blast
  have step: "repeat_step G c r (root_inputs m0 r) (ch, m) i = Inr (ch \<or> length ?in > 1, m1)"
  proof (cases "length ?in > 1")
    case False
    then have "tl ?in = []" by (cases ?in) auto
    then show ?thesis using m1(1) False by simp
  qed (use m1(1) in simp)
  have "\<forall>k \<in> set (tl ?in) \<union> P. operands m0 r ! k \<notin> set xs" using ks(2) Cons.prems(2,3) by auto
  from Cons.IH[OF m1(2) _ this, of "ch \<or> length ?in > 1"] Cons.prems(2)
  obtain ch' m' where "foldR (repeat_step G c r (root_inputs m0 r)) (ch \<or> length ?in > 1, m1) xs = Inr (ch', m')"
    "copied m0 c r ((\<Union>i \<in> set xs. set (tl (root_inputs m0 r i))) \<union> (set (tl ?in) \<union> P)) m'"
    "ch' \<longleftrightarrow> (ch \<or> length ?in > 1) \<or> (\<exists>i \<in> set xs. length (root_inputs m0 r i) > 1)" by auto
  then show ?case using step by (auto simp: Un_ac)
qed simp

text \<open>
  C27. After the pass over repeated outputs no two outputs of the entry computation are the same
  instruction. Each output is the one it was, or a copy of it; the pass reports a change exactly
  when an output was repeated.
\<close>

theorem repeated_outputs_distinct:
  assumes "grows G (m_entry m)" and "r = root m (m_entry m)" and "IsTuple m r" and "r \<in> set (comp_instructions m (m_entry m))"
    and "distinct (post_order m (m_entry m))" and "set (operands m r) \<subseteq> set (post_order m (m_entry m))"
    and "set (post_order m (m_entry m)) \<subseteq> set (comp_instructions m (m_entry m))"
  shows "\<exists>changed m'. MpmdRepeatedOutputCopy_Run G m = Inr (changed, m') \<and> distinct (operands m' r) \<and>
    length (operands m' r) = length (operands m r) \<and> (changed \<longleftrightarrow> \<not> distinct (operands m r)) \<and>
    (\<forall>k < length (operands m r). operands m' r ! k = operands m r ! k \<or>
       opcode m' (operands m' r ! k) = kCopy \<and> operands m' (operands m' r ! k) = [operands m r ! k])"
proof -
  let ?c = "m_entry m" and ?n = "length (operands m r)" and ?P = "\<Union>i \<in> set (post_order m (m_entry m)). set (tl (root_inputs m r i))"
  have ops: "operands m r ! k \<in> set (comp_instructions m ?c) \<and> operands m r ! k \<in> set (post_order m ?c)" if "k < ?n" for k
    using that assms(6,7) nth_mem by blast
  have "copied m ?c r {} m" using assms(6,7) by (auto simp: copied_def)
  from repeat_fold[OF assms(1,4,3) this assms(5), of False]
  obtain ch m' where run: "MpmdRepeatedOutputCopy_Run G m = Inr (ch, m')" and cp: "copied m ?c r ?P m'"
    and ch: "ch \<longleftrightarrow> (\<exists>i \<in> set (post_order m ?c). length (root_inputs m r i) > 1)"
    unfolding MpmdRepeatedOutputCopy_Run_def Let_def assms(2)[symmetric] by auto
  have cpD: "length (operands m' r) = ?n"
    "\<And>k. k < ?n \<Longrightarrow> k \<notin> ?P \<Longrightarrow> operands m' r ! k = operands m r ! k"
    "\<And>k. k < ?n \<Longrightarrow> k \<in> ?P \<Longrightarrow> operands m' r ! k \<notin> set (comp_instructions m ?c) \<and> opcode m' (operands m' r ! k) = kCopy \<and>
       operands m' (operands m' r ! k) = [operands m r ! k]"
    "\<And>k l. k < ?n \<Longrightarrow> l < ?n \<Longrightarrow> k \<in> ?P \<Longrightarrow> l \<in> ?P \<Longrightarrow> operands m' r ! k = operands m' r ! l \<Longrightarrow> k = l"
    using cp unfolding copied_def by blast+
  have inp: "k \<in> set (root_inputs m r i) \<longleftrightarrow> k < ?n \<and> operands m r ! k = i" for k i
    using assms(3) by (auto simp: root_inputs_def)
  have first: "k = l" if "k < ?n" "l < ?n" "k \<notin> ?P" "l \<notin> ?P" "operands m r ! k = operands m r ! l" for k l
  proof -
    let ?i = "operands m r ! k"
    have "k \<in> set (root_inputs m r ?i)" "l \<in> set (root_inputs m r ?i)" using that inp by auto
    moreover have "k \<notin> set (tl (root_inputs m r ?i))" "l \<notin> set (tl (root_inputs m r ?i))" using that(3,4) ops[OF that(1)] by auto
    ultimately show ?thesis by (cases "root_inputs m r ?i") auto
  qed
  have "distinct (operands m' r)"
    unfolding distinct_conv_nth
  proof (intro allI impI notI)
    fix k l assume kl: "k < length (operands m' r)" "l < length (operands m' r)" "k \<noteq> l" "operands m' r ! k = operands m' r ! l"
    then have n: "k < ?n" "l < ?n" using cpD(1) by simp_all
    have "k \<in> ?P \<longleftrightarrow> l \<in> ?P" using cpD(2)[OF n(1)] cpD(2)[OF n(2)] cpD(3)[OF n(1)] cpD(3)[OF n(2)] ops[OF n(1)] ops[OF n(2)] kl(4) by metis
    then show False using cpD(4)[OF n] first[OF n] cpD(2)[OF n(1)] cpD(2)[OF n(2)] kl(3,4) by metis
  qed
  moreover have "ch \<longleftrightarrow> \<not> distinct (operands m r)"
  proof -
    have "distinct (operands m r) \<longleftrightarrow> (\<forall>i \<in> set (post_order m ?c). length (root_inputs m r i) \<le> 1)"
    proof
      assume d: "distinct (operands m r)"
      show "\<forall>i \<in> set (post_order m ?c). length (root_inputs m r i) \<le> 1"
      proof
        fix i
        have "distinct (root_inputs m r i)" using assms(3) by (simp add: root_inputs_def)
        have same: "k = l" if "k \<in> set (root_inputs m r i)" "l \<in> set (root_inputs m r i)" for k l
          using d that inp by (metis nth_eq_iff_index_eq)
        show "length (root_inputs m r i) \<le> 1"
        proof (rule ccontr)
          assume "\<not> length (root_inputs m r i) \<le> 1"
          then have l: "0 < length (root_inputs m r i)" "1 < length (root_inputs m r i)" by linarith+
          then have "root_inputs m r i ! 0 = root_inputs m r i ! 1" by (intro same nth_mem)
          then show False using \<open>distinct (root_inputs m r i)\<close> l by (simp add: nth_eq_iff_index_eq)
        qed
      qed
    next
      assume le: "\<forall>i \<in> set (post_order m ?c). length (root_inputs m r i) \<le> 1"
      have "tl (root_inputs m r i) = []" if "i \<in> set (post_order m ?c)" for i
        using le that by (cases "root_inputs m r i") force+
      then have "?P = {}" by simp
      then show "distinct (operands m r)" using first unfolding distinct_conv_nth by blast
    qed
    then show ?thesis using ch by (simp add: not_le)
  qed
  moreover have "operands m' r ! k = operands m r ! k \<or>
      opcode m' (operands m' r ! k) = kCopy \<and> operands m' (operands m' r ! k) = [operands m r ! k]" if "k < ?n" for k
    by (cases "k \<in> ?P") (use cpD(2)[OF that] cpD(3)[OF that] in simp_all)
  ultimately show ?thesis using run cpD(1) by (intro exI[of _ ch] exI[of _ m']) (intro conjI; simp)
qed

section \<open>An example\<close>

lemma plain_grows: "grows plain_graph_lib c"
proof -
  have new: "Suc (Max (set (0 # xs))) \<notin> set xs" for xs :: "nat list"
  proof
    assume "Suc (Max (set (0 # xs))) \<in> set xs"
    then have "Suc (Max (set (0 # xs))) \<le> Max (set (0 # xs))" by (intro Max_ge) auto
    then show False by simp
  qed
  show ?thesis unfolding grows_def
    using new by (auto simp: plain_graph_lib_def plain_add_def Let_def operands_def opcode_def comp_instructions_def
        upd_instr_def fun_eq_iff)
qed

definition repeated_module :: hlo_module where
  "repeated_module = sample_module
     [(22, blank_instr\<lparr>i_opcode := kParameter, i_users := [24]\<rparr>), (23, blank_instr\<lparr>i_opcode := kParameter, i_users := [24]\<rparr>),
      (24, blank_instr\<lparr>i_opcode := kTuple, i_operands := [22, 23, 22], i_shape := Shape TUPLE [] []\<rparr>)]
     [(0, blank_comp\<lparr>c_root := 24, c_post_order := [22, 23, 24], c_instructions := [22, 23, 24], c_params := [22, 23]\<rparr>)]"

theorem repeated_outputs_distinct_witness:
  "\<exists>m'. MpmdRepeatedOutputCopy_Run plain_graph_lib repeated_module = Inr (True, m') \<and> distinct (operands m' 24)"
  using repeated_outputs_distinct[OF plain_grows, of 24 repeated_module]
  by (auto simp: repeated_module_def sample_simps IsTuple_def IsTupleShape_def)

section \<open>Groups of a concatenation\<close>

lemma group_inputs_snoc: "group_inputs m (ops @ [i]) = add_input m (group_inputs m ops) i"
  by (simp add: group_inputs_def)

lemma group_inputs_filter:
  "snd (group_inputs m ops) c = filter (\<lambda>i. ColorOrDefault m i = c) ops \<and>
   distinct (fst (group_inputs m ops)) \<and> set (fst (group_inputs m ops)) = ColorOrDefault m ` set ops"
proof (induction ops arbitrary: c rule: rev_induct)
  case Nil
  then show ?case by (simp add: group_inputs_def)
next
  case (snoc i ops)
  let ?g = "group_inputs m ops" and ?c = "ColorOrDefault m i"
  have f: "snd ?g d = filter (\<lambda>i. ColorOrDefault m i = d) ops" for d using snoc by blast
  have d: "distinct (fst ?g)" "set (fst ?g) = ColorOrDefault m ` set ops" using snoc by blast+
  have "snd ?g ?c = [] \<longleftrightarrow> ?c \<notin> set (fst ?g)" unfolding d(2) f filter_empty_conv by (auto simp: image_iff)
  then show ?case using f d by (auto simp: group_inputs_snoc add_input_def Let_def split: prod.splits)
qed

lemma mset_groups: "distinct cs \<Longrightarrow> f ` set xs \<subseteq> set cs \<Longrightarrow> mset (concat (map (\<lambda>c. filter (\<lambda>x. f x = c) xs) cs)) = mset xs"
proof (induction cs arbitrary: xs)
  case (Cons c cs)
  let ?ys = "filter (\<lambda>x. f x \<noteq> c) xs"
  have "map (\<lambda>d. filter (\<lambda>x. f x = d) xs) cs = map (\<lambda>d. filter (\<lambda>x. f x = d) ?ys) cs"
    using Cons.prems(1) by (auto intro: filter_cong)
  moreover have "mset (concat (map (\<lambda>d. filter (\<lambda>x. f x = d) ?ys) cs)) = mset ?ys"
    using Cons.prems by (intro Cons.IH) auto
  ultimately have "mset (concat (map (\<lambda>d. filter (\<lambda>x. f x = d) xs) (c # cs))) = mset (filter (\<lambda>x. f x = c) xs) + mset ?ys"
    by (simp only: list.map concat.simps mset_append)
  then show ?case by (simp only: mset_filter flip: multiset_partition)
qed simp

text \<open>
  The operands of a concatenation are split into one group per color, in the order in which
  the colors first occur; each group keeps the order of its operands and none is lost or
  repeated.
\<close>

theorem concatenate_groups:
  "snd (group_inputs m ops) c = filter (\<lambda>i. ColorOrDefault m i = c) ops \<and> distinct (fst (group_inputs m ops)) \<and>
   set (fst (group_inputs m ops)) = ColorOrDefault m ` set ops \<and>
   mset (concat (map (snd (group_inputs m ops)) (fst (group_inputs m ops)))) = mset ops"
proof -
  have "snd (group_inputs m ops) = (\<lambda>c. filter (\<lambda>i. ColorOrDefault m i = c) ops)"
    using group_inputs_filter by blast
  then show ?thesis using group_inputs_filter[of m ops c] mset_groups[of "fst (group_inputs m ops)" "ColorOrDefault m" ops] by simp
qed

end
