(* ===== verification/Task_Splitter.thy ===== *)
theory Task_Splitter
  imports Mpmd_Instruction Hlo_Partition Graph_Cleanup Critical_Path Output_Passes
begin

text \<open>
  \<open>task_splitter.cc\<close> replaces one call by several, one per group of the instructions it calls;
  \<open>mpmd_split_critical_path.cc\<close> does so with the instructions that the critical output of a
  call needs and the others.

  A computation under construction is the list of its instructions; their operands are
  positions in it. Adding it to the module, replacing an instruction, the name of a computation
  and the order \<open>DependencyHloOrdering\<close> come from XLA and are arguments. A failed \<open>at\<close> of a
  map is \<open>Throws\<close>. The users of the replaced call are those it has before the first is
  replaced.
\<close>

section \<open>Groups\<close>

record task_config =
  external_parameters :: "iid list"
  internal_parameters :: "iid list"
  external_roots :: "iid list"
  internal_roots :: "iid list"

definition no_config :: task_config where
  "no_config = \<lparr>external_parameters = [], internal_parameters = [], external_roots = [], internal_roots = []\<rparr>"

definition config_operand ::
  "hlo_module \<Rightarrow> iid set \<Rightarrow> task_config \<times> iid set \<Rightarrow> iid \<Rightarrow> task_config \<times> iid set" where
  "config_operand m included st operand =
     (let (config, operands_visited) = st in
      if operand \<in> operands_visited then st
      else (if opcode m operand = kParameter
            then config\<lparr>external_parameters := external_parameters config @ [operand]\<rparr>
            else if operand \<notin> included
            then config\<lparr>internal_parameters := internal_parameters config @ [operand]\<rparr>
            else config, insert operand operands_visited))"

definition config_user :: "iid \<Rightarrow> iid set \<Rightarrow> iid list \<Rightarrow> iid \<Rightarrow> task_config \<Rightarrow> task_config" where
  "config_user r included us i config =
     (case find (\<lambda>user. user = r \<or> user \<notin> included) us of
        None \<Rightarrow> config
      | Some user \<Rightarrow>
          if user = r then config\<lparr>external_roots := external_roots config @ [i]\<rparr>
          else config\<lparr>internal_roots := internal_roots config @ [i]\<rparr>)"

definition config_step ::
  "hlo_module \<Rightarrow> iid \<Rightarrow> iid set \<Rightarrow> task_config \<times> iid set \<Rightarrow> iid \<Rightarrow> task_config \<times> iid set" where
  "config_step m r included st i =
     (if opcode m i = kParameter then st
      else let (config, operands_visited) = foldl (config_operand m included) st (operands m i) in
           (config_user r included (users m i) i config, operands_visited))"

definition config_of :: "hlo_module \<Rightarrow> iid \<Rightarrow> iid list \<Rightarrow> task_config" where
  "config_of m r task_instruction_set =
     fst (foldl (config_step m r (set task_instruction_set)) (no_config, {}) task_instruction_set)"

section \<open>New computations\<close>

record split_lib =
  sl_graph :: graph_lib
  sl_computation_name :: "hlo_module \<Rightarrow> cid \<Rightarrow> string"
  sl_AddComputation :: "hlo_module \<Rightarrow> string \<Rightarrow> hlo_instr list \<Rightarrow> nat \<Rightarrow> cid \<times> hlo_module"
  sl_ReplaceInstruction :: "hlo_module \<Rightarrow> iid \<Rightarrow> iid \<Rightarrow> hlo_module statusor"

definition CreateTuple :: "shape list \<Rightarrow> iid list \<Rightarrow> hlo_instr" where
  "CreateTuple shps ops = blank_instr\<lparr>i_opcode := kTuple, i_shape := Shape TUPLE [] shps, i_operands := ops\<rparr>"

definition CreateGetTupleElement :: "shape \<Rightarrow> iid \<Rightarrow> nat \<Rightarrow> hlo_instr" where
  "CreateGetTupleElement shp operand index =
     blank_instr\<lparr>i_opcode := kGetTupleElement, i_shape := shp, i_operands := [operand], i_tuple_index := index\<rparr>"

definition CreateParameter :: "shape \<Rightarrow> string \<Rightarrow> hlo_sharding option \<Rightarrow> hlo_instr" where
  "CreateParameter shp name sh = blank_instr\<lparr>i_opcode := kParameter, i_shape := shp, i_name := name, i_sharding := sh\<rparr>"

definition CreateCallTo :: "shape \<Rightarrow> iid list \<Rightarrow> cid \<Rightarrow> hlo_instr" where
  "CreateCallTo shp ops c = blank_instr\<lparr>i_opcode := kCall, i_shape := shp, i_operands := ops, i_called := [c]\<rparr>"

definition CloneWithNewOperands :: "hlo_instr \<Rightarrow> iid list \<Rightarrow> hlo_instr" where
  "CloneWithNewOperands r ops = r\<lparr>i_operands := ops, i_users := []\<rparr>"

definition atR :: "(iid \<rightharpoonup> 'b) \<Rightarrow> iid \<Rightarrow> 'b statusor" where
  "atR f i = (case f i of None \<Rightarrow> Inl (Throws ''out of range'') | Some x \<Rightarrow> Inr x)"

text \<open>The builder, where each instruction of the old computation went, and the operands of the new call.\<close>

record split_builder =
  sb_instructions :: "hlo_instr list"
  sb_clone_map :: "iid \<rightharpoonup> nat"
  sb_call_operands :: "iid list"

definition clone_param :: "hlo_module \<Rightarrow> (iid \<Rightarrow> iid statusor) \<Rightarrow> split_builder \<Rightarrow> iid \<Rightarrow> split_builder statusor" where
  "clone_param m source b param =
     bindR (source param) (\<lambda>operand.
     Inr \<lparr>sb_instructions = sb_instructions b @ [CreateParameter (i_shape (m_instr m param)) (i_name (m_instr m param)) (sharding_of m param)],
          sb_clone_map = (sb_clone_map b)(param \<mapsto> length (sb_instructions b)),
          sb_call_operands = sb_call_operands b @ [operand]\<rparr>)"

definition clone_instruction :: "hlo_module \<Rightarrow> iid \<Rightarrow> split_builder \<Rightarrow> iid \<Rightarrow> split_builder statusor" where
  "clone_instruction m r b i =
     (if opcode m i = kParameter \<or> i = r then Inr b
      else bindR (mapR (atR (sb_clone_map b)) (operands m i)) (\<lambda>new_operands.
           Inr (b\<lparr>sb_instructions := sb_instructions b @ [CloneWithNewOperands (m_instr m i) new_operands],
                  sb_clone_map := (sb_clone_map b)(i \<mapsto> length (sb_instructions b))\<rparr>)))"

record split_state =
  ss_module :: hlo_module
  ss_partition :: hlo_partition
  ss_new_colors :: "color list"
  ss_replacements :: "iid \<rightharpoonup> iid"

definition clone_root :: "graph_lib \<Rightarrow> cid \<Rightarrow> iid \<Rightarrow> color \<Rightarrow> split_state \<Rightarrow> nat \<times> iid \<Rightarrow> split_state" where
  "clone_root G parent subtask new_color st e =
     (let (index, i) = e; m = ss_module st;
          (clone, m) = gl_AddInstruction G m parent (CreateGetTupleElement (i_shape (m_instr m i)) subtask index);
          m = AssignColor m clone new_color in
      st\<lparr>ss_module := upd_instr m clone (\<lambda>r. r\<lparr>i_sharding := sharding_of m i\<rparr>),
         ss_replacements := (ss_replacements st)(i \<mapsto> clone)\<rparr>)"

definition split_one ::
  "split_lib \<Rightarrow> cid \<Rightarrow> iid \<Rightarrow> cid \<Rightarrow> color \<Rightarrow> string list \<Rightarrow> split_state \<Rightarrow> nat \<times> iid list \<times> task_config \<Rightarrow> split_state statusor" where
  "split_one X parent task computation color suffixes st e =
     (let (task_number, task_instructions, config) = e; m = ss_module st; r = root m computation in
      bindR (subR suffixes task_number) (\<lambda>suffix.
      bindR (CloneColor (ss_partition st) color (color @ suffix) None None) (\<lambda>(new_color, p).
      bindR (foldR (clone_param m (\<lambda>param. bindR (index_in (params m computation) param) (operandR m task)))
               \<lparr>sb_instructions = [], sb_clone_map = Map.empty, sb_call_operands = []\<rparr> (external_parameters config)) (\<lambda>b.
      bindR (foldR (clone_param m (atR (ss_replacements st))) b (internal_parameters config)) (\<lambda>b.
      bindR (foldR (clone_instruction m r) b task_instructions) (\<lambda>b.
      let roots = external_roots config @ internal_roots config in
      bindR (mapR (atR (sb_clone_map b)) roots) (\<lambda>new_root_operands.
      let tuple = CreateTuple (map (\<lambda>i. i_shape (m_instr m i)) roots) new_root_operands;
          (split_computation, m) = sl_AddComputation X m (sl_computation_name X m computation @ suffix)
             (sb_instructions b @ [tuple]) (length (sb_instructions b));
          m = foldl (\<lambda>m subinstr. AssignColor m subinstr new_color) m (comp_instructions m split_computation);
          (subtask, m) = gl_AddInstruction (sl_graph X) m parent
             (CreateCallTo (i_shape tuple) (sb_call_operands b) split_computation);
          m = AssignColor m subtask new_color in
      Inr (foldl (clone_root (sl_graph X) parent subtask new_color)
             (st\<lparr>ss_module := m, ss_partition := p, ss_new_colors := ss_new_colors st @ [new_color]\<rparr>)
             (enumerate 0 roots)))))))))"

definition replace_user ::
  "split_lib \<Rightarrow> iid \<Rightarrow> (iid \<rightharpoonup> iid) \<Rightarrow> hlo_module \<Rightarrow> iid \<Rightarrow> hlo_module statusor" where
  "replace_user X task_root replacements m user =
     bindR (tuple_indexR m user) (\<lambda>k.
     bindR (operandR m task_root k) (\<lambda>operand.
     bindR (atR replacements operand) (\<lambda>clone.
     sl_ReplaceInstruction X (upd_instr m clone (\<lambda>r. r\<lparr>i_sharding := sharding_of m user\<rparr>)) user clone)))"

definition SplitTask ::
  "split_lib \<Rightarrow> cid \<Rightarrow> iid \<Rightarrow> iid list list \<Rightarrow> string list \<Rightarrow> hlo_module \<times> hlo_partition
     \<Rightarrow> (color list \<times> hlo_module \<times> hlo_partition) statusor" where
  "SplitTask X parent task instructions suffixes mp =
     (let (m, p) = mp in
      bindR (calledR m task) (\<lambda>computation.
      let r = root m computation; configs = map (config_of m r) instructions in
      case Color m task of
        None \<Rightarrow> Inl (Undefined ''no color'')
      | Some color \<Rightarrow>
          bindR (foldR (split_one X parent task computation color suffixes)
                   \<lparr>ss_module = m, ss_partition = p, ss_new_colors = [], ss_replacements = Map.empty\<rparr>
                   (enumerate 0 (zip instructions configs))) (\<lambda>st.
          bindR (foldR (replace_user X r (ss_replacements st)) (ss_module st) (users (ss_module st) task)) (\<lambda>m.
          bindR (gl_RemoveEmbeddedComputation (sl_graph X) m computation) (\<lambda>m.
          Inr (ss_new_colors st, m, ss_partition st))))))"

section \<open>Splitting along the critical output\<close>

definition IsMicrobatchLoop :: "hlo_module \<Rightarrow> iid \<Rightarrow> bool" where
  "IsMicrobatchLoop m i \<longleftrightarrow> opcode m i = kWhile \<and> i_backend_config (m_instr m i) \<noteq> None"

text \<open>\<open>before\<close> is \<open>ordering.ExecutesBefore\<close>; \<open>dl0\<close> are the devices of a default color.\<close>

definition critical_instructions :: "(iid \<Rightarrow> iid \<Rightarrow> bool) \<Rightarrow> hlo_module \<Rightarrow> cid \<Rightarrow> iid \<Rightarrow> iid list" where
  "critical_instructions before m c critical_root =
     filter (\<lambda>i. i \<noteq> root m c \<and> (before i critical_root \<or> i = critical_root)) (post_order m c)"

definition non_critical_instructions :: "(iid \<Rightarrow> iid \<Rightarrow> bool) \<Rightarrow> hlo_module \<Rightarrow> cid \<Rightarrow> iid \<Rightarrow> iid list" where
  "non_critical_instructions before m c critical_root =
     filter (\<lambda>i. i \<noteq> root m c \<and> \<not> (before i critical_root \<or> i = critical_root)) (post_order m c)"

definition SplitComputation ::
  "split_lib \<Rightarrow> (iid \<Rightarrow> iid \<Rightarrow> bool) \<Rightarrow> device_list \<Rightarrow> cid \<Rightarrow> hlo_module \<times> hlo_partition \<Rightarrow> iid \<Rightarrow> nat
     \<Rightarrow> (hlo_module \<times> hlo_partition) statusor" where
  "SplitComputation X before dl0 parent mp call_to_split critical_root_id =
     (let (m, p) = mp in
      bindR (calledR m call_to_split) (\<lambda>c.
      if opcode m (root m c) \<noteq> kTuple
      then Inl (InvalidArgument ''Root instruction to split along is not a tuple'')
      else if critical_root_id \<ge> length (operands m (root m c))
      then Inl (InvalidArgument ''Critical root id is out of bounds'')
      else case Color m call_to_split of
        None \<Rightarrow> Inl (Undefined ''no color'')
      | Some original_color \<Rightarrow>
          bindR (GetTaskOptions p original_color) (\<lambda>options.
          case to_split_backprop options of
            None \<Rightarrow> Inl (InvalidArgument (''color '' @ original_color @ '' is not configured for split backprop''))
          | Some (critical_suffix, non_critical_suffix) \<Rightarrow>
              (let critical_root = operands m (root m c) ! critical_root_id in
               bindR (SplitTask X parent call_to_split
                        [critical_instructions before m c critical_root, non_critical_instructions before m c critical_root]
                        [critical_suffix, non_critical_suffix] (m, p)) (\<lambda>(new_colors, m, p).
               bindR (subR new_colors 1) (\<lambda>color.
               Inr (m, SetColorAsNonCritical dl0 p color)))))))"

definition split_call ::
  "nat \<Rightarrow> split_lib \<Rightarrow> (iid \<Rightarrow> iid \<Rightarrow> bool) \<Rightarrow> device_list \<Rightarrow> cid \<Rightarrow> (iid \<rightharpoonup> nat) \<Rightarrow> hlo_module \<times> hlo_partition \<Rightarrow> iid
     \<Rightarrow> (hlo_module \<times> hlo_partition) statusor" where
  "split_call fuel X before dl0 while_computation depth_map mp i =
     (let (m, p) = mp in
      if opcode m i \<noteq> kCall then Inr mp
      else case Color m i of
        None \<Rightarrow> Inl (InvalidArgument (''Call has no color: '' @ i_name (m_instr m i)))
      | Some color \<Rightarrow>
          bindR (GetTaskOptions p color) (\<lambda>options.
          if to_split_backprop options = None then Inr mp
          else bindR (CriticalRootTupleIndex fuel m while_computation i while_computation depth_map) (\<lambda>critical_root_id.
               SplitComputation X before dl0 while_computation mp i critical_root_id)))"

definition MpmdSplitCriticalPath_Run ::
  "nat \<Rightarrow> split_lib \<Rightarrow> (iid \<Rightarrow> iid \<Rightarrow> bool) \<Rightarrow> device_list \<Rightarrow> hlo_module \<times> hlo_partition
     \<Rightarrow> (bool \<times> hlo_module \<times> hlo_partition) statusor" where
  "MpmdSplitCriticalPath_Run fuel X before dl0 mp =
     (let m = fst mp in
      case find (IsMicrobatchLoop m) (post_order m (m_entry m)) of
        None \<Rightarrow> Inr (False, mp)
      | Some while_instruction \<Rightarrow>
          bindR (calledR m while_instruction) (\<lambda>while_computation.
          bindR (foldR (split_call fuel X before dl0 while_computation (ComputeDepthMap m while_computation)) mp
                   (post_order m while_computation)) (\<lambda>mp.
          Inr (True, mp))))"

end
