(* ===== verification/Split_Facts.thy ===== *)
theory Split_Facts
  imports Task_Splitter
begin

text \<open>
  What is proved of \<open>task_splitter.cc\<close> and \<open>mpmd_split_critical_path.cc\<close>: which instructions
  become parameters and results of a group, that the clones of a sorted group are well formed,
  and that the group behind the critical output needs nothing from the other.
\<close>

section \<open>Parameters and results of a group\<close>

lemma topo_sorted_operands: "topo_sorted ops seen po \<Longrightarrow> i \<in> set po \<Longrightarrow> set (ops i) \<subseteq> set seen \<union> set po"
  by (induction po arbitrary: seen) fastforce+

text \<open>The operands of \<open>is\<close> that are visited, and the instructions of \<open>is\<close> used outside.\<close>

definition group_operands :: "hlo_module \<Rightarrow> iid list \<Rightarrow> iid set" where
  "group_operands m is = {x. \<exists>i \<in> set is. opcode m i \<noteq> kParameter \<and> x \<in> set (operands m i)}"

definition group_results :: "hlo_module \<Rightarrow> iid \<Rightarrow> iid set \<Rightarrow> iid list \<Rightarrow> iid set" where
  "group_results m r included is =
     {i \<in> set is. opcode m i \<noteq> kParameter \<and> (\<exists>u \<in> set (users m i). u = r \<or> u \<notin> included)}"

definition config_inv :: "hlo_module \<Rightarrow> iid set \<Rightarrow> task_config \<times> iid set \<Rightarrow> bool" where
  "config_inv m included st \<longleftrightarrow> (case st of (config, V) \<Rightarrow>
     set (external_parameters config) = {x \<in> V. opcode m x = kParameter} \<and>
     set (internal_parameters config) = {x \<in> V. opcode m x \<noteq> kParameter \<and> x \<notin> included} \<and>
     distinct (external_parameters config) \<and> distinct (internal_parameters config))"

abbreviation results :: "task_config \<Rightarrow> iid list" where
  "results config \<equiv> external_roots config @ internal_roots config"

lemma config_operand_inv:
  assumes "config_inv m included (config, V)"
  shows "config_inv m included (config_operand m included (config, V) x)"
proof -
  have "set (external_parameters config) = {x \<in> V. opcode m x = kParameter}"
    and "set (internal_parameters config) = {x \<in> V. opcode m x \<noteq> kParameter \<and> x \<notin> included}"
    and "distinct (external_parameters config)" and "distinct (internal_parameters config)"
    using assms by (simp_all add: config_inv_def)
  then show ?thesis
    by (cases "x \<in> V"; cases "opcode m x = kParameter"; cases "x \<in> included")
      (auto simp: config_operand_def config_inv_def)
qed

lemma config_operands:
  assumes "config_inv m included (config, V)" and "foldl (config_operand m included) (config, V) xs = (config', V')"
  shows "config_inv m included (config', V') \<and> V' = V \<union> set xs \<and>
    external_roots config' = external_roots config \<and> internal_roots config' = internal_roots config"
  using assms
proof (induction xs arbitrary: config V)
  case Nil
  then show ?case by simp
next
  case (Cons x xs)
  obtain c1 V1 where s: "config_operand m included (config, V) x = (c1, V1)" by fastforce
  have inv: "config_inv m included (c1, V1)" using config_operand_inv[OF Cons.prems(1), of x] s by simp
  have V1: "V1 = V \<union> {x}" and r: "external_roots c1 = external_roots config" "internal_roots c1 = internal_roots config"
    using s by (auto simp: config_operand_def split: if_splits)
  have "foldl (config_operand m included) (c1, V1) xs = (config', V')" using Cons.prems(2) s by simp
  from Cons.IH[OF inv this] show ?case using V1 r by auto
qed

lemma config_user_facts:
  "external_parameters (config_user r included us i config) = external_parameters config"
  "internal_parameters (config_user r included us i config) = internal_parameters config"
  "mset (results (config_user r included us i config)) =
     mset (results config) + (if \<exists>u \<in> set us. u = r \<or> u \<notin> included then {#i#} else {#})"
  "set (external_roots (config_user r included us i config)) \<subseteq> insert i (set (external_roots config))"
  using find_None_iff[of "\<lambda>u. u = r \<or> u \<notin> included" us] find_Some_iff[of "\<lambda>u. u = r \<or> u \<notin> included" us]
  by (auto simp: config_user_def split: option.splits)

lemma config_fold:
  assumes "foldl (config_step m r included) (no_config, {}) is = (config, V)"
  shows "config_inv m included (config, V) \<and> V = group_operands m is \<and>
    mset (results config) = mset (filter (\<lambda>i. opcode m i \<noteq> kParameter \<and> (\<exists>u \<in> set (users m i). u = r \<or> u \<notin> included)) is)"
  using assms
proof (induction "is" arbitrary: config V rule: rev_induct)
  case Nil
  then show ?case by (auto simp: config_inv_def no_config_def group_operands_def)
next
  case (snoc i "is")
  obtain c1 V1 where s: "foldl (config_step m r included) (no_config, {}) is = (c1, V1)" by fastforce
  note IH = snoc.IH[OF s]
  show ?case
  proof (cases "opcode m i = kParameter")
    case True
    have "(config, V) = config_step m r included (c1, V1) i" using snoc.prems s by simp
    then have "(config, V) = (c1, V1)" using True by (simp add: config_step_def)
    then show ?thesis using IH True by (auto simp: group_operands_def)
  next
    case False
    obtain c2 V2 where f: "foldl (config_operand m included) (c1, V1) (operands m i) = (c2, V2)" by fastforce
    have "(config, V) = config_step m r included (c1, V1) i" using snoc.prems s by simp
    then have c: "config = config_user r included (users m i) i c2" and V: "V = V2"
      using f False by (simp_all add: config_step_def)
    have o: "config_inv m included (c2, V2)" "V2 = V1 \<union> set (operands m i)" "results c2 = results c1"
      using config_operands[OF _ f] IH by auto
    have "config_inv m included (config, V)" using o(1) unfolding c V config_inv_def by (simp add: config_user_facts)
    moreover have "V = group_operands m (is @ [i])" using o(2) IH False V by (auto simp: group_operands_def)
    moreover have "mset (results config) = mset (results c1) + (if \<exists>u \<in> set (users m i). u = r \<or> u \<notin> included then {#i#} else {#})"
      unfolding c config_user_facts(3) o(3) ..
    ultimately show ?thesis using IH False by simp
  qed
qed

lemma config_of_facts:
  shows "set (external_parameters (config_of m r is)) = {x \<in> group_operands m is. opcode m x = kParameter}"
    "set (internal_parameters (config_of m r is)) = {x \<in> group_operands m is. opcode m x \<noteq> kParameter \<and> x \<notin> set is}"
    "distinct (external_parameters (config_of m r is))" "distinct (internal_parameters (config_of m r is))"
    "mset (results (config_of m r is)) =
       mset (filter (\<lambda>i. opcode m i \<noteq> kParameter \<and> (\<exists>u \<in> set (users m i). u = r \<or> u \<notin> set is)) is)"
proof -
  obtain V where f: "foldl (config_step m r (set is)) (no_config, {}) is = (config_of m r is, V)"
    unfolding config_of_def by (metis prod.collapse)
  note config_fold[OF f, unfolded config_inv_def]
  then show "set (external_parameters (config_of m r is)) = {x \<in> group_operands m is. opcode m x = kParameter}"
    "set (internal_parameters (config_of m r is)) = {x \<in> group_operands m is. opcode m x \<noteq> kParameter \<and> x \<notin> set is}"
    "distinct (external_parameters (config_of m r is))" "distinct (internal_parameters (config_of m r is))"
    "mset (results (config_of m r is)) =
       mset (filter (\<lambda>i. opcode m i \<noteq> kParameter \<and> (\<exists>u \<in> set (users m i). u = r \<or> u \<notin> set is)) is)"
    by simp_all
qed

lemma config_results: "set (results (config_of m r is)) = group_results m r (set is) is"
  using arg_cong[OF config_of_facts(5), of set_mset m r "is"] unfolding set_mset_mset group_results_def by auto

section \<open>Clones\<close>










text \<open>What \<open>DependencyHloOrdering\<close> promises.\<close>

definition dependency_order :: "(iid \<Rightarrow> iid \<Rightarrow> bool) \<Rightarrow> hlo_module \<Rightarrow> cid \<Rightarrow> bool" where
  "dependency_order before m c \<longleftrightarrow> transp before \<and> (\<forall>j \<in> set (post_order m c). \<forall>i \<in> set (operands m j). before i j)"

text \<open>
  C32. Split along the critical output, the critical group takes nothing from the other, every
  value the other takes from it is one of its results, and every output of the computation that
  is no parameter is a result of one of the two.
\<close>

theorem critical_split_closed:
  assumes "wf_computation m c" and "r = root m c" and "users_match m c" and "users m r = []"
    and "dependency_order before m c"
  shows "internal_parameters (config_of m r (critical_instructions before m c critical_root)) = [] \<and>
    set (internal_parameters (config_of m r (non_critical_instructions before m c critical_root)))
      \<subseteq> set (results (config_of m r (critical_instructions before m c critical_root))) \<and>
    (\<forall>i \<in> set (operands m r). opcode m i = kParameter \<or>
       i \<in> set (results (config_of m r (critical_instructions before m c critical_root))) \<union>
            set (results (config_of m r (non_critical_instructions before m c critical_root))))"
proof -
  let ?P = "critical_instructions before m c critical_root" and ?N = "non_critical_instructions before m c critical_root"
  have topo: "topo_sorted (operands m) [] (post_order m c)" and rp: "r \<in> set (post_order m c)"
    using assms(1,2) by (simp_all add: wf_computation_def)
  have ops: "u \<in> set (users m i) \<longleftrightarrow> i \<in> set (operands m u)" if "i \<in> set (post_order m c)" "u \<in> set (post_order m c)" for i u
    using assms(3) that unfolding users_match_def by blast
  have last: "r \<notin> set (operands m u)" if "u \<in> set (post_order m c)" for u using ops[OF rp that] assms(4) by simp
  have dep: "before i j" if "j \<in> set (post_order m c)" "i \<in> set (operands m j)" for i j
    using assms(5) that unfolding dependency_order_def by blast
  have trans: "before i j \<Longrightarrow> before j k \<Longrightarrow> before i k" for i j k
    using assms(5) unfolding dependency_order_def transp_def by blast
  have po: "i \<in> set (post_order m c)" if "i \<in> set (operands m j)" "j \<in> set (post_order m c)" for i j
    using topo_sorted_operands[OF topo that(2)] that(1) by auto
  have P: "i \<in> set ?P \<longleftrightarrow> i \<in> set (post_order m c) \<and> i \<noteq> r \<and> (before i critical_root \<or> i = critical_root)"
    and N: "i \<in> set ?N \<longleftrightarrow> i \<in> set (post_order m c) \<and> i \<noteq> r \<and> i \<notin> set ?P" for i
    using assms(2) by (auto simp: critical_instructions_def non_critical_instructions_def)
  have closed: "x \<in> set ?P" if "i \<in> set ?P" "x \<in> set (operands m i)" for i x
    using that P[of i] P[of x] po[of x i] dep[of i x] trans[of x i critical_root] last[of i] by blast
  have "set (internal_parameters (config_of m r ?P)) = {}"
    unfolding config_of_facts group_operands_def using closed by blast
  moreover have "set (internal_parameters (config_of m r ?N)) \<subseteq> set (results (config_of m r ?P))"
  proof
    fix x assume "x \<in> set (internal_parameters (config_of m r ?N))"
    then obtain i where i: "i \<in> set ?N" "x \<in> set (operands m i)" "opcode m x \<noteq> kParameter" "x \<notin> set ?N"
      unfolding config_of_facts group_operands_def by blast
    have x: "x \<in> set (post_order m c)" "x \<noteq> r" using i(1,2) N[of i] po[of x i] last[of i] by blast+
    then have "x \<in> set ?P" using i(4) N[of x] by blast
    moreover have "i \<in> set (users m x)" using ops[OF x(1), of i] i(1,2) N[of i] by blast
    moreover have "i \<notin> set ?P" using i(1) N[of i] by blast
    ultimately show "x \<in> set (results (config_of m r ?P))" using i(3) unfolding config_results group_results_def by blast
  qed
  moreover have "opcode m i = kParameter \<or> i \<in> set (results (config_of m r ?P)) \<union> set (results (config_of m r ?N))"
    if "i \<in> set (operands m r)" for i
  proof -
    have i: "i \<in> set (post_order m c)" "i \<noteq> r" using po[OF that rp] that last[OF rp] by auto
    have "r \<in> set (users m i)" using ops[OF i(1) rp] that by blast
    then show ?thesis using N[of i] i unfolding config_results group_results_def by blast
  qed
  ultimately show ?thesis by simp
qed

section \<open>Examples\<close>

definition forked_module :: hlo_module where
  "forked_module = sample_module
     [(2, blank_instr\<lparr>i_opcode := kParameter, i_users := [3]\<rparr>), (3, blank_instr\<lparr>i_opcode := kAdd, i_operands := [2, 2], i_users := [4, 5]\<rparr>),
      (4, blank_instr\<lparr>i_opcode := kNegate, i_operands := [3], i_users := [6]\<rparr>), (5, blank_instr\<lparr>i_opcode := kExp, i_operands := [3], i_users := [6]\<rparr>),
      (6, blank_instr\<lparr>i_opcode := kTuple, i_operands := [4, 5]\<rparr>)]
     [(0, \<lparr>c_root = 6, c_post_order = [2, 3, 4, 5, 6], c_instructions = [2, 3, 4, 5, 6], c_params = [2]\<rparr>)]"

definition forked_before :: "iid \<Rightarrow> iid \<Rightarrow> bool" where
  "forked_before i j \<longleftrightarrow> (i, j) \<in> {(2, 3), (2, 4), (2, 5), (2, 6), (3, 4), (3, 5), (3, 6), (4, 6), (5, 6)}"

lemma forked_wf: "wf_computation forked_module 0" "users_match forked_module 0" "users forked_module 6 = []"
  "root forked_module 0 = 6" "dependency_order forked_before forked_module 0"
proof -
  show "wf_computation forked_module 0" "users_match forked_module 0" "users forked_module 6 = []" "root forked_module 0 = 6"
    by (auto simp: forked_module_def sample_simps wf_computation_def users_match_def)
  have "transp forked_before" by (auto simp: transp_def forked_before_def)
  then show "dependency_order forked_before forked_module 0"
    by (simp add: dependency_order_def forked_before_def forked_module_def sample_simps)
qed

theorem critical_split_closed_witness:
  "set (internal_parameters (config_of forked_module 6 (non_critical_instructions forked_before forked_module 0 5)))
     \<subseteq> set (results (config_of forked_module 6 (critical_instructions forked_before forked_module 0 5))) \<and>
   critical_instructions forked_before forked_module 0 5 = [2, 3, 5] \<and>
   internal_parameters (config_of forked_module 6 (non_critical_instructions forked_before forked_module 0 5)) = [3]"
proof -
  have "critical_instructions forked_before forked_module 0 5 = [2, 3, 5]"
    by (simp add: critical_instructions_def forked_before_def forked_module_def sample_simps)
  moreover have "internal_parameters (config_of forked_module 6 (non_critical_instructions forked_before forked_module 0 5)) = [3]"
    by (simp add: non_critical_instructions_def forked_before_def forked_module_def sample_simps config_of_def config_step_def
        config_operand_def config_user_def no_config_def)
  ultimately show ?thesis using critical_split_closed[OF forked_wf(1) _ forked_wf(2,3,5), of 5] forked_wf(4) by simp
qed


end
