(* ===== verification/Computation_Grouper.thy ===== *)
theory Computation_Grouper
  imports Color_Dfs Instruction_Properties Task_Splitter
begin

text \<open>
  \<open>mpmd_computation_grouper.cc\<close>: the instructions of a computation become tasks, one called
  computation per run of equal colors in the color-sorted postorder.

  A \<open>BuildContext\<close> is a record; pointers to contexts are positions in the list \<open>builders\<close>. Its
  computation under construction is the list of its instructions, whose operands are positions
  in it. The sets \<open>roots_added_\<close> and \<open>instructions_added_\<close> hold the elements of the vectors
  \<open>roots_\<close> and \<open>instruction_dfs_\<close> and are read off them. The loop over nested microbatch loops
  recurses on fuel, and so does the search for replicated operands.
\<close>

section \<open>Kinds of instructions\<close>

definition IsRoot :: "hlo_module \<Rightarrow> cid \<Rightarrow> iid \<Rightarrow> bool" where
  "IsRoot m c i = (let r = root m c in if opcode m r = kTuple then r \<in> set (users m i) else i = r)"

definition IsAliasedGetTupleElement :: "hlo_module \<Rightarrow> iid \<Rightarrow> bool statusor" where
  "IsAliasedGetTupleElement m i =
     bindR (operandR m i 0) (\<lambda>operand. Inr (opcode m operand \<in> {kOptimizationBarrier, kTuple}))"

text \<open>\<open>IsMicrobatchLoop\<close> is the function of \<open>mpmd_split_critical_path.cc\<close>, which this file repeats.\<close>

definition IsAlwaysTaskOperand :: "hlo_module \<Rightarrow> iid \<Rightarrow> bool statusor" where
  "IsAlwaysTaskOperand m i =
     (case opcode m i of
        kParameter \<Rightarrow> Inr True
      | kGetTupleElement \<Rightarrow> bindR (operandR m i 0) (\<lambda>operand. Inr (IsMicrobatchLoop m operand \<or> opcode m operand = kParameter))
      | kCustomCall \<Rightarrow> Inr (IsCustomCall m i kCustomCallSliceOffset \<or> IsCustomCall m i kCustomCallDummyOperation)
      | _ \<Rightarrow> Inr False)"

definition ReplicateInstruction :: "hlo_module \<Rightarrow> entries \<Rightarrow> iid \<Rightarrow> bool statusor" where
  "ReplicateInstruction m es i =
     bindR (DerivedInput es i) (\<lambda>derived.
     if derived \<or> \<not> IsAssignedColor m i \<or> IsCustomCall m i kCustomCallArgumentRecolor then Inr True
     else case opcode m i of
        kOptimizationBarrier \<Rightarrow> Inr True
      | kTuple \<Rightarrow> Inr True
      | kGetTupleElement \<Rightarrow> IsAliasedGetTupleElement m i
      | _ \<Rightarrow> Inr False)"

definition IncludeDirectlyInBuilder :: "hlo_module \<Rightarrow> entries \<Rightarrow> iid \<Rightarrow> bool statusor" where
  "IncludeDirectlyInBuilder m es i =
     bindR (ReplicateInstruction m es i) (\<lambda>r. if r then Inr False else bindR (IsAlwaysTaskOperand m i) (\<lambda>a. Inr (\<not> a)))"

definition IncludeIndirectlyInBuilder :: "hlo_module \<Rightarrow> entries \<Rightarrow> iid \<Rightarrow> bool statusor" where
  "IncludeIndirectlyInBuilder m es i =
     bindR (ReplicateInstruction m es i) (\<lambda>r. if r then bindR (IsAlwaysTaskOperand m i) (\<lambda>a. Inr (\<not> a)) else Inr False)"

definition apply_reshard :: "graph_lib \<Rightarrow> hlo_module \<Rightarrow> iid \<Rightarrow> hlo_module statusor" where
  "apply_reshard G m i =
     (if IsCustomCall m i kCustomCallArgumentRecolor
      then bindR (operandR m i 0) (\<lambda>operand.
           let m = upd_instr m operand (\<lambda>r. r\<lparr>i_sharding := sharding_of m i\<rparr>) in
           bindR (gl_ReplaceAllUsesWith G m i operand) (\<lambda>m. gl_RemoveInstruction G m i))
      else Inr m)"

definition ApplyInterTaskReshards :: "graph_lib \<Rightarrow> hlo_module \<Rightarrow> iid \<Rightarrow> hlo_module statusor" where
  "ApplyInterTaskReshards G m call =
     bindR (calledR m call) (\<lambda>task_computation.
     if Color m call = None then Inl (InvalidArgument (i_name (m_instr m call) @ '' does not have a color''))
     else foldR (apply_reshard G) m (post_order m task_computation))"

section \<open>Build contexts\<close>

record build_context =
  bc_name :: string
  bc_color :: color
  bc_clones :: "iid \<rightharpoonup> nat"
  bc_builder :: "hlo_instr list"
  bc_parameters :: "iid list"
  bc_roots :: "iid list"
  bc_producers :: "nat list"
  bc_consumers :: "nat list"
  bc_instruction_dfs :: "iid list"
  bc_producers_added :: "nat set"
  bc_consumers_added :: "nat set"
  bc_call_instruction :: "iid option"

definition BuildContext :: "string \<Rightarrow> color option \<Rightarrow> build_context" where
  "BuildContext name color = \<lparr>bc_name = name, bc_color = (case color of Some c \<Rightarrow> c | None \<Rightarrow> ''none''),
     bc_clones = Map.empty, bc_builder = [], bc_parameters = [], bc_roots = [], bc_producers = [], bc_consumers = [],
     bc_instruction_dfs = [], bc_producers_added = {}, bc_consumers_added = {}, bc_call_instruction = None\<rparr>"

definition BuildContext_call :: "iid \<Rightarrow> build_context" where
  "BuildContext_call parent = (BuildContext '''' None)\<lparr>bc_call_instruction := Some parent\<rparr>"

definition AddRoot :: "hlo_module \<Rightarrow> build_context \<Rightarrow> iid \<Rightarrow> build_context statusor" where
  "AddRoot m b r =
     (if IsTupleShape (i_shape (m_instr m r)) then Inl (Fatal (''Tuple root '' @ i_name (m_instr m r) @ '' not supported yet''))
      else Inr (if r \<in> set (bc_roots b) then b else b\<lparr>bc_roots := bc_roots b @ [r]\<rparr>))"

text \<open>A change of the context at a position, and \<open>AddConsumer\<close> of the context \<open>k\<close> for the context \<open>j\<close>.\<close>

definition at_context :: "build_context list \<Rightarrow> nat \<Rightarrow> (build_context \<Rightarrow> build_context statusor) \<Rightarrow> build_context list statusor" where
  "at_context bs k f = bindR (subR bs k) (\<lambda>b. bindR (f b) (\<lambda>b. Inr (bs[k := b])))"

definition AddConsumer :: "hlo_module \<Rightarrow> build_context list \<Rightarrow> nat \<Rightarrow> iid \<Rightarrow> nat \<Rightarrow> build_context list statusor" where
  "AddConsumer m bs k r j =
     bindR (subR bs k) (\<lambda>this.
     if k \<in> bc_producers_added this then Inl (Fatal (''operand '' @ i_name (m_instr m r) @ '' produces circular dependency''))
     else bindR (AddRoot m this r) (\<lambda>this.
          let bs = bs[k := if j \<in> bc_consumers_added this then this else this\<lparr>bc_consumers := bc_consumers this @ [j]\<rparr>] in
          at_context bs j (\<lambda>context.
            Inr (if k \<in> bc_producers_added context then context else context\<lparr>bc_producers := bc_producers context @ [k]\<rparr>))))"

text \<open>The back of the stack \<open>to_visit\<close> is the head of the list.\<close>

definition push_operand :: "hlo_module \<Rightarrow> entries \<Rightarrow> iid set \<Rightarrow> iid list \<Rightarrow> iid \<Rightarrow> iid list statusor" where
  "push_operand m es added to_visit operand =
     (if operand \<in> added then Inr to_visit
      else bindR (IncludeIndirectlyInBuilder m es operand) (\<lambda>indirect. Inr (if indirect then operand # to_visit else to_visit)))"

definition push_nested :: "hlo_module \<Rightarrow> entries \<Rightarrow> iid set \<Rightarrow> iid list \<Rightarrow> iid \<Rightarrow> iid list statusor" where
  "push_nested m es added to_visit operand =
     bindR (IncludeIndirectlyInBuilder m es operand) (\<lambda>indirect.
     Inr (if indirect \<and> operand \<notin> added then operand # to_visit else to_visit))"

fun replicate_loop ::
  "nat \<Rightarrow> hlo_module \<Rightarrow> entries \<Rightarrow> build_context \<Rightarrow> (iid \<rightharpoonup> bool) \<Rightarrow> iid list \<Rightarrow> build_context statusor" where
  "replicate_loop fuel m es b visited [] = Inr b"
| "replicate_loop 0 m es b visited (next # to_visit) = Inl out_of_fuel"
| "replicate_loop (Suc fuel) m es b visited (next # to_visit) =
     (case visited next of
        None \<Rightarrow>
          bindR (foldR (push_nested m es (set (bc_instruction_dfs b))) (next # to_visit) (operands m next)) (\<lambda>to_visit.
          replicate_loop fuel m es b (visited(next \<mapsto> False)) to_visit)
      | Some True \<Rightarrow> replicate_loop fuel m es b visited to_visit
      | Some False \<Rightarrow>
          replicate_loop fuel m es (b\<lparr>bc_instruction_dfs := bc_instruction_dfs b @ [next]\<rparr>) (visited(next \<mapsto> True)) to_visit)"

definition AddReplicatedOperandDfs :: "nat \<Rightarrow> hlo_module \<Rightarrow> entries \<Rightarrow> build_context \<Rightarrow> iid \<Rightarrow> build_context statusor" where
  "AddReplicatedOperandDfs fuel m es b i =
     bindR (foldR (push_operand m es (set (bc_instruction_dfs b))) [] (operands m i)) (\<lambda>to_visit.
     replicate_loop fuel m es b Map.empty to_visit)"

definition AddInstruction :: "nat \<Rightarrow> hlo_module \<Rightarrow> entries \<Rightarrow> build_context \<Rightarrow> iid \<Rightarrow> build_context statusor" where
  "AddInstruction fuel m es b i =
     (if i \<in> set (bc_instruction_dfs b) then Inr b
      else bindR (AddReplicatedOperandDfs fuel m es b i) (\<lambda>b.
           Inr (b\<lparr>bc_instruction_dfs := bc_instruction_dfs b @ [i]\<rparr>)))"

section \<open>Building a task\<close>

text \<open>\<open>AssignColor\<close>, \<open>PropagateAxes\<close> and \<open>PropagateProperties\<close> on an instruction that is in no module yet.\<close>

definition assign_color :: "color \<Rightarrow> hlo_instr \<Rightarrow> hlo_instr" where
  "assign_color c r = r\<lparr>i_attrs := (i_attrs r)(''color'' \<mapsto> c)\<rparr>"

definition propagate_axes :: "(attrs \<Rightarrow> attrs \<Rightarrow> attrs) \<Rightarrow> hlo_instr \<Rightarrow> hlo_instr \<Rightarrow> hlo_instr" where
  "propagate_axes add_fa source r =
     (case i_attrs source ''axes'' of Some a \<Rightarrow> r\<lparr>i_attrs := add_fa (i_attrs r) [''axes'' \<mapsto> a]\<rparr> | None \<Rightarrow> r)"

definition propagate_properties :: "(attrs \<Rightarrow> attrs \<Rightarrow> attrs) \<Rightarrow> hlo_instr \<Rightarrow> hlo_instr \<Rightarrow> hlo_instr" where
  "propagate_properties add_fa source r =
     propagate_axes add_fa source (case i_attrs source ''color'' of Some c \<Rightarrow> assign_color c r | None \<Rightarrow> r)"

definition build_operand ::
  "(attrs \<Rightarrow> attrs \<Rightarrow> attrs) \<Rightarrow> hlo_module \<Rightarrow> (iid \<rightharpoonup> nat) \<Rightarrow> nat \<Rightarrow> build_context list \<times> nat list \<Rightarrow> iid
     \<Rightarrow> (build_context list \<times> nat list) statusor" where
  "build_operand add_fa m builders j st operand =
     (let (bs, new_operands) = st in
      bindR (subR bs j) (\<lambda>b.
      case bc_clones b operand of
        Some clone \<Rightarrow> Inr (bs, new_operands @ [clone])
      | None \<Rightarrow>
          bindR (case builders operand of None \<Rightarrow> Inr bs | Some k \<Rightarrow> AddConsumer m bs k operand j) (\<lambda>bs.
          bindR (at_context bs j (\<lambda>b.
              let clone = CreateParameter (i_shape (m_instr m operand)) (i_name (m_instr m operand)) (sharding_of m operand) in
              Inr (b\<lparr>bc_builder := bc_builder b @ [propagate_axes add_fa (m_instr m operand) (assign_color (bc_color b) clone)],
                     bc_parameters := bc_parameters b @ [operand],
                     bc_clones := (bc_clones b)(operand \<mapsto> length (bc_builder b))\<rparr>))) (\<lambda>bs.
          bindR (subR bs j) (\<lambda>b.
          Inr (bs, new_operands @ [length (bc_builder b) - 1]))))))"

definition build_instruction ::
  "(attrs \<Rightarrow> attrs \<Rightarrow> attrs) \<Rightarrow> hlo_module \<Rightarrow> cid \<Rightarrow> (iid \<rightharpoonup> nat) \<Rightarrow> nat \<Rightarrow> build_context list \<Rightarrow> iid \<Rightarrow> build_context list statusor" where
  "build_instruction add_fa m c builders j bs i =
     bindR (if IsRoot m c i then at_context bs j (\<lambda>b. AddRoot m b i) else Inr bs) (\<lambda>bs.
     bindR (foldR (build_operand add_fa m builders j) (bs, []) (operands m i)) (\<lambda>(bs, new_operands).
     at_context bs j (\<lambda>b.
       Inr (b\<lparr>bc_builder := bc_builder b @ [propagate_properties add_fa (m_instr m i) (CloneWithNewOperands (m_instr m i) new_operands)],
              bc_clones := (bc_clones b)(i \<mapsto> length (bc_builder b))\<rparr>))))"

definition Build ::
  "(attrs \<Rightarrow> attrs \<Rightarrow> attrs) \<Rightarrow> hlo_module \<Rightarrow> cid \<Rightarrow> (iid \<rightharpoonup> nat) \<Rightarrow> nat \<Rightarrow> build_context list \<Rightarrow> build_context list statusor" where
  "Build add_fa m c builders j bs =
     bindR (subR bs j) (\<lambda>b. foldR (build_instruction add_fa m c builders j) bs (bc_instruction_dfs b))"

definition output_clone ::
  "graph_lib \<Rightarrow> (attrs \<Rightarrow> attrs \<Rightarrow> attrs) \<Rightarrow> cid \<Rightarrow> cid \<Rightarrow> iid \<Rightarrow> color \<Rightarrow> hlo_module \<times> entries \<times> (iid \<rightharpoonup> iid) \<Rightarrow> nat \<times> iid
     \<Rightarrow> (hlo_module \<times> entries \<times> (iid \<rightharpoonup> iid)) statusor" where
  "output_clone G add_fa c task_computation call color st e =
     (let (m, es, clone_map) = st; (tuple_index, r) = e in
      if clone_map r \<noteq> None then Inr st
      else
        let (gte_clone, m) = gl_AddInstruction G m c (CreateGetTupleElement (i_shape (m_instr m r)) call tuple_index);
            es = Clone es r gte_clone in
        bindR (operandR m (root m task_computation) tuple_index) (\<lambda>matching_root.
        let m = AssignColor m gte_clone color;
            m = snd (PropagateAxes add_fa m matching_root gte_clone);
            m = (case sharding_of m matching_root of None \<Rightarrow> m | Some s \<Rightarrow> set_sharding m gte_clone s) in
        Inr (m, es, clone_map(r \<mapsto> gte_clone))))"

definition call_parameter :: "hlo_module \<Rightarrow> (iid \<rightharpoonup> iid) \<Rightarrow> string \<Rightarrow> iid \<Rightarrow> iid statusor" where
  "call_parameter m clone_map name param =
     (if opcode m param = kParameter then Inr param
      else case clone_map param of
        None \<Rightarrow> Inl (InvalidArgument (i_name (m_instr m param) @ '' in context '' @ name @ '' has no intermediate root to use as a parameter''))
      | Some clone \<Rightarrow> Inr clone)"

definition ReplaceWithCall ::
  "split_lib \<Rightarrow> (attrs \<Rightarrow> attrs \<Rightarrow> attrs) \<Rightarrow> cid \<Rightarrow> build_context \<Rightarrow> hlo_module \<times> entries \<times> (iid \<rightharpoonup> iid)
     \<Rightarrow> (hlo_module \<times> entries \<times> (iid \<rightharpoonup> iid)) statusor" where
  "ReplaceWithCall X add_fa c b st =
     (let (m, es, clone_map) = st in
      if bc_roots b = [] then Inr st
      else
        bindR (mapR (\<lambda>r. case bc_clones b r of
             None \<Rightarrow> Inl (InvalidArgument (''root '' @ i_name (m_instr m r) @ '' for task '' @ bc_name b @ '' has not been cloned''))
           | Some k \<Rightarrow> Inr k) (bc_roots b)) (\<lambda>roots.
        let root_tuple = CreateTuple (map (\<lambda>r. i_shape (m_instr m r)) (bc_roots b)) roots;
            (task_computation, m) = sl_AddComputation X m (bc_name b) (bc_builder b @ [root_tuple]) (length (bc_builder b)) in
        bindR (mapR (call_parameter m clone_map (bc_name b)) (bc_parameters b)) (\<lambda>parameters.
        let (call, m) = gl_AddInstruction (sl_graph X) m c (CreateCallTo (i_shape root_tuple) parameters task_computation);
            m = AssignColor m call (bc_color b) in
        foldR (output_clone (sl_graph X) add_fa c task_computation call (bc_color b)) (m, es, clone_map)
          (enumerate 0 (bc_roots b)))))"

definition replace_root :: "graph_lib \<Rightarrow> cid \<Rightarrow> (iid \<rightharpoonup> iid) \<Rightarrow> hlo_module \<Rightarrow> iid \<Rightarrow> hlo_module statusor" where
  "replace_root G c clone_map m r =
     (case clone_map r of
        None \<Rightarrow> Inl (Undefined ''null instruction'')
      | Some gte_clone \<Rightarrow>
          bindR (gl_ReplaceAllUsesWith G m r gte_clone) (\<lambda>m.
          gl_RemoveInstruction G (if r = root m c then gl_set_root_instruction G m c gte_clone else m) r))"

definition ReplaceRootsWithCallOutputs :: "graph_lib \<Rightarrow> cid \<Rightarrow> (iid \<rightharpoonup> iid) \<Rightarrow> hlo_module \<Rightarrow> build_context \<Rightarrow> hlo_module statusor" where
  "ReplaceRootsWithCallOutputs G c clone_map m b = foldR (replace_root G c clone_map) m (bc_roots b)"

section \<open>Assignment to tasks\<close>

record group_state =
  gs_builders :: "build_context list"
  gs_assignments :: "iid \<rightharpoonup> nat"
  gs_clones :: "iid \<rightharpoonup> iid"
  gs_last_color :: "color option"
  gs_current :: "nat option"

definition add_roots :: "hlo_module \<Rightarrow> group_state \<Rightarrow> iid \<Rightarrow> group_state statusor" where
  "add_roots m st operand =
     (case gs_assignments st operand of
        None \<Rightarrow> Inr st
      | Some k \<Rightarrow> bindR (at_context (gs_builders st) k (\<lambda>b. AddRoot m b operand)) (\<lambda>bs. Inr (st\<lparr>gs_builders := bs\<rparr>)))"

definition visit_recolor :: "hlo_module \<Rightarrow> group_state \<Rightarrow> iid \<Rightarrow> group_state statusor" where
  "visit_recolor m st i =
     bindR (operandR m i 0) (\<lambda>operand.
     if gs_assignments st operand = None
     then Inl (InvalidArgument (''instruction '' @ i_name (m_instr m operand) @ '' was not assigned to a builder''))
     else add_roots m st operand)"

definition visit_loop :: "hlo_module \<Rightarrow> group_state \<Rightarrow> iid \<Rightarrow> group_state statusor" where
  "visit_loop m st i =
     (let k = length (gs_builders st) in
      bindR (operandR m i 0) (\<lambda>operand.
      bindR (foldR (add_roots m) (st\<lparr>gs_builders := gs_builders st @ [BuildContext_call i]\<rparr>) (operands m operand)) (\<lambda>st.
      Inr (foldl (\<lambda>st user. st\<lparr>gs_clones := (gs_clones st)(user \<mapsto> user), gs_assignments := (gs_assignments st)(user \<mapsto> k)\<rparr>)
             (st\<lparr>gs_assignments := (gs_assignments st)(i \<mapsto> k)\<rparr>) (users m i)\<lparr>gs_last_color := None\<rparr>))))"

definition task_name :: "hlo_module \<Rightarrow> iid option \<Rightarrow> color \<Rightarrow> string" where
  "task_name m parent_call color =
     (case parent_call of Some p \<Rightarrow> if opcode m p = kWhile then color @ ''_loop'' else color | None \<Rightarrow> color)"

definition visit_direct :: "nat \<Rightarrow> hlo_module \<Rightarrow> entries \<Rightarrow> iid option \<Rightarrow> group_state \<Rightarrow> iid \<Rightarrow> group_state statusor" where
  "visit_direct fuel m es parent_call st i =
     (case Color m i of
        None \<Rightarrow> Inl (InvalidArgument (''instruction '' @ i_name (m_instr m i) @ '' has no color''))
      | Some color \<Rightarrow>
          let st = (if gs_last_color st \<noteq> Some color
                    then st\<lparr>gs_builders := gs_builders st @ [BuildContext (task_name m parent_call color) (Some color)],
                            gs_current := Some (length (gs_builders st))\<rparr>
                    else st) in
          case gs_current st of
            None \<Rightarrow> Inl (Undefined ''null builder'')
          | Some k \<Rightarrow>
              bindR (at_context (gs_builders st) k (\<lambda>b. AddInstruction fuel m es b i)) (\<lambda>bs.
              Inr (st\<lparr>gs_builders := bs, gs_assignments := (gs_assignments st)(i \<mapsto> k), gs_last_color := Some color\<rparr>)))"

definition group_visit :: "nat \<Rightarrow> hlo_module \<Rightarrow> entries \<Rightarrow> iid option \<Rightarrow> group_state \<Rightarrow> iid \<Rightarrow> group_state statusor" where
  "group_visit fuel m es parent_call st i =
     (if IsCustomCall m i kCustomCallRootTupleRecolor then visit_recolor m st i
      else if IsMicrobatchLoop m i then visit_loop m st i
      else bindR (IncludeDirectlyInBuilder m es i) (\<lambda>direct.
           if direct then visit_direct fuel m es parent_call st i else Inr st))"

definition fixed_operands :: "hlo_module \<Rightarrow> cid \<Rightarrow> (iid \<rightharpoonup> iid) statusor" where
  "fixed_operands m c =
     foldR (\<lambda>clones i. bindR (IsAlwaysTaskOperand m i) (\<lambda>a. Inr (if a then clones(i \<mapsto> i) else clones))) Map.empty
       (comp_instructions m c)"

definition assign_tasks :: "nat \<Rightarrow> hlo_module \<Rightarrow> entries \<Rightarrow> cid \<Rightarrow> iid option \<Rightarrow> group_state statusor" where
  "assign_tasks fuel m es c parent_call =
     bindR (fixed_operands m c) (\<lambda>clones.
     bindR (ColorSortedPostorder fuel m c) (\<lambda>postorder.
     foldR (group_visit fuel m es parent_call)
       \<lparr>gs_builders = [], gs_assignments = Map.empty, gs_clones = clones, gs_last_color = None, gs_current = None\<rparr> postorder))"

section \<open>The pass\<close>

text \<open>The state is the module, the properties, the contexts and \<open>gte_root_clones\<close>.\<close>

fun GroupComputationIntoTasks ::
  "nat \<Rightarrow> nat \<Rightarrow> split_lib \<Rightarrow> (attrs \<Rightarrow> attrs \<Rightarrow> attrs) \<Rightarrow> hlo_module \<times> entries \<Rightarrow> cid \<Rightarrow> iid option
     \<Rightarrow> (hlo_module \<times> entries) statusor" where
  "GroupComputationIntoTasks 0 fuel X add_fa mes c parent_call = Inl out_of_fuel"
| "GroupComputationIntoTasks (Suc depth) fuel X add_fa mes c parent_call =
     (let (m, es) = mes in
      bindR (assign_tasks fuel m es c parent_call) (\<lambda>st.
      bindR (foldR (\<lambda>(m, es, bs, clones) k.
          bindR (subR bs k) (\<lambda>b.
          case bc_call_instruction b of
            Some w \<Rightarrow>
              bindR (calledR m w) (\<lambda>body.
              bindR (GroupComputationIntoTasks depth fuel X add_fa (m, es) body (Some w)) (\<lambda>(m, es).
              Inr (m, es, bs, foldl (\<lambda>clones user. clones(user \<mapsto> user)) clones (users m w))))
          | None \<Rightarrow> bindR (Build add_fa m c (gs_assignments st) k bs) (\<lambda>bs. Inr (m, es, bs, clones))))
        (m, es, gs_builders st, gs_clones st) [0..<length (gs_builders st)]) (\<lambda>(m, es, bs, clones).
      let tasks = filter (\<lambda>b. bc_call_instruction b = None) bs in
      bindR (foldR (\<lambda>st b. ReplaceWithCall X add_fa c b st) (m, es, clones) tasks) (\<lambda>(m, es, clones).
      bindR (foldR (ReplaceRootsWithCallOutputs (sl_graph X) c clones) m tasks) (\<lambda>m.
      bindR (RemoveUnusedInstructions (sl_graph X) m c) (\<lambda>m.
      bindR (foldR (\<lambda>m maybe_call. if opcode m maybe_call = kCall then ApplyInterTaskReshards (sl_graph X) m maybe_call else Inr m)
               m (comp_instructions m c)) (\<lambda>m.
      Inr (m, es))))))))"

definition drop_dangling :: "graph_lib \<Rightarrow> hlo_module \<Rightarrow> iid \<Rightarrow> hlo_module statusor" where
  "drop_dangling G m i =
     (if IsCustomCall m i kCustomCallArgumentRecolor
      then bindR (operandR m i 0) (\<lambda>operand.
           if opcode m operand \<noteq> kParameter
           then Inl (InvalidArgument ''orphaned reshard operation in entry computation does not have parameter operand'')
           else bindR (gl_ReplaceAllUsesWith G m i operand) (\<lambda>m. gl_RemoveInstruction G m i))
      else Inr m)"

definition MpmdComputationGrouper_Run ::
  "nat \<Rightarrow> nat \<Rightarrow> nat \<Rightarrow> split_lib \<Rightarrow> (attrs \<Rightarrow> attrs \<Rightarrow> attrs) \<Rightarrow> hlo_module \<Rightarrow> (bool \<times> hlo_module) statusor" where
  "MpmdComputationGrouper_Run depth fuel w X add_fa m =
     bindR (Create_module fuel w m) (\<lambda>es.
     bindR (GroupComputationIntoTasks depth fuel X add_fa (m, es) (m_entry m) None) (\<lambda>(m, es).
     bindR (foldR (drop_dangling (sl_graph X)) m (post_order m (m_entry m))) (\<lambda>m.
     Inr (True, m))))"

end
