(* ===== verification/Grouper_Facts.thy ===== *)
theory Grouper_Facts
  imports Computation_Grouper
begin

text \<open>
  What is proved of \<open>mpmd_computation_grouper.cc\<close>: the search for replicated operands, the
  assignment of instructions to tasks, and that values flow from earlier tasks to later ones.
\<close>

section \<open>Replicated operands\<close>

abbreviation indirect :: "hlo_module \<Rightarrow> entries \<Rightarrow> iid \<Rightarrow> bool" where
  "indirect m es i \<equiv> IncludeIndirectlyInBuilder m es i = Inr True"

abbreviation not_indirect :: "hlo_module \<Rightarrow> entries \<Rightarrow> iid \<Rightarrow> bool" where
  "not_indirect m es i \<equiv> IncludeIndirectlyInBuilder m es i = Inr False"

lemma push_nested_fold:
  assumes "foldR (push_nested m es A) tv xs = Inr tv'"
  shows "\<exists>ps. tv' = ps @ tv \<and> set ps = {x \<in> set xs. indirect m es x \<and> x \<notin> A} \<and> length ps \<le> length xs \<and>
    (\<forall>x \<in> set xs. indirect m es x \<or> not_indirect m es x)"
  using assms
proof (induction xs arbitrary: tv)
  case Nil
  then show ?case by simp
next
  case (Cons x xs)
  then obtain t where t: "push_nested m es A tv x = Inr t" "foldR (push_nested m es A) t xs = Inr tv'"
    by (auto simp: bindR_Inr_iff)
  then obtain c where c: "IncludeIndirectlyInBuilder m es x = Inr c"
    and f: "foldR (push_nested m es A) (if c \<and> x \<notin> A then x # tv else tv) xs = Inr tv'"
    unfolding push_nested_def[of m es A tv x] by (auto simp: bindR_Inr_iff)
  obtain ps where ps: "tv' = ps @ (if c \<and> x \<notin> A then x # tv else tv)" "set ps = {x \<in> set xs. indirect m es x \<and> x \<notin> A}"
    "length ps \<le> length xs" "\<forall>x \<in> set xs. indirect m es x \<or> not_indirect m es x"
    using Cons.IH[OF f] by blast
  show ?case
    by (rule exI[of _ "ps @ (if c \<and> x \<notin> A then [x] else [])"]) (use ps c in auto)
qed

lemma push_operand_fold:
  assumes "foldR (push_operand m es A) tv xs = Inr tv'"
  shows "\<exists>ps. tv' = ps @ tv \<and> set ps = {x \<in> set xs. indirect m es x \<and> x \<notin> A} \<and> length ps \<le> length xs \<and>
    (\<forall>x \<in> set xs. x \<in> A \<or> indirect m es x \<or> not_indirect m es x)"
  using assms
proof (induction xs arbitrary: tv)
  case Nil
  then show ?case by simp
next
  case (Cons x xs)
  then obtain t where t: "push_operand m es A tv x = Inr t" "foldR (push_operand m es A) t xs = Inr tv'"
    by (auto simp: bindR_Inr_iff)
  show ?case
  proof (cases "x \<in> A")
    case True
    then have "foldR (push_operand m es A) tv xs = Inr tv'" using t unfolding push_operand_def[of m es A tv x] by simp
    from Cons.IH[OF this] True show ?thesis by (auto intro: le_SucI)
  next
    case False
    then obtain c where c: "IncludeIndirectlyInBuilder m es x = Inr c"
      and f: "foldR (push_operand m es A) (if c then x # tv else tv) xs = Inr tv'"
      using t unfolding push_operand_def[of m es A tv x] by (auto simp: bindR_Inr_iff)
    obtain ps where ps: "tv' = ps @ (if c then x # tv else tv)" "set ps = {x \<in> set xs. indirect m es x \<and> x \<notin> A}"
      "length ps \<le> length xs" "\<forall>x \<in> set xs. x \<in> A \<or> indirect m es x \<or> not_indirect m es x"
      using Cons.IH[OF f] by blast
    show ?thesis
      by (rule exI[of _ "ps @ (if c then [x] else [])"]) (use ps c False in auto)
  qed
qed

text \<open>Every operand of an element is before it, in \<open>A\<close>, or not to be replicated.\<close>

fun sorted_in :: "hlo_module \<Rightarrow> entries \<Rightarrow> iid set \<Rightarrow> iid list \<Rightarrow> bool" where
  "sorted_in m es A [] = True"
| "sorted_in m es A (i # is) = ((\<forall>j \<in> set (operands m i). j \<in> A \<or> not_indirect m es j) \<and> sorted_in m es (insert i A) is)"

lemma sorted_in_snoc:
  "sorted_in m es A (xs @ [i]) \<longleftrightarrow> sorted_in m es A xs \<and> (\<forall>j \<in> set (operands m i). j \<in> A \<union> set xs \<or> not_indirect m es j)"
  by (induction xs arbitrary: A) auto

definition replicate_inv ::
  "hlo_module \<Rightarrow> entries \<Rightarrow> iid set \<Rightarrow> (iid \<Rightarrow> nat) \<Rightarrow> iid set \<Rightarrow> iid list \<Rightarrow> iid list \<Rightarrow> (iid \<rightharpoonup> bool) \<Rightarrow> iid list \<Rightarrow> bool" where
  "replicate_inv m es U rank S0 dfs0 new visited stack \<longleftrightarrow>
     (\<forall>x \<in> set stack. x \<in> U \<and> indirect m es x \<and> x \<notin> set dfs0) \<and>
     (\<forall>x. visited x = Some True \<longleftrightarrow> x \<in> set new) \<and> distinct new \<and> set new \<inter> set dfs0 = {} \<and>
     (\<forall>x \<in> set new. x \<in> U \<and> indirect m es x) \<and> sorted_in m es (set dfs0) new \<and>
     (\<forall>x j. visited x = Some False \<longrightarrow> j \<in> set (operands m x) \<longrightarrow>
        not_indirect m es j \<or> j \<in> set (dfs0 @ new) \<or> j \<in> before stack x) \<and>
     (\<forall>x j. visited x = Some False \<longrightarrow> j \<in> before stack x \<longrightarrow> rank j < rank x) \<and>
     S0 \<subseteq> set stack \<union> set new"

lemma replicate_white:
  assumes rk: "ranked m U rank" and inv: "replicate_inv m es U rank S0 dfs0 new visited (x # stack)" and w: "visited x = None"
    and ps: "set ps = {j \<in> set (operands m x). indirect m es j \<and> j \<notin> set (dfs0 @ new)}"
    and total: "\<forall>j \<in> set (operands m x). indirect m es j \<or> not_indirect m es j"
  shows "replicate_inv m es U rank S0 dfs0 new (visited(x \<mapsto> False)) (ps @ x # stack)"
proof -
  have xU: "x \<in> U" using inv by (simp add: replicate_inv_def)
  have low: "j \<in> U \<and> rank j < rank x" if "j \<in> set ps" for j using that ps rk xU by (auto simp: ranked_def)
  have x_ps: "x \<notin> set ps" using low by auto
  have grey: "before (ps @ x # stack) k = set ps \<union> before (x # stack) k \<and> rank x < rank k" if k: "visited k = Some False" for k
  proof -
    have "k \<noteq> x" using k w by auto
    then have "rank x < rank k" using inv k unfolding replicate_inv_def by auto
    then have "k \<notin> set ps" using low by force
    then show ?thesis using \<open>rank x < rank k\<close> by (simp add: before_append)
  qed
  have self: "before (ps @ x # stack) x = set ps" using x_ps by (simp add: before_append)
  have nw: "x \<notin> set new" using inv w unfolding replicate_inv_def by (metis option.distinct(1))
  show ?thesis
    unfolding replicate_inv_def
  proof (intro conjI)
    show "\<forall>y \<in> set (ps @ x # stack). y \<in> U \<and> indirect m es y \<and> y \<notin> set dfs0"
      using inv ps low unfolding replicate_inv_def by auto
    show "\<forall>y. ((visited(x \<mapsto> False)) y = Some True) = (y \<in> set new)" using inv nw unfolding replicate_inv_def by auto
    show "\<forall>k j. (visited(x \<mapsto> False)) k = Some False \<longrightarrow> j \<in> set (operands m k) \<longrightarrow>
        not_indirect m es j \<or> j \<in> set (dfs0 @ new) \<or> j \<in> before (ps @ x # stack) k"
    proof (intro allI impI)
      fix k j assume k: "(visited(x \<mapsto> False)) k = Some False" and j: "j \<in> set (operands m k)"
      show "not_indirect m es j \<or> j \<in> set (dfs0 @ new) \<or> j \<in> before (ps @ x # stack) k"
      proof (cases "k = x")
        case True
        then show ?thesis using self ps total j by auto
      next
        case False
        then have "visited k = Some False" using k by simp
        then show ?thesis using grey[of k] inv j unfolding replicate_inv_def by blast
      qed
    qed
    show "\<forall>k j. (visited(x \<mapsto> False)) k = Some False \<longrightarrow> j \<in> before (ps @ x # stack) k \<longrightarrow> rank j < rank k"
    proof (intro allI impI)
      fix k j assume k: "(visited(x \<mapsto> False)) k = Some False" and j: "j \<in> before (ps @ x # stack) k"
      show "rank j < rank k"
      proof (cases "k = x")
        case True
        then show ?thesis using self j low by simp
      next
        case False
        then have kf: "visited k = Some False" using k by simp
        have "j \<in> set ps \<or> j \<in> before (x # stack) k" using grey[OF kf] j by blast
        then show ?thesis
        proof
          assume "j \<in> set ps"
          then show ?thesis using low[of j] grey[OF kf] by linarith
        next
          assume "j \<in> before (x # stack) k"
          then show ?thesis using inv kf unfolding replicate_inv_def by blast
        qed
      qed
    qed
  qed (use inv in \<open>auto simp: replicate_inv_def\<close>)
qed

lemma replicate_black:
  assumes inv: "replicate_inv m es U rank S0 dfs0 new visited (x # stack)" and b: "visited x = Some True"
  shows "replicate_inv m es U rank S0 dfs0 new visited stack"
proof -
  have grey: "before (x # stack) k = insert x (before stack k)" if "visited k = Some False" for k using that b by auto
  have xn: "x \<in> set new" using inv b unfolding replicate_inv_def by blast
  show ?thesis
    unfolding replicate_inv_def
  proof (intro conjI)
    show "\<forall>k j. visited k = Some False \<longrightarrow> j \<in> set (operands m k) \<longrightarrow> not_indirect m es j \<or> j \<in> set (dfs0 @ new) \<or> j \<in> before stack k"
    proof (intro allI impI)
      fix k j assume k: "visited k = Some False" and j: "j \<in> set (operands m k)"
      then have "not_indirect m es j \<or> j \<in> set (dfs0 @ new) \<or> j \<in> before (x # stack) k" using inv unfolding replicate_inv_def by blast
      then show "not_indirect m es j \<or> j \<in> set (dfs0 @ new) \<or> j \<in> before stack k" using grey[OF k] xn by auto
    qed
    show "\<forall>k j. visited k = Some False \<longrightarrow> j \<in> before stack k \<longrightarrow> rank j < rank k"
    proof (intro allI impI)
      fix k j assume k: "visited k = Some False" and j: "j \<in> before stack k"
      then have "j \<in> before (x # stack) k" using grey[OF k] by simp
      then show "rank j < rank k" using inv k unfolding replicate_inv_def by blast
    qed
  qed (use inv xn in \<open>auto simp: replicate_inv_def\<close>)
qed

lemma replicate_grey:
  assumes inv: "replicate_inv m es U rank S0 dfs0 new visited (x # stack)" and g: "visited x = Some False"
  shows "replicate_inv m es U rank S0 dfs0 (new @ [x]) (visited(x \<mapsto> True)) stack"
proof -
  have grey: "before (x # stack) k = insert x (before stack k)" if "k \<noteq> x" for k using that by auto
  have ops: "not_indirect m es j \<or> j \<in> set (dfs0 @ new)" if "j \<in> set (operands m x)" for j
  proof -
    have "not_indirect m es j \<or> j \<in> set (dfs0 @ new) \<or> j \<in> before (x # stack) x" using inv g that unfolding replicate_inv_def by blast
    then show ?thesis by simp
  qed
  have nw: "x \<notin> set new" using inv g unfolding replicate_inv_def by (metis option.inject)
  show ?thesis
    unfolding replicate_inv_def
  proof (intro conjI)
    show "\<forall>k j. (visited(x \<mapsto> True)) k = Some False \<longrightarrow> j \<in> set (operands m k) \<longrightarrow>
        not_indirect m es j \<or> j \<in> set (dfs0 @ new @ [x]) \<or> j \<in> before stack k"
    proof (intro allI impI)
      fix k j assume k: "(visited(x \<mapsto> True)) k = Some False" and j: "j \<in> set (operands m k)"
      then have kf: "k \<noteq> x" "visited k = Some False" by (auto split: if_splits)
      then have "not_indirect m es j \<or> j \<in> set (dfs0 @ new) \<or> j \<in> before (x # stack) k" using inv j unfolding replicate_inv_def by blast
      then show "not_indirect m es j \<or> j \<in> set (dfs0 @ new @ [x]) \<or> j \<in> before stack k" using grey[OF kf(1)] by auto
    qed
    show "\<forall>k j. (visited(x \<mapsto> True)) k = Some False \<longrightarrow> j \<in> before stack k \<longrightarrow> rank j < rank k"
    proof (intro allI impI)
      fix k j assume k: "(visited(x \<mapsto> True)) k = Some False" and j: "j \<in> before stack k"
      then have kf: "k \<noteq> x" "visited k = Some False" by (auto split: if_splits)
      then have "j \<in> before (x # stack) k" using grey[OF kf(1)] j by simp
      then show "rank j < rank k" using inv kf(2) unfolding replicate_inv_def by blast
    qed
    show "\<forall>y. ((visited(x \<mapsto> True)) y = Some True) = (y \<in> set (new @ [x]))" using inv unfolding replicate_inv_def by auto
    show "sorted_in m es (set dfs0) (new @ [x])" unfolding sorted_in_snoc using inv ops by (auto simp: replicate_inv_def)
  qed (use inv nw in \<open>auto simp: replicate_inv_def\<close>)
qed

lemma replicate_loop_result:
  assumes "ranked m U rank" and "replicate_inv m es U rank S0 dfs0 new visited stack"
    and "bc_instruction_dfs b = dfs0 @ new" and "replicate_loop fuel m es b visited stack = Inr b'"
  shows "\<exists>new'. b' = b\<lparr>bc_instruction_dfs := dfs0 @ new'\<rparr> \<and> distinct new' \<and> set new' \<inter> set dfs0 = {} \<and>
    (\<forall>x \<in> set new'. x \<in> U \<and> indirect m es x) \<and> sorted_in m es (set dfs0) new' \<and> S0 \<subseteq> set new'"
  using assms(2-)
proof (induction fuel arbitrary: new visited stack b)
  case 0
  then have st: "stack = []" by (cases stack) auto
  then have "b' = b" using 0 by simp
  then show ?case using 0(1,2) unfolding st by (intro exI[of _ new]) (auto simp: replicate_inv_def)
next
  case (Suc fuel)
  show ?case
  proof (cases stack)
    case Nil
    then have "b' = b" using Suc.prems by simp
    then show ?thesis using Suc.prems(1,2) unfolding Nil by (intro exI[of _ new]) (auto simp: replicate_inv_def)
  next
    case (Cons x st)
    note inv = Suc.prems(1)[unfolded Cons]
    consider (white) "visited x = None" | (grey) "visited x = Some False" | (black) "visited x = Some True"
      by (cases "visited x") auto
    then show ?thesis
    proof cases
      case white
      obtain tv where f: "foldR (push_nested m es (set (bc_instruction_dfs b))) (x # st) (operands m x) = Inr tv"
        and l: "replicate_loop fuel m es b (visited(x \<mapsto> False)) tv = Inr b'"
        using Suc.prems(3) Cons white by (auto simp: bindR_Inr_iff)
      obtain ps where tv: "tv = ps @ x # st" and ps: "set ps = {j \<in> set (operands m x). indirect m es j \<and> j \<notin> set (dfs0 @ new)}"
        "\<forall>j \<in> set (operands m x). indirect m es j \<or> not_indirect m es j"
        using push_nested_fold[OF f] Suc.prems(2) by auto
      from Suc.IH[OF replicate_white[OF assms(1) inv white ps] Suc.prems(2) l[unfolded tv]] show ?thesis .
    next
      case grey
      then have l: "replicate_loop fuel m es (b\<lparr>bc_instruction_dfs := dfs0 @ new @ [x]\<rparr>) (visited(x \<mapsto> True)) st = Inr b'"
        using Suc.prems(2,3) Cons by simp
      show ?thesis using Suc.IH[OF replicate_grey[OF inv grey] _ l] by simp
    next
      case black
      then have l: "replicate_loop fuel m es b visited st = Inr b'" using Suc.prems(3) Cons by simp
      from Suc.IH[OF replicate_black[OF inv black] Suc.prems(2) l] show ?thesis .
    qed
  qed
qed

lemma push_operand_total:
  assumes "\<forall>x \<in> set xs. indirect m es x \<or> not_indirect m es x"
  shows "\<exists>tv'. foldR (push_operand m es A) tv xs = Inr tv'"
proof -
  have "\<exists>tv'. foldR (push_operand m es A) tv xs = Inr tv' \<and> True"
    by (rule foldR_total) (use assms in \<open>auto simp: push_operand_def\<close>)
  then show ?thesis by simp
qed

lemma push_nested_total:
  assumes "\<forall>x \<in> set xs. indirect m es x \<or> not_indirect m es x"
  shows "\<exists>tv'. foldR (push_nested m es A) tv xs = Inr tv'"
proof -
  have "\<exists>tv'. foldR (push_nested m es A) tv xs = Inr tv' \<and> True"
    by (rule foldR_total) (use assms in \<open>auto simp: push_nested_def\<close>)
  then show ?thesis by simp
qed

definition replicate_work :: "hlo_module \<Rightarrow> iid set \<Rightarrow> (iid \<rightharpoonup> bool) \<Rightarrow> iid list \<Rightarrow> nat" where
  "replicate_work m U visited stack = length stack + (\<Sum>x \<in> U - dom visited. Suc (length (operands m x)))"

lemma replicate_loop_total:
  assumes "finite U" and "\<forall>x \<in> U. set (operands m x) \<subseteq> U \<and> (indirect m es x \<or> not_indirect m es x)"
    and "set stack \<subseteq> U" and "replicate_work m U visited stack \<le> fuel"
  shows "\<exists>b'. replicate_loop fuel m es b visited stack = Inr b'"
  using assms(3,4)
proof (induction fuel arbitrary: stack visited b)
  case 0
  then show ?case by (cases stack) (auto simp: replicate_work_def)
next
  case (Suc fuel)
  show ?case
  proof (cases stack)
    case Nil
    then show ?thesis by simp
  next
    case (Cons x st)
    have xU: "x \<in> U" "set st \<subseteq> U" using Suc.prems(1) Cons by auto
    show ?thesis
    proof (cases "visited x")
      case None
      have ops: "set (operands m x) \<subseteq> U" "\<forall>j \<in> set (operands m x). indirect m es j \<or> not_indirect m es j"
        using assms(2) xU(1) by blast+
      obtain tv where tv: "foldR (push_nested m es (set (bc_instruction_dfs b))) (x # st) (operands m x) = Inr tv"
        using push_nested_total[OF ops(2)] by blast
      obtain ps where ps: "tv = ps @ x # st" "set ps \<subseteq> set (operands m x)" "length ps \<le> length (operands m x)"
        using push_nested_fold[OF tv] by blast
      have "U - dom (visited(x \<mapsto> False)) = (U - dom visited) - {x}" by auto
      moreover have "x \<in> U - dom visited" using xU None by auto
      ultimately have "replicate_work m U (visited(x \<mapsto> False)) tv \<le> fuel"
        using Suc.prems(2) ps(1,3) Cons sum.remove[of "U - dom visited" x "\<lambda>x. Suc (length (operands m x))"] assms(1)
        by (simp add: replicate_work_def)
      moreover have "set tv \<subseteq> U" using ps(1,2) ops(1) xU by auto
      ultimately have "\<exists>b'. replicate_loop fuel m es b (visited(x \<mapsto> False)) tv = Inr b'" by (intro Suc.IH)
      then show ?thesis using tv None Cons by simp
    next
      case (Some black)
      have "replicate_work m U visited st \<le> fuel" using Suc.prems(2) Cons by (simp add: replicate_work_def)
      moreover have "dom (visited(x \<mapsto> True)) = dom visited" using Some by auto
      then have "replicate_work m U (visited(x \<mapsto> True)) st \<le> fuel" using calculation by (simp only: replicate_work_def)
      ultimately show ?thesis using Suc.IH[OF xU(2)] Some Cons by (cases black) auto
    qed
  qed
qed

lemma AddInstruction_result:
  assumes "ranked m U rank" and "set (operands m i) \<subseteq> U" and "i \<notin> U" and "i \<notin> set (bc_instruction_dfs b)"
    and "AddInstruction fuel m es b i = Inr b'"
  shows "\<exists>new. b' = b\<lparr>bc_instruction_dfs := bc_instruction_dfs b @ new @ [i]\<rparr> \<and> distinct new \<and>
    set new \<inter> set (bc_instruction_dfs b) = {} \<and> (\<forall>x \<in> set new. x \<in> U \<and> indirect m es x) \<and>
    sorted_in m es (set (bc_instruction_dfs b)) (new @ [i])"
proof -
  let ?dfs = "bc_instruction_dfs b"
  obtain tv b1 where tv: "foldR (push_operand m es (set ?dfs)) [] (operands m i) = Inr tv"
    and l: "replicate_loop fuel m es b Map.empty tv = Inr b1" and b': "b' = b1\<lparr>bc_instruction_dfs := bc_instruction_dfs b1 @ [i]\<rparr>"
    using assms(4,5) by (auto simp: AddInstruction_def AddReplicatedOperandDfs_def bindR_Inr_iff)
  have s: "set tv = {j \<in> set (operands m i). indirect m es j \<and> j \<notin> set ?dfs}"
    "\<forall>j \<in> set (operands m i). j \<in> set ?dfs \<or> indirect m es j \<or> not_indirect m es j"
    using push_operand_fold[OF tv] by auto
  have "replicate_inv m es U rank (set tv) ?dfs [] Map.empty tv" using s assms(2) by (auto simp: replicate_inv_def)
  then obtain new where new: "b1 = b\<lparr>bc_instruction_dfs := ?dfs @ new\<rparr>" "distinct new" "set new \<inter> set ?dfs = {}"
    "\<forall>x \<in> set new. x \<in> U \<and> indirect m es x" "sorted_in m es (set ?dfs) new" "set tv \<subseteq> set new"
    using replicate_loop_result[OF assms(1) _ _ l, of "set tv" ?dfs "[]"] by auto
  have "sorted_in m es (set ?dfs) (new @ [i])" unfolding sorted_in_snoc using new(5,6) s by blast
  then show ?thesis using new b' by auto
qed

text \<open>
  C31. An instruction is added to a task after the operands it replicates, found through
  operands that are replicated themselves: the search ends, adds each of them once, operands
  first, and no operand that has to be replicated is missing.
\<close>

theorem replicated_operands_closed:
  assumes "topo_sorted (operands m) [] po" and "set (operands m i) \<subseteq> set po" and "i \<notin> set po"
    and "i \<notin> set (bc_instruction_dfs b)" and "\<forall>x \<in> set po. indirect m es x \<or> not_indirect m es x"
    and "length (operands m i) + (\<Sum>x \<leftarrow> po. Suc (length (operands m x))) \<le> fuel"
  shows "\<exists>new. AddInstruction fuel m es b i = Inr (b\<lparr>bc_instruction_dfs := bc_instruction_dfs b @ new @ [i]\<rparr>) \<and>
    distinct new \<and> set new \<inter> set (bc_instruction_dfs b) = {} \<and> (\<forall>x \<in> set new. x \<in> set po \<and> indirect m es x) \<and>
    sorted_in m es (set (bc_instruction_dfs b)) (new @ [i])"
proof -
  obtain rank where rk: "ranked m (set po) rank" using topo_sorted_ranked[OF assms(1)] by blast
  have dist: "distinct po" using topo_sorted_distinct[OF assms(1)] by simp
  have ops: "\<forall>j \<in> set (operands m i). indirect m es j \<or> not_indirect m es j" using assms(2,5) by blast
  obtain tv where tv: "foldR (push_operand m es (set (bc_instruction_dfs b))) [] (operands m i) = Inr tv"
    using push_operand_total[OF ops] by blast
  have tvs: "set tv \<subseteq> set po" "length tv \<le> length (operands m i)" using push_operand_fold[OF tv] assms(2) by auto
  have U: "\<forall>x \<in> set po. set (operands m x) \<subseteq> set po \<and> (indirect m es x \<or> not_indirect m es x)"
    using rk assms(5) by (auto simp: ranked_def)
  have "replicate_work m (set po) Map.empty tv \<le> fuel"
    using tvs(2) assms(6) dist by (simp add: replicate_work_def sum_list_distinct_conv_sum_set)
  then obtain b1 where "replicate_loop fuel m es b Map.empty tv = Inr b1"
    using replicate_loop_total[OF _ U tvs(1)] by blast
  then have "\<exists>b'. AddInstruction fuel m es b i = Inr b'"
    using tv assms(4) by (simp add: AddInstruction_def AddReplicatedOperandDfs_def)
  then show ?thesis using AddInstruction_result[OF rk assms(2,3,4)] by metis
qed

section \<open>Tasks\<close>

abbreviation always :: "hlo_module \<Rightarrow> iid \<Rightarrow> bool" where
  "always m i \<equiv> IsAlwaysTaskOperand m i = Inr True"

abbreviation direct :: "hlo_module \<Rightarrow> entries \<Rightarrow> iid \<Rightarrow> bool" where
  "direct m es i \<equiv> IncludeDirectlyInBuilder m es i = Inr True"

abbreviation recolors_root :: "hlo_module \<Rightarrow> iid \<Rightarrow> bool" where
  "recolors_root m i \<equiv> IsCustomCall m i kCustomCallRootTupleRecolor"

lemma direct_not_always: "direct m es i \<Longrightarrow> \<not> always m i"
  by (auto simp: IncludeDirectlyInBuilder_def bindR_Inr_iff split: if_splits)

lemma indirect_not_always: "indirect m es i \<Longrightarrow> \<not> always m i"
  by (auto simp: IncludeIndirectlyInBuilder_def bindR_Inr_iff split: if_splits)

lemma neither_always: "not_indirect m es i \<Longrightarrow> IncludeDirectlyInBuilder m es i = Inr False \<Longrightarrow> always m i"
  by (auto simp: IncludeIndirectlyInBuilder_def IncludeDirectlyInBuilder_def bindR_Inr_iff split: if_splits)

text \<open>
  An operand of an instruction of the task \<open>k\<close> is settled when it is in the task before it, is
  never in a task, or is assigned to an earlier task.
\<close>

definition fixed_or_earlier :: "hlo_module \<Rightarrow> (iid \<rightharpoonup> nat) \<Rightarrow> nat \<Rightarrow> iid \<Rightarrow> bool" where
  "fixed_or_earlier m asg k x \<longleftrightarrow> always m x \<or> recolors_root m x \<or> (\<exists>k' < k. asg x = Some k')"

fun flows :: "hlo_module \<Rightarrow> (iid \<rightharpoonup> nat) \<Rightarrow> nat \<Rightarrow> iid set \<Rightarrow> iid list \<Rightarrow> bool" where
  "flows m asg k A [] = True"
| "flows m asg k A (i # is) =
     ((\<forall>x \<in> set (operands m i). x \<in> A \<or> fixed_or_earlier m asg k x) \<and> flows m asg k (insert i A) is)"

lemma flows_append: "flows m asg k A (xs @ ys) \<longleftrightarrow> flows m asg k A xs \<and> flows m asg k (A \<union> set xs) ys"
  by (induction xs arbitrary: A) auto

lemma flows_mono:
  assumes "flows m asg k A xs" and "\<And>x. fixed_or_earlier m asg k x \<Longrightarrow> fixed_or_earlier m asg' k x"
  shows "flows m asg' k A xs"
  using assms(1) by (induction xs arbitrary: A) (use assms(2) in auto)

lemma sorted_flows:
  assumes "sorted_in m es A xs"
    and "\<And>i x. i \<in> set xs \<Longrightarrow> x \<in> set (operands m i) \<Longrightarrow> not_indirect m es x \<Longrightarrow> x \<in> A \<or> fixed_or_earlier m asg k x"
  shows "flows m asg k A xs"
  using assms
proof (induction xs arbitrary: A)
  case Nil
  then show ?case by simp
next
  case (Cons i xs)
  have "flows m asg k (insert i A) xs"
  proof (rule Cons.IH)
    show "sorted_in m es (insert i A) xs" using Cons.prems(1) by simp
    show "x \<in> insert i A \<or> fixed_or_earlier m asg k x" if "j \<in> set xs" "x \<in> set (operands m j)" "not_indirect m es x" for j x
      using Cons.prems(2)[of j x] that by auto
  qed
  moreover have "\<forall>x \<in> set (operands m i). x \<in> A \<or> fixed_or_earlier m asg k x"
    using Cons.prems(1) Cons.prems(2)[of i] by auto
  ultimately show ?case by simp
qed

section \<open>The walk\<close>

lemma at_context_Inr:
  assumes "at_context bs k f = Inr bs'"
  shows "\<exists>b. k < length bs \<and> f (bs ! k) = Inr b \<and> bs' = bs[k := b]"
  using assms by (auto simp: at_context_def subR_def bindR_Inr_iff split: if_splits)

lemma AddRoot_Inr: "AddRoot m b r = Inr b' \<Longrightarrow> \<exists>rs. b' = b\<lparr>bc_roots := rs\<rparr> \<and> set rs = insert r (set (bc_roots b))"
  by (auto simp: AddRoot_def split: if_splits intro: exI[of _ "bc_roots b"] exI[of _ "bc_roots b @ [r]"])

text \<open>Contexts that differ in their roots and connections only; the roots grow.\<close>

definition context_le :: "build_context \<Rightarrow> build_context \<Rightarrow> bool" where
  "context_le b b' \<longleftrightarrow> bc_instruction_dfs b' = bc_instruction_dfs b \<and> bc_call_instruction b' = bc_call_instruction b \<and>
     bc_color b' = bc_color b \<and> set (bc_roots b) \<subseteq> set (bc_roots b')"

definition fresh_context :: "build_context \<Rightarrow> bool" where
  "fresh_context b \<longleftrightarrow> bc_parameters b = [] \<and> bc_clones b = Map.empty"

definition same_parts :: "build_context \<Rightarrow> build_context \<Rightarrow> bool" where
  "same_parts b b' \<longleftrightarrow> context_le b b' \<and> bc_parameters b' = bc_parameters b \<and> bc_clones b' = bc_clones b"

lemma context_le_refl [simp]: "context_le b b" and same_parts_refl [simp]: "same_parts b b"
  by (simp_all add: context_le_def same_parts_def)

lemma context_le_trans: "context_le a b \<Longrightarrow> context_le b c \<Longrightarrow> context_le a c"
  by (auto simp: context_le_def)

lemma same_parts_trans: "same_parts a b \<Longrightarrow> same_parts b c \<Longrightarrow> same_parts a c"
  by (auto simp: same_parts_def intro: context_le_trans)

lemma AddRoot_same: "AddRoot m b r = Inr b' \<Longrightarrow> same_parts b b' \<and> r \<in> set (bc_roots b')"
  using AddRoot_Inr[of m b r b'] by (auto simp: same_parts_def context_le_def)

text \<open>
  The invariant after the instructions \<open>S\<close>: every task is closed up to earlier tasks and holds
  instructions of its color and replicated ones, every instruction of \<open>S\<close> that goes into a
  task is assigned to one that has it, and the current task is the last one.
\<close>

definition task_ok :: "hlo_module \<Rightarrow> entries \<Rightarrow> (iid \<rightharpoonup> nat) \<Rightarrow> iid set \<Rightarrow> nat \<Rightarrow> build_context \<Rightarrow> bool" where
  "task_ok m es asg S k b \<longleftrightarrow> flows m asg k {} (bc_instruction_dfs b) \<and> set (bc_instruction_dfs b) \<subseteq> S \<and>
     (\<forall>x \<in> set (bc_instruction_dfs b). indirect m es x \<or> direct m es x \<and> Color m x = Some (bc_color b)) \<and>
     fresh_context b \<and> (bc_call_instruction b \<noteq> None \<longrightarrow> bc_instruction_dfs b = [])"

definition assigned_ok :: "hlo_module \<Rightarrow> iid set \<Rightarrow> build_context list \<Rightarrow> iid \<Rightarrow> nat \<Rightarrow> bool" where
  "assigned_ok m S bs x k \<longleftrightarrow> k < length bs \<and> (bc_call_instruction (bs ! k) = None \<longrightarrow> x \<in> set (bc_instruction_dfs (bs ! k))) \<and>
     (bc_call_instruction (bs ! k) \<noteq> None \<longrightarrow> always m x \<or> IsMicrobatchLoop m x) \<and> (x \<in> S \<or> always m x)"

definition walk_core :: "hlo_module \<Rightarrow> entries \<Rightarrow> iid set \<Rightarrow> build_context list \<Rightarrow> (iid \<rightharpoonup> nat) \<Rightarrow> bool" where
  "walk_core m es S bs asg \<longleftrightarrow>
     (\<forall>k < length bs. task_ok m es asg S k (bs ! k)) \<and>
     (\<forall>x k. asg x = Some k \<longrightarrow> assigned_ok m S bs x k) \<and>
     (\<forall>x \<in> S. recolors_root m x \<or> asg x \<noteq> None \<or> IncludeDirectlyInBuilder m es x = Inr False)"

definition current_ok :: "group_state \<Rightarrow> bool" where
  "current_ok st \<longleftrightarrow>
     (\<forall>color. gs_last_color st = Some color \<longrightarrow> (\<exists>k. gs_current st = Some k \<and> length (gs_builders st) = Suc k \<and>
        bc_call_instruction (gs_builders st ! k) = None \<and> bc_color (gs_builders st ! k) = color))"

lemma walk_coreI:
  assumes "\<And>k. k < length bs \<Longrightarrow> task_ok m es asg S k (bs ! k)"
    and "\<And>x k. asg x = Some k \<Longrightarrow> assigned_ok m S bs x k"
    and "\<And>x. x \<in> S \<Longrightarrow> recolors_root m x \<or> asg x \<noteq> None \<or> IncludeDirectlyInBuilder m es x = Inr False"
  shows "walk_core m es S bs asg"
  using assms by (simp add: walk_core_def)

lemma walk_coreD:
  assumes "walk_core m es S bs asg"
  shows "k < length bs \<Longrightarrow> task_ok m es asg S k (bs ! k)" "asg x = Some k \<Longrightarrow> assigned_ok m S bs x k"
    "x \<in> S \<Longrightarrow> recolors_root m x \<or> asg x \<noteq> None \<or> IncludeDirectlyInBuilder m es x = Inr False"
  using assms by (auto simp: walk_core_def)

lemma task_ok_same: "task_ok m es asg S k b \<Longrightarrow> same_parts b b' \<Longrightarrow> task_ok m es asg S k b'"
  by (auto simp: task_ok_def same_parts_def context_le_def fresh_context_def)

lemma task_ok_mono: "task_ok m es asg S k b \<Longrightarrow> S \<subseteq> S' \<Longrightarrow> task_ok m es asg S' k b"
  by (auto simp: task_ok_def)

lemma task_ok_asg:
  assumes "task_ok m es asg S k b" and "\<And>x. fixed_or_earlier m asg k x \<Longrightarrow> fixed_or_earlier m asg' k x"
  shows "task_ok m es asg' S k b"
proof -
  have "flows m asg' k {} (bc_instruction_dfs b)"
    by (rule flows_mono[of m asg]) (use assms in \<open>auto simp: task_ok_def\<close>)
  then show ?thesis using assms(1) by (simp add: task_ok_def)
qed

lemma assigned_ok_same:
  assumes "k < length bs" and "same_parts (bs ! k) b"
  shows "assigned_ok m S (bs[k := b]) x i \<longleftrightarrow> assigned_ok m S bs x i"
  using assms unfolding assigned_ok_def same_parts_def context_le_def by (simp add: nth_list_update)

lemma walk_core_same:
  assumes "walk_core m es S bs asg" and "k < length bs" and "same_parts (bs ! k) b"
  shows "walk_core m es S (bs[k := b]) asg"
proof (rule walk_coreI)
  show "task_ok m es asg S i (bs[k := b] ! i)" if "i < length (bs[k := b])" for i
    using walk_coreD(1)[OF assms(1), of i] task_ok_same[OF _ assms(3)] assms(2) that by (simp add: nth_list_update)
  show "assigned_ok m S (bs[k := b]) x i" if "asg x = Some i" for x i
    using walk_coreD(2)[OF assms(1) that] assigned_ok_same[OF assms(2,3)] by simp
qed (rule walk_coreD(3)[OF assms(1)])

lemma walk_core_insert:
  assumes "walk_core m es S bs asg" and "recolors_root m i \<or> asg i \<noteq> None \<or> IncludeDirectlyInBuilder m es i = Inr False"
  shows "walk_core m es (insert i S) bs asg"
proof (rule walk_coreI)
  show "task_ok m es asg (insert i S) k (bs ! k)" if "k < length bs" for k
    using task_ok_mono[OF walk_coreD(1)[OF assms(1) that] subset_insertI] .
  show "assigned_ok m (insert i S) bs x k" if "asg x = Some k" for x k
    using walk_coreD(2)[OF assms(1) that] unfolding assigned_ok_def by blast
  show "recolors_root m x \<or> asg x \<noteq> None \<or> IncludeDirectlyInBuilder m es x = Inr False" if "x \<in> insert i S" for x
    using that assms(2) walk_coreD(3)[OF assms(1), of x] by blast
qed

text \<open>A new context, and a new assignment of an instruction that was not assigned or is never in a task.\<close>

lemma walk_core_context:
  assumes "walk_core m es S bs asg" and "bc_instruction_dfs b = []" and "fresh_context b"
  shows "walk_core m es S (bs @ [b]) asg"
proof (rule walk_coreI)
  show "task_ok m es asg S k ((bs @ [b]) ! k)" if "k < length (bs @ [b])" for k
  proof (cases "k < length bs")
    case True
    then show ?thesis using walk_coreD(1)[OF assms(1) True] by (simp add: nth_append)
  next
    case False
    then have "k = length bs" using that by simp
    then show ?thesis using assms(2,3) by (simp add: task_ok_def)
  qed
  show "assigned_ok m S (bs @ [b]) x k" if "asg x = Some k" for x k
    using walk_coreD(2)[OF assms(1) that] by (auto simp: assigned_ok_def nth_append)
qed (rule walk_coreD(3)[OF assms(1)])

lemma fixed_or_earlier_upd:
  assumes "fixed_or_earlier m asg k x" and "asg i = None \<or> always m i"
  shows "fixed_or_earlier m (asg(i \<mapsto> j)) k x"
  using assms unfolding fixed_or_earlier_def by (cases "x = i") auto

lemma walk_core_assign:
  assumes "walk_core m es S bs asg" and "asg i = None \<or> always m i" and "assigned_ok m S bs i k"
  shows "walk_core m es S bs (asg(i \<mapsto> k))"
proof (rule walk_coreI)
  show "task_ok m es (asg(i \<mapsto> k)) S j (bs ! j)" if "j < length bs" for j
    by (rule task_ok_asg[OF walk_coreD(1)[OF assms(1) that]]) (rule fixed_or_earlier_upd[where asg = asg], use assms(2) in auto)
  show "assigned_ok m S bs x j" if "(asg(i \<mapsto> k)) x = Some j" for x j
    using that assms(3) walk_coreD(2)[OF assms(1), of x j] by (cases "x = i") auto
  show "recolors_root m x \<or> (asg(i \<mapsto> k)) x \<noteq> None \<or> IncludeDirectlyInBuilder m es x = Inr False" if "x \<in> S" for x
    using walk_coreD(3)[OF assms(1) that] by auto
qed

lemma add_roots_inv:
  assumes "walk_core m es S (gs_builders st) (gs_assignments st)" and "add_roots m st x = Inr st'"
  shows "walk_core m es S (gs_builders st') (gs_assignments st) \<and> (\<exists>bs. st' = st\<lparr>gs_builders := bs\<rparr>) \<and>
    list_all2 same_parts (gs_builders st) (gs_builders st')"
proof (cases "gs_assignments st x")
  case None
  then have "st' = st" using assms by (simp add: add_roots_def)
  then show ?thesis using assms(1) by (auto simp: list_all2_refl intro!: exI[of _ "gs_builders st"])
next
  case (Some k)
  then obtain b where b: "k < length (gs_builders st)" "AddRoot m (gs_builders st ! k) x = Inr b"
    "st' = st\<lparr>gs_builders := (gs_builders st)[k := b]\<rparr>"
    using assms(2) by (auto simp: add_roots_def bindR_Inr_iff dest!: at_context_Inr)
  have s: "same_parts (gs_builders st ! k) b" using AddRoot_same[OF b(2)] by simp
  have "list_all2 same_parts (gs_builders st) ((gs_builders st)[k := b])"
    unfolding list_all2_conv_all_nth using s b(1) by (simp add: nth_list_update)
  then show ?thesis using walk_core_same[OF assms(1) b(1) s] b(3) by auto
qed

lemma add_roots_fold:
  assumes "walk_core m es S (gs_builders st) (gs_assignments st)" and "foldR (add_roots m) st xs = Inr st'"
  shows "walk_core m es S (gs_builders st') (gs_assignments st) \<and> (\<exists>bs. st' = st\<lparr>gs_builders := bs\<rparr>) \<and>
    list_all2 same_parts (gs_builders st) (gs_builders st')"
  using assms
proof (induction xs arbitrary: st)
  case Nil
  then show ?case by (auto simp: list_all2_refl intro!: exI[of _ "gs_builders st'"])
next
  case (Cons x xs)
  then obtain st1 where st1: "add_roots m st x = Inr st1" "foldR (add_roots m) st1 xs = Inr st'" by (auto simp: bindR_Inr_iff)
  note a = add_roots_inv[OF Cons.prems(1) st1(1)]
  then obtain bs where bs: "st1 = st\<lparr>gs_builders := bs\<rparr>" by blast
  have c: "walk_core m es S (gs_builders st1) (gs_assignments st1)" using a bs by simp
  note r = Cons.IH[OF c st1(2)]
  have "list_all2 same_parts (gs_builders st) (gs_builders st')"
    using list_all2_trans[of same_parts same_parts same_parts] same_parts_trans a r by blast
  then show ?case using r bs by auto
qed

lemma current_ok_same:
  assumes "current_ok st" and "st' = st\<lparr>gs_builders := bs\<rparr>" and "list_all2 same_parts (gs_builders st) bs"
  shows "current_ok st'"
  using assms unfolding current_ok_def same_parts_def context_le_def list_all2_conv_all_nth by fastforce

text \<open>What the walk relies on: the users of a microbatch loop read one of its results.\<close>

definition loops_read :: "hlo_module \<Rightarrow> bool" where
  "loops_read m \<longleftrightarrow> (\<forall>w u. IsMicrobatchLoop m w \<longrightarrow> u \<in> set (users m w) \<longrightarrow> always m u)"

lemma walk_recolor:
  assumes "walk_core m es S (gs_builders st) (gs_assignments st)" and "current_ok st"
    and "visit_recolor m st i = Inr st'" and "recolors_root m i"
  shows "walk_core m es (insert i S) (gs_builders st') (gs_assignments st') \<and> current_ok st'"
proof -
  obtain x where x: "add_roots m st x = Inr st'" using assms(3) by (auto simp: visit_recolor_def bindR_Inr_iff split: if_splits)
  note r = add_roots_inv[OF assms(1) x]
  then obtain bs where bs: "st' = st\<lparr>gs_builders := bs\<rparr>" "list_all2 same_parts (gs_builders st) bs" by auto
  have "walk_core m es (insert i S) (gs_builders st') (gs_assignments st')"
    by (rule walk_core_insert) (use r bs assms(4) in auto)
  then show ?thesis using current_ok_same[OF assms(2) bs] by simp
qed

lemma assign_users:
  assumes "walk_core m es S bs (gs_assignments st)" and "k < length bs" and "bc_call_instruction (bs ! k) \<noteq> None"
    and "\<forall>u \<in> set us. always m u" and "gs_builders st = bs"
  shows "let st' = foldl (\<lambda>st user. st\<lparr>gs_clones := (gs_clones st)(user \<mapsto> user), gs_assignments := (gs_assignments st)(user \<mapsto> k)\<rparr>) st us
    in walk_core m es S bs (gs_assignments st') \<and> gs_builders st' = bs"
  using assms
proof (induction us arbitrary: st)
  case Nil
  then show ?case by simp
next
  case (Cons u us)
  have u: "always m u" using Cons.prems(4) by simp
  let ?st = "st\<lparr>gs_clones := (gs_clones st)(u \<mapsto> u), gs_assignments := (gs_assignments st)(u \<mapsto> k)\<rparr>"
  have "assigned_ok m S bs u k" using u Cons.prems(2,3) by (auto simp: assigned_ok_def)
  then have "walk_core m es S bs (gs_assignments ?st)" using walk_core_assign[OF Cons.prems(1)] u by simp
  from Cons.IH[OF this Cons.prems(2,3)] Cons.prems(4,5) show ?case by (simp add: Let_def del: fun_upd_apply)
qed

lemma walk_loop:
  assumes "walk_core m es S (gs_builders st) (gs_assignments st)" and "visit_loop m st i = Inr st'"
    and "IsMicrobatchLoop m i" and "i \<notin> S" and "loops_read m"
  shows "walk_core m es (insert i S) (gs_builders st') (gs_assignments st') \<and> current_ok st'"
proof -
  let ?k = "length (gs_builders st)"
  obtain operand st1 where st1: "foldR (add_roots m) (st\<lparr>gs_builders := gs_builders st @ [BuildContext_call i]\<rparr>) (operands m operand) = Inr st1"
    and st': "st' = foldl (\<lambda>st user. st\<lparr>gs_clones := (gs_clones st)(user \<mapsto> user), gs_assignments := (gs_assignments st)(user \<mapsto> ?k)\<rparr>)
             (st1\<lparr>gs_assignments := (gs_assignments st1)(i \<mapsto> ?k)\<rparr>) (users m i)\<lparr>gs_last_color := None\<rparr>"
    using assms(2) by (auto simp: visit_loop_def Let_def bindR_Inr_iff)
  have "walk_core m es S (gs_builders st @ [BuildContext_call i]) (gs_assignments st)"
    by (rule walk_core_context[OF assms(1)]) (simp_all add: BuildContext_call_def BuildContext_def fresh_context_def)
  then have r: "walk_core m es S (gs_builders st1) (gs_assignments st) \<and>
    (\<exists>bs. st1 = st\<lparr>gs_builders := gs_builders st @ [BuildContext_call i], gs_builders := bs\<rparr>) \<and>
    list_all2 same_parts (gs_builders st @ [BuildContext_call i]) (gs_builders st1)"
    using add_roots_fold[OF _ st1] by simp
  then have c: "walk_core m es S (gs_builders st1) (gs_assignments st)" and asg: "gs_assignments st1 = gs_assignments st"
    and l: "list_all2 same_parts (gs_builders st @ [BuildContext_call i]) (gs_builders st1)" by auto
  have k: "?k < length (gs_builders st1)" using list_all2_lengthD[OF l] by simp
  have "same_parts (BuildContext_call i) (gs_builders st1 ! ?k)" using list_all2_nthD[OF l, of ?k] by simp
  then have call: "bc_call_instruction (gs_builders st1 ! ?k) \<noteq> None"
    by (simp add: same_parts_def context_le_def BuildContext_call_def)
  have na: "\<not> always m i" using assms(3) by (simp add: IsMicrobatchLoop_def IsAlwaysTaskOperand_def)
  have new: "gs_assignments st i = None"
    using walk_coreD(2)[OF assms(1), of i] assms(4) na unfolding assigned_ok_def by (cases "gs_assignments st i") auto
  let ?asg = "(gs_assignments st)(i \<mapsto> ?k)"
  have "walk_core m es (insert i S) (gs_builders st1) ?asg"
  proof (rule walk_coreI)
    show "task_ok m es ?asg (insert i S) j (gs_builders st1 ! j)" if "j < length (gs_builders st1)" for j
    proof (rule task_ok_mono[OF _ subset_insertI], rule task_ok_asg[OF walk_coreD(1)[OF c that]])
      show "fixed_or_earlier m ?asg j x" if "fixed_or_earlier m (gs_assignments st) j x" for x
        using fixed_or_earlier_upd[OF that] new by blast
    qed
    show "assigned_ok m (insert i S) (gs_builders st1) x j" if "?asg x = Some j" for x j
    proof (cases "x = i")
      case True
      then show ?thesis using that k call assms(3) by (auto simp: assigned_ok_def)
    next
      case False
      then show ?thesis using that walk_coreD(2)[OF c, of x j] by (auto simp: assigned_ok_def)
    qed
    show "recolors_root m x \<or> ?asg x \<noteq> None \<or> IncludeDirectlyInBuilder m es x = Inr False" if "x \<in> insert i S" for x
      using that walk_coreD(3)[OF c, of x] by auto
  qed
  then have a: "walk_core m es (insert i S) (gs_builders st1) (gs_assignments (st1\<lparr>gs_assignments := (gs_assignments st1)(i \<mapsto> ?k)\<rparr>))"
    using asg by simp
  have us: "\<forall>u \<in> set (users m i). always m u" using assms(3,5) by (auto simp: loops_read_def)
  show ?thesis
    using assign_users[OF a k call us] unfolding st' by (simp add: Let_def current_ok_def)
qed

lemma task_grows:
  assumes "walk_core m es S bs asg" and "length bs = Suc k" and "bc_call_instruction (bs ! k) = None"
    and "bc_color (bs ! k) = color" and "Color m i = Some color" and "direct m es i"
    and "ranked m S rank" and "set (operands m i) \<subseteq> S" and "i \<notin> S"
    and "AddInstruction fuel m es (bs ! k) i = Inr b"
  shows "walk_core m es (insert i S) (bs[k := b]) (asg(i \<mapsto> k)) \<and> bc_call_instruction b = None \<and> bc_color b = color"
proof -
  let ?dfs = "bc_instruction_dfs (bs ! k)" and ?asg = "asg(i \<mapsto> k)"
  have kb: "k < length bs" using assms(2) by simp
  have ok: "task_ok m es asg S k (bs ! k)" using walk_coreD(1)[OF assms(1) kb] .
  have "i \<notin> set ?dfs" using ok assms(9) by (auto simp: task_ok_def)
  then obtain new where new: "b = (bs ! k)\<lparr>bc_instruction_dfs := ?dfs @ new @ [i]\<rparr>"
    "\<forall>x \<in> set new. x \<in> S \<and> indirect m es x" "sorted_in m es (set ?dfs) (new @ [i])"
    using AddInstruction_result[OF assms(7,8,9) _ assms(10)] by blast
  have none: "asg i = None"
    using walk_coreD(2)[OF assms(1), of i] assms(9) direct_not_always[OF assms(6)] unfolding assigned_ok_def by (cases "asg i") auto
  have up: "fixed_or_earlier m ?asg j x" if "fixed_or_earlier m asg j x" for j x
    using fixed_or_earlier_upd[OF that] none by blast
  have closed: "x \<in> S" if "j \<in> set (new @ [i])" "x \<in> set (operands m j)" for j x
    using that new(2) assms(7,8) by (auto simp: ranked_def)
  have "flows m ?asg k (set ?dfs) (new @ [i])"
  proof (rule sorted_flows[OF new(3)])
    fix j x assume j: "j \<in> set (new @ [i])" "x \<in> set (operands m j)" "not_indirect m es x"
    have xS: "x \<in> S" using closed[OF j(1,2)] .
    show "x \<in> set ?dfs \<or> fixed_or_earlier m ?asg k x"
    proof (cases "asg x")
      case None
      then show ?thesis using walk_coreD(3)[OF assms(1) xS] neither_always[OF j(3)] by (auto simp: fixed_or_earlier_def)
    next
      case (Some k')
      then have "assigned_ok m S bs x k'" using walk_coreD(2)[OF assms(1)] by simp
      then have "k' < k \<or> x \<in> set ?dfs" using assms(2,3) by (cases "k' = k") (auto simp: assigned_ok_def)
      moreover have "x \<noteq> i" using xS assms(9) by blast
      ultimately show ?thesis using Some by (auto simp: fixed_or_earlier_def)
    qed
  qed
  moreover have "flows m ?asg k {} ?dfs" by (rule flows_mono[of m asg]) (use ok up in \<open>auto simp: task_ok_def\<close>)
  ultimately have fl: "flows m ?asg k {} (bc_instruction_dfs b)" using new(1) by (simp add: flows_append del: fun_upd_apply)
  have tb: "task_ok m es ?asg (insert i S) k b"
    unfolding task_ok_def
  proof (intro conjI)
    show "flows m ?asg k {} (bc_instruction_dfs b)" by (rule fl)
    show "set (bc_instruction_dfs b) \<subseteq> insert i S" using ok new(1,2) by (auto simp: task_ok_def)
    show "\<forall>x \<in> set (bc_instruction_dfs b). indirect m es x \<or> direct m es x \<and> Color m x = Some (bc_color b)"
      using ok new(1,2) assms(4,5,6) by (auto simp: task_ok_def)
    show "fresh_context b" using ok new(1) by (simp add: task_ok_def fresh_context_def)
    show "bc_call_instruction b \<noteq> None \<longrightarrow> bc_instruction_dfs b = []" using new(1) assms(3) by simp
  qed
  have "walk_core m es (insert i S) (bs[k := b]) ?asg"
  proof (rule walk_coreI)
    show "task_ok m es ?asg (insert i S) j (bs[k := b] ! j)" if "j < length (bs[k := b])" for j
    proof (cases "j = k")
      case True
      then show ?thesis using tb kb by simp
    next
      case False
      have "task_ok m es asg S j (bs ! j)" using walk_coreD(1)[OF assms(1), of j] that by simp
      then have "task_ok m es ?asg S j (bs ! j)" by (rule task_ok_asg) (rule up)
      then show ?thesis using task_ok_mono[OF _ subset_insertI] False by simp
    qed
    show "assigned_ok m (insert i S) (bs[k := b]) x j" if "?asg x = Some j" for x j
    proof (cases "x = i")
      case True
      then show ?thesis using that kb new(1) assms(3) by (simp add: assigned_ok_def)
    next
      case False
      then have "assigned_ok m S bs x j" using that walk_coreD(2)[OF assms(1)] by simp
      then show ?thesis using new(1) assms(3) kb by (cases "j = k") (auto simp: assigned_ok_def)
    qed
    show "recolors_root m x \<or> ?asg x \<noteq> None \<or> IncludeDirectlyInBuilder m es x = Inr False" if "x \<in> insert i S" for x
      using that walk_coreD(3)[OF assms(1), of x] by auto
  qed
  then show ?thesis using new(1) assms(3,4) by simp
qed

lemma walk_direct:
  assumes "walk_core m es S (gs_builders st) (gs_assignments st)" and "current_ok st"
    and "visit_direct fuel m es parent_call st i = Inr st'" and "direct m es i"
    and "ranked m S rank" and "set (operands m i) \<subseteq> S" and "i \<notin> S"
  shows "walk_core m es (insert i S) (gs_builders st') (gs_assignments st') \<and> current_ok st'"
proof -
  obtain color where col: "Color m i = Some color" using assms(3) by (cases "Color m i") (auto simp: visit_direct_def)
  define st1 where "st1 = (if gs_last_color st \<noteq> Some color
      then st\<lparr>gs_builders := gs_builders st @ [BuildContext (task_name m parent_call color) (Some color)],
              gs_current := Some (length (gs_builders st))\<rparr> else st)"
  have cur: "\<exists>k. gs_current st1 = Some k \<and> length (gs_builders st1) = Suc k \<and>
      bc_call_instruction (gs_builders st1 ! k) = None \<and> bc_color (gs_builders st1 ! k) = color"
  proof (cases "gs_last_color st = Some color")
    case True
    then show ?thesis using assms(2) by (simp add: st1_def current_ok_def)
  next
    case False
    then show ?thesis by (simp add: st1_def BuildContext_def)
  qed
  then obtain k where k: "gs_current st1 = Some k" "length (gs_builders st1) = Suc k"
    "bc_call_instruction (gs_builders st1 ! k) = None" "bc_color (gs_builders st1 ! k) = color" by blast
  have core: "walk_core m es S (gs_builders st1) (gs_assignments st1)"
    using assms(1) walk_core_context[OF assms(1), of "BuildContext (task_name m parent_call color) (Some color)"]
    by (simp add: st1_def BuildContext_def fresh_context_def)
  obtain bs where bs: "at_context (gs_builders st1) k (\<lambda>b. AddInstruction fuel m es b i) = Inr bs"
    and st': "st' = st1\<lparr>gs_builders := bs, gs_assignments := (gs_assignments st1)(i \<mapsto> k), gs_last_color := Some color\<rparr>"
    using assms(3) col k(1) unfolding visit_direct_def st1_def[symmetric]
    by (auto simp: Let_def bindR_Inr_iff simp flip: st1_def)
  obtain b where b: "AddInstruction fuel m es (gs_builders st1 ! k) i = Inr b" "bs = (gs_builders st1)[k := b]" "k < length (gs_builders st1)"
    using at_context_Inr[OF bs] by blast
  note g = task_grows[OF core k(2,3,4) col assms(4,5,6,7) b(1)]
  have "current_ok st'" using g k(1,2) b(2,3) unfolding st' current_ok_def by simp
  then show ?thesis using g b(2) unfolding st' by simp
qed

lemma group_visit_inv:
  assumes "walk_core m es S (gs_builders st) (gs_assignments st) \<and> current_ok st"
    and "group_visit fuel m es parent_call st i = Inr st'"
    and "ranked m S rank" and "set (operands m i) \<subseteq> S" and "i \<notin> S" and "loops_read m"
  shows "walk_core m es (insert i S) (gs_builders st') (gs_assignments st') \<and> current_ok st'"
proof -
  consider (recolor) "recolors_root m i" | (loop) "\<not> recolors_root m i" "IsMicrobatchLoop m i"
    | (other) "\<not> recolors_root m i" "\<not> IsMicrobatchLoop m i" by blast
  then show ?thesis
  proof cases
    case recolor
    then show ?thesis using walk_recolor[of m es S st i st'] assms(1,2) by (simp add: group_visit_def)
  next
    case loop
    then show ?thesis using walk_loop[of m es S st i st'] assms by (simp add: group_visit_def)
  next
    case other
    then obtain d where d: "IncludeDirectlyInBuilder m es i = Inr d"
      and v: "(if d then visit_direct fuel m es parent_call st i else Inr st) = Inr st'"
      using assms(2) by (auto simp: group_visit_def bindR_Inr_iff)
    show ?thesis
    proof (cases d)
      case True
      then show ?thesis using walk_direct[of m es S st fuel parent_call i st' rank] assms d v by simp
    next
      case False
      then show ?thesis using walk_core_insert[of m es S _ _ i] assms(1) d v by simp
    qed
  qed
qed

lemma group_walk_inv:
  assumes "foldR (group_visit fuel m es parent_call) st po = Inr st'" and "topo_sorted (operands m) seen po"
    and "walk_core m es (set seen) (gs_builders st) (gs_assignments st) \<and> current_ok st"
    and "ranked m (set seen \<union> set po) rank" and "\<forall>i \<in> set seen. set (operands m i) \<subseteq> set seen" and "loops_read m"
  shows "walk_core m es (set seen \<union> set po) (gs_builders st') (gs_assignments st') \<and> current_ok st'"
  using assms(1-5)
proof (induction po arbitrary: seen st)
  case Nil
  then show ?case by simp
next
  case (Cons i po)
  obtain st1 where st1: "group_visit fuel m es parent_call st i = Inr st1" "foldR (group_visit fuel m es parent_call) st1 po = Inr st'"
    using Cons.prems(1) by (auto simp: bindR_Inr_iff)
  have i: "i \<notin> set seen" "set (operands m i) \<subseteq> set seen" "topo_sorted (operands m) (i # seen) po" using Cons.prems(2) by auto
  have rk: "ranked m (set seen) rank" using Cons.prems(4,5) by (auto simp: ranked_def)
  have inv: "walk_core m es (set (i # seen)) (gs_builders st1) (gs_assignments st1) \<and> current_ok st1"
    using group_visit_inv[OF Cons.prems(3) st1(1) rk i(2,1) assms(6)] by simp
  have "walk_core m es (set (i # seen) \<union> set po) (gs_builders st') (gs_assignments st') \<and> current_ok st'"
    by (rule Cons.IH[OF st1(2) i(3) inv]) (use Cons.prems(4,5) i(2) in auto)
  then show ?case by simp
qed

lemma assign_tasks_inv:
  assumes "assign_tasks fuel m es c parent_call = Inr st" and "wf_computation m c" and "elements_grouped m (set (post_order m c))"
    and "Suc (\<Sum>i \<leftarrow> post_order m c. Suc (length (operands m i))) \<le> fuel" and "loops_read m"
  shows "\<exists>po. ColorSortedPostorder fuel m c = Inr po \<and> walk_core m es (set po) (gs_builders st) (gs_assignments st)"
proof -
  obtain clones po where po: "ColorSortedPostorder fuel m c = Inr po"
    and f: "foldR (group_visit fuel m es parent_call)
       \<lparr>gs_builders = [], gs_assignments = Map.empty, gs_clones = clones, gs_last_color = None, gs_current = None\<rparr> po = Inr st"
    using assms(1) by (auto simp: assign_tasks_def bindR_Inr_iff)
  have topo: "topo_sorted (operands m) [] po" using ColorSortedPostorder_sorted[OF assms(2,3,4)] po by auto
  obtain rank where "ranked m (set po) rank" using topo_sorted_ranked[OF topo] by blast
  then have "walk_core m es (set [] \<union> set po) (gs_builders st) (gs_assignments st) \<and> current_ok st"
    by (intro group_walk_inv[OF f topo]) (use assms(5) in \<open>simp_all add: walk_core_def current_ok_def\<close>)
  then show ?thesis using po by simp
qed

text \<open>
  C30. Tasks and colors: a task holds instructions of its color and replicated ones only, and
  every instruction of the computation that is to be in a task, and is no recolored output and
  no microbatch loop, is in the task it is assigned to.
\<close>

theorem tasks_have_one_color:
  assumes "assign_tasks fuel m es c parent_call = Inr st" and "wf_computation m c" and "elements_grouped m (set (post_order m c))"
    and "Suc (\<Sum>i \<leftarrow> post_order m c. Suc (length (operands m i))) \<le> fuel" and "loops_read m"
  shows "(\<forall>b \<in> set (gs_builders st). \<forall>x \<in> set (bc_instruction_dfs b). indirect m es x \<or> direct m es x \<and> Color m x = Some (bc_color b)) \<and>
    (\<exists>po. ColorSortedPostorder fuel m c = Inr po \<and>
      (\<forall>i \<in> set po. direct m es i \<and> \<not> recolors_root m i \<and> \<not> IsMicrobatchLoop m i \<longrightarrow>
         (\<exists>k < length (gs_builders st). gs_assignments st i = Some k \<and> i \<in> set (bc_instruction_dfs (gs_builders st ! k)))))"
proof -
  obtain po where po: "ColorSortedPostorder fuel m c = Inr po"
    and core: "walk_core m es (set po) (gs_builders st) (gs_assignments st)" using assign_tasks_inv[OF assms] by blast
  have "\<forall>b \<in> set (gs_builders st). \<forall>x \<in> set (bc_instruction_dfs b). indirect m es x \<or> direct m es x \<and> Color m x = Some (bc_color b)"
    using walk_coreD(1)[OF core] unfolding task_ok_def by (metis in_set_conv_nth)
  moreover have "\<exists>k < length (gs_builders st). gs_assignments st i = Some k \<and> i \<in> set (bc_instruction_dfs (gs_builders st ! k))"
    if i: "i \<in> set po" "direct m es i" "\<not> recolors_root m i" "\<not> IsMicrobatchLoop m i" for i
  proof -
    obtain k where k: "gs_assignments st i = Some k" using walk_coreD(3)[OF core i(1)] i(2,3) by auto
    then have "assigned_ok m (set po) (gs_builders st) i k" using walk_coreD(2)[OF core] by blast
    then show ?thesis using k i(4) direct_not_always[OF i(2)] by (auto simp: assigned_ok_def)
  qed
  ultimately show ?thesis using po by blast
qed

section \<open>Building\<close>
















definition build_tasks ::
  "(attrs \<Rightarrow> attrs \<Rightarrow> attrs) \<Rightarrow> hlo_module \<Rightarrow> cid \<Rightarrow> (iid \<rightharpoonup> nat) \<Rightarrow> build_context list \<Rightarrow> nat \<Rightarrow> build_context list statusor" where
  "build_tasks add_fa m c asg bs k =
     bindR (subR bs k) (\<lambda>b. if bc_call_instruction b = None then Build add_fa m c asg k bs else Inr bs)"


section \<open>Examples\<close>

text \<open>Two tasks: the second takes the result of the first and replicates a constant.\<close>

definition two_tasks :: hlo_module where
  "two_tasks = sample_module
     [(2, blank_instr\<lparr>i_opcode := kParameter, i_users := [3]\<rparr>),
      (3, blank_instr\<lparr>i_opcode := kAdd, i_operands := [2, 2], i_users := [5], i_attrs := [''color'' \<mapsto> ''a'']\<rparr>),
      (4, blank_instr\<lparr>i_users := [5]\<rparr>),
      (5, blank_instr\<lparr>i_opcode := kAdd, i_operands := [3, 4], i_users := [6], i_attrs := [''color'' \<mapsto> ''b'']\<rparr>),
      (6, blank_instr\<lparr>i_opcode := kTuple, i_operands := [5]\<rparr>)]
     [(0, \<lparr>c_root = 6, c_post_order = [2, 3, 4, 5, 6], c_instructions = [2, 3, 4, 5, 6], c_params = [2]\<rparr>)]"

definition no_properties :: entries where
  "no_properties = (\<lambda>_. Some entry_default)"

definition two_tasks_built :: "(group_state \<times> build_context list) statusor" where
  "two_tasks_built = bindR (assign_tasks 20 two_tasks no_properties 0 None) (\<lambda>st.
     bindR (foldR (build_tasks map_add two_tasks 0 (gs_assignments st)) (gs_builders st) [0..<length (gs_builders st)]) (\<lambda>bs. Inr (st, bs)))"

lemma two_tasks_run:
  "case two_tasks_built of Inl _ \<Rightarrow> False | Inr (st, bs) \<Rightarrow>
     map bc_instruction_dfs (gs_builders st) = [[3], [4, 5]] \<and> map bc_color (gs_builders st) = [''a'', ''b''] \<and>
     map bc_parameters bs = [[2], [3]] \<and> map bc_roots bs = [[3], [5]] \<and> gs_assignments st 5 = Some 1"
  by code_simp

lemma two_tasks_wf:
  "wf_computation two_tasks 0" "elements_grouped two_tasks (set (post_order two_tasks 0))" "loops_read two_tasks"
  "Suc (\<Sum>i \<leftarrow> post_order two_tasks 0. Suc (length (operands two_tasks i))) \<le> 20"
proof -
  show "wf_computation two_tasks 0" "elements_grouped two_tasks (set (post_order two_tasks 0))"
    by (simp_all add: two_tasks_def sample_simps wf_computation_def elements_grouped_def)
  have "\<not> IsMicrobatchLoop two_tasks w" for w
    by (simp add: two_tasks_def sample_simps IsMicrobatchLoop_def)
  then show "loops_read two_tasks" by (simp add: loops_read_def)
  show "Suc (\<Sum>i \<leftarrow> post_order two_tasks 0. Suc (length (operands two_tasks i))) \<le> 20"
    by code_simp
qed

lemma two_tasks_kinds:
  "indirect two_tasks no_properties 4" "not_indirect two_tasks no_properties 3" "not_indirect two_tasks no_properties 2"
  "\<not> always two_tasks 3" "\<not> recolors_root two_tasks 3" "\<not> IsMicrobatchLoop two_tasks 5" "\<not> recolors_root two_tasks 5"
  "direct two_tasks no_properties 5" "\<not> indirect two_tasks no_properties 5"
  by code_simp+

theorem replicated_operands_closed_witness:
  "\<exists>new. AddInstruction 20 two_tasks no_properties (BuildContext ''b'' (Some ''b'')) 5 =
      Inr ((BuildContext ''b'' (Some ''b''))\<lparr>bc_instruction_dfs := new @ [5]\<rparr>) \<and>
    sorted_in two_tasks no_properties {} (new @ [5])"
proof -
  have "topo_sorted (operands two_tasks) [] [2, 3, 4]" "set (operands two_tasks 5) \<subseteq> set [2, 3, 4]"
    "length (operands two_tasks 5) + (\<Sum>x \<leftarrow> [2, 3, 4]. Suc (length (operands two_tasks x))) \<le> 20"
    by (simp_all add: two_tasks_def sample_simps)
  then show ?thesis
    using replicated_operands_closed[of two_tasks "[2, 3, 4]" 5 "BuildContext ''b'' (Some ''b'')" no_properties 20] two_tasks_kinds
    by (auto simp: BuildContext_def)
qed

theorem tasks_have_one_color_witness:
  "\<exists>st k. assign_tasks 20 two_tasks no_properties 0 None = Inr st \<and> k < length (gs_builders st) \<and>
     5 \<in> set (bc_instruction_dfs (gs_builders st ! k)) \<and> bc_color (gs_builders st ! k) = ''b''"
proof -
  obtain st where st: "assign_tasks 20 two_tasks no_properties 0 None = Inr st"
    using two_tasks_run by (auto simp: two_tasks_built_def bindR_def split: sum.splits prod.splits)
  note t = tasks_have_one_color[OF st two_tasks_wf(1,2,4,3)]
  then obtain po where po: "ColorSortedPostorder 20 two_tasks 0 = Inr po"
    "\<forall>i \<in> set po. direct two_tasks no_properties i \<and> \<not> recolors_root two_tasks i \<and> \<not> IsMicrobatchLoop two_tasks i \<longrightarrow>
       (\<exists>k < length (gs_builders st). gs_assignments st i = Some k \<and> i \<in> set (bc_instruction_dfs (gs_builders st ! k)))" by blast
  have "case ColorSortedPostorder 20 two_tasks 0 of Inl _ \<Rightarrow> False | Inr po \<Rightarrow> 5 \<in> set po" by code_simp
  then have "5 \<in> set po" using po(1) by simp
  then obtain k where k: "k < length (gs_builders st)" "5 \<in> set (bc_instruction_dfs (gs_builders st ! k))"
    using po(2) two_tasks_kinds by blast
  moreover have "Color two_tasks 5 = Some (bc_color (gs_builders st ! k))" using t k two_tasks_kinds(9) nth_mem by blast
  moreover have "Color two_tasks 5 = Some ''b''" by code_simp
  ultimately show ?thesis using st by auto
qed


end
