(* ===== verification/Loop_Unroll.thy ===== *)
theory Loop_Unroll
  imports Loop_Scheduler Task_Splitter Instruction_Properties
begin

text \<open>
  \<open>mpmd_loop_unroll.cc\<close>: a microbatch loop of the entry computation becomes one copy of its
  body per iteration, colored for the submesh of the iteration, and control dependencies that
  force the order the scheduler chose.

  The graph operations, the JSON reader and the orders the scheduler leaves open are arguments.
  Scheduling names and control dependencies are not part of the module record; they are fields
  of the state. The offset of a slice is a 32-bit \<open>int\<close>.
\<close>

section \<open>State\<close>

record unroll_state =
  us_module :: hlo_module
  us_partition :: hlo_partition
  us_cloned_colors :: "color \<times> device_list \<rightharpoonup> color"
  us_clone_map :: "iid \<times> nat \<rightharpoonup> iid"
  us_was_loop_dependent :: "iid set"
  us_tasks :: task_matrix
  us_prev_loop_output_tuple :: iid
  us_dummy_tuples :: "iid list"
  us_scheduling_name :: "iid \<Rightarrow> string"
  us_control :: "(iid \<times> iid) list"

record unroll_lib =
  ul_graph :: graph_lib
  ul_hash_order :: "nat list \<Rightarrow> nat list"
  ul_name_order :: "string list \<Rightarrow> string list"
  ul_pop_order :: "(nat \<times> nat) list \<Rightarrow> (nat \<times> nat) list"

section \<open>Colors of an iteration\<close>

definition IsNonCritical_call :: "hlo_module \<Rightarrow> cid \<Rightarrow> iid \<Rightarrow> bool" where
  "IsNonCritical_call m c i \<longleftrightarrow>
     (\<forall>user \<in> set (users m i). length (users m user) = 1 \<and> (\<forall>u \<in> set (users m user). u = root m c))"

definition IsLoopDependent :: "hlo_partition \<Rightarrow> hlo_module \<Rightarrow> iid \<Rightarrow> bool statusor" where
  "IsLoopDependent p m i =
     (case Color m i of
        None \<Rightarrow> Inr False
      | Some color \<Rightarrow> bindR (ConfigForColor p color) (\<lambda>config.
          Inr (to_loop_dependent_devices (cc_task_options config) \<noteq> None)))"

definition iteration_color_name :: "color \<Rightarrow> int \<Rightarrow> int \<Rightarrow> color" where
  "iteration_color_name color start num_devices =
     color @ ''_submesh_['' @ show_int start @ '','' @ show_int (start + num_devices) @ '')''"

definition ApplyLoopDependentColor :: "iid \<Rightarrow> nat \<Rightarrow> unroll_state \<Rightarrow> unroll_state statusor" where
  "ApplyLoopDependentColor i iteration st =
     (let m = us_module st; p = us_partition st in
      case Color m i of
        None \<Rightarrow> Inl (InvalidArgument (''instruction '' @ i_name (m_instr m i) @ '' expected to have color''))
      | Some color \<Rightarrow>
          bindR (ConfigForColor p color) (\<lambda>config.
          case to_loop_dependent_devices (cc_task_options config) of
            None \<Rightarrow> Inl (InvalidArgument (''color '' @ color @ '' expected to have non-null loop_dependent_devices''))
          | Some device_callback \<Rightarrow>
              (let device_list = device_callback (int iteration) in
               bindR (subR device_list 0) (\<lambda>start.
               let num_devices = int (length device_list);
                   zuku_devices = dl_create start num_devices in
               if num_devices \<noteq> dl_size (cc_devices config) then Inl (Fatal ''loop dependent device count'')
               else case us_cloned_colors st (color, zuku_devices) of
                 Some iter_color \<Rightarrow> Inr (st\<lparr>us_module := AssignColor m i iter_color\<rparr>)
               | None \<Rightarrow>
                   bindR (CloneColor p color (iteration_color_name color start num_devices) (Some zuku_devices)
                            (Some ((cc_task_options config)\<lparr>to_loop_dependent_devices := None\<rparr>))) (\<lambda>(iter_color, p).
                   Inr (st\<lparr>us_partition := p, us_cloned_colors := (us_cloned_colors st)((color, zuku_devices) \<mapsto> iter_color),
                           us_module := AssignColor m i iter_color\<rparr>))))))"

section \<open>One instruction of an iteration\<close>

definition get_clone :: "unroll_state \<Rightarrow> iid \<Rightarrow> nat \<Rightarrow> iid statusor" where
  "get_clone st i iteration =
     (case us_clone_map st (i, iteration) of
        None \<Rightarrow> Inl (InvalidArgument (i_name (m_instr (us_module st) i) @ '' for iteration '' @ show_int (int iteration) @ '' has no clone''))
      | Some clone \<Rightarrow> Inr clone)"

definition never_loop_dependent :: "unroll_state \<Rightarrow> iid \<Rightarrow> bool statusor" where
  "never_loop_dependent st i =
     (if i \<in> us_was_loop_dependent st then Inr False
      else bindR (IsLoopDependent (us_partition st) (us_module st) i) (\<lambda>d. Inr (\<not> d)))"

text \<open>\<open>set_metadata_scheduling_name\<close> with the name of an operand of the input tuple.\<close>

definition name_after :: "iid \<Rightarrow> nat \<Rightarrow> iid \<Rightarrow> unroll_state \<Rightarrow> unroll_state statusor" where
  "name_after input_tuple index i st =
     bindR (operandR (us_module st) input_tuple index) (\<lambda>operand.
     Inr (st\<lparr>us_scheduling_name := (us_scheduling_name st)(i := i_name (m_instr (us_module st) operand))\<rparr>))"

definition add_clone :: "graph_lib \<Rightarrow> cid \<Rightarrow> iid \<Rightarrow> nat \<Rightarrow> hlo_instr \<Rightarrow> unroll_state \<Rightarrow> iid \<times> unroll_state" where
  "add_clone G parent i iteration r st =
     (let (clone, m) = gl_AddInstruction G (us_module st) parent r in
      (clone, st\<lparr>us_module := m, us_clone_map := (us_clone_map st)((i, iteration) \<mapsto> clone)\<rparr>))"

text \<open>Each case returns the state and \<open>clone_is_input_operand\<close>.\<close>

definition unroll_element ::
  "graph_lib \<Rightarrow> entries \<Rightarrow> cid \<Rightarrow> iid \<Rightarrow> iid \<Rightarrow> nat \<Rightarrow> unroll_state \<Rightarrow> iid \<Rightarrow> (unroll_state \<times> bool) statusor" where
  "unroll_element G es parent input_tuple parameter_tuple iteration st i =
     (let m = us_module st; index = tuple_index m i in
      bindR (operandR m input_tuple index) (\<lambda>input.
      bindR (Get es input) (\<lambda>input_properties.
      bindR (operandR m i 0) (\<lambda>operand.
      if operand = parameter_tuple
      then if loop_carried_index input_properties \<noteq> None
           then bindR (operandR m (us_prev_loop_output_tuple st) index) (\<lambda>alias.
                bindR (never_loop_dependent st alias) (\<lambda>never.
                bindR (if never then name_after input_tuple index alias st else Inr st) (\<lambda>st.
                Inr (st\<lparr>us_clone_map := (us_clone_map st)((i, iteration) \<mapsto> alias)\<rparr>,
                     us_prev_loop_output_tuple st = input_tuple))))
           else Inr (st\<lparr>us_clone_map := (us_clone_map st)((i, iteration) \<mapsto> input)\<rparr>, True)
      else bindR (get_clone st operand iteration) (\<lambda>new_operand.
           let (clone, st) = add_clone G parent i iteration (CreateGetTupleElement (i_shape (m_instr m i)) new_operand index) st;
               m = us_module st;
               m = (case sharding_of m i of None \<Rightarrow> m | Some s \<Rightarrow> set_sharding m clone s) in
           Inr (st\<lparr>us_module := snd (PropagateColor m i clone)\<rparr>, False))))))"

definition clones_of :: "unroll_state \<Rightarrow> nat \<Rightarrow> iid list \<Rightarrow> iid list statusor" where
  "clones_of st iteration xs = mapR (\<lambda>operand. get_clone st operand iteration) xs"

definition unroll_call ::
  "graph_lib \<Rightarrow> cid \<Rightarrow> cid \<Rightarrow> nat \<Rightarrow> unroll_state \<Rightarrow> iid \<Rightarrow> unroll_state statusor" where
  "unroll_call G parent body iteration st i =
     (let m = us_module st in
      if IsNonCritical (us_partition st) (Color m i) \<and> \<not> IsNonCritical_call m body i
      then Inl (InvalidArgument (i_name (m_instr m i) @ '' tagged as non-critical, but does not satisfy condition''))
      else bindR (clones_of st iteration (operands m i)) (\<lambda>new_operands.
           bindR (calledR m i) (\<lambda>to_apply.
           let (clone, st) = add_clone G parent i iteration (CreateCallTo (i_shape (m_instr m i)) new_operands to_apply) st in
           bindR (subR (us_tasks st) iteration) (\<lambda>row.
           Inr (st\<lparr>us_module := snd (PropagateColor (us_module st) i clone),
                   us_tasks := (us_tasks st)[iteration := row @ [clone]]\<rparr>)))))"

definition unroll_output ::
  "entries \<Rightarrow> iid \<Rightarrow> nat \<Rightarrow> iid \<Rightarrow> unroll_state \<times> iid list \<Rightarrow> nat \<Rightarrow> (unroll_state \<times> iid list) statusor" where
  "unroll_output es input_tuple iteration i st index =
     (let (st, new_operands) = st in
      bindR (operandR (us_module st) i index) (\<lambda>operand.
      bindR (get_clone st operand iteration) (\<lambda>new_operand.
      bindR (Get es operand) (\<lambda>operand_properties.
      bindR (if loop_carried_index operand_properties = None then Inr False else never_loop_dependent st new_operand) (\<lambda>named.
      bindR (if named then name_after input_tuple index new_operand st else Inr st) (\<lambda>st.
      Inr (st, new_operands @ [new_operand])))))))"

definition unroll_root ::
  "graph_lib \<Rightarrow> entries \<Rightarrow> cid \<Rightarrow> cid \<Rightarrow> iid \<Rightarrow> iid \<Rightarrow> nat \<Rightarrow> unroll_state \<Rightarrow> iid \<Rightarrow> unroll_state statusor" where
  "unroll_root G es parent body while_loop input_tuple iteration st i =
     (let m = us_module st in
      if i \<noteq> root m body
      then Inl (InvalidArgument (''loop '' @ i_name (m_instr m while_loop) @ '' has tuple instruction '' @ i_name (m_instr m i) @ '' that is not a root tuple''))
      else bindR (foldR (unroll_output es input_tuple iteration i) (st, []) [0..<length (operands m i)]) (\<lambda>(st, new_operands).
           let m = us_module st;
               (clone, m) = gl_AddInstruction G m parent (CreateTuple (map (\<lambda>k. i_shape (m_instr m k)) new_operands) new_operands) in
           Inr (st\<lparr>us_module := upd_instr m clone (\<lambda>r. r\<lparr>i_sharding := sharding_of m i\<rparr>),
                   us_prev_loop_output_tuple := clone, us_dummy_tuples := us_dummy_tuples st @ [clone]\<rparr>)))"

definition unroll_slice :: "graph_lib \<Rightarrow> loop_config \<Rightarrow> cid \<Rightarrow> nat \<Rightarrow> unroll_state \<Rightarrow> iid \<Rightarrow> unroll_state" where
  "unroll_slice G config parent iteration st i =
     (if us_clone_map st (i, iteration) \<noteq> None then st
      else let m = us_module st;
               (clone, st) = add_clone G parent i iteration (CloneWithNewOperands (m_instr m i) (operands m i)) st in
           st\<lparr>us_module := AddAttribute_integral (us_module st) clone ''offset'' (narrow32 (int iteration * microbatch_size config))\<rparr>)"

definition unroll_case ::
  "graph_lib \<Rightarrow> entries \<Rightarrow> loop_config \<Rightarrow> cid \<Rightarrow> cid \<Rightarrow> iid \<Rightarrow> iid \<Rightarrow> iid \<Rightarrow> nat \<Rightarrow> unroll_state \<Rightarrow> iid
     \<Rightarrow> (unroll_state \<times> bool) statusor" where
  "unroll_case G es config parent body while_loop input_tuple parameter_tuple iteration st i =
     (let m = us_module st;
          unsupported = Inl (InvalidArgument (''loop '' @ i_name (m_instr m while_loop) @ '' has unsupported instruction '' @ i_name (m_instr m i))) in
      case opcode m i of
        kParameter \<Rightarrow> Inr (st, False)
      | kGetTupleElement \<Rightarrow> unroll_element G es parent input_tuple parameter_tuple iteration st i
      | kCall \<Rightarrow> bindR (unroll_call G parent body iteration st i) (\<lambda>st. Inr (st, False))
      | kTuple \<Rightarrow> bindR (unroll_root G es parent body while_loop input_tuple iteration st i) (\<lambda>st. Inr (st, False))
      | kCustomCall \<Rightarrow>
          if IsCustomCall m i kCustomCallSliceOffset then Inr (unroll_slice G config parent iteration st i, False)
          else if IsCustomCall m i kCustomCallDummyOperation
          then Inr (snd (add_clone G parent i iteration (CloneWithNewOperands (m_instr m i) (operands m i)) st), False)
          else unsupported
      | _ \<Rightarrow> unsupported)"

definition color_iteration :: "nat \<Rightarrow> iid \<Rightarrow> unroll_state \<times> bool \<Rightarrow> unroll_state statusor" where
  "color_iteration iteration i r =
     (let (st, clone_is_input_operand) = r in
      case us_clone_map st (i, iteration) of
        None \<Rightarrow> Inr st
      | Some clone \<Rightarrow>
          bindR (IsLoopDependent (us_partition st) (us_module st) clone) (\<lambda>dependent.
          if dependent \<and> \<not> clone_is_input_operand
          then ApplyLoopDependentColor clone iteration (st\<lparr>us_was_loop_dependent := insert clone (us_was_loop_dependent st)\<rparr>)
          else Inr st))"

definition unroll_step ::
  "graph_lib \<Rightarrow> entries \<Rightarrow> loop_config \<Rightarrow> cid \<Rightarrow> cid \<Rightarrow> iid \<Rightarrow> iid \<Rightarrow> iid \<Rightarrow> nat \<Rightarrow> unroll_state \<Rightarrow> iid \<Rightarrow> unroll_state statusor" where
  "unroll_step G es config parent body while_loop input_tuple parameter_tuple iteration st i =
     bindR (unroll_case G es config parent body while_loop input_tuple parameter_tuple iteration st i) (color_iteration iteration i)"

definition unroll_iteration ::
  "graph_lib \<Rightarrow> entries \<Rightarrow> loop_config \<Rightarrow> cid \<Rightarrow> cid \<Rightarrow> iid \<Rightarrow> iid \<Rightarrow> iid \<Rightarrow> unroll_state \<Rightarrow> nat \<Rightarrow> unroll_state statusor" where
  "unroll_iteration G es config parent body while_loop input_tuple parameter_tuple st iteration =
     foldR (unroll_step G es config parent body while_loop input_tuple parameter_tuple iteration) st
       (post_order (us_module st) body)"

section \<open>The pass\<close>

definition replace_output :: "graph_lib \<Rightarrow> iid \<Rightarrow> hlo_module \<times> pass_cleanup \<Rightarrow> iid \<Rightarrow> (hlo_module \<times> pass_cleanup) statusor" where
  "replace_output G prev_loop_output_tuple st user =
     (let (m, cleanup) = st in
      bindR (tuple_indexR m user) (\<lambda>index.
      bindR (operandR m prev_loop_output_tuple index) (\<lambda>output.
      bindR (gl_ReplaceAllUsesWith G m user output) (\<lambda>m.
      Inr (m, RemoveInstruction cleanup user)))))"

text \<open>Every task waits for the one before it in its row that has the same devices.\<close>

fun next_on_devices :: "hlo_partition \<Rightarrow> hlo_module \<Rightarrow> device_list \<Rightarrow> iid list \<Rightarrow> iid option statusor" where
  "next_on_devices p m lhs_devices [] = Inr None"
| "next_on_devices p m lhs_devices (rhs # rest) =
     bindR (DevicesForInstruction p (Color m rhs)) (\<lambda>rhs_devices.
     if lhs_devices = rhs_devices then Inr (Some rhs) else next_on_devices p m lhs_devices rest)"

fun row_dependencies :: "hlo_partition \<Rightarrow> hlo_module \<Rightarrow> iid list \<Rightarrow> (iid \<times> iid) list statusor" where
  "row_dependencies p m [] = Inr []"
| "row_dependencies p m (lhs # rest) =
     bindR (DevicesForInstruction p (Color m lhs)) (\<lambda>lhs_devices.
     bindR (next_on_devices p m lhs_devices rest) (\<lambda>rhs.
     bindR (row_dependencies p m rest) (\<lambda>deps.
     Inr (case rhs of None \<Rightarrow> deps | Some rhs \<Rightarrow> (lhs, rhs) # deps))))"

definition start_unroll :: "unroll_state \<Rightarrow> iid \<Rightarrow> nat \<Rightarrow> unroll_state" where
  "start_unroll st input_tuple iterations =
     st\<lparr>us_clone_map := Map.empty, us_was_loop_dependent := {}, us_tasks := replicate iterations [],
        us_prev_loop_output_tuple := input_tuple, us_dummy_tuples := []\<rparr>"

definition Unroll ::
  "unroll_lib \<Rightarrow> 'j json_api \<Rightarrow> entries \<Rightarrow> cid \<Rightarrow> unroll_state \<times> pass_cleanup \<Rightarrow> iid \<Rightarrow> (unroll_state \<times> pass_cleanup) statusor" where
  "Unroll X J es parent stc while_loop =
     (let (st, cleanup) = stc; G = ul_graph X; m = us_module st in
      bindR (calledR m while_loop) (\<lambda>body.
      bindR (operandR m while_loop 0) (\<lambda>input_tuple.
      bindR (case i_backend_config (m_instr m while_loop) of
               None \<Rightarrow> Inl (Undefined ''no backend config'')
             | Some text \<Rightarrow> GetMicrobatchConfig J (i_name (m_instr m while_loop)) text) (\<lambda>config.
      bindR (paramR m body 0) (\<lambda>parameter_tuple.
      let iterations = nat (num_iterations config) in
      bindR (foldR (unroll_iteration G es config parent body while_loop input_tuple parameter_tuple)
               (start_unroll st input_tuple iterations) [0..<iterations]) (\<lambda>st.
      let prev = us_prev_loop_output_tuple st in
      bindR (foldR (replace_output G prev) (us_module st, cleanup) (users (us_module st) while_loop)) (\<lambda>(m, cleanup).
      let cleanup = foldl RemoveInstruction cleanup (us_dummy_tuples st) in
      bindR (ScheduleLoops (ul_hash_order X) (ul_name_order X) (ul_pop_order X) (us_partition st) m config (us_tasks st)) (\<lambda>sched.
      bindR (mapR (row_dependencies (us_partition st) m) sched) (\<lambda>deps.
      bindR (gl_ReplaceAllUsesWith G m while_loop prev) (\<lambda>m.
      Inr (st\<lparr>us_module := m, us_control := us_control st @ concat deps\<rparr>,
           RemoveInstruction (RemoveInstruction cleanup while_loop) input_tuple)))))))))))"

definition run_loop_step ::
  "unroll_lib \<Rightarrow> 'j json_api \<Rightarrow> entries \<Rightarrow> bool \<times> unroll_state \<times> pass_cleanup \<Rightarrow> iid \<Rightarrow> (bool \<times> unroll_state \<times> pass_cleanup) statusor" where
  "run_loop_step X J es r i =
     (let (changed, st, cleanup) = r; m = us_module st in
      if IsMicrobatchLoop m i
      then bindR (Unroll X J es (m_entry m) (st, cleanup) i) (\<lambda>(st, cleanup).
           bindR (subR (called m i) 0) (\<lambda>body.
           bindR (subR (called m i) 1) (\<lambda>condition.
           Inr (True, st, RemoveComputation (RemoveComputation cleanup body) condition))))
      else Inr r)"

definition MpmdLoopUnroll_Run ::
  "nat \<Rightarrow> nat \<Rightarrow> unroll_lib \<Rightarrow> 'j json_api \<Rightarrow> hlo_module \<times> hlo_partition \<Rightarrow> (bool \<times> unroll_state) statusor" where
  "MpmdLoopUnroll_Run fuel w X J mp =
     (let (m, p) = mp in
      bindR (Create_module fuel w m) (\<lambda>es.
      bindR (foldR (run_loop_step X J es)
               (False, \<lparr>us_module = m, us_partition = p, us_cloned_colors = Map.empty, us_clone_map = Map.empty,
                  us_was_loop_dependent = {}, us_tasks = [], us_prev_loop_output_tuple = 0, us_dummy_tuples = [],
                  us_scheduling_name = (\<lambda>_. ''''), us_control = []\<rparr>, no_cleanup) (post_order m (m_entry m))) (\<lambda>(changed, st, cleanup).
      bindR (CleanUp (ul_graph X) cleanup (us_module st)) (\<lambda>m.
      Inr (changed, st\<lparr>us_module := m\<rparr>)))))"

end
