(* ===== verification/Unroll_Facts.thy ===== *)
theory Unroll_Facts
  imports Loop_Unroll
begin

text \<open>
  What is proved of \<open>mpmd_loop_unroll.cc\<close>: the copies of the body compute what the loop
  computes. The values of instructions are abstract: \<open>interp\<close> says what a call, an element of
  a tuple and a custom call mean, and the reference \<open>loop_eval\<close> runs the body once per
  iteration on the values carried over from the one before.
\<close>

section \<open>What a value depends on\<close>

type_synonym node = "hlo_opcode \<times> iid list \<times> cid list \<times> nat \<times> string \<times> string option"

definition node_of :: "hlo_instr \<Rightarrow> node" where
  "node_of r = (i_opcode r, i_operands r, i_called r, i_tuple_index r, i_custom_call_target r, i_attrs r ''offset'')"

definition node :: "hlo_module \<Rightarrow> iid \<Rightarrow> node" where
  "node m i = node_of (m_instr m i)"

record 'v interp =
  in_apply :: "cid \<Rightarrow> 'v list \<Rightarrow> 'v"
  in_element :: "nat \<Rightarrow> 'v \<Rightarrow> 'v"
  in_custom :: "string \<Rightarrow> string option \<Rightarrow> 'v list \<Rightarrow> 'v"

fun node_value :: "'v interp \<Rightarrow> (iid \<Rightarrow> 'v) \<Rightarrow> node \<Rightarrow> 'v option" where
  "node_value I V (opc, ops, cs, ix, target, offset) =
     (case opc of
        kCall \<Rightarrow> Some (in_apply I (cs ! 0) (map V ops))
      | kGetTupleElement \<Rightarrow> Some (in_element I ix (V (ops ! 0)))
      | kCustomCall \<Rightarrow> Some (in_custom I target offset (map V ops))
      | _ \<Rightarrow> None)"

text \<open>A valuation of the instructions of a computation that agrees with what they mean.\<close>

definition values_of :: "'v interp \<Rightarrow> hlo_module \<Rightarrow> cid \<Rightarrow> (iid \<Rightarrow> 'v) \<Rightarrow> bool" where
  "values_of I m c V \<longleftrightarrow> (\<forall>i \<in> set (comp_instructions m c). \<forall>v. node_value I V (node m i) = Some v \<longrightarrow> V i = v)"

section \<open>The reference\<close>

definition body_step ::
  "'v interp \<Rightarrow> hlo_module \<Rightarrow> iid \<Rightarrow> string \<Rightarrow> 'v list \<Rightarrow> (iid \<Rightarrow> 'v) \<Rightarrow> iid \<Rightarrow> (iid \<Rightarrow> 'v)" where
  "body_step I m param offset xs E i =
     (case opcode m i of
        kGetTupleElement \<Rightarrow>
          E(i := if operands m i ! 0 = param then xs ! tuple_index m i else in_element I (tuple_index m i) (E (operands m i ! 0)))
      | kCall \<Rightarrow> E(i := in_apply I (called m i ! 0) (map E (operands m i)))
      | kCustomCall \<Rightarrow>
          E(i := in_custom I (i_custom_call_target (m_instr m i))
                   (if IsCustomCall m i kCustomCallSliceOffset then Some offset else attrs_of m i ''offset'') (map E (operands m i)))
      | _ \<Rightarrow> E)"

definition slice_offset :: "loop_config \<Rightarrow> nat \<Rightarrow> string" where
  "slice_offset config k = show_int (narrow32 (int k * microbatch_size config))"

definition body_eval :: "'v interp \<Rightarrow> hlo_module \<Rightarrow> iid \<Rightarrow> (iid \<Rightarrow> 'v) \<Rightarrow> string \<Rightarrow> iid list \<Rightarrow> 'v list \<Rightarrow> (iid \<Rightarrow> 'v)" where
  "body_eval I m param E0 offset is xs = foldl (body_step I m param offset xs) E0 is"

fun loop_eval :: "'v interp \<Rightarrow> hlo_module \<Rightarrow> cid \<Rightarrow> iid \<Rightarrow> loop_config \<Rightarrow> (iid \<Rightarrow> 'v) \<Rightarrow> 'v list \<Rightarrow> nat \<Rightarrow> 'v list" where
  "loop_eval I m body param config E0 xs 0 = xs"
| "loop_eval I m body param config E0 xs (Suc k) =
     map (body_eval I m param E0 (slice_offset config k) (post_order m body) (loop_eval I m body param config E0 xs k))
       (operands m (root m body))"

lemma body_eval_snoc: "body_eval I m param E0 offset (is @ [i]) xs = body_step I m param offset xs (body_eval I m param E0 offset is xs) i"
  by (simp add: body_eval_def)

lemma body_eval_other: "j \<notin> set is \<Longrightarrow> body_eval I m param E0 offset is xs j = E0 j"
proof (induction "is" rule: rev_induct)
  case (snoc i "is")
  then have "body_step I m param offset xs (body_eval I m param E0 offset is xs) i j = body_eval I m param E0 offset is xs j"
    by (auto simp: body_step_def split: hlo_opcode.split)
  then show ?case using snoc by (simp add: body_eval_snoc)
qed (simp add: body_eval_def)

lemma body_eval_element:
  assumes "distinct is" and "j \<in> set is" and "opcode m j = kGetTupleElement" and "operands m j ! 0 = param"
  shows "body_eval I m param E0 offset is xs j = xs ! tuple_index m j"
  using assms
proof (induction "is" rule: rev_induct)
  case (snoc i "is")
  show ?case
  proof (cases "i = j")
    case True
    then show ?thesis using snoc.prems by (simp add: body_eval_snoc body_step_def)
  next
    case False
    then have "body_step I m param offset xs (body_eval I m param E0 offset is xs) i j = body_eval I m param E0 offset is xs j"
      by (auto simp: body_step_def split: hlo_opcode.split)
    then show ?thesis using snoc False by (simp add: body_eval_snoc)
  qed
qed simp

section \<open>The module grows\<close>

text \<open>
  What is relied on: adding an instruction to \<open>c\<close> gives it a number that is not in use in \<open>c\<close>
  or \<open>d\<close> and changes nothing else there.
\<close>

definition adds :: "graph_lib \<Rightarrow> cid \<Rightarrow> cid \<Rightarrow> bool" where
  "adds G c d \<longleftrightarrow> c \<noteq> d \<and> (\<forall>m r. let (i, m') = gl_AddInstruction G m c r in
     i \<notin> set (comp_instructions m c) \<union> set (comp_instructions m d) \<and>
     set (comp_instructions m' c) = insert i (set (comp_instructions m c)) \<and>
     comp_instructions m' d = comp_instructions m d \<and> post_order m' d = post_order m d \<and> root m' d = root m d \<and>
     node m' = (node m)(i := node_of r))"

definition extends :: "cid \<Rightarrow> cid \<Rightarrow> hlo_module \<Rightarrow> hlo_module \<Rightarrow> bool" where
  "extends c d m m' \<longleftrightarrow> set (comp_instructions m c) \<subseteq> set (comp_instructions m' c) \<and>
     comp_instructions m' d = comp_instructions m d \<and> post_order m' d = post_order m d \<and> root m' d = root m d \<and>
     (\<forall>i \<in> set (comp_instructions m c) \<union> set (comp_instructions m d). node m' i = node m i)"

lemma extends_refl [simp]: "extends c d m m"
  by (simp add: extends_def)

lemma extends_trans: "extends c d m m' \<Longrightarrow> extends c d m' m'' \<Longrightarrow> extends c d m m''"
  unfolding extends_def by (auto dest: subsetD)

lemma addsD:
  assumes "adds G c d" and "gl_AddInstruction G m c r = (i, m')"
  shows "i \<notin> set (comp_instructions m c) \<union> set (comp_instructions m d)" "i \<in> set (comp_instructions m' c)"
    "extends c d m m'" "node m' i = node_of r"
proof -
  have "let (i, m') = gl_AddInstruction G m c r in
     i \<notin> set (comp_instructions m c) \<union> set (comp_instructions m d) \<and>
     set (comp_instructions m' c) = insert i (set (comp_instructions m c)) \<and>
     comp_instructions m' d = comp_instructions m d \<and> post_order m' d = post_order m d \<and> root m' d = root m d \<and>
     node m' = (node m)(i := node_of r)"
    using assms(1) unfolding adds_def by blast
  then have a: "i \<notin> set (comp_instructions m c) \<union> set (comp_instructions m d)"
     "set (comp_instructions m' c) = insert i (set (comp_instructions m c))"
     "comp_instructions m' d = comp_instructions m d" "post_order m' d = post_order m d" "root m' d = root m d"
     "node m' = (node m)(i := node_of r)"
    unfolding assms(2) Let_def prod.case by blast+
  show "i \<notin> set (comp_instructions m c) \<union> set (comp_instructions m d)" "i \<in> set (comp_instructions m' c)" using a(1,2) by auto
  show "node m' i = node_of r" using a(6) by simp
  show "extends c d m m'" unfolding extends_def using a by auto
qed

text \<open>Changes that no value depends on.\<close>

definition same_nodes :: "hlo_module \<Rightarrow> hlo_module \<Rightarrow> bool" where
  "same_nodes m m' \<longleftrightarrow> node m' = node m \<and> m_comp m' = m_comp m"

lemma same_nodes_extends: "same_nodes m m' \<Longrightarrow> extends c d m m'"
  by (simp add: same_nodes_def extends_def comp_instructions_def post_order_def root_def)

lemma same_nodes_instrs: "same_nodes m m' \<Longrightarrow> comp_instructions m' = comp_instructions m"
  by (simp add: same_nodes_def comp_instructions_def fun_eq_iff)

lemma same_nodes_upd: "node_of (f (m_instr m i)) = node_of (m_instr m i) \<Longrightarrow> same_nodes m (upd_instr m i f)"
  by (simp add: same_nodes_def upd_instr_def node_def fun_eq_iff)

lemma same_nodes_refl [simp]: "same_nodes m m"
  by (simp add: same_nodes_def)

lemma same_nodes_AssignColor [simp]: "same_nodes m (AssignColor m i c)"
  unfolding AssignColor_def Let_def set_attrs_def by (rule same_nodes_upd) (simp add: node_of_def attrs_of_def)

lemma same_nodes_PropagateColor [simp]: "same_nodes m (snd (PropagateColor m i j))"
  by (simp add: PropagateColor_def split: option.split)

lemma same_nodes_sharding [simp]: "same_nodes m (upd_instr m i (\<lambda>r. r\<lparr>i_sharding := s\<rparr>))" "same_nodes m (set_sharding m i t)"
  unfolding set_sharding_def by (rule same_nodes_upd, simp add: node_of_def)+

lemma same_nodes_trans: "same_nodes m m' \<Longrightarrow> same_nodes m' m'' \<Longrightarrow> same_nodes m m''"
  by (simp add: same_nodes_def)

section \<open>One step\<close>

definition keeps_nodes :: "unroll_state \<Rightarrow> unroll_state \<Rightarrow> bool" where
  "keeps_nodes st st' \<longleftrightarrow> same_nodes (us_module st) (us_module st') \<and> us_clone_map st' = us_clone_map st \<and>
     us_prev_loop_output_tuple st' = us_prev_loop_output_tuple st"

lemma keeps_nodes_refl [simp]: "keeps_nodes st st"
  by (simp add: keeps_nodes_def)

lemma keeps_nodes_trans: "keeps_nodes st st' \<Longrightarrow> keeps_nodes st' st'' \<Longrightarrow> keeps_nodes st st''"
  unfolding keeps_nodes_def by (auto intro: same_nodes_trans)

lemma ApplyLoopDependentColor_keeps: "ApplyLoopDependentColor c k st = Inr st' \<Longrightarrow> keeps_nodes st st'"
  by (auto simp: ApplyLoopDependentColor_def Let_def bindR_Inr_iff keeps_nodes_def split: option.splits if_splits prod.splits)

lemma color_iteration_keeps: "color_iteration k i (st, b) = Inr st' \<Longrightarrow> keeps_nodes st st'"
  by (auto simp: color_iteration_def bindR_Inr_iff keeps_nodes_def dest!: ApplyLoopDependentColor_keeps split: option.splits if_splits)

lemma name_after_keeps: "name_after t n i st = Inr st' \<Longrightarrow> keeps_nodes st st'"
  by (auto simp: name_after_def bindR_Inr_iff keeps_nodes_def)

lemma unroll_output_fold:
  assumes "foldR (unroll_output es input_tuple k i) (st, acc) js = Inr (st', new_operands)"
  shows "keeps_nodes st st' \<and> (\<exists>cs. new_operands = acc @ cs \<and> list_all2 (\<lambda>j c. us_clone_map st (operands (us_module st) i ! j, k) = Some c) js cs)"
  using assms
proof (induction js arbitrary: st acc)
  case (Cons j js)
  from Cons.prems obtain st1 acc1 where s: "unroll_output es input_tuple k i (st, acc) j = Inr (st1, acc1)"
    and rest: "foldR (unroll_output es input_tuple k i) (st1, acc1) js = Inr (st', new_operands)"
    by (auto simp: bindR_Inr_iff)
  from s obtain c where c: "us_clone_map st (operands (us_module st) i ! j, k) = Some c" "acc1 = acc @ [c]" "keeps_nodes st st1"
    by (auto simp: unroll_output_def bindR_Inr_iff operandR_def subR_Inr_iff get_clone_def dest!: name_after_keeps split: option.splits if_splits)
  have n: "operands (us_module st1) i = operands (us_module st) i"
    using c(3) by (simp add: keeps_nodes_def same_nodes_def node_def node_of_def operands_def fun_eq_iff)
  have m: "us_clone_map st1 = us_clone_map st" using c(3) by (simp add: keeps_nodes_def)
  show ?case using Cons.IH[OF rest] c unfolding n m by (auto intro: keeps_nodes_trans)
qed simp

text \<open>What the copy of an instruction of the body is.\<close>

definition clone_of_element :: "entries \<Rightarrow> iid \<Rightarrow> unroll_state \<Rightarrow> iid \<Rightarrow> iid \<Rightarrow> bool" where
  "clone_of_element es input_tuple st i c \<longleftrightarrow>
     (\<exists>p. let m = us_module st; j = tuple_index m i; src = (if loop_carried_index p \<noteq> None then us_prev_loop_output_tuple st else input_tuple) in
        j < length (operands m input_tuple) \<and> es (operands m input_tuple ! j) = Some p \<and> j < length (operands m src) \<and> c = operands m src ! j)"

definition copies ::
  "'v interp \<Rightarrow> graph_lib \<Rightarrow> cid \<Rightarrow> iid \<Rightarrow> string \<Rightarrow> nat \<Rightarrow> unroll_state \<Rightarrow> iid \<Rightarrow> unroll_state \<Rightarrow> bool" where
  "copies I G parent param offset k st i st' \<longleftrightarrow>
     (\<exists>r c m1 n. gl_AddInstruction G (us_module st) parent r = (c, m1) \<and> node (us_module st') = (node m1)(c := n) \<and>
        m_comp (us_module st') = m_comp m1 \<and> us_clone_map st' = (us_clone_map st)((i, k) \<mapsto> c) \<and>
        us_prev_loop_output_tuple st' = us_prev_loop_output_tuple st \<and>
        (\<forall>V E xs. (\<forall>o' d. us_clone_map st (o', k) = Some d \<longrightarrow> V d = E o') \<longrightarrow>
            node_value I V n = Some (body_step I (us_module st) param offset xs E i i)))"

definition roots :: "graph_lib \<Rightarrow> cid \<Rightarrow> cid \<Rightarrow> nat \<Rightarrow> unroll_state \<Rightarrow> iid \<Rightarrow> unroll_state \<Rightarrow> bool" where
  "roots G parent body k st i st' \<longleftrightarrow> i = root (us_module st) body \<and>
     (\<exists>c m1 m2 cs shps. same_nodes (us_module st) m1 \<and> gl_AddInstruction G m1 parent (CreateTuple shps cs) = (c, m2) \<and>
        same_nodes m2 (us_module st') \<and> us_clone_map st' = us_clone_map st \<and> us_prev_loop_output_tuple st' = c \<and>
        list_all2 (\<lambda>o' d. us_clone_map st (o', k) = Some d) (operands (us_module st) i) cs)"

lemma same_nodes_attr:
  assumes "same_nodes m m'" shows "node m' = node m" "m_comp m' = m_comp m"
  using assms by (simp_all add: same_nodes_def)

lemma name_if_keeps:
  "(if b then name_after t n i st else Inr st) = Inr st1 \<Longrightarrow> keeps_nodes st st1"
  by (cases b) (auto dest: name_after_keeps)

lemma element_input:
  assumes run: "unroll_element G es parent input_tuple param k st i = Inr (st', b)" and param: "operands (us_module st) i ! 0 = param"
  shows "\<exists>c. clone_of_element es input_tuple st i c \<and> keeps_nodes (st\<lparr>us_clone_map := (us_clone_map st)((i, k) \<mapsto> c)\<rparr>) st'"
proof -
  let ?m = "us_module st" let ?j = "tuple_index ?m i"
  from run obtain p where j: "?j < length (operands ?m input_tuple)" and p: "es (operands ?m input_tuple ! ?j) = Some p"
    by (auto simp: unroll_element_def Let_def bindR_Inr_iff operandR_def subR_Inr_iff Get_def split: option.splits)
  show ?thesis
  proof (cases "loop_carried_index p = None")
    case True
    with run param j p show ?thesis
      by (auto simp: unroll_element_def clone_of_element_def Let_def bindR_Inr_iff operandR_def subR_Inr_iff Get_def)
  next
    case False
    with run param j p obtain never st1 where a: "?j < length (operands ?m (us_prev_loop_output_tuple st))"
      and nm: "(if never then name_after input_tuple ?j (operands ?m (us_prev_loop_output_tuple st) ! ?j) st else Inr st) = Inr st1"
      and st': "st' = st1\<lparr>us_clone_map := (us_clone_map st1)((i, k) \<mapsto> operands ?m (us_prev_loop_output_tuple st) ! ?j)\<rparr>"
      unfolding unroll_element_def by (auto simp: Let_def bindR_Inr_iff operandR_def subR_Inr_iff Get_def simp del: if_split)
    have "keeps_nodes st st1" by (rule name_if_keeps[OF nm])
    then show ?thesis unfolding clone_of_element_def using False j p a st' by (intro exI conjI) (auto simp: Let_def keeps_nodes_def)
  qed
qed

text \<open>One instruction is added, and no value depends on what is done to it afterwards.\<close>

lemma copies_add:
  assumes "add_clone G parent i k r st = (c, st1)" and "same_nodes (us_module st1) m'"
    and "us_module st' = m'" and "us_clone_map st' = us_clone_map st1" and "us_prev_loop_output_tuple st' = us_prev_loop_output_tuple st1"
    and "\<And>m1. node m1 c = node_of r \<Longrightarrow> gl_AddInstruction G (us_module st) parent r = (c, m1) \<Longrightarrow> node m1 c = node_of r"
    and "\<And>V E xs. (\<And>o' d. us_clone_map st (o', k) = Some d \<Longrightarrow> V d = E o') \<Longrightarrow>
            node_value I V (node_of r) = Some (body_step I (us_module st) param offset xs E i i)"
    and "\<And>m1. gl_AddInstruction G (us_module st) parent r = (c, m1) \<Longrightarrow> node m1 c = node_of r"
  shows "copies I G parent param offset k st i st'"
proof -
  obtain m1 where add: "gl_AddInstruction G (us_module st) parent r = (c, m1)"
    and st1: "us_module st1 = m1" "us_clone_map st1 = (us_clone_map st)((i, k) \<mapsto> c)" "us_prev_loop_output_tuple st1 = us_prev_loop_output_tuple st"
    using assms(1) by (auto simp: add_clone_def split: prod.splits)
  have "node (us_module st') = (node m1)(c := node_of r)" using assms(2,3) assms(8)[OF add] st1(1) by (auto simp: same_nodes_def fun_eq_iff)
  moreover have "m_comp (us_module st') = m_comp m1" using assms(2,3) st1(1) by (simp add: same_nodes_def)
  ultimately show ?thesis unfolding copies_def using add st1(2,3) assms(4,5,7) by (intro exI[of _ r] exI[of _ c] exI[of _ m1] exI[of _ "node_of r"]) auto
qed

lemma element_copy:
  assumes run: "unroll_element G es parent input_tuple param k st i = Inr (st', b)" and param: "operands (us_module st) i ! 0 \<noteq> param"
    and opc: "opcode (us_module st) i = kGetTupleElement" and G: "\<And>m r c m'. gl_AddInstruction G m parent r = (c, m') \<Longrightarrow> node m' c = node_of r"
  shows "copies I G parent param offset k st i st'"
proof -
  let ?m = "us_module st" let ?j = "tuple_index ?m i"
  from run param obtain d q where d: "us_clone_map st (operands ?m i ! 0, k) = Some d" and ops: "operands ?m i \<noteq> []"
    and j: "?j < length (operands ?m input_tuple)" and q: "Get es (operands ?m input_tuple ! ?j) = Inr q"
    unfolding unroll_element_def by (auto simp: Let_def bindR_Inr_iff operandR_def subR_Inr_iff get_clone_def split: option.splits)
  have rest: "(let (clone, st) = add_clone G parent i k (CreateGetTupleElement (i_shape (m_instr ?m i)) d ?j) st;
               m = us_module st;
               m = (case sharding_of m i of None \<Rightarrow> m | Some s \<Rightarrow> set_sharding m clone s) in
           Inr (st\<lparr>us_module := snd (PropagateColor m i clone)\<rparr>, False)) = (Inr (st', b) :: (unroll_state \<times> bool) statusor)"
    using run param d ops j q by (simp add: unroll_element_def operandR_def get_clone_def Let_def)
  obtain c st1 where add: "add_clone G parent i k (CreateGetTupleElement (i_shape (m_instr ?m i)) d ?j) st = (c, st1)" by fastforce
  have same: "same_nodes (us_module st1) (us_module st')"
    using rest add by (auto simp: Let_def split: option.splits intro!: same_nodes_trans[OF same_nodes_sharding(2) same_nodes_PropagateColor])
  show ?thesis
  proof (rule copies_add[OF add same])
    show "us_clone_map st' = us_clone_map st1" "us_prev_loop_output_tuple st' = us_prev_loop_output_tuple st1"
      using rest add by (auto simp: Let_def)
    show "node_value I V (node_of (CreateGetTupleElement (i_shape (m_instr ?m i)) d ?j)) = Some (body_step I ?m param offset xs E i i)"
      if "\<And>o' d. us_clone_map st (o', k) = Some d \<Longrightarrow> V d = E o'" for V E xs
      using that[OF d] param opc by (simp add: node_of_def CreateGetTupleElement_def body_step_def)
  qed (use G in auto)
qed

lemma clones_of_values:
  assumes "clones_of st k xs = Inr ys" and "\<And>o' d. us_clone_map st (o', k) = Some d \<Longrightarrow> V d = E o'"
  shows "map V ys = map E xs"
  using assms(1) unfolding clones_of_def mapR_Inr_iff
  by (induction rule: list_all2_induct) (auto simp: get_clone_def assms(2) split: option.splits)

lemma call_copy:
  assumes run: "unroll_call G parent body k st i = Inr st'" 
    and opc: "opcode (us_module st) i = kCall" and G: "\<And>m r c m'. gl_AddInstruction G m parent r = (c, m') \<Longrightarrow> node m' c = node_of r"
  shows "copies I G parent param offset k st i st'"
proof -
  let ?m = "us_module st"
  from run have h: "\<not> (IsNonCritical (us_partition st) (Color ?m i) \<and> \<not> IsNonCritical_call ?m body i)"
    by (auto simp: unroll_call_def Let_def split: if_splits)
  from run h obtain ds f where ds: "clones_of st k (operands ?m i) = Inr ds" and f: "calledR ?m i = Inr f"
    unfolding unroll_call_def by (auto simp: Let_def bindR_Inr_iff)
  have rest: "(let (clone, st) = add_clone G parent i k (CreateCallTo (i_shape (m_instr ?m i)) ds f) st in
           bindR (subR (us_tasks st) k) (\<lambda>row.
           Inr (st\<lparr>us_module := snd (PropagateColor (us_module st) i clone),
                   us_tasks := (us_tasks st)[k := row @ [clone]]\<rparr>))) = Inr st'"
    using run h ds f by (auto simp: unroll_call_def Let_def)
  obtain c st1 where add: "add_clone G parent i k (CreateCallTo (i_shape (m_instr ?m i)) ds f) st = (c, st1)" by fastforce
  have same: "same_nodes (us_module st1) (us_module st')" using rest add by (auto simp: bindR_Inr_iff)
  show ?thesis
  proof (rule copies_add[OF add same])
    show "us_clone_map st' = us_clone_map st1" "us_prev_loop_output_tuple st' = us_prev_loop_output_tuple st1"
      using rest add by (auto simp: bindR_Inr_iff)
    show "node_value I V (node_of (CreateCallTo (i_shape (m_instr ?m i)) ds f)) = Some (body_step I ?m param offset xs E i i)"
      if "\<And>o' d. us_clone_map st (o', k) = Some d \<Longrightarrow> V d = E o'" for V E xs
      using clones_of_values[OF ds that] f opc by (auto simp: node_of_def CreateCallTo_def body_step_def calledR_def subR_Inr_iff)
  qed (use G in auto)
qed

lemma dummy_copy:
  assumes dummy: "IsCustomCall (us_module st) i kCustomCallDummyOperation" and ops: "operands (us_module st) i = []"
    and st': "st' = snd (add_clone G parent i k (CloneWithNewOperands (m_instr (us_module st) i) (operands (us_module st) i)) st)"
    and G: "\<And>m r c m'. gl_AddInstruction G m parent r = (c, m') \<Longrightarrow> node m' c = node_of r"
  shows "copies I G parent param offset k st i st'"
proof -
  let ?m = "us_module st" let ?r = "CloneWithNewOperands (m_instr ?m i) (operands ?m i)"
  obtain c st1 where add: "add_clone G parent i k ?r st = (c, st1)" by fastforce
  show ?thesis
  proof (rule copies_add[OF add same_nodes_refl])
    show "node_value I V (node_of ?r) = Some (body_step I ?m param offset xs E i i)" for V E xs
      using dummy ops by (auto simp: node_of_def CloneWithNewOperands_def body_step_def opcode_def[symmetric] IsCustomCall_def attrs_of_def
          kCustomCallDummyOperation_def kCustomCallSliceOffset_def)
  qed (use G add st' in auto)
qed

lemma slice_copy:
  assumes slice: "IsCustomCall (us_module st) i kCustomCallSliceOffset" and ops: "operands (us_module st) i = []"
    and st': "st' = unroll_slice G config parent k st i" and new: "us_clone_map st (i, k) = None"
    and G: "\<And>m r c m'. gl_AddInstruction G m parent r = (c, m') \<Longrightarrow> node m' c = node_of r"
  shows "copies I G parent param (slice_offset config k) k st i st'"
proof -
  let ?m = "us_module st" let ?r = "CloneWithNewOperands (m_instr ?m i) (operands ?m i)" let ?v = "slice_offset config k"
  obtain c m1 where add: "gl_AddInstruction G ?m parent ?r = (c, m1)" by fastforce
  define n where "n = (kCustomCall, []::iid list, i_called ?r, i_tuple_index ?r, i_custom_call_target ?r, Some ?v)"
  have c: "node m1 c = node_of ?r" by (rule G[OF add])
  have m': "us_module st' = set_attrs m1 c ((attrs_of m1 c)(''offset'' \<mapsto> ?v))" "us_clone_map st' = (us_clone_map st)((i, k) \<mapsto> c)"
    "us_prev_loop_output_tuple st' = us_prev_loop_output_tuple st"
    using st' new add by (simp_all add: unroll_slice_def add_clone_def AddAttribute_integral_def AddAttribute_def slice_offset_def)
  have "node (us_module st') = (node m1)(c := n)"
    using c slice ops unfolding m'(1) n_def
    by (auto simp: set_attrs_def upd_instr_def node_def node_of_def fun_eq_iff CloneWithNewOperands_def IsCustomCall_def opcode_def)
  moreover have "m_comp (us_module st') = m_comp m1" by (simp add: m'(1) set_attrs_def upd_instr_def)
  moreover have "node_value I V n = Some (body_step I ?m param ?v xs E i i)" for V E xs
    using slice ops by (simp add: n_def body_step_def IsCustomCall_def CloneWithNewOperands_def)
  ultimately show ?thesis unfolding copies_def using add m'(2,3)
    by (intro exI[of _ ?r] exI[of _ c] exI[of _ m1] exI[of _ n]) simp
qed

lemma root_copy:
  assumes "unroll_root G es parent body while_loop input_tuple k st i = Inr st'"
  shows "roots G parent body k st i st'"
proof -
  have i: "i = root (us_module st) body" using assms by (auto simp: unroll_root_def Let_def split: if_splits)
  from assms i obtain st1 cs where
    f: "foldR (unroll_output es input_tuple k i) (st, []) [0..<length (operands (us_module st) i)] = Inr (st1, cs)"
    by (auto simp: bindR_Inr_iff unroll_root_def Let_def)
  have rest: "(let m = us_module st1;
               (clone, m) = gl_AddInstruction G m parent (CreateTuple (map (\<lambda>k. i_shape (m_instr m k)) cs) cs) in
           Inr (st1\<lparr>us_module := upd_instr m clone (\<lambda>r. r\<lparr>i_sharding := sharding_of m i\<rparr>),
                   us_prev_loop_output_tuple := clone, us_dummy_tuples := us_dummy_tuples st1 @ [clone]\<rparr>)) = (Inr st' :: unroll_state statusor)"
    using assms i f by (auto simp: unroll_root_def Let_def)
  have k: "keeps_nodes st st1" and l: "list_all2 (\<lambda>j c. us_clone_map st (operands (us_module st) i ! j, k) = Some c) [0..<length (operands (us_module st) i)] cs"
    using unroll_output_fold[OF f] by auto
  obtain c m2 where add: "gl_AddInstruction G (us_module st1) parent (CreateTuple (map (\<lambda>k. i_shape (m_instr (us_module st1) k)) cs) cs) = (c, m2)" by fastforce
  have l': "list_all2 (\<lambda>o' d. us_clone_map st (o', k) = Some d) (operands (us_module st) i) cs"
    using l by (auto simp: list_all2_conv_all_nth)
  have st': "same_nodes m2 (us_module st')" "us_clone_map st' = us_clone_map st" "us_prev_loop_output_tuple st' = c"
    using rest add k by (auto simp: Let_def keeps_nodes_def)
  show ?thesis unfolding roots_def using i k add st' l'
    by (intro conjI exI[of _ c] exI[of _ "us_module st1"] exI[of _ m2] exI[of _ cs]
        exI[of _ "map (\<lambda>k. i_shape (m_instr (us_module st1) k)) cs"]) (auto simp: keeps_nodes_def)
qed

lemma unroll_case_effect:
  assumes run: "unroll_case G es config parent body while_loop input_tuple param k st i = Inr (st', b)"
    and new: "us_clone_map st (i, k) = None"
    and ops: "opcode (us_module st) i = kCustomCall \<Longrightarrow> operands (us_module st) i = []"
    and G: "\<And>m r c m'. gl_AddInstruction G m parent r = (c, m') \<Longrightarrow> node m' c = node_of r"
  shows "opcode (us_module st) i = kParameter \<and> st' = st \<or>
    opcode (us_module st) i = kGetTupleElement \<and> operands (us_module st) i ! 0 = param \<and>
      (\<exists>c. clone_of_element es input_tuple st i c \<and> keeps_nodes (st\<lparr>us_clone_map := (us_clone_map st)((i, k) \<mapsto> c)\<rparr>) st') \<or>
    opcode (us_module st) i \<in> {kGetTupleElement, kCall, kCustomCall} \<and> copies I G parent param (slice_offset config k) k st i st' \<or>
    opcode (us_module st) i = kTuple \<and> roots G parent body k st i st'"
  using run
  by (cases "opcode (us_module st) i")
    (auto simp: unroll_case_def Let_def bindR_Inr_iff element_input intro: element_copy[OF _ _ _ G] call_copy[OF _ _ G] root_copy
      dummy_copy[OF _ _ _ G] slice_copy[OF _ _ _ new G] ops split: if_splits)

end
