(* ===== verification/Unroll_Equivalence.thy ===== *)
theory Unroll_Equivalence
  imports Unroll_Facts Graph_Cleanup
begin

text \<open>
  The copies \<open>mpmd_loop_unroll.cc\<close> makes of the body of a loop compute what the loop computes:
  the operands of the last tuple have the values the reference \<open>loop_eval\<close> gives.
\<close>

section \<open>The effect of a step on the values\<close>

lemma adds_node: "adds G c d \<Longrightarrow> gl_AddInstruction G m c r = (i, m') \<Longrightarrow> node m' i = node_of r"
  by (rule addsD(4))

lemma adds_extends:
  assumes "adds G parent body" and "gl_AddInstruction G m parent r = (c, m1)" and "node m' = (node m1)(c := n)" and "m_comp m' = m_comp m1"
  shows "extends parent body m m'" "c \<in> set (comp_instructions m' parent)"
  using addsD[OF assms(1,2)] assms(3,4) unfolding extends_def
  by (auto simp: comp_instructions_def post_order_def root_def)

lemma body_step_node:
  assumes "node m i = node m' i"
  shows "body_step I m param offset xs E i = body_step I m' param offset xs E i"
  using assms by (simp add: body_step_def node_def node_of_def opcode_def operands_def tuple_index_def called_def IsCustomCall_def attrs_of_def split: hlo_opcode.split)

lemma body_step_at: "j \<noteq> i \<Longrightarrow> body_step I m param offset xs E i j = E j"
  by (auto simp: body_step_def split: hlo_opcode.split)

lemma node_sel:
  assumes "node m i = node m' i"
  shows "opcode m i = opcode m' i" "operands m i = operands m' i" "tuple_index m i = tuple_index m' i"
  using assms by (simp_all add: node_def node_of_def opcode_def operands_def tuple_index_def)

definition supported :: "hlo_module \<Rightarrow> cid \<Rightarrow> iid \<Rightarrow> bool" where
  "supported m body i \<longleftrightarrow> i \<in> set (comp_instructions m body) \<and> (opcode m i = kCustomCall \<longrightarrow> operands m i = [])"

lemma supported_extends: "extends parent body m m' \<Longrightarrow> supported m' body i \<longleftrightarrow> supported m body i"
  unfolding supported_def extends_def using node_sel by (metis UnI2)

lemma unroll_step_effect:
  assumes "unroll_step G es config parent body while_loop input_tuple param k st i = Inr st'"
    and "us_clone_map st (i, k) = None" and "supported (us_module st) body i" and G: "adds G parent body"
  obtains st1 where "keeps_nodes st1 st'"
    "opcode (us_module st) i = kParameter \<and> st1 = st \<or>
      opcode (us_module st) i = kGetTupleElement \<and> operands (us_module st) i ! 0 = param \<and>
        (\<exists>c. clone_of_element es input_tuple st i c \<and> keeps_nodes (st\<lparr>us_clone_map := (us_clone_map st)((i, k) \<mapsto> c)\<rparr>) st1) \<or>
      opcode (us_module st) i \<in> {kGetTupleElement, kCall, kCustomCall} \<and> copies I G parent param (slice_offset config k) k st i st1 \<or>
      opcode (us_module st) i = kTuple \<and> roots G parent body k st i st1"
proof -
  from assms(1) obtain st1 b where s: "unroll_case G es config parent body while_loop input_tuple param k st i = Inr (st1, b)"
    and c: "color_iteration k i (st1, b) = Inr st'"
    unfolding unroll_step_def by (auto simp: bindR_Inr_iff)
  show ?thesis
    by (rule that[OF color_iteration_keeps[OF c]], rule unroll_case_effect[OF s])
      (use assms in \<open>auto simp: supported_def dest: adds_node[OF G]\<close>)
qed

lemma unroll_step_grows:
  assumes run: "unroll_step G es config parent body while_loop input_tuple param k st i = Inr st'"
    and new: "us_clone_map st (i, k) = None" and i: "supported (us_module st) body i" and G: "adds G parent body"
  shows "extends parent body (us_module st) (us_module st')"
    "us_clone_map st' (o', l) \<noteq> None \<Longrightarrow> us_clone_map st (o', l) \<noteq> None \<or> (o', l) = (i, k)"
proof -
  obtain st1 where k: "keeps_nodes st1 st'" and e: "opcode (us_module st) i = kParameter \<and> st1 = st \<or>
      opcode (us_module st) i = kGetTupleElement \<and> operands (us_module st) i ! 0 = param \<and>
        (\<exists>c. clone_of_element es input_tuple st i c \<and> keeps_nodes (st\<lparr>us_clone_map := (us_clone_map st)((i, k) \<mapsto> c)\<rparr>) st1) \<or>
      opcode (us_module st) i \<in> {kGetTupleElement, kCall, kCustomCall} \<and> copies (undefined :: unit interp) G parent param (slice_offset config k) k st i st1 \<or>
      opcode (us_module st) i = kTuple \<and> roots G parent body k st i st1"
    by (rule unroll_step_effect[OF run new i G])
  have x: "extends parent body (us_module st1) (us_module st')" and m: "us_clone_map st' = us_clone_map st1"
    using k by (auto simp: keeps_nodes_def intro: same_nodes_extends)
  have y: "extends parent body (us_module st) (us_module st1) \<and> (\<exists>c. us_clone_map st1 = us_clone_map st \<or> us_clone_map st1 = (us_clone_map st)((i, k) \<mapsto> c))"
    using e
  proof (elim disjE conjE exE)
    assume "copies (undefined :: unit interp) G parent param (slice_offset config k) k st i st1"
    then show ?thesis unfolding copies_def using adds_extends(1)[OF G] by blast
  next
    assume "roots G parent body k st i st1"
    then show ?thesis unfolding roots_def using same_nodes_extends addsD(3)[OF G] extends_trans by metis
  qed (auto simp: keeps_nodes_def intro: same_nodes_extends)
  show "extends parent body (us_module st) (us_module st')" using y x extends_trans by blast
  show "us_clone_map st' (o', l) \<noteq> None \<Longrightarrow> us_clone_map st (o', l) \<noteq> None \<or> (o', l) = (i, k)"
    using y m by (auto split: if_splits)
qed

text \<open>What holds after the instructions \<open>ps\<close> of iteration \<open>k\<close>.\<close>

definition prefix_values ::
  "'v interp \<Rightarrow> hlo_module \<Rightarrow> cid \<Rightarrow> iid \<Rightarrow> loop_config \<Rightarrow> (iid \<Rightarrow> 'v) \<Rightarrow> (iid \<Rightarrow> 'v) \<Rightarrow> nat \<Rightarrow> 'v list \<Rightarrow> iid list \<Rightarrow> unroll_state \<Rightarrow> bool" where
  "prefix_values I m0 parent param config E0 V k xs ps st \<longleftrightarrow>
     (\<forall>i c. us_clone_map st (i, k) = Some c \<longrightarrow>
        c \<in> set (comp_instructions (us_module st) parent) \<and> V c = body_eval I m0 param E0 (slice_offset config k) ps xs i)"

definition prev_values :: "cid \<Rightarrow> (iid \<Rightarrow> 'v) \<Rightarrow> 'v list \<Rightarrow> unroll_state \<Rightarrow> bool" where
  "prev_values parent V xs st \<longleftrightarrow>
     (let m = us_module st; t = us_prev_loop_output_tuple st in
      t \<in> set (comp_instructions m parent) \<and> set (operands m t) \<subseteq> set (comp_instructions m parent) \<and> map V (operands m t) = xs)"

text \<open>The inputs that are not carried are the same in every iteration.\<close>

definition fixed_inputs :: "entries \<Rightarrow> hlo_module \<Rightarrow> iid \<Rightarrow> (iid \<Rightarrow> 'v) \<Rightarrow> 'v list \<Rightarrow> bool" where
  "fixed_inputs es m0 input_tuple V xs \<longleftrightarrow>
     (\<forall>j < length (operands m0 input_tuple). \<forall>p. es (operands m0 input_tuple ! j) = Some p \<longrightarrow> loop_carried_index p = None \<longrightarrow>
        xs ! j = V (operands m0 input_tuple ! j))"

lemma prev_values_extends:
  assumes "prev_values parent V xs st" and "extends parent body (us_module st) (us_module st')"
    and "us_prev_loop_output_tuple st' = us_prev_loop_output_tuple st"
  shows "prev_values parent V xs st'"
proof -
  let ?t = "us_prev_loop_output_tuple st"
  have "?t \<in> set (comp_instructions (us_module st) parent)" using assms(1) by (simp add: prev_values_def Let_def)
  then have n: "operands (us_module st') ?t = operands (us_module st) ?t" using assms(2) node_sel(2) unfolding extends_def by blast
  show ?thesis using assms unfolding prev_values_def Let_def assms(3) n unfolding extends_def by auto
qed

lemma unroll_step_values:
  assumes run: "unroll_step G es config parent body while_loop input_tuple param k st i = Inr st'"
    and new: "us_clone_map st (i, k) = None" and i: "supported m0 body i" and G: "adds G parent body"
    and m0: "extends parent body m0 (us_module st)"
    and it: "input_tuple \<in> set (comp_instructions m0 parent)" "set (operands m0 input_tuple) \<subseteq> set (comp_instructions m0 parent)"
    and V: "extends parent body (us_module st') mf" "values_of I mf parent V"
    and fixed: "fixed_inputs es m0 input_tuple V xs"
    and pre: "prefix_values I m0 parent param config E0 V k xs ps st" "prev_values parent V xs st"
    and nroot: "opcode m0 i \<noteq> kTuple"
  shows "prefix_values I m0 parent param config E0 V k xs (ps @ [i]) st'" "prev_values parent V xs st'"
proof -
  let ?m = "us_module st" and ?off = "slice_offset config k"
  have i': "supported ?m body i" using i supported_extends[OF m0] by blast
  have ni: "node ?m i = node m0 i" using m0 i by (auto simp: extends_def supported_def)
  note sel = node_sel[OF ni]
  have nit: "operands ?m input_tuple = operands m0 input_tuple" using m0 it node_sel(2) unfolding extends_def by blast
  have grow: "extends parent body ?m (us_module st')" by (rule unroll_step_grows(1)[OF run new i' G])
  obtain st1 where k: "keeps_nodes st1 st'" and e: "opcode ?m i = kParameter \<and> st1 = st \<or>
      opcode ?m i = kGetTupleElement \<and> operands ?m i ! 0 = param \<and>
        (\<exists>c. clone_of_element es input_tuple st i c \<and> keeps_nodes (st\<lparr>us_clone_map := (us_clone_map st)((i, k) \<mapsto> c)\<rparr>) st1) \<or>
      opcode ?m i \<in> {kGetTupleElement, kCall, kCustomCall} \<and> copies I G parent param ?off k st i st1 \<or>
      opcode ?m i = kTuple \<and> roots G parent body k st i st1"
    by (rule unroll_step_effect[OF run new i' G])
  define E where "E = body_eval I m0 param E0 ?off ps xs"
  have E: "body_eval I m0 param E0 ?off (ps @ [i]) xs = body_step I ?m param ?off xs E i"
    by (simp add: body_eval_snoc E_def body_step_node[OF ni])
  have old: "c \<in> set (comp_instructions (us_module st') parent) \<and> V c = E o'" if "us_clone_map st (o', k) = Some c" for o' c
    using pre(1) that grow by (auto simp: prefix_values_def E_def extends_def)
  have prev: "us_prev_loop_output_tuple st' = us_prev_loop_output_tuple st \<and>
     (us_clone_map st' = us_clone_map st \<and> opcode ?m i = kParameter \<or> (\<exists>c. us_clone_map st' = (us_clone_map st)((i, k) \<mapsto> c) \<and>
        c \<in> set (comp_instructions (us_module st') parent) \<and> V c = body_step I ?m param ?off xs E i i))"
    using e
  proof (elim disjE conjE exE)
    fix c assume a: "opcode ?m i = kGetTupleElement" "operands ?m i ! 0 = param" "clone_of_element es input_tuple st i c"
      "keeps_nodes (st\<lparr>us_clone_map := (us_clone_map st)((i, k) \<mapsto> c)\<rparr>) st1"
    have "c \<in> set (comp_instructions ?m parent) \<and> V c = xs ! tuple_index ?m i"
    proof -
      let ?j = "tuple_index ?m i"
      let ?src = "\<lambda>p. if loop_carried_index p \<noteq> None then us_prev_loop_output_tuple st else input_tuple"
      from a(3) obtain p where p: "?j < length (operands ?m input_tuple)" "es (operands ?m input_tuple ! ?j) = Some p"
        and c: "?j < length (operands ?m (?src p))" "c = operands ?m (?src p) ! ?j"
        unfolding clone_of_element_def Let_def by blast
      note p = p[unfolded nit]
      show ?thesis
      proof (cases "loop_carried_index p = None")
        case True
        then have cj: "c = operands m0 input_tuple ! ?j" using c(2) nit by simp
        then have "c \<in> set (comp_instructions m0 parent)" using p(1) it(2) nth_mem by blast
        then have "c \<in> set (comp_instructions ?m parent)" using m0 by (auto simp: extends_def)
        then show ?thesis using fixed p True unfolding fixed_inputs_def cj by simp
      next
        case False
        then have cj: "?j < length (operands ?m (us_prev_loop_output_tuple st))" "c = operands ?m (us_prev_loop_output_tuple st) ! ?j"
          using c by simp_all
        moreover have "map V (operands ?m (us_prev_loop_output_tuple st)) = xs"
          "set (operands ?m (us_prev_loop_output_tuple st)) \<subseteq> set (comp_instructions ?m parent)"
          using pre(2) by (simp_all add: prev_values_def Let_def)
        ultimately show ?thesis by (metis nth_map nth_mem subsetD)
      qed
    qed
    then show ?thesis using a k grow by (auto simp: keeps_nodes_def body_step_def extends_def)
  next
    assume cp: "copies I G parent param ?off k st i st1"
    from cp obtain r c m1 n where c: "gl_AddInstruction G ?m parent r = (c, m1)" "node (us_module st1) = (node m1)(c := n)"
        "m_comp (us_module st1) = m_comp m1" "us_clone_map st1 = (us_clone_map st)((i, k) \<mapsto> c)"
        "us_prev_loop_output_tuple st1 = us_prev_loop_output_tuple st"
      and n: "(\<forall>o' d. us_clone_map st (o', k) = Some d \<longrightarrow> V d = E o') \<Longrightarrow> node_value I V n = Some (body_step I ?m param ?off xs E i i)"
      unfolding copies_def by metis
    have s: "same_nodes (us_module st1) (us_module st')" using k by (simp add: keeps_nodes_def)
    have mem: "c \<in> set (comp_instructions (us_module st') parent)"
      using adds_extends(2)[OF G c(1-3)] same_nodes_instrs[OF s] by simp
    have "node mf c = n" using V(1) mem same_nodes_attr(1)[OF s] c(2) by (auto simp: extends_def)
    moreover have "c \<in> set (comp_instructions mf parent)" using mem V(1) by (auto simp: extends_def)
    ultimately have "V c = body_step I ?m param ?off xs E i i" using V(2) n old unfolding values_of_def by metis
    then show ?thesis using mem c k by (auto simp: keeps_nodes_def)
  qed (use k nroot sel in \<open>auto simp: keeps_nodes_def\<close>)
  have par: "body_step I ?m param ?off xs E i = E" if "opcode ?m i = kParameter" using that by (simp add: body_step_def)
  show "prev_values parent V xs st'" using prev_values_extends[OF pre(2) grow] prev by blast
  show "prefix_values I m0 parent param config E0 V k xs (ps @ [i]) st'"
    unfolding prefix_values_def E
  proof (intro allI impI)
    fix j c assume j: "us_clone_map st' (j, k) = Some c"
    show "c \<in> set (comp_instructions (us_module st') parent) \<and> V c = body_step I ?m param ?off xs E i j"
    proof (cases "j = i")
      case True
      then show ?thesis using prev j new by auto
    next
      case False
      then have "us_clone_map st (j, k) = Some c" using prev j by auto
      then show ?thesis using old False by (simp add: body_step_at)
    qed
  qed
qed

section \<open>An iteration\<close>

lemma prefix_grows:
  assumes "foldR (unroll_step G es config parent body while_loop input_tuple param k) st ps = Inr st'"
    and "\<And>i. us_clone_map st (i, k) = None" and "distinct ps" and "\<And>i. i \<in> set ps \<Longrightarrow> supported (us_module st) body i" and G: "adds G parent body"
  shows "extends parent body (us_module st) (us_module st') \<and>
    (\<forall>i l. us_clone_map st' (i, l) \<noteq> None \<longrightarrow> us_clone_map st (i, l) \<noteq> None \<or> i \<in> set ps \<and> l = k)"
  using assms(1,3,4)
proof (induction ps arbitrary: st' rule: rev_induct)
  case (snoc i ps)
  from snoc.prems(1) obtain st1 where a: "foldR (unroll_step G es config parent body while_loop input_tuple param k) st ps = Inr st1"
    and b: "unroll_step G es config parent body while_loop input_tuple param k st1 i = Inr st'"
    by (auto simp: foldR_append bindR_Inr_iff)
  have ih: "extends parent body (us_module st) (us_module st1)"
    "\<And>i l. us_clone_map st1 (i, l) \<noteq> None \<Longrightarrow> us_clone_map st (i, l) \<noteq> None \<or> i \<in> set ps \<and> l = k"
    using snoc.IH[OF a] snoc.prems by auto
  have new: "us_clone_map st1 (i, k) = None" using ih(2)[of i k] assms(2) snoc.prems(2) by fastforce
  have s: "supported (us_module st1) body i" using snoc.prems(3)[of i] supported_extends[OF ih(1)] by simp
  show ?case using unroll_step_grows[OF b new s G] ih extends_trans by (auto, blast+)
qed simp

lemma prefix_correct:
  assumes "foldR (unroll_step G es config parent body while_loop input_tuple param k) st ps = Inr st'"
    and fresh: "\<And>i. us_clone_map st (i, k) = None" and "distinct ps" and G: "adds G parent body"
    and "\<And>i. i \<in> set ps \<Longrightarrow> supported m0 body i \<and> opcode m0 i \<noteq> kTuple"
    and m0: "extends parent body m0 (us_module st)"
    and it: "input_tuple \<in> set (comp_instructions m0 parent)" "set (operands m0 input_tuple) \<subseteq> set (comp_instructions m0 parent)"
    and "extends parent body (us_module st') mf" and V: "values_of I mf parent V"
    and fixed: "fixed_inputs es m0 input_tuple V xs" and prev: "prev_values parent V xs st"
  shows "prefix_values I m0 parent param config E0 V k xs ps st' \<and> prev_values parent V xs st'"
  using assms(1,3,5,9)
proof (induction ps arbitrary: st' rule: rev_induct)
  case Nil
  then show ?case using fresh prev by (simp add: prefix_values_def)
next
  case (snoc i ps)
  from snoc.prems(1) obtain st1 where a: "foldR (unroll_step G es config parent body while_loop input_tuple param k) st ps = Inr st1"
    and b: "unroll_step G es config parent body while_loop input_tuple param k st1 i = Inr st'"
    by (auto simp: foldR_append bindR_Inr_iff)
  have sup: "\<And>i. i \<in> set ps \<Longrightarrow> supported (us_module st) body i" using snoc.prems(3) supported_extends[OF m0] by auto
  have g: "extends parent body (us_module st) (us_module st1)"
    "\<And>i l. us_clone_map st1 (i, l) \<noteq> None \<Longrightarrow> us_clone_map st (i, l) \<noteq> None \<or> i \<in> set ps \<and> l = k"
    using prefix_grows[OF a fresh _ sup G] snoc.prems(2) by auto
  have m1: "extends parent body m0 (us_module st1)" by (rule extends_trans[OF m0 g(1)])
  have new: "us_clone_map st1 (i, k) = None" using g(2)[of i k] fresh snoc.prems(2) by fastforce
  have i: "supported m0 body i" "opcode m0 i \<noteq> kTuple" using snoc.prems(3) by auto
  have "extends parent body (us_module st1) (us_module st')"
    by (rule unroll_step_grows(1)[OF b new _ G]) (use i supported_extends[OF m1] in simp)
  then have "extends parent body (us_module st1) mf" using snoc.prems(4) by (rule extends_trans)
  then have "prefix_values I m0 parent param config E0 V k xs ps st1" "prev_values parent V xs st1"
    using snoc.IH[OF a] snoc.prems(2,3) by auto
  from unroll_step_values[OF b new i(1) G m1 it snoc.prems(4) V fixed this i(2)] show ?case by blast
qed

definition loop_body :: "hlo_module \<Rightarrow> cid \<Rightarrow> bool" where
  "loop_body m body \<longleftrightarrow> (\<exists>ps. post_order m body = ps @ [root m body] \<and> distinct (post_order m body) \<and> opcode m (root m body) = kTuple \<and>
     (\<forall>i \<in> set ps. opcode m i \<noteq> kTuple) \<and> (\<forall>i \<in> set (post_order m body). supported m body i))"

lemma iteration_correct:
  assumes run: "unroll_iteration G es config parent body while_loop input_tuple param st k = Inr st'"
    and fresh: "\<And>i. us_clone_map st (i, k) = None" and lb: "loop_body m0 body" and G: "adds G parent body"
    and m0: "extends parent body m0 (us_module st)"
    and it: "input_tuple \<in> set (comp_instructions m0 parent)" "set (operands m0 input_tuple) \<subseteq> set (comp_instructions m0 parent)"
    and mf: "extends parent body (us_module st') mf" and V: "values_of I mf parent V"
    and fixed: "fixed_inputs es m0 input_tuple V xs" and prev: "prev_values parent V xs st"
  shows "prev_values parent V (map (body_eval I m0 param E0 (slice_offset config k) (post_order m0 body) xs) (operands m0 (root m0 body))) st'"
proof -
  let ?step = "unroll_step G es config parent body while_loop input_tuple param k" let ?r = "root m0 body"
  from lb obtain ps where po: "post_order m0 body = ps @ [?r]" and d: "distinct (ps @ [?r])" and rt: "opcode m0 ?r = kTuple"
    and nt: "\<And>i. i \<in> set ps \<Longrightarrow> opcode m0 i \<noteq> kTuple" and sup: "\<And>i. i \<in> set (ps @ [?r]) \<Longrightarrow> supported m0 body i"
    unfolding loop_body_def by metis
  have "post_order (us_module st) body = ps @ [?r]" using m0 po by (simp add: extends_def)
  with run obtain st1 where a: "foldR ?step st ps = Inr st1" and b: "?step st1 ?r = Inr st'"
    by (auto simp: unroll_iteration_def foldR_append bindR_Inr_iff)
  have g: "extends parent body (us_module st) (us_module st1)"
    "\<And>i l. us_clone_map st1 (i, l) \<noteq> None \<Longrightarrow> us_clone_map st (i, l) \<noteq> None \<or> i \<in> set ps \<and> l = k"
    using prefix_grows[OF a fresh _ _ G] d sup supported_extends[OF m0] by auto
  have m1: "extends parent body m0 (us_module st1)" by (rule extends_trans[OF m0 g(1)])
  have new: "us_clone_map st1 (?r, k) = None" using g(2)[of ?r k] fresh d by fastforce
  have r: "supported (us_module st1) body ?r" using sup supported_extends[OF m1] by simp
  have x: "extends parent body (us_module st1) (us_module st')" by (rule unroll_step_grows(1)[OF b new r G])
  have pv: "prefix_values I m0 parent param config E0 V k xs ps st1" "prev_values parent V xs st1"
    using prefix_correct[OF a fresh _ G _ m0 it extends_trans[OF x mf] V fixed prev] d nt sup by auto
  have nr: "node (us_module st1) ?r = node m0 ?r" using m1 sup by (auto simp: extends_def supported_def)
  note sel = node_sel[OF nr]
  obtain st2 where k: "keeps_nodes st2 st'" and e: "roots G parent body k st1 ?r st2"
    by (rule unroll_step_effect[OF b new r G]) (use rt sel(1) in auto)
  from e obtain c m2 m3 cs shps where c: "same_nodes (us_module st1) m2" "gl_AddInstruction G m2 parent (CreateTuple shps cs) = (c, m3)"
      "same_nodes m3 (us_module st2)" "us_prev_loop_output_tuple st2 = c"
    and cs: "list_all2 (\<lambda>o' d. us_clone_map st1 (o', k) = Some d) (operands m0 ?r) cs"
    unfolding roots_def sel(2) by blast
  have s3: "same_nodes m3 (us_module st')" using c(3) k same_nodes_trans by (auto simp: keeps_nodes_def)
  have mem: "c \<in> set (comp_instructions (us_module st') parent)" using addsD(2)[OF G c(2)] same_nodes_instrs[OF s3] by simp
  have ops: "operands (us_module st') c = cs"
    using addsD(4)[OF G c(2)] same_nodes_attr(1)[OF s3] by (auto simp: node_def node_of_def CreateTuple_def operands_def fun_eq_iff)
  let ?B = "body_eval I m0 param E0 (slice_offset config k) ps xs"
  have v: "d \<in> set (comp_instructions (us_module st') parent) \<and> V d = ?B o'" if "us_clone_map st1 (o', k) = Some d" for o' d
    using pv(1) that x by (auto simp: prefix_values_def extends_def)
  have "map V cs = map ?B (operands m0 ?r)" "set cs \<subseteq> set (comp_instructions (us_module st') parent)"
    using cs by (induction rule: list_all2_induct) (auto dest: v)
  moreover have "body_eval I m0 param E0 (slice_offset config k) (post_order m0 body) xs = ?B"
    using rt by (simp add: po body_eval_snoc body_step_def)
  moreover have "us_prev_loop_output_tuple st' = c" using k c(4) by (simp add: keeps_nodes_def)
  ultimately show ?thesis using mem ops by (simp add: prev_values_def Let_def)
qed

lemma iteration_grows:
  assumes run: "unroll_iteration G es config parent body while_loop input_tuple param st k = Inr st'"
    and fresh: "\<And>i. us_clone_map st (i, k) = None" and lb: "loop_body m0 body" and G: "adds G parent body"
    and m0: "extends parent body m0 (us_module st)"
  shows "extends parent body (us_module st) (us_module st')" "us_clone_map st' (i, l) \<noteq> None \<Longrightarrow> us_clone_map st (i, l) \<noteq> None \<or> l = k"
proof -
  have po: "post_order (us_module st) body = post_order m0 body" using m0 by (simp add: extends_def)
  have "distinct (post_order m0 body)" "\<And>i. i \<in> set (post_order m0 body) \<Longrightarrow> supported (us_module st) body i"
    using lb supported_extends[OF m0] by (auto simp: loop_body_def)
  from prefix_grows[OF run[unfolded unroll_iteration_def po] fresh this G]
  show "extends parent body (us_module st) (us_module st')" "us_clone_map st' (i, l) \<noteq> None \<Longrightarrow> us_clone_map st (i, l) \<noteq> None \<or> l = k" by auto
qed

section \<open>The loop\<close>

text \<open>
  An input that is not carried over comes back at its own place: the root of the body has the
  element of the parameter there.
\<close>

definition passes_through :: "entries \<Rightarrow> hlo_module \<Rightarrow> cid \<Rightarrow> iid \<Rightarrow> iid \<Rightarrow> bool" where
  "passes_through es m body param input_tuple \<longleftrightarrow>
     length (operands m (root m body)) = length (operands m input_tuple) \<and>
     (\<forall>j < length (operands m input_tuple). \<forall>p. es (operands m input_tuple ! j) = Some p \<longrightarrow> loop_carried_index p = None \<longrightarrow>
        (let e = operands m (root m body) ! j in
         e \<in> set (post_order m body) \<and> opcode m e = kGetTupleElement \<and> operands m e ! 0 = param \<and> tuple_index m e = j))"

lemma loop_fixed_inputs:
  assumes "loop_body m body" and "passes_through es m body param input_tuple" and "xs = map V (operands m input_tuple)"
  shows "fixed_inputs es m input_tuple V (loop_eval I m body param config E0 xs n)"
proof (induction n)
  case 0
  then show ?case by (simp add: fixed_inputs_def assms(3))
next
  case (Suc n)
  have d: "distinct (post_order m body)" using assms(1) by (auto simp: loop_body_def)
  show ?case unfolding fixed_inputs_def
  proof (intro allI impI)
    fix j p assume j: "j < length (operands m input_tuple)" "es (operands m input_tuple ! j) = Some p" "loop_carried_index p = None"
    let ?e = "operands m (root m body) ! j"
    have e: "?e \<in> set (post_order m body)" "opcode m ?e = kGetTupleElement" "operands m ?e ! 0 = param" "tuple_index m ?e = j"
      "length (operands m (root m body)) = length (operands m input_tuple)"
      using assms(2) j unfolding passes_through_def Let_def by blast+
    have "loop_eval I m body param config E0 xs (Suc n) ! j =
        body_eval I m param E0 (slice_offset config n) (post_order m body) (loop_eval I m body param config E0 xs n) ?e"
      using j(1) e(5) by simp
    also have "\<dots> = loop_eval I m body param config E0 xs n ! j"
      using body_eval_element[OF d e(1,2,3)] e(4) by simp
    also have "\<dots> = V (operands m input_tuple ! j)" using Suc.IH j by (simp add: fixed_inputs_def)
    finally show "loop_eval I m body param config E0 xs (Suc n) ! j = V (operands m input_tuple ! j)" .
  qed
qed

lemma iterations_correct:
  assumes "foldR (unroll_iteration G es config parent body while_loop input_tuple param) (start_unroll st0 input_tuple N) [0..<n] = Inr st"
    and lb: "loop_body (us_module st0) body" and pt: "passes_through es (us_module st0) body param input_tuple" and G: "adds G parent body"
    and it: "input_tuple \<in> set (comp_instructions (us_module st0) parent)" "set (operands (us_module st0) input_tuple) \<subseteq> set (comp_instructions (us_module st0) parent)"
  shows "extends parent body (us_module st0) (us_module st) \<and> (\<forall>i l. us_clone_map st (i, l) \<noteq> None \<longrightarrow> l < n) \<and>
    (\<forall>mf V. extends parent body (us_module st) mf \<longrightarrow> values_of I mf parent V \<longrightarrow>
       prev_values parent V (loop_eval I (us_module st0) body param config E0 (map V (operands (us_module st0) input_tuple)) n) st)"
  using assms(1)
proof (induction n arbitrary: st)
  case 0
  then show ?case using it by (auto simp: start_unroll_def prev_values_def)
next
  case (Suc n)
  let ?m0 = "us_module st0"
  from Suc.prems obtain st1 where a: "foldR (unroll_iteration G es config parent body while_loop input_tuple param) (start_unroll st0 input_tuple N) [0..<n] = Inr st1"
    and b: "unroll_iteration G es config parent body while_loop input_tuple param st1 n = Inr st"
    by (auto simp: foldR_append bindR_Inr_iff)
  note ih = Suc.IH[OF a]
  have fresh: "us_clone_map st1 (i, n) = None" for i using ih by (metis less_irrefl)
  note g = iteration_grows[OF b fresh lb G]
  have x: "extends parent body ?m0 (us_module st1)" using ih by blast
  have e: "extends parent body (us_module st1) (us_module st)" by (rule g(1)[OF x])
  have "prev_values parent V (loop_eval I ?m0 body param config E0 (map V (operands ?m0 input_tuple)) (Suc n)) st"
    if mf: "extends parent body (us_module st) mf" and V: "values_of I mf parent V" for mf V
  proof -
    let ?xs = "loop_eval I ?m0 body param config E0 (map V (operands ?m0 input_tuple)) n"
    have "prev_values parent V ?xs st1" using ih extends_trans[OF e mf] V by blast
    from iteration_correct[OF b fresh lb G x it mf V loop_fixed_inputs[OF lb pt refl] this] show ?thesis by simp
  qed
  moreover have "us_clone_map st (i, l) \<noteq> None \<Longrightarrow> l < Suc n" for i l using g(2)[OF x] ih by (metis less_Suc_eq)
  ultimately show ?case using extends_trans[OF x e] by blast
qed

text \<open>
  C2. The unrolled loop computes what the loop computes: when every iteration of the body has been
  copied into the caller, the operands of the last output tuple have the values that running the
  body once per iteration gives, each iteration on the outputs of the one before, with the offset
  of each slice the iteration's number times the microbatch size, for every meaning of the calls,
  tuple elements and custom calls.
\<close>

theorem unrolled_loop_equivalent:
  assumes "foldR (unroll_iteration G es config parent body while_loop input_tuple param) (start_unroll st0 input_tuple n) [0..<n] = Inr st"
    and "adds G parent body" and "loop_body (us_module st0) body" and "passes_through es (us_module st0) body param input_tuple"
    and "input_tuple \<in> set (comp_instructions (us_module st0) parent)" and "set (operands (us_module st0) input_tuple) \<subseteq> set (comp_instructions (us_module st0) parent)"
    and "values_of I (us_module st) parent V"
  shows "map V (operands (us_module st) (us_prev_loop_output_tuple st)) =
    loop_eval I (us_module st0) body param config E0 (map V (operands (us_module st0) input_tuple)) n"
  using iterations_correct[OF assms(1,3,4,2,5,6)] assms(7) extends_refl unfolding prev_values_def Let_def by blast

section \<open>An example\<close>

text \<open>A loop that adds its second input to the first one, run twice.\<close>

definition counting_loop :: hlo_module where
  "counting_loop = sample_module
     [(2, blank_instr\<lparr>i_opcode := kTuple, i_operands := [0, 1]\<rparr>),
      (10, blank_instr\<lparr>i_opcode := kParameter\<rparr>),
      (11, blank_instr\<lparr>i_opcode := kGetTupleElement, i_operands := [10], i_tuple_index := 0\<rparr>),
      (12, blank_instr\<lparr>i_opcode := kGetTupleElement, i_operands := [10], i_tuple_index := 1\<rparr>),
      (13, blank_instr\<lparr>i_opcode := kCall, i_operands := [11, 12], i_called := [2]\<rparr>),
      (14, blank_instr\<lparr>i_opcode := kTuple, i_operands := [13, 12]\<rparr>)]
     [(0, blank_comp\<lparr>c_root := 2, c_post_order := [0, 1, 2], c_instructions := [0, 1, 2]\<rparr>),
      (1, blank_comp\<lparr>c_root := 14, c_post_order := [10, 11, 12, 13, 14], c_instructions := [10, 11, 12, 13, 14], c_params := [10]\<rparr>)]"

definition pair_graph_lib :: graph_lib where
  "pair_graph_lib = plain_graph_lib\<lparr>gl_AddInstruction := (\<lambda>m c r.
     (let i = Suc (Max (set (0 # comp_instructions m 0 @ comp_instructions m 1))) in
      (i, m\<lparr>m_instr := (m_instr m)(i := r),
            m_comp := (m_comp m)(c := (m_comp m c)\<lparr>c_instructions := c_instructions (m_comp m c) @ [i]\<rparr>)\<rparr>)))\<rparr>"

lemma pair_adds: "adds pair_graph_lib 0 1"
proof -
  have new: "Suc (Max (set (0 # xs))) \<notin> set xs" for xs :: "nat list"
    using Max_ge[of "set (0 # xs)"] by (metis List.finite_set Suc_n_not_le_n list.set_intros(2))
  show ?thesis unfolding adds_def
    using new[of "comp_instructions m 0 @ comp_instructions m 1" for m]
    by (auto simp: pair_graph_lib_def Let_def node_def comp_instructions_def post_order_def root_def fun_eq_iff)
qed

definition counting_entries :: entries where
  "counting_entries = [0 \<mapsto> entry_default\<lparr>loop_carried_index := Some 0\<rparr>, 1 \<mapsto> entry_default, 12 \<mapsto> entry_default, 13 \<mapsto> entry_default]"

definition counting_config :: loop_config where
  "counting_config = \<lparr>num_iterations = 2, unique_id = 0, microbatch_size = 1, microbatch_dim = 0, slice_dim = 0,
     slice_param_number = None, schedule = kFillDrain, interleave = None, num_stages = None, unrolling = None, custom_schedule = None\<rparr>"


definition counting_state :: unroll_state where
  "counting_state = \<lparr>us_module = counting_loop, us_partition = Create (dl_create 0 1), us_cloned_colors = Map.empty, us_clone_map = Map.empty,
     us_was_loop_dependent = {}, us_tasks = [], us_prev_loop_output_tuple = 0, us_dummy_tuples = [],
     us_scheduling_name = (\<lambda>_. ''''), us_control = []\<rparr>"

definition counting_run :: "unroll_state statusor" where
  "counting_run = foldR (unroll_iteration pair_graph_lib counting_entries counting_config 0 1 2 2 10) (start_unroll counting_state 2 2) [0..<2]"

text \<open>The tails of the sequential computation are not simplified before their state is known.\<close>

lemma bindR_weak_cong: "m = m' \<Longrightarrow> bindR m f = bindR m' f" by simp

lemma Let_weak_cong: "a = b \<Longrightarrow> Let a f = Let b f" by simp

lemma counting_instr:
  "m_instr counting_loop 0 = blank_instr"  "m_instr counting_loop 1 = blank_instr" 
  "m_instr counting_loop 2 = blank_instr\<lparr>i_opcode := kTuple, i_operands := [0, 1]\<rparr>"
  "m_instr counting_loop 10 = blank_instr\<lparr>i_opcode := kParameter\<rparr>"
  "m_instr counting_loop 11 = blank_instr\<lparr>i_opcode := kGetTupleElement, i_operands := [10], i_tuple_index := 0\<rparr>"
  "m_instr counting_loop 12 = blank_instr\<lparr>i_opcode := kGetTupleElement, i_operands := [10], i_tuple_index := 1\<rparr>"
  "m_instr counting_loop 13 = blank_instr\<lparr>i_opcode := kCall, i_operands := [11, 12], i_called := [2]\<rparr>"
  "m_instr counting_loop 14 = blank_instr\<lparr>i_opcode := kTuple, i_operands := [13, 12]\<rparr>"
  "m_comp counting_loop 0 = blank_comp\<lparr>c_root := 2, c_post_order := [0, 1, 2], c_instructions := [0, 1, 2]\<rparr>"
  "m_comp counting_loop 1 = blank_comp\<lparr>c_root := 14, c_post_order := [10, 11, 12, 13, 14], c_instructions := [10, 11, 12, 13, 14], c_params := [10]\<rparr>"
  by (simp_all add: counting_loop_def sample_module_def)

lemma blank_sel: "i_attrs blank_instr = Map.empty" "i_shape blank_instr = Shape F32 [] []" "i_sharding blank_instr = None" "i_name blank_instr = ''''"
  by (simp_all add: blank_instr_def)

lemma counting_entries_at: "counting_entries 0 = Some (entry_default\<lparr>loop_carried_index := Some 0\<rparr>)" "counting_entries 1 = Some entry_default" "counting_entries 12 = Some entry_default"  "counting_entries 13 = Some entry_default"
 "loop_carried_index entry_default = None"
  by (simp_all add: counting_entries_def entry_default_def)
lemma blank_opcode: "i_opcode blank_instr = kConstant" "i_operands blank_instr = []" "i_called blank_instr = []" "i_tuple_index blank_instr = 0"
    "i_custom_call_target blank_instr = ''''"
  by (simp_all add: blank_instr_def)

lemma pair_add: "gl_AddInstruction pair_graph_lib m c r = 
     (let i = Suc (Max (set (0 # comp_instructions m 0 @ comp_instructions m 1))) in
      (i, m\<lparr>m_instr := (m_instr m)(i := r),
            m_comp := (m_comp m)(c := (m_comp m c)\<lparr>c_instructions := c_instructions (m_comp m c) @ [i]\<rparr>)\<rparr>))"
 by (simp add: pair_graph_lib_def)

definition sum_interp :: "nat interp" where
  "sum_interp = \<lparr>in_apply = (\<lambda>c xs. sum_list xs), in_element = (\<lambda>j x. 0), in_custom = (\<lambda>t d xs. 0)\<rparr>"

definition counting_values :: "iid \<Rightarrow> nat" where
  "counting_values i = (if i = 1 then 2 else if i = 15 then 3 else if i = 17 then 5 else 1)"

lemma values_of_list:
  "values_of I m c V \<longleftrightarrow> list_all (\<lambda>i. case node_value I V (node m i) of None \<Rightarrow> True | Some v \<Rightarrow> V i = v) (comp_instructions m c)"
  by (auto simp: values_of_def list_all_iff split: option.splits)

lemma counting_runs:
  "\<exists>st. counting_run = Inr st \<and> us_prev_loop_output_tuple st = 18 \<and> operands (us_module st) 18 = [17, 1] \<and>
     list_all (\<lambda>i. case node_value sum_interp counting_values (node (us_module st) i) of None \<Rightarrow> True | Some v \<Rightarrow> counting_values i = v)
       (comp_instructions (us_module st) 0)"
proof -
  have two: "[0..<2] = [0, 1::nat]" by (simp add: upt_rec)
  show ?thesis unfolding counting_run_def two foldR.simps start_unroll_def counting_state_def unroll_iteration_def[of pair_graph_lib]
  by (simp cong: bindR_weak_cong Let_weak_cong prod.case_cong_weak option.case_cong_weak add: upt_rec counting_instr  blank_sel post_order_def root_def comp_instructions_def opcode_def operands_def called_def tuple_index_def sharding_of_def attrs_of_def
    unroll_step_def unroll_case_def color_iteration_def unroll_element_def unroll_call_def unroll_root_def unroll_output_def
    pair_add counting_entries_at Let_def operandR_def calledR_def Get_def get_clone_def clones_of_def add_clone_def CreateTuple_def CreateCallTo_def CreateGetTupleElement_def
    IsNonCritical_def never_loop_dependent_def IsLoopDependent_def Color_def PropagateColor_def upd_instr_def name_after_def
      node_def node_of_def sum_interp_def counting_values_def blank_opcode del: One_nat_def)
qed

theorem unrolled_loop_equivalent_witness:
  "\<exists>st. foldR (unroll_iteration pair_graph_lib counting_entries counting_config 0 1 2 2 10) (start_unroll counting_state 2 2) [0..<2] = Inr st \<and>
     map counting_values (operands (us_module st) (us_prev_loop_output_tuple st)) = [5, 2] \<and>
     loop_eval sum_interp counting_loop 1 10 counting_config (\<lambda>_. 0) [1, 2] 2 = [5, 2]"
proof -
  from counting_runs obtain st where run: "counting_run = Inr st" and prev: "us_prev_loop_output_tuple st = 18" "operands (us_module st) 18 = [17, 1]"
    and V: "values_of sum_interp (us_module st) 0 counting_values"
    unfolding values_of_list by auto
  have m: "us_module counting_state = counting_loop" by (simp add: counting_state_def)
  have "loop_body counting_loop 1" unfolding loop_body_def
    by (intro exI[of _ "[10, 11, 12, 13]"]) (auto simp: counting_loop_def sample_simps supported_def)
  moreover have "passes_through counting_entries counting_loop 1 10 2"
    by (auto simp: passes_through_def Let_def counting_loop_def sample_simps counting_entries_def less_Suc_eq numeral_2_eq_2 split: if_splits)
  ultimately have "map counting_values (operands (us_module st) (us_prev_loop_output_tuple st)) =
      loop_eval sum_interp counting_loop 1 10 counting_config (\<lambda>_. 0) (map counting_values (operands counting_loop 2)) 2"
    using unrolled_loop_equivalent[OF run[unfolded counting_run_def] pair_adds _ _ _ _ V] m
    by (simp add: counting_loop_def sample_simps)
  moreover have "map counting_values (operands counting_loop 2) = [1, 2]" by (simp add: counting_loop_def sample_simps counting_values_def)
  ultimately show ?thesis using run prev by (simp add: counting_run_def counting_values_def)
qed

end
