(* ===== verification/Computation_Fusion.thy ===== *)
theory Computation_Fusion
  imports Computation_Grouper Color_Dfs Mpmd_Utils
begin

text \<open>
  \<open>mpmd_computation_fusion.cc\<close>: calls with the same color, original color or devices become one
  call of a computation that does what the calls do one after the other.

  Control dependencies and scheduling names are not part of the module record; they are fields
  of the state, a dependency being the pair of its ends. Fusing visits the dependencies a call
  had before the first of them is removed. The order \<open>DependencyHloOrdering\<close>, the callers of a
  computation, dead code elimination and the parent of an instruction come from XLA.
\<close>

section \<open>Control dependencies\<close>

record fusion_state =
  fs_module :: hlo_module
  fs_control :: "(iid \<times> iid) list"
  fs_scheduling_name :: "iid \<Rightarrow> string"

record fusion_lib =
  fl_split :: split_lib
  fl_add_frontend :: "attrs \<Rightarrow> attrs \<Rightarrow> attrs"
  fl_executes_before :: "hlo_module \<Rightarrow> (iid \<times> iid) list \<Rightarrow> iid \<Rightarrow> iid \<Rightarrow> bool"
  fl_caller_computations :: "hlo_module \<Rightarrow> cid \<Rightarrow> cid list"
  fl_parent :: "hlo_module \<Rightarrow> iid \<Rightarrow> cid"
  fl_dce :: "hlo_module \<Rightarrow> hlo_module statusor"

definition control_predecessors :: "(iid \<times> iid) list \<Rightarrow> iid \<Rightarrow> iid list" where
  "control_predecessors es i = map fst (filter (\<lambda>e. snd e = i) es)"

definition control_successors :: "(iid \<times> iid) list \<Rightarrow> iid \<Rightarrow> iid list" where
  "control_successors es i = map snd (filter (\<lambda>e. fst e = i) es)"

definition ClearPredecessors :: "(iid \<times> iid) list \<Rightarrow> iid \<Rightarrow> (iid \<times> iid) list" where
  "ClearPredecessors es i = foldl (\<lambda>es p. removeAll (p, i) es) es (control_predecessors es i)"

definition ClearControlDependencies :: "(iid \<times> iid) list \<Rightarrow> iid \<Rightarrow> (iid \<times> iid) list" where
  "ClearControlDependencies es i =
     (let es = ClearPredecessors es i in foldl (\<lambda>es s. removeAll (i, s) es) es (control_successors es i))"

text \<open>Adding a dependency that is there already changes nothing.\<close>

definition AddControlDependency :: "(iid \<times> iid) list \<Rightarrow> iid \<times> iid \<Rightarrow> (iid \<times> iid) list" where
  "AddControlDependency es e = (if e \<in> set es then es else es @ [e])"

definition detach_call ::
  "iid list \<Rightarrow> (iid \<times> iid) list \<times> iid list \<times> iid list \<Rightarrow> iid \<Rightarrow> (iid \<times> iid) list \<times> iid list \<times> iid list" where
  "detach_call calls st call =
     (let (es, preds, succs) = st; ps = control_predecessors es call;
          es = foldl (\<lambda>es p. removeAll (p, call) es) es ps;
          ss = control_successors es call;
          es = foldl (\<lambda>es s. removeAll (call, s) es) es ss in
      (es, preds @ filter (\<lambda>p. p \<notin> set calls) ps, succs @ filter (\<lambda>s. s \<notin> set calls) ss))"

section \<open>What the fused call takes and gives\<close>

record fused_interface =
  fi_produced_by_set :: "iid set"
  fi_parameters_needed :: "iid list"
  fi_roots_needed :: "(iid \<times> iid) list"
  fi_operands_added :: "iid \<Rightarrow> iid list"

definition need_parameter :: "hlo_module \<Rightarrow> iid \<Rightarrow> cid \<Rightarrow> fused_interface \<Rightarrow> nat \<Rightarrow> fused_interface statusor" where
  "need_parameter m call computation fi param =
     bindR (operandR m call param) (\<lambda>operand.
     if operand \<in> fi_produced_by_set fi then Inr fi
     else let fi = (if fi_operands_added fi operand = []
                    then fi\<lparr>fi_parameters_needed := fi_parameters_needed fi @ [operand]\<rparr> else fi) in
          bindR (paramR m computation param) (\<lambda>p.
          Inr (fi\<lparr>fi_operands_added := (fi_operands_added fi)(operand := fi_operands_added fi operand @ [p])\<rparr>)))"

definition still_root :: "hlo_module \<Rightarrow> cid \<Rightarrow> iid list \<Rightarrow> iid \<Rightarrow> bool" where
  "still_root m parent calls gte \<longleftrightarrow>
     gte = root m parent \<or> (\<exists>u \<in> set (users m gte). u \<notin> set calls \<or> u = root m parent)"

definition need_root :: "hlo_module \<Rightarrow> cid \<Rightarrow> iid list \<Rightarrow> cid \<Rightarrow> fused_interface \<Rightarrow> iid \<Rightarrow> fused_interface statusor" where
  "need_root m parent calls computation fi gte =
     (let fi = fi\<lparr>fi_produced_by_set := insert gte (fi_produced_by_set fi)\<rparr> in
      if still_root m parent calls gte
      then bindR (tuple_indexR m gte) (\<lambda>k.
           bindR (operandR m (root m computation) k) (\<lambda>r.
           Inr (fi\<lparr>fi_roots_needed := fi_roots_needed fi @ [(gte, r)]\<rparr>)))
      else Inr fi)"

definition interface_step :: "hlo_module \<Rightarrow> cid \<Rightarrow> iid list \<Rightarrow> fused_interface \<Rightarrow> iid \<Rightarrow> fused_interface statusor" where
  "interface_step m parent calls fi call =
     bindR (calledR m call) (\<lambda>computation.
     bindR (foldR (need_parameter m call computation) fi [0..<length (operands m call)]) (\<lambda>fi.
     foldR (need_root m parent calls computation) fi (users m call)))"

definition interface_of :: "hlo_module \<Rightarrow> cid \<Rightarrow> iid list \<Rightarrow> fused_interface statusor" where
  "interface_of m parent calls =
     foldR (interface_step m parent calls)
       \<lparr>fi_produced_by_set = {}, fi_parameters_needed = [], fi_roots_needed = [], fi_operands_added = (\<lambda>_. [])\<rparr> calls"

section \<open>The fused computation\<close>

text \<open>
  The builder, the clone of each instruction of the called computations, and where the value of
  each operand of a call is. A null pointer in a map is an undefined value.
\<close>

record fusion_builder =
  fb_instructions :: "hlo_instr list"
  fb_clone_map :: "iid \<rightharpoonup> nat"
  fb_cloned_operand_params :: "iid \<rightharpoonup> nat"

definition fuse_parameter ::
  "(attrs \<Rightarrow> attrs \<Rightarrow> attrs) \<Rightarrow> hlo_module \<Rightarrow> fused_interface \<Rightarrow> fusion_builder \<Rightarrow> iid \<Rightarrow> fusion_builder statusor" where
  "fuse_parameter add_fa m fi b operand =
     bindR (subR (fi_operands_added fi operand) 0) (\<lambda>param.
     let r = m_instr m param; n = length (fb_instructions b);
         new_param = propagate_properties add_fa r (CreateParameter (i_shape r) (i_name r) (i_sharding r)) in
     Inr \<lparr>fb_instructions = fb_instructions b @ [new_param],
          fb_clone_map = foldl (\<lambda>f p. f(p \<mapsto> n)) (fb_clone_map b) (fi_operands_added fi operand),
          fb_cloned_operand_params = (fb_cloned_operand_params b)(operand \<mapsto> n)\<rparr>)"

definition fuse_operand :: "hlo_module \<Rightarrow> fusion_builder \<Rightarrow> iid \<Rightarrow> nat statusor" where
  "fuse_operand m b operand =
     (case fb_clone_map b operand of
        None \<Rightarrow> Inl (InvalidArgument (i_name (m_instr m operand) @ '' was never added to clone map when fusing ''))
      | Some n \<Rightarrow> Inr n)"

definition nonnull :: "'a option \<Rightarrow> 'a statusor" where
  "nonnull x = (case x of None \<Rightarrow> Inl (Undefined ''null instruction'') | Some y \<Rightarrow> Inr y)"

definition fuse_instruction ::
  "hlo_module \<Rightarrow> iid \<Rightarrow> cid \<Rightarrow> fusion_builder \<Rightarrow> iid \<Rightarrow> fusion_builder statusor" where
  "fuse_instruction m call computation b i =
     (if opcode m i = kParameter
      then bindR (index_in (params m computation) i) (\<lambda>number.
           bindR (operandR m call number) (\<lambda>operand.
           bindR (nonnull (fb_cloned_operand_params b operand)) (\<lambda>n.
           Inr (b\<lparr>fb_clone_map := (fb_clone_map b)(i \<mapsto> n)\<rparr>))))
      else if i \<noteq> root m computation
      then bindR (mapR (fuse_operand m b) (operands m i)) (\<lambda>cloned_operands.
           Inr (b\<lparr>fb_instructions := fb_instructions b @ [CloneWithNewOperands (m_instr m i) cloned_operands],
                  fb_clone_map := (fb_clone_map b)(i \<mapsto> length (fb_instructions b))\<rparr>))
      else Inr b)"

definition fuse_output :: "hlo_module \<Rightarrow> cid \<Rightarrow> fusion_builder \<Rightarrow> iid \<Rightarrow> fusion_builder statusor" where
  "fuse_output m computation b user =
     bindR (tuple_indexR m user) (\<lambda>k.
     bindR (operandR m (root m computation) k) (\<lambda>original_root.
     bindR (nonnull (fb_clone_map b original_root)) (\<lambda>new_root.
     Inr (b\<lparr>fb_cloned_operand_params := (fb_cloned_operand_params b)(user \<mapsto> new_root)\<rparr>))))"

definition fuse_call :: "hlo_module \<Rightarrow> fusion_builder \<Rightarrow> iid \<Rightarrow> fusion_builder statusor" where
  "fuse_call m b call =
     bindR (calledR m call) (\<lambda>computation.
     bindR (foldR (fuse_instruction m call computation) b (post_order m computation)) (\<lambda>b.
     foldR (fuse_output m computation) b (users m call)))"

definition fused_root :: "hlo_module \<Rightarrow> fusion_builder \<Rightarrow> iid \<times> iid \<Rightarrow> nat statusor" where
  "fused_root m b e =
     (case fb_clone_map b (snd e) of
        None \<Rightarrow> Inl (InvalidArgument (''fused root '' @ i_name (m_instr m (snd e)) @ '' is not in clone map''))
      | Some n \<Rightarrow> Inr n)"

definition fuse_bodies ::
  "(attrs \<Rightarrow> attrs \<Rightarrow> attrs) \<Rightarrow> hlo_module \<Rightarrow> fused_interface \<Rightarrow> iid list \<Rightarrow> (hlo_instr list \<times> nat list) statusor" where
  "fuse_bodies add_fa m fi calls =
     bindR (foldR (fuse_parameter add_fa m fi)
              \<lparr>fb_instructions = [], fb_clone_map = Map.empty, fb_cloned_operand_params = Map.empty\<rparr>
              (fi_parameters_needed fi)) (\<lambda>b.
     bindR (foldR (fuse_call m) b calls) (\<lambda>b.
     bindR (mapR (fused_root m b) (fi_roots_needed fi)) (\<lambda>fused_root_operands.
     Inr (fb_instructions b, fused_root_operands))))"

definition build_fused ::
  "fusion_lib \<Rightarrow> hlo_module \<Rightarrow> fused_interface \<Rightarrow> iid list \<Rightarrow> (cid \<times> hlo_module) statusor" where
  "build_fused X m fi calls =
     bindR (calledR m (hd calls)) (\<lambda>first.
     bindR (fuse_bodies (fl_add_frontend X) m fi calls) (\<lambda>(instructions, fused_root_operands).
     let root_tuple = CreateTuple (map (\<lambda>k. i_shape (instructions ! k)) fused_root_operands) fused_root_operands in
     Inr (sl_AddComputation (fl_split X) m (sl_computation_name (fl_split X) m first)
            (instructions @ [root_tuple]) (length instructions))))"

section \<open>Replacing the calls\<close>

definition replace_fused_output ::
  "fusion_lib \<Rightarrow> cid \<Rightarrow> iid \<Rightarrow> fusion_state \<Rightarrow> nat \<times> iid \<times> iid \<Rightarrow> fusion_state statusor" where
  "replace_fused_output X parent new_call st e =
     (let (fused_output_tuple_index, gte, _) = e; G = sl_graph (fl_split X); m = fs_module st in
      bindR (subR (tuple_shapes (i_shape (m_instr m new_call))) fused_output_tuple_index) (\<lambda>shp.
      let (new_gte, m) = gl_AddInstruction G m parent (CreateGetTupleElement shp new_call fused_output_tuple_index);
          m = upd_instr m new_gte (\<lambda>r. propagate_properties (fl_add_frontend X) (m_instr m gte) (r\<lparr>i_sharding := sharding_of m gte\<rparr>)) in
      bindR (gl_ReplaceAllUsesWith G m gte new_gte) (\<lambda>m.
      let name = fs_scheduling_name st gte;
          st = (if name \<noteq> [] then st\<lparr>fs_scheduling_name := (fs_scheduling_name st)(new_gte := name)\<rparr> else st);
          m = (if gte = root m parent then gl_set_root_instruction G m parent new_gte else m) in
      Inr (st\<lparr>fs_module := m\<rparr>))))"

definition remove_user :: "graph_lib \<Rightarrow> cid \<Rightarrow> hlo_module \<Rightarrow> iid \<Rightarrow> hlo_module statusor" where
  "remove_user G parent m user =
     (if users m user \<noteq> []
      then Inl (InternalError (i_name (m_instr m user) @ '' still has active user '' @ i_name (m_instr m (hd (users m user)))))
      else if user = root m parent
      then Inl (InternalError (i_name (m_instr m user) @ '' is still the root instruction''))
      else gl_RemoveInstruction G m user)"

definition remove_call :: "fusion_lib \<Rightarrow> cid \<Rightarrow> hlo_module \<Rightarrow> iid \<Rightarrow> hlo_module statusor" where
  "remove_call X parent m call =
     (let G = sl_graph (fl_split X) in
      bindR (foldR (remove_user G parent) m (users m call)) (\<lambda>m.
      bindR (calledR m call) (\<lambda>computation.
      bindR (gl_RemoveInstruction G m call) (\<lambda>m.
      if fl_caller_computations X m computation = [] then gl_RemoveEmbeddedComputation G m computation else Inr m))))"

definition FuseCalls ::
  "fusion_lib \<Rightarrow> iid list \<Rightarrow> cid option \<Rightarrow> fusion_state \<Rightarrow> (iid \<times> fusion_state) statusor" where
  "FuseCalls X calls fused_computation st =
     (let m = fs_module st in
      case calls of
        [] \<Rightarrow> Inl (InvalidArgument ''FuseComputations: got empty calls vector'')
      | first # _ \<Rightarrow>
      let parent = fl_parent X m first in
      if \<exists>call \<in> set calls. fl_parent X m call \<noteq> parent
      then Inl (InvalidArgument ''FuseComputations: cannot fuse calls with different parent computations'')
      else let (es, preds, succs) = foldl (detach_call calls) (fs_control st, [], []) calls in
      bindR (interface_of m parent calls) (\<lambda>fi.
      bindR (case fused_computation of None \<Rightarrow> build_fused X m fi calls | Some c \<Rightarrow> Inr (c, m)) (\<lambda>(fused, m).
      let (new_call, m) = gl_AddInstruction (sl_graph (fl_split X)) m parent
             (CreateCallTo (i_shape (m_instr m (root m fused))) (fi_parameters_needed fi) fused);
          m = snd (PropagateColor m first new_call) in
      bindR (foldR (replace_fused_output X parent new_call) (st\<lparr>fs_module := m\<rparr>) (enumerate 0 (fi_roots_needed fi))) (\<lambda>st.
      bindR (foldR (remove_call X parent) (fs_module st) (rev calls)) (\<lambda>m.
      let es = foldl AddControlDependency es (map (\<lambda>p. (p, new_call)) preds);
          es = foldl AddControlDependency es (map (\<lambda>s. (new_call, s)) succs) in
      Inr (new_call, st\<lparr>fs_module := m, fs_control := es\<rparr>))))))"

section \<open>Which calls are fused\<close>

datatype fusion_type = kMatchingDevices | kMatchingColor | kOriginalColor

definition FusionMatch :: "fusion_type \<Rightarrow> hlo_partition \<Rightarrow> hlo_module \<Rightarrow> iid \<Rightarrow> iid \<Rightarrow> bool statusor" where
  "FusionMatch t p m lhs rhs =
     (if opcode m lhs = kWhile \<or> opcode m rhs = kWhile then Inr False
      else case t of
        kMatchingColor \<Rightarrow>
          (case (Color m lhs, Color m rhs) of
             (Some lhs_color, Some rhs_color) \<Rightarrow> Inr (lhs_color = rhs_color)
           | _ \<Rightarrow> Inl (Fatal ''fusion of a call without color''))
      | kOriginalColor \<Rightarrow>
          (case (Color m lhs, Color m rhs) of
             (Some lhs_color, Some rhs_color) \<Rightarrow> Inr (OriginalColor p lhs_color = OriginalColor p rhs_color)
           | _ \<Rightarrow> Inl (Undefined ''no color''))
      | kMatchingDevices \<Rightarrow> SameMesh p (Color m lhs) (Color m rhs))"

text \<open>The first call of a list that matches, unless one before it must not be passed.\<close>

fun search_match :: "(iid \<Rightarrow> bool statusor) \<Rightarrow> (iid \<Rightarrow> bool) \<Rightarrow> iid list \<Rightarrow> iid option statusor" where
  "search_match match blocked [] = Inr None"
| "search_match match blocked (c # rest) =
     bindR (match c) (\<lambda>b. if b then Inr (Some c) else if blocked c then Inr None else search_match match blocked rest)"

record fusion_sets =
  fu_sets :: "iid list list"
  fu_set_of :: "iid \<rightharpoonup> nat"

definition current_fusion_set :: "fusion_sets \<Rightarrow> iid \<Rightarrow> iid list" where
  "current_fusion_set s i = (case fu_set_of s i of Some k \<Rightarrow> fu_sets s ! k | None \<Rightarrow> [i])"

definition set_for :: "iid \<Rightarrow> fusion_sets \<Rightarrow> nat \<times> fusion_sets" where
  "set_for i s =
     (case fu_set_of s i of
        Some k \<Rightarrow> (k, s)
      | None \<Rightarrow> (length (fu_sets s), \<lparr>fu_sets = fu_sets s @ [[i]], fu_set_of = (fu_set_of s)(i \<mapsto> length (fu_sets s))\<rparr>))"

definition push_call :: "nat \<Rightarrow> iid \<Rightarrow> fusion_sets \<Rightarrow> fusion_sets" where
  "push_call k i s = \<lparr>fu_sets = (fu_sets s)[k := fu_sets s ! k @ [i]], fu_set_of = (fu_set_of s)(i \<mapsto> k)\<rparr>"

definition forward_fusion ::
  "(iid \<Rightarrow> string) \<Rightarrow> (iid \<Rightarrow> iid \<Rightarrow> bool statusor) \<Rightarrow> (iid \<Rightarrow> iid \<Rightarrow> bool) \<Rightarrow> (iid \<Rightarrow> bool) \<Rightarrow> iid list \<Rightarrow> fusion_sets \<Rightarrow> nat \<Rightarrow> fusion_sets statusor" where
  "forward_fusion name match executes_before is_while need_to_visit s l =
     (let lhs = need_to_visit ! l in
      if is_while lhs then Inr s
      else bindR (search_match (match lhs) (\<lambda>rhs. \<exists>c \<in> set (current_fusion_set s lhs). executes_before c rhs) (drop (Suc l) need_to_visit)) (\<lambda>found.
      case found of
        None \<Rightarrow> Inr s
      | Some r \<Rightarrow>
          if fu_set_of s r \<noteq> None then Inl (InvalidArgument (name r @ '' was already assigned a fusion parner''))
          else let (k, s) = set_for lhs s in Inr (push_call k r s)))"

definition backward_fusion ::
  "(iid \<Rightarrow> iid \<Rightarrow> bool statusor) \<Rightarrow> (iid \<Rightarrow> iid \<Rightarrow> bool) \<Rightarrow> (iid \<Rightarrow> bool) \<Rightarrow> iid list \<Rightarrow> fusion_sets \<Rightarrow> nat \<Rightarrow> fusion_sets statusor" where
  "backward_fusion match executes_before is_while need_to_visit s r =
     (let rhs = need_to_visit ! r in
      if is_while rhs then Inr s
      else bindR (search_match (\<lambda>lhs. match lhs rhs) (\<lambda>lhs. \<exists>c \<in> set (current_fusion_set s rhs). executes_before lhs c) (rev (take r need_to_visit))) (\<lambda>found.
      case found of
        None \<Rightarrow> Inr s
      | Some l \<Rightarrow>
          let (k, s) = set_for l s in Inr (if fu_set_of s rhs = None then push_call k rhs s else s)))"

definition find_fusions ::
  "(iid \<Rightarrow> string) \<Rightarrow> (iid \<Rightarrow> iid \<Rightarrow> bool statusor) \<Rightarrow> (iid \<Rightarrow> iid \<Rightarrow> bool) \<Rightarrow> (iid \<Rightarrow> bool) \<Rightarrow> iid list \<Rightarrow> fusion_sets statusor" where
  "find_fusions name match executes_before is_while need_to_visit =
     bindR (foldR (forward_fusion name match executes_before is_while need_to_visit) \<lparr>fu_sets = [], fu_set_of = Map.empty\<rparr>
              [0..<length need_to_visit]) (\<lambda>s.
     foldR (backward_fusion match executes_before is_while need_to_visit) s [0..<length need_to_visit])"

definition calls_to_fuse :: "nat \<Rightarrow> hlo_module \<Rightarrow> cid \<Rightarrow> iid list statusor" where
  "calls_to_fuse w m c =
     bindR (ColorSortedPostorder w m c) (\<lambda>postorder. Inr (filter (\<lambda>i. opcode m i = kCall \<or> opcode m i = kWhile) postorder))"

definition postorder_index :: "iid list \<Rightarrow> iid \<Rightarrow> nat" where
  "postorder_index need_to_visit i = length (takeWhile (\<lambda>j. j \<noteq> i) need_to_visit)"

text \<open>One round of the loop.\<close>

definition fusion_iteration ::
  "fusion_lib \<Rightarrow> nat \<Rightarrow> fusion_type \<Rightarrow> hlo_partition \<Rightarrow> cid \<Rightarrow> fusion_state \<Rightarrow> (bool \<times> fusion_state) statusor" where
  "fusion_iteration X w t p c st =
     (let m = fs_module st in
      bindR (calls_to_fuse w m c) (\<lambda>need_to_visit.
      bindR (find_fusions (\<lambda>i. i_name (m_instr m i)) (FusionMatch t p m) (fl_executes_before X m (fs_control st)) (\<lambda>i. opcode m i = kWhile) need_to_visit) (\<lambda>s.
      bindR (foldR (\<lambda>st calls. bindR (FuseCalls X (sort_key (postorder_index need_to_visit) calls) None st) (\<lambda>(_, st). Inr st))
               st (fu_sets s)) (\<lambda>st.
      Inr (fu_sets s \<noteq> [], st)))))"

fun fusion_loop ::
  "nat \<Rightarrow> fusion_lib \<Rightarrow> nat \<Rightarrow> fusion_type \<Rightarrow> hlo_partition \<Rightarrow> cid \<Rightarrow> bool \<Rightarrow> fusion_state \<Rightarrow> (bool \<times> fusion_state) statusor" where
  "fusion_loop 0 X w t p c changed st = Inl (Undefined ''out of fuel'')"
| "fusion_loop (Suc n) X w t p c changed st =
     bindR (fusion_iteration X w t p c st) (\<lambda>(found_match, st).
     if found_match then fusion_loop n X w t p c True st else Inr (changed, st))"

definition Visit_fusion ::
  "nat \<Rightarrow> fusion_lib \<Rightarrow> nat \<Rightarrow> fusion_type \<Rightarrow> hlo_partition \<Rightarrow> fusion_state \<Rightarrow> cid \<Rightarrow> (bool \<times> fusion_state) statusor" where
  "Visit_fusion fuel X w t p st c = fusion_loop fuel X w t p c False st"

section \<open>The pass\<close>

fun visit_computations ::
  "nat \<Rightarrow> fusion_lib \<Rightarrow> nat \<Rightarrow> fusion_type \<Rightarrow> hlo_partition \<Rightarrow> bool \<Rightarrow> bool \<Rightarrow> fusion_state \<Rightarrow> cid list \<Rightarrow> (bool \<times> fusion_state) statusor" where
  "visit_computations 0 X w t p only changed st to_visit = Inl (Undefined ''out of fuel'')"
| "visit_computations (Suc n) X w t p only changed st [] = Inr (changed, st)"
| "visit_computations (Suc n) X w t p only changed st (c # to_visit) =
     (let m = fs_module st in
      bindR (mapR (calledR m) (filter (\<lambda>i. opcode m i = kWhile) (post_order m c))) (\<lambda>bodies.
      let to_visit = rev bodies @ to_visit in
      if c \<noteq> m_entry m \<or> \<not> only
      then bindR (Visit_fusion n X w t p st c) (\<lambda>(computation_changed, st).
           visit_computations n X w t p only (changed \<or> computation_changed) st to_visit)
      else visit_computations n X w t p only changed st to_visit))"

definition MpmdComputationFusion_Run ::
  "nat \<Rightarrow> fusion_lib \<Rightarrow> nat \<Rightarrow> 'j json_api \<Rightarrow> fusion_type \<Rightarrow> hlo_partition \<Rightarrow> bool \<Rightarrow> fusion_state \<Rightarrow> (bool \<times> fusion_state) statusor" where
  "MpmdComputationFusion_Run fuel X w J t p only_fuse_loop_tasks st =
     (let m = fs_module st in
      bindR (EnforceBijectiveTasks J m (m_entry m)) (\<lambda>enforce_bijective_tasks.
      if t = kMatchingDevices \<and> enforce_bijective_tasks then Inr (False, st)
      else bindR (visit_computations fuel X w t p only_fuse_loop_tasks False st [m_entry m]) (\<lambda>(changed, st).
           if changed then bindR (fl_dce X (fs_module st)) (\<lambda>m. Inr (True, st\<lparr>fs_module := m\<rparr>))
           else Inr (False, st))))"

end
