(* ===== verification/Mm_Computation.thy ===== *)
theory Mm_Computation
  imports Caches Mpmd_Utils
begin

text \<open>
  \<open>mm_computation.cc\<close>: a compiled computation, what it needs of memory, and how its inputs,
  outputs and temporary buffers are laid out when it is run on a CPU or a GPU.

  Sizes and addresses are 64-bit words. The buffer allocations of an executable are data; the
  compiler, running the thunks and the memory the temporaries come from are arguments. A
  caught C++ exception is the status \<open>Throws\<close>. The message of a status is its text.
\<close>

section \<open>Memory for temporaries\<close>

record dev_mem =
  dm_opaque :: "64 word"
  dm_size :: "64 word"

definition null_mem :: dev_mem where
  "null_mem = \<lparr>dm_opaque = 0, dm_size = 0\<rparr>"

record buffer_allocation =
  ba_index :: nat
  ba_size :: "64 word"
  ba_is_entry_computation_parameter :: bool
  ba_maybe_live_out :: bool
  ba_is_tuple :: bool
  ba_IsPreallocatedTempBuffer :: bool
  ba_is_constant :: bool
  ba_is_thread_local :: bool
  ba_parameter_number :: nat
  ba_param_shape_index :: "int list"
  ba_positions :: "iid list"
  ba_ToString :: string

unbundle bit_operations_syntax

definition padding :: "64 word" where
  "padding = 4096 - 1"

definition PaddedSize :: "64 word \<Rightarrow> 64 word" where
  "PaddedSize sz = (sz + padding) AND NOT padding"

record temp_allocator =
  tm_position :: "64 word"
  tm_total_size :: "64 word"
  tm_buffer :: "64 word"

definition tuple_bytes :: "'a list \<Rightarrow> 64 word" where
  "tuple_bytes xs = of_nat (length xs) * 8"

definition temp_total :: "buffer_allocation list \<Rightarrow> 64 word option \<Rightarrow> 64 word option \<Rightarrow> 64 word" where
  "temp_total allocations args outputs =
     (let total_size = 0;
          total_size = (case args of None \<Rightarrow> total_size | Some n \<Rightarrow> total_size + PaddedSize n);
          total_size = (case outputs of None \<Rightarrow> total_size | Some n \<Rightarrow> total_size + PaddedSize n) in
      foldl (\<lambda>t a. if ba_IsPreallocatedTempBuffer a then t + PaddedSize (ba_size a) else t) total_size allocations)"

definition TaskTempMemoryAllocator ::
  "(64 word \<Rightarrow> 64 word) \<Rightarrow> buffer_allocation list \<Rightarrow> 64 word option \<Rightarrow> 64 word option \<Rightarrow> temp_allocator" where
  "TaskTempMemoryAllocator allocate allocations args outputs =
     (let total_size = temp_total allocations args outputs in
      \<lparr>tm_position = 0, tm_total_size = total_size, tm_buffer = allocate total_size\<rparr>)"

definition Next :: "temp_allocator \<Rightarrow> 64 word \<Rightarrow> 64 word \<times> temp_allocator" where
  "Next t alloc_size = (tm_buffer t + tm_position t, t\<lparr>tm_position := tm_position t + PaddedSize alloc_size\<rparr>)"

section \<open>Executables\<close>

record cpu_executable =
  ce_module :: hlo_module
  ce_unique_id :: int
  ce_Allocations :: "buffer_allocation list"
  ce_constants :: "dev_mem list"
  ce_has_compute_function :: bool
  ce_has_thunks :: bool

record gpu_executable =
  ge_module :: hlo_module
  ge_unique_id :: int
  ge_GetAllocations :: "buffer_allocation list"
  ge_GetOutputInfo :: "(int list \<times> nat) list"

datatype executable = CpuExecutable cpu_executable | GpuExecutable gpu_executable

fun executable_module :: "executable \<Rightarrow> hlo_module" where
  "executable_module (CpuExecutable e) = ce_module e"
| "executable_module (GpuExecutable e) = ge_module e"

fun buffer_allocations :: "executable \<Rightarrow> buffer_allocation list" where
  "buffer_allocations (CpuExecutable e) = ce_Allocations e"
| "buffer_allocations (GpuExecutable e) = ge_GetAllocations e"

text \<open>
  The host data a copy to a device writes, and where; what the runtime of XLA does with the
  buffers once they are laid out.
\<close>

type_synonym host_copy = "64 word \<times> 64 word list"

record exec_lib =
  el_Allocate :: "64 word \<Rightarrow> 64 word"
  el_is_cpu_client :: bool
  el_ExecuteComputeFunction :: "dev_mem list \<Rightarrow> unit statusor"
  el_ExecuteThunks :: "dev_mem list \<Rightarrow> unit statusor"
  el_stream :: "int \<Rightarrow> unit statusor"
  el_ResolveConstantGlobals :: "(nat \<rightharpoonup> dev_mem) statusor"
  el_ExecuteGpuThunks :: "host_copy list \<Rightarrow> dev_mem list \<Rightarrow> unit statusor"
  el_RecordCuEvent :: "unit statusor"

definition TupledArgs :: "hlo_module \<Rightarrow> bool" where
  "TupledArgs m \<longleftrightarrow> (case params m (m_entry m) of [p] \<Rightarrow> IsTupleShape (i_shape (m_instr m p)) | _ \<Rightarrow> False)"

section \<open>Running on a CPU\<close>

definition output_buffer_indices :: "hlo_module \<Rightarrow> iid \<rightharpoonup> nat" where
  "output_buffer_indices m =
     (let r = root m (m_entry m) in
      if IsTupleShape (i_shape (m_instr m r))
      then foldl (\<lambda>f (k, operand). f(operand \<mapsto> k)) Map.empty (enumerate 0 (operands m r))
      else [r \<mapsto> 0])"

definition get_output_index :: "(iid \<rightharpoonup> nat) \<Rightarrow> buffer_allocation \<Rightarrow> nat option" where
  "get_output_index indices a =
     (case find (\<lambda>i. indices i \<noteq> None) (ba_positions a) of None \<Rightarrow> None | Some i \<Rightarrow> indices i)"

definition mismatch :: "string \<Rightarrow> nat \<Rightarrow> cpu_executable \<Rightarrow> buffer_allocation \<Rightarrow> dev_mem \<Rightarrow> status" where
  "mismatch what k exe a mem =
     InvalidArgument (what @ '' '' @ show_int (int k) @ '' on '' @ m_name (ce_module exe) @ ''.'' @ show_int (ce_unique_id exe) @
       '' has mismatched sizes. XLA expected '' @ show_int (uint (ba_size a)) @ '', but MultiMesh has '' @ show_int (uint (dm_size mem)))"

definition unmatched :: "cpu_executable \<Rightarrow> buffer_allocation \<Rightarrow> status" where
  "unmatched exe a =
     InternalError (''buffer allocation could not be matched against output index on '' @ m_name (ce_module exe) @ '': '' @ ba_ToString a)"

definition cpu_buffer ::
  "cpu_executable \<Rightarrow> dev_mem list \<Rightarrow> dev_mem list \<Rightarrow> (iid \<rightharpoonup> nat) \<Rightarrow> dev_mem list \<times> temp_allocator \<Rightarrow> buffer_allocation
     \<Rightarrow> (dev_mem list \<times> temp_allocator) statusor" where
  "cpu_buffer exe inputs outputs indices st a =
     (let (buffers, t) = st in
      if ba_is_entry_computation_parameter a
      then bindR (subR inputs (ba_parameter_number a)) (\<lambda>input.
           if ba_size a \<noteq> 0 \<and> dm_size input \<noteq> ba_size a
           then Inl (mismatch ''input'' (ba_parameter_number a) exe a input)
           else if ba_maybe_live_out a \<and> get_output_index indices a = None then Inl (unmatched exe a)
           else Inr (buffers @ [input], t))
      else if ba_maybe_live_out a
      then if ba_is_tuple a
           then let sz = tuple_bytes outputs; (output_tuple, t) = Next t sz in
                Inr (buffers @ [\<lparr>dm_opaque = output_tuple, dm_size = sz\<rparr>], t)
           else case get_output_index indices a of
               None \<Rightarrow> Inl (unmatched exe a)
             | Some output_index \<Rightarrow>
                 bindR (subR outputs output_index) (\<lambda>output.
                 if ba_size a \<noteq> 0 \<and> dm_size output \<noteq> ba_size a
                 then Inl (mismatch ''output'' output_index exe a output)
                 else Inr (buffers @ [output], t))
      else if ba_IsPreallocatedTempBuffer a
      then let (buf, t) = Next t (ba_size a) in Inr (buffers @ [\<lparr>dm_opaque = buf, dm_size = ba_size a\<rparr>], t)
      else if ba_is_constant a \<and> ba_index a < length (ce_constants exe)
      then Inr (buffers @ [ce_constants exe ! ba_index a], t)
      else if ba_is_constant a \<or> ba_is_thread_local a then Inr (buffers @ [null_mem], t)
      else Inl (InvalidArgument (''Got buffer allocation that is not an input, output, or temp: '' @ ba_ToString a)))"

definition cpu_allocator ::
  "exec_lib \<Rightarrow> cpu_executable \<Rightarrow> dev_mem list \<Rightarrow> dev_mem list \<Rightarrow> bool \<Rightarrow> temp_allocator" where
  "cpu_allocator L exe inputs outputs tupled_args =
     (let m = ce_module exe; tupled_outputs = IsTupleShape (i_shape (m_instr m (root m (m_entry m)))) in
      TaskTempMemoryAllocator (el_Allocate L) (ce_Allocations exe)
        (if tupled_args then Some (tuple_bytes inputs) else None)
        (if tupled_outputs then Some (tuple_bytes outputs) else None))"

definition cpu_buffers ::
  "exec_lib \<Rightarrow> cpu_executable \<Rightarrow> dev_mem list \<Rightarrow> dev_mem list \<Rightarrow> bool \<Rightarrow> (dev_mem list \<times> temp_allocator) statusor" where
  "cpu_buffers L exe inputs outputs tupled_args =
     foldR (cpu_buffer exe inputs outputs (output_buffer_indices (ce_module exe)))
       ([], cpu_allocator L exe inputs outputs tupled_args) (ce_Allocations exe)"

definition RunCpuExecutable ::
  "exec_lib \<Rightarrow> cpu_executable \<Rightarrow> dev_mem list \<Rightarrow> dev_mem list \<Rightarrow> device_assignment \<Rightarrow> bool \<Rightarrow> unit statusor" where
  "RunCpuExecutable L exe inputs outputs da tupled_args =
     (if \<not> el_is_cpu_client L then Inl (InternalError ''client is not a TfrtCpuClient in RunCpuExecutable'')
      else bindR (cpu_buffers L exe inputs outputs tupled_args) (\<lambda>(buffers, _).
           bindR (MultiMeshToXlaDeviceAssignment da) (\<lambda>_.
           if ce_has_compute_function exe then el_ExecuteComputeFunction L buffers
           else if ce_has_thunks exe then el_ExecuteThunks L buffers
           else Inl (InternalError ''No compute function or thunks found.''))))"

section \<open>Running on a GPU\<close>

record gpu_layout =
  gp_buffers :: "dev_mem list"
  gp_temp :: temp_allocator
  gp_input_tuple :: "64 word"
  gp_output_tuple :: "64 word"

definition output_buffer_reorder :: "gpu_executable \<Rightarrow> nat \<rightharpoonup> int" where
  "output_buffer_reorder exe =
     foldl (\<lambda>f (shape_index, allocation_index).
              f(allocation_index \<mapsto> (case shape_index of [] \<Rightarrow> 0 | k # _ \<Rightarrow> narrow32 k)))
       Map.empty (ge_GetOutputInfo exe)"

definition gpu_mismatch :: "string \<Rightarrow> int \<Rightarrow> buffer_allocation \<Rightarrow> dev_mem \<Rightarrow> status" where
  "gpu_mismatch what k a mem =
     InvalidArgument (''Mismatched size on '' @ what @ '' '' @ show_int k @ '': XLA expected '' @ show_int (uint (ba_size a)) @
       '' but MultiMesh has '' @ show_int (uint (dm_size mem)) @ [CHR 0x0A] @ ba_ToString a)"

text \<open>An \<open>int\<close> index is compared with a \<open>size_t\<close>, so that a negative one is too large.\<close>

definition push_mem ::
  "string \<Rightarrow> status \<Rightarrow> dev_mem list \<Rightarrow> int \<Rightarrow> gpu_layout \<Rightarrow> buffer_allocation \<Rightarrow> gpu_layout statusor" where
  "push_mem what too_few mems k g a =
     (if k < 0 \<or> int (length mems) \<le> k then Inl too_few
      else let mem = mems ! nat k in
           if dm_size mem \<noteq> ba_size a \<and> 0 < ba_size a then Inl (gpu_mismatch what k a mem)
           else Inr (g\<lparr>gp_buffers := gp_buffers g @ [mem]\<rparr>))"

definition gpu_parameter ::
  "dev_mem list \<Rightarrow> bool \<Rightarrow> gpu_layout \<Rightarrow> buffer_allocation \<Rightarrow> gpu_layout statusor" where
  "gpu_parameter inputs tupled_args g a =
     (if tupled_args \<and> ba_param_shape_index a = []
      then let sz = tuple_bytes inputs; (buf, t) = Next (gp_temp g) sz in
           Inr (g\<lparr>gp_buffers := gp_buffers g @ [\<lparr>dm_opaque = buf, dm_size = sz\<rparr>], gp_temp := t, gp_input_tuple := buf\<rparr>)
      else let push = (\<lambda>k. push_mem ''input'' (InvalidArgument ''Too few inputs given to GPU executable'') inputs k g a) in
           case ba_param_shape_index a of
             [] \<Rightarrow> push (int (ba_parameter_number a))
           | [k] \<Rightarrow> push (narrow32 k)
           | _ \<Rightarrow> Inl (InvalidArgument ''Do yet not support arg tuples with nested shapes''))"

text \<open>The memory for the output tuple is as large as the tuple of the inputs.\<close>

definition gpu_output ::
  "dev_mem list \<Rightarrow> dev_mem list \<Rightarrow> (nat \<rightharpoonup> int) \<Rightarrow> gpu_layout \<Rightarrow> buffer_allocation \<Rightarrow> gpu_layout statusor" where
  "gpu_output inputs outputs reorder g a =
     (if ba_is_tuple a
      then let sz = tuple_bytes inputs; (buf, t) = Next (gp_temp g) sz in
           Inr (g\<lparr>gp_buffers := gp_buffers g @ [\<lparr>dm_opaque = buf, dm_size = sz\<rparr>], gp_temp := t, gp_output_tuple := buf\<rparr>)
      else case reorder (ba_index a) of
          None \<Rightarrow> Inl (InvalidArgument ''Buffer allocation missing from GpuExecutable::OutputInfo'')
        | Some output_index \<Rightarrow>
            push_mem ''output''
              (InvalidArgument (''Too few outputs given to GPU executable. Executable has output index '' @ show_int output_index @
                 '' but only '' @ show_int (int (length outputs)) @ '' outputs were given'')) outputs output_index g a)"

definition gpu_buffer ::
  "dev_mem list \<Rightarrow> dev_mem list \<Rightarrow> bool \<Rightarrow> (nat \<rightharpoonup> int) \<Rightarrow> (nat \<rightharpoonup> dev_mem) \<Rightarrow> gpu_layout \<Rightarrow> buffer_allocation
     \<Rightarrow> gpu_layout statusor" where
  "gpu_buffer inputs outputs tupled_args reorder globals g a =
     (let push = (\<lambda>mem. g\<lparr>gp_buffers := gp_buffers g @ [mem]\<rparr>) in
      if ba_is_thread_local a then Inr (push null_mem)
      else if ba_is_entry_computation_parameter a then gpu_parameter inputs tupled_args g a
      else if ba_maybe_live_out a then gpu_output inputs outputs reorder g a
      else if ba_IsPreallocatedTempBuffer a
      then let (buf, t) = Next (gp_temp g) (ba_size a) in
           Inr (g\<lparr>gp_buffers := gp_buffers g @ [\<lparr>dm_opaque = buf, dm_size = ba_size a\<rparr>], gp_temp := t\<rparr>)
      else if ba_is_constant a
      then Inr (push (case globals (ba_index a) of None \<Rightarrow> null_mem | Some mem \<Rightarrow> mem))
      else Inl (InvalidArgument (''Got buffer allocation that is not an input, output, or temp: '' @ ba_ToString a)))"

definition gpu_tupled_outputs :: "gpu_executable \<Rightarrow> bool" where
  "gpu_tupled_outputs exe \<longleftrightarrow> (\<exists>a \<in> set (ge_GetAllocations exe). ba_maybe_live_out a \<and> ba_is_tuple a)"

definition gpu_allocator ::
  "exec_lib \<Rightarrow> gpu_executable \<Rightarrow> dev_mem list \<Rightarrow> dev_mem list \<Rightarrow> bool \<Rightarrow> temp_allocator" where
  "gpu_allocator L exe inputs outputs tupled_args =
     TaskTempMemoryAllocator (el_Allocate L) (ge_GetAllocations exe)
       (if tupled_args then Some (tuple_bytes inputs) else None)
       (if gpu_tupled_outputs exe then Some (tuple_bytes outputs) else None)"

definition gpu_buffers ::
  "exec_lib \<Rightarrow> gpu_executable \<Rightarrow> dev_mem list \<Rightarrow> dev_mem list \<Rightarrow> bool \<Rightarrow> (nat \<rightharpoonup> dev_mem) \<Rightarrow> gpu_layout statusor" where
  "gpu_buffers L exe inputs outputs tupled_args globals =
     foldR (gpu_buffer inputs outputs tupled_args (output_buffer_reorder exe) globals)
       \<lparr>gp_buffers = [], gp_temp = gpu_allocator L exe inputs outputs tupled_args, gp_input_tuple = 0, gp_output_tuple = 0\<rparr>
       (ge_GetAllocations exe)"

definition tuple_copies :: "gpu_executable \<Rightarrow> dev_mem list \<Rightarrow> dev_mem list \<Rightarrow> bool \<Rightarrow> gpu_layout \<Rightarrow> host_copy list" where
  "tuple_copies exe inputs outputs tupled_args g =
     (if tupled_args then [(gp_input_tuple g, map dm_opaque inputs)] else []) @
     (if gpu_tupled_outputs exe then [(gp_output_tuple g, map dm_opaque outputs)] else [])"

definition RunGpuExecutable ::
  "exec_lib \<Rightarrow> gpu_executable \<Rightarrow> dev_mem list \<Rightarrow> dev_mem list \<Rightarrow> device_assignment \<Rightarrow> bool \<Rightarrow> unit statusor" where
  "RunGpuExecutable L exe inputs outputs da tupled_args =
     bindR (el_stream L (da_local_device_id da)) (\<lambda>_.
     bindR (MultiMeshToXlaDeviceAssignment da) (\<lambda>_.
     bindR (el_ResolveConstantGlobals L) (\<lambda>globals.
     bindR (gpu_buffers L exe inputs outputs tupled_args globals) (\<lambda>g.
     bindR (el_ExecuteGpuThunks L (tuple_copies exe inputs outputs tupled_args g) (gp_buffers g)) (\<lambda>_.
     el_RecordCuEvent L)))))"

section \<open>A compiled computation\<close>

record compile_config =
  cg_run_hlo_passes :: bool
  cg_run_backend :: bool
  cg_stream_executor_index :: int
  cg_device_mem :: "int option"

record compile_lib =
  cl_stream :: "int \<Rightarrow> unit statusor"
  cl_Compile :: "hlo_module \<Rightarrow> int option \<Rightarrow> executable statusor"
  cl_RunBackend :: "hlo_module \<Rightarrow> executable statusor"
  cl_RunHloPasses :: "hlo_module \<Rightarrow> hlo_module statusor"
  cl_computations :: "hlo_module \<Rightarrow> cid list"

text \<open>\<open>mx_opt_module\<close> is null once the module was moved to the compiler.\<close>

record mm_xla =
  mx_executable :: "executable option"
  mx_input_module :: hlo_module
  mx_opt_module :: "hlo_module option"
  mx_output_input_alias :: "int \<rightharpoonup> int"
  mx_launch_size :: "64 word"
  mx_temp_required :: "int option"
  mx_concurrent :: bool
  mx_root_shape :: shape

text \<open>An alias of the module: the output's index, the parameter's number and index.\<close>

type_synonym io_alias = "int list \<times> int \<times> int list"

definition number_of_parameters :: "hlo_module \<Rightarrow> int" where
  "number_of_parameters m =
     (if TupledArgs m then int (length (tuple_shapes (i_shape (m_instr m (hd (params m (m_entry m)))))))
      else int (length (params m (m_entry m))))"

definition alias_step :: "hlo_module \<Rightarrow> (int \<rightharpoonup> int) \<Rightarrow> io_alias \<Rightarrow> (int \<rightharpoonup> int) statusor" where
  "alias_step m f al =
     (let (output_index, parameter_number, parameter_index) = al; n = number_of_parameters m;
          root_index = (case output_index of [] \<Rightarrow> 0 | k # _ \<Rightarrow> k) in
      if TupledArgs m
      then if parameter_number \<noteq> 0
           then Inl (InvalidArgument (''Unexpected parameter number '' @ show_int parameter_number @ '' in alias config with tupled inputs''))
           else case parameter_index of
               [] \<Rightarrow> Inr f
             | k # _ \<Rightarrow>
                 (let parameter_number = narrow32 k in
                  if n \<le> parameter_number
                  then Inl (InvalidArgument (''Unexpected parameter index in alias config with tupled inputs and '' @ show_int n @ '' parameters''))
                  else Inr (f(root_index \<mapsto> parameter_number)))
      else if n \<le> parameter_number
           then Inl (InvalidArgument (''parameter number '' @ show_int parameter_number @ '' exceeds no. of parameters''))
           else Inr (f(root_index \<mapsto> parameter_number)))"

definition SetupOutputInputAlias :: "io_alias list \<Rightarrow> mm_xla \<Rightarrow> mm_xla statusor" where
  "SetupOutputInputAlias aliases x =
     bindR (foldR (alias_step (mx_input_module x)) (mx_output_input_alias x) aliases) (\<lambda>f. Inr (x\<lparr>mx_output_input_alias := f\<rparr>))"

definition OutputAlias :: "mm_xla \<Rightarrow> int \<Rightarrow> int option" where
  "OutputAlias x root_index = mx_output_input_alias x root_index"

definition Create_xla :: "int \<Rightarrow> int \<Rightarrow> io_alias list \<Rightarrow> hlo_module \<Rightarrow> shape \<Rightarrow> mm_xla statusor" where
  "Create_xla replica_count num_partitions aliases m root_shape =
     SetupOutputInputAlias aliases
       \<lparr>mx_executable = None, mx_input_module = m, mx_opt_module = Some m, mx_output_input_alias = Map.empty,
        mx_launch_size = of_int (replica_count * num_partitions), mx_temp_required = None, mx_concurrent = True,
        mx_root_shape = root_shape\<rparr>"

definition GetHloModule :: "mm_xla \<Rightarrow> hlo_module statusor" where
  "GetHloModule x =
     (case mx_executable x of
        None \<Rightarrow> Inl (InvalidArgument ''MultiMesh executable is null'')
      | Some (CpuExecutable _) \<Rightarrow> Inl (InvalidArgument ''executable is not a GPU executable'')
      | Some (GpuExecutable e) \<Rightarrow> Inr (ge_module e))"

definition GetHloModules :: "mm_xla \<Rightarrow> hlo_module list statusor" where
  "GetHloModules x = bindR (GetHloModule x) (\<lambda>m. Inr [m])"

definition TempRequired :: "mm_xla \<Rightarrow> int statusor" where
  "TempRequired x = (case mx_temp_required x of None \<Rightarrow> Inl (Fatal ''temp_required_'') | Some t \<Rightarrow> Inr t)"

definition optimized_module :: "mm_xla \<Rightarrow> hlo_module statusor" where
  "optimized_module x =
     (case mx_executable x of
        Some e \<Rightarrow> Inr (executable_module e)
      | None \<Rightarrow> (case mx_opt_module x of None \<Rightarrow> Inl (Undefined ''null module'') | Some m \<Rightarrow> Inr m))"

text \<open>Total sizes and counts of the input, output, temporary and constant allocations.\<close>

definition summary_class :: "buffer_allocation \<Rightarrow> nat option" where
  "summary_class a =
     (if ba_is_entry_computation_parameter a then Some 0
      else if ba_maybe_live_out a then Some 1
      else if ba_IsPreallocatedTempBuffer a then Some 2
      else if ba_is_constant a then Some 3
      else None)"

definition MemorySummary :: "buffer_allocation list \<Rightarrow> (int \<times> int) list \<times> int" where
  "MemorySummary allocations =
     (let totals = foldl (\<lambda>ts a. case summary_class a of None \<Rightarrow> ts
                             | Some c \<Rightarrow> ts[c := (fst (ts ! c) + uint (ba_size a), snd (ts ! c) + 1)])
                     (replicate 4 (0, 0)) allocations in
      (totals, fst (totals ! 0) + fst (totals ! 1) + fst (totals ! 2) + fst (totals ! 3)))"

definition collective_opcodes :: "hlo_opcode list" where
  "collective_opcodes =
     [kOtherOpcode ''collective-permute'', kOtherOpcode ''collective-permute-start'', kOtherOpcode ''all-gather'',
      kOtherOpcode ''all-gather-start'', kOtherOpcode ''reduce-scatter'', kAllReduce, kOtherOpcode ''all-reduce-start'',
      kOtherOpcode ''all-to-all'', kOtherOpcode ''collective-broadcast'']"

definition has_collectives :: "hlo_module \<Rightarrow> cid list \<Rightarrow> bool" where
  "has_collectives m cs \<longleftrightarrow> (\<exists>c \<in> set cs. \<exists>i \<in> set (comp_instructions m c). opcode m i \<in> set collective_opcodes)"

definition temp_of :: "buffer_allocation list \<Rightarrow> int" where
  "temp_of allocations = foldl (\<lambda>t a. if ba_IsPreallocatedTempBuffer a then t + uint (ba_size a) else t) 0 allocations"

definition finish_compile :: "compile_lib \<Rightarrow> mm_xla \<Rightarrow> executable \<Rightarrow> mm_xla" where
  "finish_compile L x e =
     x\<lparr>mx_executable := Some e, mx_opt_module := None,
       mx_concurrent := has_collectives (executable_module e) (cl_computations L (executable_module e)),
       mx_temp_required := Some (temp_of (buffer_allocations e))\<rparr>"

definition Compile_xla :: "compile_lib \<Rightarrow> compile_config \<Rightarrow> mm_xla \<Rightarrow> mm_xla statusor" where
  "Compile_xla L config x =
     bindR (cl_stream L (cg_stream_executor_index config)) (\<lambda>_.
     case mx_opt_module x of
       None \<Rightarrow> Inl (Undefined ''null module'')
     | Some m \<Rightarrow>
         if cg_run_hlo_passes config \<and> cg_run_backend config
         then bindR (cl_Compile L m (cg_device_mem config)) (\<lambda>e. Inr (finish_compile L x e))
         else if cg_run_backend config
         then bindR (cl_RunBackend L m) (\<lambda>e. Inr (finish_compile L x e))
         else bindR (cl_RunHloPasses L m) (\<lambda>m. Inr (x\<lparr>mx_opt_module := Some m\<rparr>)))"

section \<open>Compiling in the background\<close>

record mm_compiler =
  mc_computation :: mm_xla
  mc_compilation_finished :: bool

definition Create_compiler :: "int \<Rightarrow> int \<Rightarrow> io_alias list \<Rightarrow> hlo_module \<Rightarrow> shape \<Rightarrow> mm_compiler statusor" where
  "Create_compiler replica_count num_partitions aliases m root_shape =
     bindR (Create_xla replica_count num_partitions aliases m root_shape) (\<lambda>x.
     Inr \<lparr>mc_computation = x, mc_compilation_finished = False\<rparr>)"

text \<open>
  An exception is logged and caught before the status is assigned, and leaves the module with
  the compiler; an error status ends the process.
\<close>

definition Compile_compiler :: "compile_lib \<Rightarrow> compile_config \<Rightarrow> mm_compiler \<Rightarrow> mm_compiler statusor" where
  "Compile_compiler L config c =
     (case Compile_xla L config (mc_computation c) of
        Inr x \<Rightarrow> Inr (c\<lparr>mc_computation := x, mc_compilation_finished := True\<rparr>)
      | Inl (Throws e) \<Rightarrow> Inr (c\<lparr>mc_computation := (mc_computation c)\<lparr>mx_opt_module := None\<rparr>, mc_compilation_finished := True\<rparr>)
      | Inl e \<Rightarrow> Inl (Fatal ''MultiMeshCompiler::Compile failed''))"

text \<open>\<open>None\<close> as long as the calling thread is blocked.\<close>

definition Block :: "mm_compiler \<Rightarrow> unit option" where
  "Block c = (if mc_compilation_finished c then Some () else None)"

definition MakeExecutable :: "mm_compiler \<Rightarrow> mm_xla option" where
  "MakeExecutable c = (case Block c of None \<Rightarrow> None | Some _ \<Rightarrow> Some (mc_computation c))"

datatype platform = GPU | CPU

fun status_message :: "status \<Rightarrow> string" where
  "status_message (InvalidArgument s) = s"
| "status_message (InternalError s) = s"
| "status_message (Unimplemented s) = s"
| "status_message (OutOfRange s) = s"
| "status_message (Fatal s) = s"
| "status_message (Throws s) = s"
| "status_message (Undefined s) = s"

definition failed_running :: "hlo_module \<Rightarrow> int \<Rightarrow> unit statusor \<Rightarrow> string option" where
  "failed_running m uid r =
     (case r of Inr _ \<Rightarrow> None
      | Inl e \<Rightarrow> Some (''Failed running executable '' @ m_name m @ show_int uid @ '': '' @ status_message e))"

definition Execute ::
  "exec_lib \<Rightarrow> mm_xla \<Rightarrow> dev_mem list \<Rightarrow> dev_mem list \<Rightarrow> device_assignment \<Rightarrow> platform \<Rightarrow> string option" where
  "Execute L x inputs outputs da p =
     (case mx_executable x of
        None \<Rightarrow> Some ''executable is null''
      | Some e \<Rightarrow>
          (case (p, e) of
             (CPU, CpuExecutable exe) \<Rightarrow>
               failed_running (ce_module exe) (ce_unique_id exe) (RunCpuExecutable L exe inputs outputs da False)
           | (CPU, _) \<Rightarrow> Some ''Executable is not a cpu::CpuExecutable''
           | (GPU, GpuExecutable exe) \<Rightarrow>
               failed_running (ge_module exe) (ge_unique_id exe)
                 (RunGpuExecutable L exe inputs outputs da (TupledArgs (ge_module exe)))
           | (GPU, _) \<Rightarrow> Some ''Executable is not a gpu::GpuExecutable''))"

end
