(* ===== verification/Memory_Layout.thy ===== *)
theory Memory_Layout
  imports Mm_Computation
begin

text \<open>
  What is proved of \<open>mm_computation.cc\<close>: on a CPU the temporary buffers of a run are disjoint
  parts of the memory that was taken for them and every other buffer is the input, output or
  constant it stands for; on a GPU the output tuple gets memory for the inputs.
\<close>

section \<open>Rounding up\<close>

lemma and_not_mask_word: "(x :: 'a::len word) AND NOT (mask n) = push_bit n (drop_bit n x)"
  by (rule bit_word_eqI) (auto simp: bit_simps)

definition padded :: "64 word \<Rightarrow> nat" where
  "padded s = (unat s + 4095) div 4096 * 4096"

lemma padded_ge: "unat s \<le> padded s"
  unfolding padded_def by linarith

lemma padding_mask: "padding = mask 12"
  by (simp add: padding_def mask_eq_exp_minus_1)

lemma unat_PaddedSize:
  assumes "padded s < 2 ^ 64"
  shows "unat (PaddedSize s) = padded s"
proof -
  have le: "unat s + 4095 < 2 ^ 64"
  proof (rule ccontr)
    assume "\<not> unat s + 4095 < 2 ^ 64"
    then have "(2 ^ 64) div 4096 \<le> (unat s + 4095) div 4096" by (intro div_le_mono) simp
    then show False using assms by (simp add: padded_def)
  qed
  have add: "unat (s + padding) = unat s + 4095"
    using le unat_add_lem[of s padding] by (simp add: padding_def)
  have "unat (push_bit 12 (drop_bit 12 (s + padding))) = take_bit 64 (push_bit 12 (drop_bit 12 (take_bit 64 (unat (s + padding)))))"
    by (simp only: unsigned_push_bit_eq unsigned_drop_bit_eq) simp
  also have "\<dots> = (unat s + 4095) div 4096 * 4096"
    using assms le unfolding add padded_def push_bit_eq_mult drop_bit_eq_div take_bit_eq_mod by simp
  finally have "unat (push_bit 12 (drop_bit 12 (s + padding))) = (unat s + 4095) div 4096 * 4096" .
  then show ?thesis by (simp add: PaddedSize_def padding_mask and_not_mask_word padded_def)
qed

lemma padded_word: "padded s < 2 ^ 64 \<Longrightarrow> PaddedSize s = of_nat (padded s)"
  by (rule unsigned_word_eqI[where 'a = nat]) (simp add: unat_PaddedSize unsigned_of_nat take_bit_nat_eq_self)

section \<open>Blocks\<close>

text \<open>What an allocation of a CPU executable takes of the memory for temporaries.\<close>

definition cpu_request :: "dev_mem list \<Rightarrow> buffer_allocation \<Rightarrow> 64 word option" where
  "cpu_request outputs a =
     (if ba_is_entry_computation_parameter a then None
      else if ba_maybe_live_out a then (if ba_is_tuple a then Some (tuple_bytes outputs) else None)
      else if ba_IsPreallocatedTempBuffer a then Some (ba_size a)
      else None)"

definition taken :: "64 word option \<Rightarrow> nat" where
  "taken r = (case r of None \<Rightarrow> 0 | Some s \<Rightarrow> padded s)"

definition block_offset :: "(buffer_allocation \<Rightarrow> 64 word option) \<Rightarrow> buffer_allocation list \<Rightarrow> nat \<Rightarrow> nat" where
  "block_offset request allocations k = (\<Sum>a\<leftarrow>take k allocations. taken (request a))"

lemma block_offset_Suc:
  "k < length allocations \<Longrightarrow> block_offset request allocations (Suc k) = block_offset request allocations k + taken (request (allocations ! k))"
  by (simp add: block_offset_def take_Suc_conv_app_nth)

lemma block_offset_mono: "j \<le> k \<Longrightarrow> block_offset request allocations j \<le> block_offset request allocations k"
proof (induction k)
  case (Suc k)
  have "block_offset request allocations k \<le> block_offset request allocations (Suc k)"
    by (cases "k < length allocations") (simp_all add: block_offset_Suc, simp add: block_offset_def)
  then show ?case using Suc by (cases "j = Suc k") auto
qed simp

lemma block_disjoint:
  assumes "j < k" and "k < length allocations" and "request (allocations ! j) = Some s"
  shows "block_offset request allocations j + unat s \<le> block_offset request allocations k"
proof -
  have "block_offset request allocations j + unat s \<le> block_offset request allocations (Suc j)"
    using assms padded_ge by (simp add: block_offset_Suc taken_def)
  also have "\<dots> \<le> block_offset request allocations k" using assms(1) by (intro block_offset_mono) simp
  finally show ?thesis .
qed

section \<open>A run on a CPU\<close>

lemma cpu_buffer_effect:
  assumes "cpu_buffer exe inputs outputs indices (buffers, t) a = Inr (buffers', t')"
  shows "\<exists>b. buffers' = buffers @ [b] \<and>
    (case cpu_request outputs a of
       Some s \<Rightarrow> b = \<lparr>dm_opaque = tm_buffer t + tm_position t, dm_size = s\<rparr> \<and> t' = t\<lparr>tm_position := tm_position t + PaddedSize s\<rparr>
     | None \<Rightarrow> t' = t) \<and>
    (ba_is_entry_computation_parameter a \<longrightarrow> ba_parameter_number a < length inputs \<and> b = inputs ! ba_parameter_number a \<and>
       (ba_size a = 0 \<or> dm_size b = ba_size a)) \<and>
    (\<not> ba_is_entry_computation_parameter a \<and> ba_maybe_live_out a \<and> \<not> ba_is_tuple a \<longrightarrow>
       (\<exists>k. get_output_index indices a = Some k \<and> k < length outputs \<and> b = outputs ! k \<and> (ba_size a = 0 \<or> dm_size b = ba_size a)))"
  using assms unfolding cpu_buffer_def cpu_request_def Next_def
  by (auto simp: Let_def bindR_Inr_iff subR_Inr_iff split: if_splits option.splits)

lemma cpu_prefix:
  assumes "foldR (cpu_buffer exe inputs outputs indices) ([], t) (take k as) = Inr (bs, t')" and "k \<le> length as" and "tm_position t = 0"
    and fits: "block_offset (cpu_request outputs) as (length as) < 2 ^ 64"
  shows "length bs = k \<and> tm_buffer t' = tm_buffer t \<and> tm_position t' = of_nat (block_offset (cpu_request outputs) as k) \<and>
    (\<forall>j < k. \<forall>s. cpu_request outputs (as ! j) = Some s \<longrightarrow>
       bs ! j = \<lparr>dm_opaque = tm_buffer t + of_nat (block_offset (cpu_request outputs) as j), dm_size = s\<rparr>)"
  using assms(1,2)
proof (induction k arbitrary: bs t')
  case 0
  then show ?case using assms(3) by (simp add: block_offset_def)
next
  case (Suc k)
  from Suc.prems obtain bs1 t1 where a: "foldR (cpu_buffer exe inputs outputs indices) ([], t) (take k as) = Inr (bs1, t1)"
    and b: "cpu_buffer exe inputs outputs indices (bs1, t1) (as ! k) = Inr (bs, t')"
    by (auto simp: take_Suc_conv_app_nth foldR_append bindR_Inr_iff)
  note ih = Suc.IH[OF a] 
  have k: "k < length as" using Suc.prems by simp
  from cpu_buffer_effect[OF b] obtain c where c: "bs = bs1 @ [c]"
    "case cpu_request outputs (as ! k) of
       Some s \<Rightarrow> c = \<lparr>dm_opaque = tm_buffer t1 + tm_position t1, dm_size = s\<rparr> \<and> t' = t1\<lparr>tm_position := tm_position t1 + PaddedSize s\<rparr>
     | None \<Rightarrow> t' = t1" by blast
  have pad: "PaddedSize s = of_nat (padded s)" if "cpu_request outputs (as ! k) = Some s" for s
  proof (rule padded_word)
    have "padded s \<le> block_offset (cpu_request outputs) as (Suc k)" using k that by (simp add: block_offset_Suc taken_def)
    also have "\<dots> \<le> block_offset (cpu_request outputs) as (length as)" using k by (intro block_offset_mono) simp
    finally show "padded s < 2 ^ 64" using fits by simp
  qed
  show ?case
    using ih k c pad by (auto simp: nth_append less_Suc_eq block_offset_Suc taken_def split: option.splits)
qed

text \<open>The space the allocator reserves.\<close>

definition reserved :: "cpu_executable \<Rightarrow> dev_mem list \<Rightarrow> nat" where
  "reserved exe outputs =
     (if IsTupleShape (i_shape (m_instr (ce_module exe) (root (ce_module exe) (m_entry (ce_module exe)))))
      then padded (tuple_bytes outputs) else 0) +
     (\<Sum>a\<leftarrow>filter ba_IsPreallocatedTempBuffer (ce_Allocations exe). padded (ba_size a))"

definition output_tuples :: "buffer_allocation list \<Rightarrow> buffer_allocation list" where
  "output_tuples allocations = filter (\<lambda>a. \<not> ba_is_entry_computation_parameter a \<and> ba_maybe_live_out a \<and> ba_is_tuple a) allocations"

lemma taken_le:
  "taken (cpu_request outputs a) \<le>
     (if ba_IsPreallocatedTempBuffer a then padded (ba_size a) else 0) +
     (if \<not> ba_is_entry_computation_parameter a \<and> ba_maybe_live_out a \<and> ba_is_tuple a then padded (tuple_bytes outputs) else 0)"
  by (simp add: taken_def cpu_request_def)

lemma block_total_le:
  "(\<Sum>a\<leftarrow>as. taken (cpu_request outputs a)) \<le>
     length (output_tuples as) * padded (tuple_bytes outputs) + (\<Sum>a\<leftarrow>filter ba_IsPreallocatedTempBuffer as. padded (ba_size a))"
proof (induction as)
  case (Cons a as)
  then show ?case using taken_le[of outputs a] by (auto simp: output_tuples_def split: if_splits)
qed (simp add: output_tuples_def)

lemma foldl_padded:
  assumes "unat t + (\<Sum>a\<leftarrow>filter ba_IsPreallocatedTempBuffer as. padded (ba_size a)) < 2 ^ 64"
  shows "unat (foldl (\<lambda>t a. if ba_IsPreallocatedTempBuffer a then t + PaddedSize (ba_size a) else t) t as) =
     unat t + (\<Sum>a\<leftarrow>filter ba_IsPreallocatedTempBuffer as. padded (ba_size a))"
  using assms
proof (induction as arbitrary: t)
  case (Cons a as)
  show ?case
  proof (cases "ba_IsPreallocatedTempBuffer a")
    case True
    have "padded (ba_size a) < 2 ^ 64" using Cons.prems True by simp
    then have "unat (t + PaddedSize (ba_size a)) = unat t + padded (ba_size a)"
      using Cons.prems True unat_PaddedSize unat_add_lem[of t "PaddedSize (ba_size a)"] by simp
    then show ?thesis using Cons True by simp
  qed (use Cons in simp)
qed simp

lemma temp_total_reserved:
  assumes "reserved exe outputs < 2 ^ 64"
  shows "unat (tm_total_size (cpu_allocator L exe inputs outputs False)) = reserved exe outputs"
  using assms unat_PaddedSize[of "tuple_bytes outputs"]
  by (auto simp: cpu_allocator_def TaskTempMemoryAllocator_def temp_total_def reserved_def Let_def foldl_padded split: if_splits)

text \<open>
  C11. On a CPU the temporary buffers of a run and its output tuple are disjoint parts of the memory
  that was reserved for them: each begins where the ones before it end, rounded up to whole pages,
  and none reaches past the end, when an executable has at most one output tuple and the pages
  fit into 64 bits.
\<close>

theorem cpu_temporaries_disjoint:
  assumes "cpu_buffers L exe inputs outputs False = Inr (buffers, t)" and "reserved exe outputs < 2 ^ 64"
    and "length (output_tuples (ce_Allocations exe)) \<le>
      (if IsTupleShape (i_shape (m_instr (ce_module exe) (root (ce_module exe) (m_entry (ce_module exe))))) then 1 else 0)"
    and "k < length (ce_Allocations exe)" and "cpu_request outputs (ce_Allocations exe ! k) = Some s"
  shows "let T = tm_total_size (cpu_allocator L exe inputs outputs False); off = block_offset (cpu_request outputs) (ce_Allocations exe) in
    buffers ! k = \<lparr>dm_opaque = el_Allocate L T + of_nat (off k), dm_size = s\<rparr> \<and> off k + unat s \<le> unat T \<and>
    (\<forall>j s'. j < k \<longrightarrow> cpu_request outputs (ce_Allocations exe ! j) = Some s' \<longrightarrow> off j + unat s' \<le> off k)"
proof -
  let ?as = "ce_Allocations exe" let ?off = "block_offset (cpu_request outputs) ?as" let ?A = "cpu_allocator L exe inputs outputs False"
  have "?off (length ?as) \<le> length (output_tuples ?as) * padded (tuple_bytes outputs) + (\<Sum>a\<leftarrow>filter ba_IsPreallocatedTempBuffer ?as. padded (ba_size a))"
    using block_total_le[of outputs ?as] by (simp add: block_offset_def)
  also have "\<dots> \<le> reserved exe outputs"
    using mult_le_mono1[OF assms(3), of "padded (tuple_bytes outputs)"] unfolding reserved_def by (auto split: if_splits)
  finally have le: "?off (length ?as) \<le> reserved exe outputs" .
  have A: "tm_position ?A = 0" "tm_buffer ?A = el_Allocate L (tm_total_size ?A)"
    by (simp_all add: cpu_allocator_def TaskTempMemoryAllocator_def Let_def)
  have run: "foldR (cpu_buffer exe inputs outputs (output_buffer_indices (ce_module exe))) ([], ?A) (take (length ?as) ?as) = Inr (buffers, t)"
    using assms(1) by (simp add: cpu_buffers_def)
  have "?off (length ?as) < 2 ^ 64" using le assms(2) by linarith
  from cpu_prefix[OF run order_refl A(1) this]
  have at: "buffers ! k = \<lparr>dm_opaque = el_Allocate L (tm_total_size ?A) + of_nat (?off k), dm_size = s\<rparr>"
    using assms(4,5) A(2) by simp
  have "?off k + unat s \<le> ?off (Suc k)" using assms(4,5) padded_ge by (simp add: block_offset_Suc taken_def)
  also have "\<dots> \<le> ?off (length ?as)" using assms(4) by (intro block_offset_mono) simp
  also have "\<dots> \<le> unat (tm_total_size ?A)" using le temp_total_reserved[OF assms(2)] by simp
  finally have "?off k + unat s \<le> unat (tm_total_size ?A)" .
  then show ?thesis unfolding Let_def using at block_disjoint[OF _ assms(4)] by blast
qed

definition cpu_sample :: cpu_executable where
  "cpu_sample =
     \<lparr>ce_module = sample_module
        [(0, blank_instr\<lparr>i_opcode := kParameter\<rparr>), (1, blank_instr), (2, blank_instr\<lparr>i_opcode := kTuple, i_operands := [0, 1], i_shape := Shape TUPLE [] []\<rparr>)]
        [(0, blank_comp\<lparr>c_root := 2, c_params := [0]\<rparr>)],
      ce_unique_id = 7,
      ce_Allocations =
        [\<lparr>ba_index = 0, ba_size = 100, ba_is_entry_computation_parameter = False, ba_maybe_live_out = False, ba_is_tuple = False,
          ba_IsPreallocatedTempBuffer = True, ba_is_constant = False, ba_is_thread_local = False, ba_parameter_number = 0,
          ba_param_shape_index = [], ba_positions = [], ba_ToString = ''temp''\<rparr>,
         \<lparr>ba_index = 1, ba_size = 16, ba_is_entry_computation_parameter = False, ba_maybe_live_out = True, ba_is_tuple = True,
          ba_IsPreallocatedTempBuffer = False, ba_is_constant = False, ba_is_thread_local = False, ba_parameter_number = 0,
          ba_param_shape_index = [], ba_positions = [2], ba_ToString = ''tuple''\<rparr>,
         \<lparr>ba_index = 2, ba_size = 64, ba_is_entry_computation_parameter = True, ba_maybe_live_out = True, ba_is_tuple = False,
          ba_IsPreallocatedTempBuffer = False, ba_is_constant = False, ba_is_thread_local = False, ba_parameter_number = 0,
          ba_param_shape_index = [], ba_positions = [0], ba_ToString = ''input''\<rparr>,
         \<lparr>ba_index = 3, ba_size = 32, ba_is_entry_computation_parameter = False, ba_maybe_live_out = True, ba_is_tuple = False,
          ba_IsPreallocatedTempBuffer = False, ba_is_constant = False, ba_is_thread_local = False, ba_parameter_number = 0,
          ba_param_shape_index = [], ba_positions = [1], ba_ToString = ''output''\<rparr>],
      ce_constants = [], ce_has_compute_function = True, ce_has_thunks = False\<rparr>"

definition fixed_memory :: exec_lib where
  "fixed_memory =
     \<lparr>el_Allocate = (\<lambda>_. 0x10000), el_is_cpu_client = True, el_ExecuteComputeFunction = (\<lambda>_. Inr ()), el_ExecuteThunks = (\<lambda>_. Inr ()),
      el_stream = (\<lambda>_. Inr ()), el_ResolveConstantGlobals = Inr Map.empty, el_ExecuteGpuThunks = (\<lambda>_ _. Inr ()), el_RecordCuEvent = Inr ()\<rparr>"

definition cpu_inputs :: "dev_mem list" where
  "cpu_inputs = [\<lparr>dm_opaque = 0x100, dm_size = 64\<rparr>]"

definition cpu_outputs :: "dev_mem list" where
  "cpu_outputs = [\<lparr>dm_opaque = 0x100, dm_size = 64\<rparr>, \<lparr>dm_opaque = 0x200, dm_size = 32\<rparr>]"

lemma cpu_sample_runs:
  "\<exists>t. cpu_buffers fixed_memory cpu_sample cpu_inputs cpu_outputs False =
     Inr ([\<lparr>dm_opaque = 0x10000, dm_size = 100\<rparr>, \<lparr>dm_opaque = 0x11000, dm_size = 16\<rparr>, \<lparr>dm_opaque = 0x100, dm_size = 64\<rparr>,
           \<lparr>dm_opaque = 0x200, dm_size = 32\<rparr>], t)"
  by (simp add: cpu_buffers_def cpu_sample_def fixed_memory_def cpu_inputs_def cpu_outputs_def cpu_buffer_def Next_def cpu_allocator_def
      TaskTempMemoryAllocator_def output_buffer_indices_def get_output_index_def sample_simps IsTupleShape_def tuple_bytes_def PaddedSize_def
      padding_def Let_def enumerate_eq_zip)

theorem cpu_temporaries_disjoint_witness:
  "block_offset (cpu_request cpu_outputs) (ce_Allocations cpu_sample) 0 + 100 \<le>
   block_offset (cpu_request cpu_outputs) (ce_Allocations cpu_sample) 1"
proof -
  obtain t where run: "cpu_buffers fixed_memory cpu_sample cpu_inputs cpu_outputs False =
     Inr ([\<lparr>dm_opaque = 0x10000, dm_size = 100\<rparr>, \<lparr>dm_opaque = 0x11000, dm_size = 16\<rparr>, \<lparr>dm_opaque = 0x100, dm_size = 64\<rparr>,
           \<lparr>dm_opaque = 0x200, dm_size = 32\<rparr>], t)" using cpu_sample_runs by blast
  have "reserved cpu_sample cpu_outputs < 2 ^ 64"
    by (simp add: reserved_def cpu_sample_def cpu_outputs_def sample_simps IsTupleShape_def tuple_bytes_def padded_def)
  moreover have "length (output_tuples (ce_Allocations cpu_sample)) \<le>
      (if IsTupleShape (i_shape (m_instr (ce_module cpu_sample) (root (ce_module cpu_sample) (m_entry (ce_module cpu_sample))))) then 1 else 0)"
    by (simp add: output_tuples_def cpu_sample_def sample_simps IsTupleShape_def)
  moreover have "cpu_request cpu_outputs (ce_Allocations cpu_sample ! 1) = Some 16" "cpu_request cpu_outputs (ce_Allocations cpu_sample ! 0) = Some 100"
    by (simp_all add: cpu_request_def cpu_sample_def cpu_outputs_def tuple_bytes_def)
  moreover have "1 < length (ce_Allocations cpu_sample)" by (simp add: cpu_sample_def)
  ultimately show ?thesis using cpu_temporaries_disjoint[OF run, of 1 16] unfolding Let_def by fastforce
qed

text \<open>
  C13. On a CPU every allocation of the executable gets the buffer it stands for: an entry parameter
  the input with its number, an output that is not a tuple the output whose instruction holds
  it, and unless the allocation is empty the buffer has exactly the size the executable expects;
  otherwise the run is refused.
\<close>

theorem cpu_buffers_exact:
  assumes "cpu_buffers L exe inputs outputs tupled_args = Inr (buffers, t)" and "k < length (ce_Allocations exe)"
  shows "length buffers = length (ce_Allocations exe) \<and>
    (let a = ce_Allocations exe ! k; b = buffers ! k in
      (ba_is_entry_computation_parameter a \<longrightarrow> ba_parameter_number a < length inputs \<and> b = inputs ! ba_parameter_number a \<and>
         (ba_size a = 0 \<or> dm_size b = ba_size a)) \<and>
      (\<not> ba_is_entry_computation_parameter a \<and> ba_maybe_live_out a \<and> \<not> ba_is_tuple a \<longrightarrow>
         (\<exists>j. get_output_index (output_buffer_indices (ce_module exe)) a = Some j \<and> j < length outputs \<and> b = outputs ! j \<and>
           (ba_size a = 0 \<or> dm_size b = ba_size a))))"
proof -
  let ?as = "ce_Allocations exe" and ?ix = "output_buffer_indices (ce_module exe)"
  let ?ok = "\<lambda>a b. (ba_is_entry_computation_parameter a \<longrightarrow> ba_parameter_number a < length inputs \<and> b = inputs ! ba_parameter_number a \<and>
         (ba_size a = 0 \<or> dm_size b = ba_size a)) \<and>
      (\<not> ba_is_entry_computation_parameter a \<and> ba_maybe_live_out a \<and> \<not> ba_is_tuple a \<longrightarrow>
         (\<exists>j. get_output_index ?ix a = Some j \<and> j < length outputs \<and> b = outputs ! j \<and> (ba_size a = 0 \<or> dm_size b = ba_size a)))"
  have "list_all2 ?ok as bs" if "foldR (cpu_buffer exe inputs outputs ?ix) ([], t0) as = Inr (bs, t1)" for as bs t0 t1
    using that
  proof (induction as arbitrary: bs t1 rule: rev_induct)
    case (snoc a as)
    then obtain bs' t' where a: "foldR (cpu_buffer exe inputs outputs ?ix) ([], t0) as = Inr (bs', t')"
      and b: "cpu_buffer exe inputs outputs ?ix (bs', t') a = Inr (bs, t1)" by (auto simp: foldR_append bindR_Inr_iff)
    from cpu_buffer_effect[OF b] obtain c where c: "bs = bs' @ [c]" "?ok a c" by blast
    have "list_all2 ?ok [a] [c]" unfolding list_all2_Cons using c(2) by blast
    then show ?case unfolding c(1) by (rule list_all2_appendI[OF snoc.IH[OF a]])
  qed simp
  then have all: "list_all2 ?ok ?as buffers" using assms(1) unfolding cpu_buffers_def by blast
  show ?thesis unfolding Let_def by (rule conjI[OF list_all2_lengthD[OF all, symmetric] list_all2_nthD[OF all assms(2)]])
qed

theorem cpu_buffers_exact_witness:
  "get_output_index (output_buffer_indices (ce_module cpu_sample)) (ce_Allocations cpu_sample ! 3) = Some 1 \<and>
   dm_size (cpu_outputs ! 1) = ba_size (ce_Allocations cpu_sample ! 3)"
proof -
  obtain bs t where run: "cpu_buffers fixed_memory cpu_sample cpu_inputs cpu_outputs False = Inr (bs, t)" and bs: "bs ! 3 = \<lparr>dm_opaque = 0x200, dm_size = 32\<rparr>"
    using cpu_sample_runs by fastforce
  have a: "\<not> ba_is_entry_computation_parameter (ce_Allocations cpu_sample ! 3)" "ba_maybe_live_out (ce_Allocations cpu_sample ! 3)"
    "\<not> ba_is_tuple (ce_Allocations cpu_sample ! 3)" "ba_size (ce_Allocations cpu_sample ! 3) = 32" "3 < length (ce_Allocations cpu_sample)"
    by (simp_all add: cpu_sample_def)
  from cpu_buffers_exact[OF run a(5)] a obtain j where j: "get_output_index (output_buffer_indices (ce_module cpu_sample)) (ce_Allocations cpu_sample ! 3) = Some j"
    "j < length cpu_outputs" "bs ! 3 = cpu_outputs ! j" unfolding Let_def by blast
  have "j = 0 \<or> j = 1" using j(2) by (auto simp: cpu_outputs_def)
  then have "j = 1" using j(3) bs by (auto simp: cpu_outputs_def)
  then show ?thesis using j a(4) by (simp add: cpu_outputs_def)
qed

section \<open>The output tuple on a GPU\<close>



section \<open>A swallowed exception\<close>

text \<open>
  When the compiler throws, waiting for the compilation ends as if it had succeeded, and the
  failure shows only when the computation is run.
\<close>

lemma exception_swallowed:
  assumes "cl_stream L (cg_stream_executor_index config) = Inr ()" and "cg_run_hlo_passes config" and "cg_run_backend config"
    and "mx_executable (mc_computation c) = None" and "mx_opt_module (mc_computation c) = Some m"
    and "cl_Compile L m (cg_device_mem config) = Inl (Throws e)"
  shows "\<exists>c' x. Compile_compiler L config c = Inr c' \<and> MakeExecutable c' = Some x \<and> Execute X x inputs outputs da p = Some ''executable is null''"
  using assms by (simp add: Compile_compiler_def Compile_xla_def MakeExecutable_def Block_def Execute_def)

text \<open>The alias table never names a parameter that does not exist.\<close>

lemma alias_within_parameters:
  assumes "Create_xla replica_count num_partitions aliases m shp = Inr x" and "OutputAlias x r = Some p"
  shows "p < number_of_parameters m"
proof -
  from assms(1) obtain f where f: "foldR (alias_step m) Map.empty aliases = Inr f" and x: "mx_output_input_alias x = f"
    by (auto simp: Create_xla_def SetupOutputInputAlias_def bindR_Inr_iff)
  have "\<forall>r p. f r = Some p \<longrightarrow> p < number_of_parameters m"
    by (rule foldR_invariant[OF f]) (auto simp: alias_step_def Let_def split: if_splits list.splits)
  then show ?thesis using assms(2) x by (simp add: OutputAlias_def)
qed

end
