(* ===== verification/Task_Execution.thy ===== *)
theory Task_Execution
  imports Mm_Computation
begin

text \<open>
  \<open>hlo_executor.cc\<close> and \<open>allocator.h\<close>: one task of the schedule runs on one processor. Its
  temporaries come from one buffer that was sized before; its scalar arguments, which are not
  stores, are put back between the stores in the order of the parameters.

  Pointers are integers. An abort of the process is the status \<open>Fatal\<close>, a C++ exception
  \<open>Throws\<close>. A store without a tile on the processor is \<open>None\<close>.
\<close>

section \<open>The buffer for temporaries\<close>

definition kTempMinAlignment :: int where
  "kTempMinAlignment = 4096"

definition AlignTempSize :: "int \<Rightarrow> int" where
  "AlignTempSize sz = ((sz + kTempMinAlignment - 1) sdiv kTempMinAlignment) * kTempMinAlignment"

record temp_buffer =
  tb_base_ptr :: int
  tb_next_ptr :: int
  tb_size :: int
  tb_freed_size :: int

definition TempBufferAllocator :: "int \<Rightarrow> int \<Rightarrow> temp_buffer" where
  "TempBufferAllocator array_ptr byte_size =
     (let base_ptr = (if 0 < byte_size then array_ptr else 0) in
      \<lparr>tb_base_ptr = base_ptr, tb_next_ptr = base_ptr, tb_size = byte_size, tb_freed_size = 0\<rparr>)"

definition Allocate :: "temp_buffer \<Rightarrow> int \<Rightarrow> (int \<times> temp_buffer) statusor" where
  "Allocate b sz =
     (let ret_ptr = tb_next_ptr b; b = b\<lparr>tb_next_ptr := tb_next_ptr b + AlignTempSize sz\<rparr> in
      if tb_base_ptr b + tb_size b < tb_next_ptr b
      then Inl (Fatal (''requested size '' @ show_int sz @ '' exceeds capacity of temp buffer of size '' @ show_int (tb_size b)))
      else Inr (ret_ptr, b))"

definition Free :: "temp_buffer \<Rightarrow> int \<Rightarrow> temp_buffer" where
  "Free b sz =
     (let b = b\<lparr>tb_freed_size := tb_freed_size b + AlignTempSize sz\<rparr> in
      if tb_freed_size b = tb_size b then b\<lparr>tb_next_ptr := tb_base_ptr b\<rparr> else b)"

section \<open>Arguments\<close>

definition kMaxScalarArguments :: nat where
  "kMaxScalarArguments = 64"

record scalar_argument =
  sa_parameter_number :: nat
  sa_sizeof :: "64 word"

text \<open>The slots of the scalars are 64 bytes apart. The host buffer has \<open>kMaxScalarArguments\<close> slots.\<close>

definition scalar_buffers :: "int \<Rightarrow> scalar_argument list \<Rightarrow> (nat \<rightharpoonup> dev_mem) statusor" where
  "scalar_buffers device_scalar_buffer scalars =
     (if kMaxScalarArguments < length scalars then Inl (Undefined ''write past the host scalar arguments'')
      else Inr (foldl (\<lambda>f (i, s). f(sa_parameter_number s \<mapsto>
                   \<lparr>dm_opaque = of_int (device_scalar_buffer + 64 * int i), dm_size = sa_sizeof s\<rparr>))
             Map.empty (enumerate 0 scalars)))"

definition argument_step ::
  "(nat \<rightharpoonup> dev_mem) \<Rightarrow> dev_mem option list \<times> dev_mem list \<Rightarrow> nat \<Rightarrow> (dev_mem option list \<times> dev_mem list) statusor" where
  "argument_step scalars st param_number =
     (let (inputs, buffers) = st in
      case scalars param_number of
        Some b \<Rightarrow> Inr (inputs, buffers @ [b])
      | None \<Rightarrow>
          (case inputs of
             [] \<Rightarrow> Inl (Undefined ''subscript'')
           | None # _ \<Rightarrow> Inl (Fatal ''No tile for array'')
           | Some b # rest \<Rightarrow> Inr (rest, buffers @ [b])))"

definition input_buffers :: "(nat \<rightharpoonup> dev_mem) \<Rightarrow> nat \<Rightarrow> dev_mem option list \<Rightarrow> dev_mem list statusor" where
  "input_buffers scalars total_num_parameters inputs =
     bindR (foldR (argument_step scalars) (inputs, []) [0..<total_num_parameters]) (\<lambda>(_, buffers). Inr buffers)"

section \<open>Running a task\<close>

text \<open>What the layout of the buffers asks the allocator for, if it gets that far.\<close>

definition temporaries_of :: "exec_lib \<Rightarrow> mm_xla \<Rightarrow> dev_mem list \<Rightarrow> dev_mem list \<Rightarrow> platform \<Rightarrow> 64 word option" where
  "temporaries_of L x inputs outputs p =
     (case (p, mx_executable x) of
        (CPU, Some (CpuExecutable exe)) \<Rightarrow>
          if el_is_cpu_client L then Some (tm_total_size (cpu_allocator L exe inputs outputs False)) else None
      | (GPU, Some (GpuExecutable exe)) \<Rightarrow> Some (tm_total_size (gpu_allocator L exe inputs outputs (TupledArgs (ge_module exe))))
      | _ \<Rightarrow> None)"

definition RunExecutable ::
  "exec_lib \<Rightarrow> platform \<Rightarrow> mm_compiler \<Rightarrow> scalar_argument list \<Rightarrow> int \<Rightarrow> dev_mem option list \<Rightarrow> dev_mem list
     \<Rightarrow> device_assignment \<Rightarrow> temp_buffer \<Rightarrow> unit statusor" where
  "RunExecutable L p compiler scalars host_scalar_arguments inputs outputs da temp =
     bindR (if scalars = [] then Inr (0, temp)
            else if p = GPU then Allocate temp (64 * int (length scalars))
            else Inr (host_scalar_arguments, temp)) (\<lambda>(device_scalar_buffer, temp).
     bindR (scalar_buffers device_scalar_buffer scalars) (\<lambda>scalar_map.
     bindR (input_buffers scalar_map (length scalars + length inputs) inputs) (\<lambda>input_mems.
     case MakeExecutable compiler of
       None \<Rightarrow> Inl (Undefined ''blocked'')
     | Some x \<Rightarrow>
         bindR (case temporaries_of L x input_mems outputs p of
                  None \<Rightarrow> Inr (0, temp)
                | Some sz \<Rightarrow> Allocate temp (sint sz)) (\<lambda>(ptr, temp).
         case Execute (L\<lparr>el_Allocate := (\<lambda>_. of_int ptr)\<rparr>) x input_mems outputs da p of
           None \<Rightarrow> Inr ()
         | Some error_message \<Rightarrow> Inl (Throws error_message)))))"

end
