(* ===== verification/Pjrt_Executable.thy ===== *)
theory Pjrt_Executable
  imports Task_Execution Buffer_Alias
begin

text \<open>
  \<open>mm_pjrt_executable.cc\<close>: an executable holds the schedule of a partitioned program, and runs it
  on every local device: it gets stores for the parameters, the results and the temporaries,
  sizes one buffer for the temporaries inside tasks, and hands the tasks and reshards to the
  execution context in the order of the schedule.

  A store handle is its number; a default one is null. The context is the list of the commands
  it was given and the next number; what it does with them is the runtime's part. Making a
  store of a native buffer, reading shardings and layouts are arguments. The messages about the
  results leave out their names and shapes; timers and profile marks have no counterpart. That there
  is an addressable device for every argument vector is tested once, where the code indexes.
\<close>

section \<open>Operations\<close>

datatype store_type = PARAM | ROOT | TEMP

record store =
  st_type :: store_type
  st_index :: nat
  st_name :: string
  st_scalar :: bool
  st_shape :: shape
  st_mpmd_sharding :: hlo_sharding

record spmd_task =
  tk_module :: hlo_module
  tk_compiler :: mm_xla
  tk_devices :: device_list
  tk_inputs :: "store list"
  tk_outputs :: "store list"
  tk_loop :: bool
  tk_scalars :: "scalar_argument list"

datatype mpmd_operation =
    SpmdHloModuleTask spmd_task
  | Reshard store store
  | FreeStore store
  | CreateStore store

section \<open>The context\<close>

datatype command =
    NewStore nat nat store
  | NewBuffer nat int
  | RunTask (cmd_run_id: int) (cmd_device: nat) (cmd_task: spmd_task) (cmd_inputs: "nat list") (cmd_outputs: "nat list")
      (cmd_temp: nat) (cmd_strict: bool) (cmd_priority: int)
  | RunReshard (cmd_device: nat) (cmd_source: nat) (cmd_target: nat)
  | OnDone nat

record pjrt_state =
  ps_commands :: "command list"
  ps_next_store :: nat
  ps_next_buffer :: nat
  ps_next_run_id :: int
  ps_cached_temporary_stores :: "nat list list"
  ps_temp_allocations :: "nat list"

definition command :: "command \<Rightarrow> pjrt_state \<Rightarrow> pjrt_state" where
  "command c s = s\<lparr>ps_commands := ps_commands s @ [c]\<rparr>"

definition new_store :: "nat \<Rightarrow> store \<Rightarrow> pjrt_state \<Rightarrow> nat \<times> pjrt_state" where
  "new_store local_device st s =
     (let h = ps_next_store s in (h, command (NewStore h local_device st) (s\<lparr>ps_next_store := Suc h\<rparr>)))"

record pjrt_buffer =
  pb_is_multimesh :: bool
  pb_native_buffer :: "nat option"
  pb_store :: "nat option"

record pjrt_executable =
  pe_name :: string
  pe_schedule :: "mpmd_operation list"
  pe_temporaries :: "store list"
  pe_num_addressable :: nat
  pe_result_shape :: shape
  pe_fast_path :: "(nat option list list \<Rightarrow> nat list list statusor) option"

record pjrt_lib =
  px_sharding :: sharding_lib
  px_ToStore :: "nat \<Rightarrow> pjrt_buffer \<Rightarrow> pjrt_state \<Rightarrow> (nat \<times> pjrt_state) statusor"
  px_output_sharding :: "nat \<Rightarrow> unit statusor"
  px_has_layout :: "shape \<Rightarrow> bool"
  px_static_schedule_all_tasks :: bool

section \<open>The fast path\<close>

text \<open>A single task whose inputs are all native buffers goes to the executable of XLA directly.\<close>

definition set_slot :: "'a option list \<Rightarrow> nat \<Rightarrow> 'a \<Rightarrow> 'a option list statusor" where
  "set_slot xs k x = (if k < length xs then Inr (xs[k := Some x]) else Inl (Undefined ''subscript''))"

definition permute_inputs :: "store list \<Rightarrow> 'a list \<Rightarrow> 'a option list statusor" where
  "permute_inputs stores handles =
     foldR (\<lambda>buffers (index, st). bindR (subR handles index) (\<lambda>h. set_slot buffers (st_index st) h))
       (replicate (length handles) None) (enumerate 0 stores)"

definition permute_outputs :: "store list \<Rightarrow> 'a list \<Rightarrow> 'a option list statusor" where
  "permute_outputs stores output_vec =
     foldR (\<lambda>outputs (index, st). bindR (subR output_vec index) (\<lambda>h. set_slot outputs (st_index st) h))
       (replicate (length output_vec) None) (enumerate 0 stores)"

definition native_buffer :: "pjrt_buffer \<Rightarrow> nat statusor" where
  "native_buffer b = (case pb_native_buffer b of None \<Rightarrow> Inl (Undefined ''null buffer'') | Some n \<Rightarrow> Inr n)"

definition run_fast_path ::
  "pjrt_executable \<Rightarrow> (nat option list list \<Rightarrow> nat list list statusor) \<Rightarrow> pjrt_buffer list list \<Rightarrow> nat option list list statusor" where
  "run_fast_path e run argument_handles =
     (case pe_schedule e of
        SpmdHloModuleTask task # _ \<Rightarrow>
          bindR (mapR (\<lambda>handles. bindR (mapR native_buffer handles) (permute_inputs (tk_inputs task))) argument_handles) (\<lambda>buffers.
          bindR (run buffers) (\<lambda>outputs.
          mapR (permute_outputs (tk_outputs task)) outputs))
      | _ \<Rightarrow> Inl (Throws ''bad variant access''))"

section \<open>Stores for parameters, results and temporaries\<close>

definition parameter_store :: "pjrt_lib \<Rightarrow> nat list \<times> pjrt_state \<Rightarrow> nat \<times> pjrt_buffer \<Rightarrow> (nat list \<times> pjrt_state) statusor" where
  "parameter_store L r e =
     (let (stores, s) = r; (index, b) = e in
      case pb_store b of
        Some h \<Rightarrow> Inr (stores @ [h], s)
      | None \<Rightarrow> bindR (px_ToStore L index b s) (\<lambda>(h, s). Inr (stores @ [h], s)))"

definition parameter_stores_of ::
  "pjrt_lib \<Rightarrow> nat list list \<times> pjrt_state \<Rightarrow> pjrt_buffer list \<Rightarrow> (nat list list \<times> pjrt_state) statusor" where
  "parameter_stores_of L r arguments =
     (let (all, s) = r in
      bindR (foldR (parameter_store L) ([], s) (enumerate 0 arguments)) (\<lambda>(stores, s). Inr (all @ [stores], s)))"

text \<open>Shapes and stores of the results; a result that no operation gives has neither.\<close>

record root_state =
  ro_stores :: "nat option list list"
  ro_shapes :: "(shape \<times> shape) option list"
  ro_context :: pjrt_state

definition fill_root ::
  "store \<Rightarrow> nat option \<Rightarrow> nat list list \<Rightarrow> nat option list list \<times> pjrt_state \<Rightarrow> nat \<Rightarrow> (nat option list list \<times> pjrt_state) statusor" where
  "fill_root output alias parameter_stores r d =
     (let (stores, s) = r in
      case alias of
        Some p \<Rightarrow>
          bindR (subR parameter_stores d) (\<lambda>ps.
          bindR (subR ps p) (\<lambda>h. Inr (stores[d := (stores ! d)[st_index output := Some h]], s)))
      | None \<Rightarrow>
          (let (h, s) = new_store d output s in Inr (stores[d := (stores ! d)[st_index output := Some h]], s)))"

definition add_root_store ::
  "nat list list \<Rightarrow> root_state \<Rightarrow> store \<Rightarrow> shape \<times> shape \<Rightarrow> nat option \<Rightarrow> root_state statusor" where
  "add_root_store parameter_stores ro output shp alias =
     bindR (subR (ro_stores ro) 0) (\<lambda>first.
     bindR (subR first (st_index output)) (\<lambda>configured.
     if configured \<noteq> None then Inr ro
     else bindR (foldR (fill_root output alias parameter_stores) (ro_stores ro, ro_context ro) [0..<length (ro_stores ro)]) (\<lambda>(stores, s).
          Inr \<lparr>ro_stores = stores, ro_shapes = (ro_shapes ro)[st_index output := Some shp], ro_context = s\<rparr>)))"

definition get_shape_at_index :: "shape \<Rightarrow> nat \<Rightarrow> shape statusor" where
  "get_shape_at_index shp k = (if IsTupleShape shp then subR (tuple_shapes shp) k else Inr shp)"

definition parameter_number_alias :: "spmd_task \<Rightarrow> nat \<Rightarrow> nat option statusor" where
  "parameter_number_alias task local_index =
     (case OutputAlias (tk_compiler task) (int local_index) of
        None \<Rightarrow> Inr None
      | Some a \<Rightarrow>
          bindR (subZ (tk_inputs task) a) (\<lambda>input.
          Inr (if st_type input = PARAM then Some (st_index input) else None)))"

definition task_root ::
  "pjrt_executable \<Rightarrow> nat list list \<Rightarrow> spmd_task \<Rightarrow> shape \<Rightarrow> root_state \<Rightarrow> nat \<times> store \<Rightarrow> root_state statusor" where
  "task_root e parameter_stores task spmd_root_shape ro output =
     (let (local_index, output) = output in
      if st_type output \<noteq> ROOT then Inr ro
      else bindR (parameter_number_alias task local_index) (\<lambda>alias.
           bindR (get_shape_at_index (pe_result_shape e) (st_index output)) (\<lambda>global_shape.
           bindR (get_shape_at_index spmd_root_shape local_index) (\<lambda>local_shape.
           add_root_store parameter_stores ro output (global_shape, local_shape) alias))))"

definition setup_roots :: "pjrt_lib \<Rightarrow> pjrt_executable \<Rightarrow> nat list list \<Rightarrow> root_state \<Rightarrow> mpmd_operation \<Rightarrow> root_state statusor" where
  "setup_roots L e parameter_stores ro op =
     (case op of
        SpmdHloModuleTask task \<Rightarrow>
          (let m = tk_module task; r = root m (m_entry m) in
           bindR (GetSpmdShape (px_sharding L) (i_shape (m_instr m r)) (sharding_of m r)) (\<lambda>spmd_root_shape.
           foldR (task_root e parameter_stores task spmd_root_shape) ro (enumerate 0 (tk_outputs task))))
      | Reshard _ output \<Rightarrow>
          if st_type output = ROOT
          then add_root_store parameter_stores ro output
                 (st_shape output, L_MakePartitionedShape (px_sharding L) (st_shape output) (st_mpmd_sharding output)) None
          else Inr ro
      | _ \<Rightarrow> Inr ro)"

definition num_results :: "pjrt_executable \<Rightarrow> nat" where
  "num_results e = (if IsTupleShape (pe_result_shape e) then length (tuple_shapes (pe_result_shape e)) else 1)"

definition new_temporaries :: "store list \<Rightarrow> nat list list \<times> pjrt_state \<Rightarrow> nat \<Rightarrow> nat list list \<times> pjrt_state" where
  "new_temporaries temporaries r d =
     (let (all, s) = r;
          (hs, s) = foldl (\<lambda>(hs, s) st. let (h, s) = new_store d st s in (hs @ [h], s)) ([], s) temporaries in
      (all @ [hs], s))"

text \<open>The stores are made by the first run, for as many devices as it has, and kept.\<close>

definition temporary_stores :: "pjrt_executable \<Rightarrow> nat \<Rightarrow> pjrt_state \<Rightarrow> pjrt_state" where
  "temporary_stores e num_local_devices s =
     (if ps_cached_temporary_stores s = []
      then let (all, s) = foldl (new_temporaries (pe_temporaries e)) ([], s) [0..<num_local_devices] in
           s\<lparr>ps_cached_temporary_stores := all\<rparr>
      else s)"

section \<open>The size of the temporaries\<close>

definition task_temp_required :: "spmd_task \<Rightarrow> int statusor" where
  "task_temp_required task =
     (if mx_executable (tk_compiler task) \<noteq> None then TempRequired (tk_compiler task) else Inr 0)"

definition add_max_temp_buffer :: "int \<times> int \<times> int \<Rightarrow> mpmd_operation \<Rightarrow> (int \<times> int \<times> int) statusor" where
  "add_max_temp_buffer r op =
     (let (max_buffer_temp_required, max_num_scalars, max_num_outputs) = r in
      case op of
        SpmdHloModuleTask task \<Rightarrow>
          bindR (task_temp_required task) (\<lambda>temp.
          Inr (max max_buffer_temp_required temp,
               max max_num_scalars (int (length (filter st_scalar (tk_inputs task)))),
               max max_num_outputs (int (length (tk_outputs task)))))
      | _ \<Rightarrow> Inr r)"

definition total_temp_required :: "mpmd_operation list \<Rightarrow> int statusor" where
  "total_temp_required schedule =
     bindR (foldR add_max_temp_buffer (0, 0, 0) schedule) (\<lambda>(max_buffer_temp_required, max_num_scalars, max_num_outputs).
     Inr (max_num_scalars * kTempMinAlignment + AlignTempSize max_buffer_temp_required + AlignTempSize (max_num_outputs * 8)))"

definition temp_allocations :: "int \<Rightarrow> nat \<Rightarrow> pjrt_state \<Rightarrow> pjrt_state" where
  "temp_allocations byte_size num_local_devices s =
     (if ps_temp_allocations s = []
      then foldl (\<lambda>s d. let h = ps_next_buffer s in
                   command (NewBuffer h byte_size) (s\<lparr>ps_next_buffer := Suc h, ps_temp_allocations := ps_temp_allocations s @ [h]\<rparr>))
             s [0..<num_local_devices]
      else s)"

section \<open>Running the schedule\<close>

record run_stores =
  rs_parameters :: "nat list list"
  rs_roots :: "nat option list list"
  rs_temporaries :: "nat list list"

text \<open>A null handle is passed on by the code; here it is \<open>Undefined\<close>, what the runtime makes of it.\<close>

definition get_store_handle :: "run_stores \<Rightarrow> nat \<Rightarrow> store \<Rightarrow> nat statusor" where
  "get_store_handle rs d st =
     (case st_type st of
        PARAM \<Rightarrow> bindR (subR (rs_parameters rs) d) (\<lambda>hs. subR hs (st_index st))
      | ROOT \<Rightarrow> bindR (subR (rs_roots rs) d) (\<lambda>hs. bindR (subR hs (st_index st)) (\<lambda>h.
           case h of None \<Rightarrow> Inl (Undefined ''null store'') | Some h \<Rightarrow> Inr h))
      | TEMP \<Rightarrow> bindR (subR (rs_temporaries rs) d) (\<lambda>hs. subR hs (st_index st)))"

definition get_store_handles :: "run_stores \<Rightarrow> nat \<Rightarrow> store list \<Rightarrow> nat list statusor" where
  "get_store_handles rs d stores = mapR (get_store_handle rs d) (filter (\<lambda>st. \<not> st_scalar st) stores)"

definition kLoopPriority :: int where
  "kLoopPriority = 10"

definition run_operation ::
  "pjrt_lib \<Rightarrow> run_stores \<Rightarrow> mpmd_operation \<Rightarrow> int \<Rightarrow> pjrt_state \<Rightarrow> nat \<Rightarrow> pjrt_state statusor" where
  "run_operation L rs op run_id s d =
     (case op of
        SpmdHloModuleTask task \<Rightarrow>
          bindR (get_store_handles rs d (tk_inputs task)) (\<lambda>inputs.
          bindR (get_store_handles rs d (tk_outputs task)) (\<lambda>outputs.
          bindR (subR (ps_temp_allocations s) d) (\<lambda>temp.
          Inr (command (RunTask run_id d task inputs outputs temp
                 (tk_loop task \<or> px_static_schedule_all_tasks L \<or> mx_concurrent (tk_compiler task))
                 (if tk_loop task then kLoopPriority else 0)) s))))
      | Reshard input output \<Rightarrow>
          bindR (get_store_handle rs d input) (\<lambda>source.
          bindR (get_store_handle rs d output) (\<lambda>target.
          Inr (command (RunReshard d source target) s)))
      | _ \<Rightarrow> Inr s)"

definition run_on_devices :: "pjrt_lib \<Rightarrow> run_stores \<Rightarrow> nat \<Rightarrow> pjrt_state \<Rightarrow> mpmd_operation \<Rightarrow> pjrt_state statusor" where
  "run_on_devices L rs num_local_devices s op =
     (let run_id = ps_next_run_id s in
      foldR (run_operation L rs op run_id) (s\<lparr>ps_next_run_id := run_id + 1\<rparr>) [0..<num_local_devices])"

definition run_schedule :: "pjrt_lib \<Rightarrow> run_stores \<Rightarrow> nat \<Rightarrow> mpmd_operation list \<Rightarrow> pjrt_state \<Rightarrow> pjrt_state statusor" where
  "run_schedule L rs num_local_devices schedule s = foldR (run_on_devices L rs num_local_devices) s schedule"

section \<open>Executing\<close>

text \<open>The result is a buffer of the fast path or of a store.\<close>

definition output_buffer :: "pjrt_lib \<Rightarrow> pjrt_executable \<Rightarrow> root_state \<Rightarrow> nat \<Rightarrow> nat \<Rightarrow> nat statusor" where
  "output_buffer L e ro out d =
     bindR (subR (ro_shapes ro) out) (\<lambda>shp.
     if (case shp of None \<Rightarrow> True | Some (_, local_shape) \<Rightarrow> \<not> px_has_layout L local_shape)
     then Inl (InternalError (''output '' @ show_int (int out) @ '' for executable '' @ pe_name e @ '' has no layout''))
     else bindR (subR (ro_stores ro) d) (\<lambda>hs.
          bindR (subR hs out) (\<lambda>h.
          case h of
            None \<Rightarrow> Inl (InternalError (''output '' @ show_int (int out) @ '' for executable '' @ pe_name e @ '' got a null Zuku store''))
          | Some h \<Rightarrow> Inr h)))"

definition output_buffers :: "pjrt_lib \<Rightarrow> pjrt_executable \<Rightarrow> root_state \<Rightarrow> nat \<Rightarrow> nat list list statusor" where
  "output_buffers L e ro num_local_devices =
     bindR (mapR (\<lambda>out. bindR (px_output_sharding L out) (\<lambda>_. mapR (output_buffer L e ro out) [0..<num_local_devices]))
              [0..<length (ro_shapes ro)]) (\<lambda>by_output.
     Inr (map (\<lambda>d. map (\<lambda>row. row ! d) by_output) [0..<num_local_devices]))"

definition Execute_pjrt ::
  "pjrt_lib \<Rightarrow> pjrt_executable \<Rightarrow> pjrt_buffer list list \<Rightarrow> bool \<Rightarrow> pjrt_state \<Rightarrow> (nat option list list \<times> pjrt_state) statusor" where
  "Execute_pjrt L e argument_handles has_futures s =
     (let num_local_devices = length argument_handles in
      if argument_handles = [] then Inl (InvalidArgument (''no argument vectors passed to executable '' @ pe_name e))
      else if \<exists>handles \<in> set argument_handles. \<exists>b \<in> set handles. \<not> pb_is_multimesh b
      then Inl (InvalidArgument ''buffer passed to MultiMesh executable that is not a MultiMesh buffer'')
      else case (pe_fast_path e, \<forall>handles \<in> set argument_handles. \<forall>b \<in> set handles. pb_native_buffer b \<noteq> None) of
        (Some run, True) \<Rightarrow> bindR (run_fast_path e run argument_handles) (\<lambda>outputs. Inr (outputs, s))
      | _ \<Rightarrow>
          bindR (foldR (parameter_stores_of L) ([], s) argument_handles) (\<lambda>(parameter_stores, s).
          if pe_num_addressable e < num_local_devices then Inl (Undefined ''subscript'')
          else
          bindR (foldR (setup_roots L e parameter_stores)
                   \<lparr>ro_stores = replicate num_local_devices (replicate (num_results e) None),
                    ro_shapes = replicate (num_results e) None, ro_context = s\<rparr> (pe_schedule e)) (\<lambda>ro.
          let s = temporary_stores e num_local_devices (ro_context ro) in
          bindR (total_temp_required (pe_schedule e)) (\<lambda>byte_size.
          let s = temp_allocations byte_size num_local_devices s in
          bindR (run_schedule L \<lparr>rs_parameters = parameter_stores, rs_roots = ro_stores ro,
                     rs_temporaries = ps_cached_temporary_stores s\<rparr> num_local_devices (pe_schedule e) s) (\<lambda>s.
          let s = (if has_futures then foldl (\<lambda>s d. command (OnDone d) s) s [0..<num_local_devices] else s) in
          bindR (output_buffers L e ro num_local_devices) (\<lambda>outputs.
          Inr (map (map Some) outputs, s)))))))"

end
