(* ===== verification/Pjrt_Facts.thy ===== *)
theory Pjrt_Facts
  imports Pjrt_Executable Memory_Layout Buffer_Safety
begin

text \<open>
  What is proved of running an executable: the fast path and the schedule agree on the inputs of
  the task for index permutations that are their own inverse only; each device sees the
  schedule in order; scalars are put back where they were taken from; the buffer for
  temporaries is large enough; the results have stores of their own.
\<close>

section \<open>Samples\<close>

definition sample_store :: "store_type \<Rightarrow> nat \<Rightarrow> store" where
  "sample_store ty k =
     \<lparr>st_type = ty, st_index = k, st_name = ''store'', st_scalar = False, st_shape = Shape F32 [] [],
      st_mpmd_sharding = L_Replicate replicating_lib\<rparr>"

definition sample_context :: pjrt_state where
  "sample_context =
     \<lparr>ps_commands = [], ps_next_store = 100, ps_next_buffer = 0, ps_next_run_id = 7, ps_cached_temporary_stores = [], ps_temp_allocations = []\<rparr>"

definition sample_pjrt_lib :: pjrt_lib where
  "sample_pjrt_lib =
     \<lparr>px_sharding = replicating_lib, px_ToStore = (\<lambda>k b s. Inr (new_store 0 (sample_store PARAM k) s)), px_output_sharding = (\<lambda>_. Inr ()),
      px_has_layout = (\<lambda>_. True), px_static_schedule_all_tasks = True\<rparr>"

definition reshard_executable :: pjrt_executable where
  "reshard_executable =
     \<lparr>pe_name = ''reshard'', pe_schedule = [Reshard (sample_store PARAM 0) (sample_store ROOT 0)], pe_temporaries = [],
      pe_num_addressable = 2, pe_result_shape = Shape F32 [] [], pe_fast_path = None\<rparr>"

definition sample_run_stores :: run_stores where
  "sample_run_stores = \<lparr>rs_parameters = [[10, 20, 30], [11, 21, 31]], rs_roots = [[Some 100], [Some 101]], rs_temporaries = [[], []]\<rparr>"

section \<open>The fast path\<close>

lemma permute_outputs_eq: "permute_outputs = permute_inputs"
  by (simp add: permute_outputs_def permute_inputs_def fun_eq_iff)

lemma permute_prefix:
  assumes "k \<le> length stores" and "length stores \<le> length handles" and "distinct (map st_index stores)"
    and "\<forall>st \<in> set stores. st_index st < n"
  shows "\<exists>bs. foldR (\<lambda>buffers (index, st). bindR (subR handles index) (\<lambda>h. set_slot buffers (st_index st) h))
       (replicate n None) (enumerate 0 (take k stores)) = Inr bs \<and> length bs = n \<and> (\<forall>j < k. bs ! st_index (stores ! j) = Some (handles ! j))"
  using assms(1)
proof (induction k)
  case (Suc k)
  then obtain bs where bs: "foldR (\<lambda>buffers (index, st). bindR (subR handles index) (\<lambda>h. set_slot buffers (st_index st) h))
       (replicate n None) (enumerate 0 (take k stores)) = Inr bs" "length bs = n" "\<forall>j < k. bs ! st_index (stores ! j) = Some (handles ! j)"
    by auto
  have k: "k < length stores" "k < length handles" "st_index (stores ! k) < n" using Suc.prems assms by auto
  have neq: False if "j < k" and "st_index (stores ! k) = st_index (stores ! j)" for j
    using assms(3) that k nth_eq_iff_index_eq[of "map st_index stores" j k] by simp
  show ?case
    using bs k by (auto dest: neq simp: take_Suc_conv_app_nth enumerate_append_eq foldR_append set_slot_def less_Suc_eq nth_list_update)
qed simp

lemma permute_inputs_scatters:
  assumes "length stores = length handles" and "distinct (map st_index stores)" and "\<forall>st \<in> set stores. st_index st < length handles"
  shows "\<exists>bs. permute_inputs stores handles = Inr bs \<and> length bs = length handles \<and>
    (\<forall>j < length handles. bs ! st_index (stores ! j) = Some (handles ! j))"
  using permute_prefix[of "length stores" stores handles "length handles"] assms by (simp add: permute_inputs_def)

lemma get_store_handles_params:
  assumes "\<forall>st \<in> set stores. st_type st = PARAM \<and> \<not> st_scalar st \<and> st_index st < length handles"
    and "d < length (rs_parameters rs)" and "rs_parameters rs ! d = handles"
  shows "get_store_handles rs d stores = Inr (map (\<lambda>st. handles ! st_index st) stores)"
proof -
  have "filter (\<lambda>st. \<not> st_scalar st) stores = stores" using assms(1) by (auto simp: filter_id_conv)
  moreover have "mapR (get_store_handle rs d) stores = Inr (map (\<lambda>st. handles ! st_index st) stores)"
    by (rule mapR_all_Inr) (use assms in \<open>simp add: get_store_handle_def\<close>)
  ultimately show ?thesis by (simp add: get_store_handles_def)
qed

text \<open>
  C10. For one task over all arguments, the fast path hands XLA the same argument at every position as
  the schedule does exactly when the permutation of the arguments is its own inverse.
\<close>

theorem fast_path_agrees:
  assumes "length stores = length handles" and "distinct (map st_index stores)" and "distinct handles"
    and "\<forall>st \<in> set stores. st_type st = PARAM \<and> \<not> st_scalar st \<and> st_index st < length handles"
    and "d < length (rs_parameters rs)" and "rs_parameters rs ! d = handles"
  shows "bindR (get_store_handles rs d stores) (\<lambda>bs. Inr (map Some bs)) = permute_inputs stores handles \<longleftrightarrow>
    (\<forall>k < length stores. st_index (stores ! st_index (stores ! k)) = k)"
proof -
  let ?n = "length handles" let ?i = "\<lambda>k. st_index (stores ! k)"
  obtain bs where bs: "permute_inputs stores handles = Inr bs" "length bs = ?n" "\<forall>j < ?n. bs ! ?i j = Some (handles ! j)"
    using permute_inputs_scatters[OF assms(1,2)] assms(4) by blast
  have lt: "?i k < ?n" if "k < ?n" for k using that assms(1,4) by simp
  have inj: "inj_on ?i {..<?n}"
    using assms(1,2) by (auto simp: inj_on_def distinct_conv_nth)
  have onto: "\<exists>j < ?n. k = ?i j" if "k < ?n" for k
    using that endo_inj_surj[of "{..<?n}" ?i] inj lt by (auto simp: image_iff) 
  have "bindR (get_store_handles rs d stores) (\<lambda>bs. Inr (map Some bs)) = permute_inputs stores handles \<longleftrightarrow>
    (\<forall>k < ?n. bs ! k = Some (handles ! ?i k))"
    using bs assms(1) by (auto simp: get_store_handles_params[OF assms(4-6)] list_eq_iff_nth_eq)
  also have "\<dots> \<longleftrightarrow> (\<forall>j < ?n. handles ! j = handles ! ?i (?i j))"
  proof
    assume a: "\<forall>k < ?n. bs ! k = Some (handles ! ?i k)"
    show "\<forall>j < ?n. handles ! j = handles ! ?i (?i j)" using a bs(3) lt by (metis option.inject)
  next
    assume a: "\<forall>j < ?n. handles ! j = handles ! ?i (?i j)"
    show "\<forall>k < ?n. bs ! k = Some (handles ! ?i k)" using a bs(3) onto by metis
  qed
  also have "\<dots> \<longleftrightarrow> (\<forall>j < ?n. ?i (?i j) = j)"
    using assms(3) lt by (metis nth_eq_iff_index_eq)
  finally show ?thesis using assms(1) by simp
qed

text \<open>The cyclic permutation of three arguments goes wrong.\<close>

theorem fast_path_agrees_witness:
  "bindR (get_store_handles sample_run_stores 0 (map (sample_store PARAM) [1, 2, 0])) (\<lambda>bs. Inr (map Some bs)) \<noteq>
   permute_inputs (map (sample_store PARAM) [1, 2, 0]) [10, 20, 30]"
proof -
  let ?stores = "map (sample_store PARAM) [1, 2, 0]"
  have "distinct (map st_index ?stores)" "distinct [10, 20, 30 :: nat]"
    "\<forall>st \<in> set ?stores. st_type st = PARAM \<and> \<not> st_scalar st \<and> st_index st < length [10, 20, 30 :: nat]"
    "0 < length (rs_parameters sample_run_stores)" "rs_parameters sample_run_stores ! 0 = [10, 20, 30]"
    by (simp_all add: sample_store_def sample_run_stores_def)
  note agrees = fast_path_agrees[OF _ this]
  have "\<not> (\<forall>k < length ?stores. st_index (?stores ! st_index (?stores ! k)) = k)"
    by (intro notI, drule spec[of _ 0]) (simp add: sample_store_def)
  then show ?thesis using agrees by simp
qed

text \<open>The results of the fast path get the positions the task names.\<close>

lemma fast_path_outputs:
  assumes "length stores = length results" and "distinct (map st_index stores)" and "\<forall>st \<in> set stores. st_index st < length results"
  shows "\<exists>bs. permute_outputs stores results = Inr bs \<and> (\<forall>j < length results. bs ! st_index (stores ! j) = Some (results ! j))"
  using permute_inputs_scatters[OF assms] by (auto simp: permute_outputs_eq)

section \<open>One device's view of the schedule\<close>

definition command_device :: "command \<Rightarrow> nat option" where
  "command_device c = (case c of RunTask _ d _ _ _ _ _ _ \<Rightarrow> Some d | RunReshard d _ _ \<Rightarrow> Some d | _ \<Rightarrow> None)"

definition device_view :: "nat \<Rightarrow> pjrt_state \<Rightarrow> command list \<times> int" where
  "device_view d s = (filter (\<lambda>c. command_device c = Some d) (ps_commands s), ps_next_run_id s)"

definition device_command :: "pjrt_lib \<Rightarrow> run_stores \<Rightarrow> nat list \<Rightarrow> nat \<Rightarrow> command list \<times> int \<Rightarrow> mpmd_operation \<Rightarrow> (command list \<times> int) statusor" where
  "device_command L rs temps d r op =
     (let (cs, run_id) = r in
      case op of
        SpmdHloModuleTask task \<Rightarrow>
          bindR (get_store_handles rs d (tk_inputs task)) (\<lambda>inputs.
          bindR (get_store_handles rs d (tk_outputs task)) (\<lambda>outputs.
          bindR (subR temps d) (\<lambda>temp.
          Inr (cs @ [RunTask run_id d task inputs outputs temp (tk_loop task \<or> px_static_schedule_all_tasks L \<or> mx_concurrent (tk_compiler task))
                 (if tk_loop task then kLoopPriority else 0)], run_id + 1))))
      | Reshard input output \<Rightarrow>
          bindR (get_store_handle rs d input) (\<lambda>source.
          bindR (get_store_handle rs d output) (\<lambda>target.
          Inr (cs @ [RunReshard d source target], run_id + 1)))
      | _ \<Rightarrow> Inr (cs, run_id + 1))"

lemma run_operation_view:
  assumes "run_operation L rs op run_id s d = Inr s'"
  shows "ps_next_run_id s' = ps_next_run_id s \<and> ps_temp_allocations s' = ps_temp_allocations s \<and>
    (\<forall>d'. d' \<noteq> d \<longrightarrow> device_view d' s' = device_view d' s) \<and>
    device_command L rs (ps_temp_allocations s) d (fst (device_view d s), run_id) op = Inr (fst (device_view d s'), run_id + 1)"
  using assms by (auto simp: run_operation_def device_command_def device_view_def command_def command_device_def bindR_Inr_iff
      split: mpmd_operation.splits)

lemma run_devices_view:
  assumes "foldR (run_operation L rs op run_id) s ds = Inr s'" and "distinct ds"
  shows "ps_next_run_id s' = ps_next_run_id s \<and> ps_temp_allocations s' = ps_temp_allocations s \<and>
    (\<forall>d. d \<notin> set ds \<longrightarrow> device_view d s' = device_view d s) \<and>
    (\<forall>d \<in> set ds. device_command L rs (ps_temp_allocations s) d (fst (device_view d s), run_id) op = Inr (fst (device_view d s'), run_id + 1))"
  using assms
proof (induction ds arbitrary: s)
  case (Cons d ds)
  then obtain t where a: "run_operation L rs op run_id s d = Inr t" and b: "foldR (run_operation L rs op run_id) t ds = Inr s'"
    by (auto simp: bindR_Inr_iff)
  note A = run_operation_view[OF a] and B = Cons.IH[OF b]
  have d: "distinct ds" "d \<notin> set ds" using Cons.prems by auto
  show ?case using A B[OF d(1)] d(2) by (auto, metis)
qed simp

text \<open>
  C5. What a device is given is what running the schedule on this device alone would give it: its
  tasks and reshards in the order of the schedule, with the run ids every other device has
  for the same operations.
\<close>

theorem schedule_refines_device:
  assumes "run_schedule L rs n schedule s = Inr s'" and "d < n"
  shows "foldR (device_command L rs (ps_temp_allocations s) d) (device_view d s) schedule = Inr (device_view d s')"
proof -
  have "foldR (device_command L rs (ps_temp_allocations s) d) (device_view d s) ops = Inr (device_view d s')"
    if "foldR (run_on_devices L rs n) s ops = Inr s'" for ops s
    using that
  proof (induction ops arbitrary: s)
    case (Cons op ops)
    then obtain t where a: "run_on_devices L rs n s op = Inr t" and b: "foldR (run_on_devices L rs n) t ops = Inr s'"
      by (auto simp: bindR_Inr_iff)
    let ?s = "s\<lparr>ps_next_run_id := ps_next_run_id s + 1\<rparr>"
    have "foldR (run_operation L rs op (ps_next_run_id s)) ?s [0..<n] = Inr t" using a by (simp add: run_on_devices_def Let_def)
    from run_devices_view[OF this] assms(2)
    have t: "ps_next_run_id t = ps_next_run_id s + 1" "ps_temp_allocations t = ps_temp_allocations s"
      "device_command L rs (ps_temp_allocations s) d (fst (device_view d ?s), ps_next_run_id s) op = Inr (fst (device_view d t), ps_next_run_id s + 1)"
      by simp_all
    have "device_command L rs (ps_temp_allocations s) d (device_view d s) op = Inr (device_view d t)"
      using t by (simp add: device_view_def)
    then show ?case using Cons.IH[OF b] t(2) by simp
  qed simp
  then show ?thesis using assms(1) by (simp add: run_schedule_def)
qed

theorem schedule_refines_device_witness:
  "\<exists>s'. run_schedule sample_pjrt_lib sample_run_stores 2 (pe_schedule reshard_executable) sample_context = Inr s' \<and>
    foldR (device_command sample_pjrt_lib sample_run_stores [] 1) ([], 7) (pe_schedule reshard_executable) = Inr (device_view 1 s') \<and>
    device_view 1 s' = ([RunReshard 1 11 101], 8)"
proof -
  let ?s = "command (RunReshard 1 11 101) (command (RunReshard 0 10 100) (sample_context\<lparr>ps_next_run_id := 8\<rparr>))"
  have run: "run_schedule sample_pjrt_lib sample_run_stores 2 (pe_schedule reshard_executable) sample_context = Inr ?s"
    by (simp add: run_schedule_def run_on_devices_def run_operation_def reshard_executable_def get_store_handle_def sample_store_def
        sample_run_stores_def sample_context_def numeral_2_eq_2 Let_def)
  have "ps_temp_allocations sample_context = []" "device_view 1 sample_context = ([], 7)"
    by (simp_all add: sample_context_def device_view_def)
  moreover have "device_view 1 ?s = ([RunReshard 1 11 101], 8)" by (simp add: device_view_def command_def command_device_def sample_context_def)
  ultimately show ?thesis using run schedule_refines_device[OF run, of 1] by auto
qed

section \<open>The stores of the results\<close>
















end
