(* ===== verification/Spec2Isabelle.thy ===== *)
theory Spec2Isabelle
  imports Zero_Bubble Custom_Schedule Canonical_Sharding Sharding_Dims Property_Facts Utils_Facts
    Coloring_Choice Coloring_Roots Color_Dfs Critical_Path Iota_Sanitizer Uniquify_Colors
    Buffer_Safety Alias_Facts Axes_Facts Graph_Cleanup Propagation_Facts
    Color_Passes Caches Output_Passes Split_Facts Grouper_Facts Unroll_Equivalence Fusion_Facts Memory_Layout Pjrt_Facts Task_Facts
begin

text \<open>
  Verification development of the multimesh PJRT plugin.
\<close>

end
